(* ===== verification/Prelude.thy ===== *)
theory Prelude
  imports Main "HOL-Library.Word"
begin

text \<open>
  Shared vocabulary of the development: machine bytes and integers, Rust's
  \<^verbatim>\<open>Result\<close> as a sum type with its bind, checked \<^verbatim>\<open>usize\<close> arithmetic on a
  64-bit target, big-endian integer encodings, positional numbers over byte and symbol
  lists, and the ASCII predicates of the Rust standard library the sources call.
\<close>

unbundle bit_operations_syntax

named_theorems result_simps \<open>unfolding of result-valued pipelines\<close>
named_theorems be_simps \<open>big-endian encodings\<close>

type_synonym byte = "8 word"
type_synonym bytes = "8 word list"
type_synonym u8 = "8 word"
type_synonym u16 = "16 word"
type_synonym u32 = "32 word"
type_synonym u64 = "64 word"
type_synonym ('e, 'a) result = "'e + 'a"

abbreviation Ok :: "'a \<Rightarrow> ('e, 'a) result" where
  "Ok \<equiv> Inr"

abbreviation Err :: "'e \<Rightarrow> ('e, 'a) result" where
  "Err \<equiv> Inl"

section \<open>Results: the question-mark operator\<close>

definition bind_res :: "('e, 'a) result \<Rightarrow> ('a \<Rightarrow> ('e, 'b) result) \<Rightarrow> ('e, 'b) result" where
  "bind_res m f = (case m of Inl e \<Rightarrow> Inl e | Inr x \<Rightarrow> f x)"

definition ok_or :: "'e \<Rightarrow> 'a option \<Rightarrow> ('e, 'a) result" where
  "ok_or e m = (case m of None \<Rightarrow> Inl e | Some x \<Rightarrow> Inr x)"

definition map_err :: "('e \<Rightarrow> 'f) \<Rightarrow> ('e, 'a) result \<Rightarrow> ('f, 'a) result" where
  "map_err g m = (case m of Inl e \<Rightarrow> Inl (g e) | Inr x \<Rightarrow> Inr x)"

definition is_ok :: "('e, 'a) result \<Rightarrow> bool" where
  "is_ok m = (case m of Inl _ \<Rightarrow> False | Inr _ \<Rightarrow> True)"

lemma bind_res_simps [simp]:
  "bind_res (Inl e) f = Inl e"
  "bind_res (Inr x) f = f x"
  by (simp_all add: bind_res_def)

lemma ok_or_simps [simp]:
  "ok_or e None = Inl e"
  "ok_or e (Some x) = Inr x"
  by (simp_all add: ok_or_def)

lemma map_err_simps [simp]:
  "map_err g (Inl e) = Inl (g e)"
  "map_err g (Inr x) = Inr x"
  by (simp_all add: map_err_def)

lemma is_ok_simps [simp]:
  "is_ok (Inl e) = False"
  "is_ok (Inr x) = True"
  by (simp_all add: is_ok_def)

lemma bind_res_eq_Inr [result_simps]:
  "bind_res m f = Inr y \<longleftrightarrow> (\<exists>x. m = Inr x \<and> f x = Inr y)"
  by (cases m) auto

lemma bind_res_eq_Inl [result_simps]:
  "bind_res m f = Inl e \<longleftrightarrow> m = Inl e \<or> (\<exists>x. m = Inr x \<and> f x = Inl e)"
  by (cases m) auto

lemma ok_or_eq_Inr [result_simps]: "ok_or e m = Inr x \<longleftrightarrow> m = Some x"
  by (cases m) auto

lemma ok_or_eq_Inl [result_simps]: "ok_or e m = Inl e' \<longleftrightarrow> m = None \<and> e' = e"
  by (cases m) auto

lemma map_err_eq_Inr [result_simps]: "map_err g m = Inr x \<longleftrightarrow> m = Inr x"
  by (cases m) auto

lemma is_ok_iff: "is_ok m \<longleftrightarrow> (\<exists>x. m = Inr x)"
  by (cases m) auto

section \<open>usize on a 64-bit target\<close>

definition usize_max :: nat where
  "usize_max = 18446744073709551615"

definition checked_add_usize :: "nat \<Rightarrow> nat \<Rightarrow> nat option" where
  "checked_add_usize a b = (if a + b \<le> usize_max then Some (a + b) else None)"

definition saturating_add_usize :: "nat \<Rightarrow> nat \<Rightarrow> nat" where
  "saturating_add_usize a b = min (a + b) usize_max"

definition u32_try_from :: "nat \<Rightarrow> u32 option" where
  "u32_try_from n = (if n < 4294967296 then Some (of_nat n) else None)"

lemma u32_try_from_Some [result_simps]:
  "u32_try_from n = Some w \<longleftrightarrow> n < 4294967296 \<and> w = of_nat n"
  by (auto simp: u32_try_from_def)

lemma unat_u32_of_nat: "n < 4294967296 \<Longrightarrow> unat (of_nat n :: u32) = n"
  by (simp add: unat_of_nat)

section \<open>Big-endian integers\<close>

definition be16 :: "u16 \<Rightarrow> bytes" where
  "be16 w = [ucast (drop_bit 8 w), ucast w]"

definition be32 :: "u32 \<Rightarrow> bytes" where
  "be32 w = [ucast (drop_bit 24 w), ucast (drop_bit 16 w), ucast (drop_bit 8 w), ucast w]"

definition be64 :: "u64 \<Rightarrow> bytes" where
  "be64 w = [ucast (drop_bit 56 w), ucast (drop_bit 48 w), ucast (drop_bit 40 w),
     ucast (drop_bit 32 w), ucast (drop_bit 24 w), ucast (drop_bit 16 w),
     ucast (drop_bit 8 w), ucast w]"

text \<open>Positional value of a digit list, most significant digit first.\<close>

fun positional :: "nat \<Rightarrow> bytes \<Rightarrow> nat" where
  "positional b [] = 0"
| "positional b (x # xs) = unat x * b ^ length xs + positional b xs"

definition from_be32 :: "bytes \<Rightarrow> u32" where
  "from_be32 bs = of_nat (positional 256 bs)"

lemma length_be [simp]:
  "length (be16 w) = 2" "length (be32 v) = 4" "length (be64 u) = 8"
  by (simp_all add: be16_def be32_def be64_def)

lemma positional_append:
  "positional b (xs @ ys) = positional b xs * b ^ length ys + positional b ys"
  by (induction xs) (simp_all add: algebra_simps power_add)

lemma positional_snoc: "positional b (xs @ [x]) = positional b xs * b + unat x"
  by (simp add: positional_append)

lemma positional_bound:
  "\<forall>x \<in> set xs. unat x < b \<Longrightarrow> positional b xs < b ^ length xs"
proof (induction xs)
  case Nil
  then show ?case by simp
next
  case (Cons x xs)
  then have "positional b xs < b ^ length xs" and x: "Suc (unat x) \<le> b" by auto
  then have "unat x * b ^ length xs + positional b xs < Suc (unat x) * b ^ length xs" by simp
  also have "\<dots> \<le> b * b ^ length xs" using x by (rule mult_le_mono1)
  finally show ?case by simp
qed

text \<open>Digit lists of one length are determined by their value.\<close>

lemma positional_inj:
  assumes "length xs = length ys"
    and "\<forall>x \<in> set xs. unat x < b" and "\<forall>y \<in> set ys. unat y < b"
    and "positional b xs = positional b ys"
  shows "xs = ys"
  using assms
proof (induction xs ys rule: list_induct2)
  case Nil
  then show ?case by simp
next
  case (Cons x xs y ys)
  let ?p = "b ^ length xs"
  have bx: "positional b xs < ?p" and "positional b ys < b ^ length ys"
    using Cons.prems by (auto intro!: positional_bound)
  then have by': "positional b ys < ?p" using Cons.hyps by simp
  have eq: "unat x * ?p + positional b xs = unat y * ?p + positional b ys"
    using Cons.prems Cons.hyps by simp
  have "(unat x * ?p + positional b xs) mod ?p = (unat y * ?p + positional b ys) mod ?p"
    using eq by simp
  then have low: "positional b xs = positional b ys" using bx by' by simp
  have "?p > 0" using bx by (rule order.strict_trans1 [OF le0])
  with eq low have "x = y" by (auto simp: word_unat_eq_iff)
  then show ?case using Cons low by simp
qed

lemma byte_lt_256 [simp]: "unat (x :: byte) < 256"
  using unsigned_less [of x, where ?'a = nat] by simp

text \<open>The base-256 digits of a number, most significant first.\<close>

fun be_digits :: "nat \<Rightarrow> nat \<Rightarrow> bytes" where
  "be_digits 0 n = []"
| "be_digits (Suc k) n = be_digits k (n div 256) @ [of_nat n]"

lemma positional_be_digits: "positional 256 (be_digits k n) = n mod 256 ^ k"
proof (induction k arbitrary: n)
  case 0
  then show ?case by simp
next
  case (Suc k)
  then show ?case
    by (simp add: positional_snoc unat_of_nat mod_mult2_eq)
qed

lemma ucast_drop_bit_of_nat: "ucast (drop_bit k w) = (of_nat (unat w div 2 ^ k) :: byte)"
proof -
  have "ucast (drop_bit k w) = (of_nat (unat (drop_bit k w)) :: byte)" by simp
  also have "unat (drop_bit k w) = unat w div 2 ^ k"
    unfolding unat_drop_bit_eq by (rule drop_bit_eq_div)
  finally show ?thesis .
qed

lemma be_digits_numeral:
  "be_digits (numeral k) n = be_digits (pred_numeral k) (n div 256) @ [of_nat n]"
  by (subst numeral_eq_Suc) (rule be_digits.simps(2))

lemma be_digits_of_words:
  "be16 w = be_digits 2 (unat w)" "be32 v = be_digits 4 (unat v)" "be64 u = be_digits 8 (unat u)"
  using ucast_drop_bit_of_nat [of 0 w] ucast_drop_bit_of_nat [of 0 v]
    ucast_drop_bit_of_nat [of 0 u]
  by (simp_all add: be16_def be32_def be64_def ucast_drop_bit_of_nat be_digits_numeral
      div_mult2_eq [symmetric])

lemma positional_be16: "positional 256 (be16 w) = unat w"
  using unsigned_less [of w, where ?'a = nat]
  by (simp add: be_digits_of_words positional_be_digits)

lemma positional_be32: "positional 256 (be32 w) = unat w"
  using unsigned_less [of w, where ?'a = nat]
  by (simp add: be_digits_of_words positional_be_digits)

lemma positional_be64: "positional 256 (be64 w) = unat w"
  using unsigned_less [of w, where ?'a = nat]
  by (simp add: be_digits_of_words positional_be_digits)

lemma from_be32_be32 [simp]: "from_be32 (be32 w) = w"
  by (simp add: from_be32_def positional_be32)

lemma be_inj [simp]:
  "be16 a = be16 b \<longleftrightarrow> a = b" "be32 c = be32 d \<longleftrightarrow> c = d" "be64 e = be64 f \<longleftrightarrow> e = f"
  by (metis positional_be16 word_unat_eq_iff, metis positional_be32 word_unat_eq_iff,
      metis positional_be64 word_unat_eq_iff)

lemma unat_from_be32: "length bs = 4 \<Longrightarrow> unat (from_be32 bs) = positional 256 bs"
proof -
  assume "length bs = 4"
  then have "positional 256 bs < 4294967296" using positional_bound [of bs 256] by simp
  then show ?thesis by (simp add: from_be32_def unat_of_nat)
qed

lemma be32_from_be32: "length bs = 4 \<Longrightarrow> be32 (from_be32 bs) = bs"
  by (rule positional_inj [of _ _ 256]) (simp_all add: positional_be32 unat_from_be32)

lemma div_carry: "0 < m \<Longrightarrow> x div m + (x mod m + y) div m = (x + y) div (m :: nat)"
proof -
  assume "0 < m"
  then have "(x mod m + y + m * (x div m)) div m = x div m + (x mod m + y) div m"
    by (intro div_mult_self2) simp
  moreover have "x mod m + y + m * (x div m) = x + y"
    using div_mult_mod_eq [of x m] by (simp add: mult.commute)
  ultimately show ?thesis by simp
qed

lemma unat_less_take_bit:
  assumes "take_bit k x = x"
  shows "unat x < 2 ^ k"
proof -
  have "unat x = unat (take_bit k x)" by (simp only: assms)
  also have "\<dots> = take_bit k (unat x)" by (rule unsigned_take_bit_eq)
  also have "\<dots> < 2 ^ k" by (rule take_bit_nat_less_exp)
  finally show ?thesis .
qed

section \<open>ASCII\<close>

definition ascii :: "string \<Rightarrow> bytes" where
  "ascii s = map of_char s"

definition is_ascii :: "byte \<Rightarrow> bool" where
  "is_ascii b \<longleftrightarrow> b < 128"

definition to_ascii_uppercase :: "byte \<Rightarrow> byte" where
  "to_ascii_uppercase b = (if 97 \<le> b \<and> b \<le> 122 then b - 32 else b)"

definition is_ascii_graphic :: "byte \<Rightarrow> bool" where
  "is_ascii_graphic b \<longleftrightarrow> 33 \<le> b \<and> b \<le> 126"

end
