(* ===== verification/Share_Code.thy ===== *)
theory Share_Code
  imports Prelude
begin

text \<open>
  The capability code of \<^verbatim>\<open>crates/code\<close>: the Crockford Base32 primitives of
  \<^verbatim>\<open>alphabet.rs\<close>, the checksum of \<^verbatim>\<open>checksum.rs\<close>, and the printer and parser of
  \<^verbatim>\<open>lib.rs\<close>. SHA-256 is the parameter \<open>sha256\<close>: no property here needs a law
  about it. The accumulators are the 16-bit words of the source; the arithmetic view
  (\<open>positional\<close>) is only used in proofs.
\<close>

section \<open>Constants and errors\<close>

definition CODE_PREFIX :: bytes where
  "CODE_PREFIX = ascii ''esh1''"

definition SECRET_BYTES :: nat where
  "SECRET_BYTES = 20"

definition SECRET_SYMBOLS :: nat where
  "SECRET_SYMBOLS = 32"

definition CHECKSUM_SYMBOLS :: nat where
  "CHECKSUM_SYMBOLS = 2"

definition DATA_SYMBOLS :: nat where
  "DATA_SYMBOLS = SECRET_SYMBOLS + CHECKSUM_SYMBOLS"

definition NORMALIZED_SYMBOLS :: nat where
  "NORMALIZED_SYMBOLS = length CODE_PREFIX + DATA_SYMBOLS"

definition CHECKSUM_DOMAIN :: bytes where
  "CHECKSUM_DOMAIN = ascii ''envshare/code-checksum/v1''"

datatype generate_code_error = EntropyUnavailable

datatype parse_code_error = Invalid

lemmas code_consts = CODE_PREFIX_def SECRET_BYTES_def SECRET_SYMBOLS_def CHECKSUM_SYMBOLS_def
  DATA_SYMBOLS_def NORMALIZED_SYMBOLS_def ascii_def

lemma code_nums:
  "length CODE_PREFIX = 4" "SECRET_BYTES = 20" "SECRET_SYMBOLS = 32" "DATA_SYMBOLS = 34"
  "NORMALIZED_SYMBOLS = 38"
  by (simp_all add: code_consts)

section \<open>Alphabet\<close>

definition ALPHABET :: bytes where
  "ALPHABET = ascii ''0123456789ABCDEFGHJKMNPQRSTVWXYZ''"

definition encode_symbol :: "u8 \<Rightarrow> u8" where
  "encode_symbol value = ALPHABET ! unat value"

definition decode_symbol :: "u8 \<Rightarrow> u8 option" where
  "decode_symbol symbol =
     (let u = to_ascii_uppercase symbol in
      if u = 48 \<or> u = 79 then Some 0
      else if u = 49 \<or> u = 73 \<or> u = 76 then Some 1
      else if 50 \<le> u \<and> u \<le> 57 then Some (u - 48)
      else if 65 \<le> u \<and> u \<le> 72 then Some (u - 65 + 10)
      else if 74 \<le> u \<and> u \<le> 75 then Some (u - 74 + 18)
      else if 77 \<le> u \<and> u \<le> 78 then Some (u - 77 + 20)
      else if 80 \<le> u \<and> u \<le> 84 then Some (u - 80 + 22)
      else if 86 \<le> u \<and> u \<le> 90 then Some (u - 86 + 27)
      else None)"

definition low_byte :: "u16 \<Rightarrow> u8" where
  "low_byte value = be16 value ! 1"

text \<open>
  \<^verbatim>\<open>encode_secret\<close>: the inner \<^verbatim>\<open>while\<close> is \<open>encode_drain\<close>, the outer \<^verbatim>\<open>for\<close> is
  \<open>encode_loop\<close>. The fixed output array is the list of the symbols written so far; that
  exactly 32 (resp. 20) are written, so that no index is out of range, is proved below.
\<close>

function encode_drain :: "u16 \<Rightarrow> nat \<Rightarrow> bytes \<Rightarrow> nat \<times> bytes" where
  "encode_drain accumulator available_bits output =
     (if available_bits \<ge> 5
      then encode_drain accumulator (available_bits - 5)
             (output @ [low_byte (drop_bit (available_bits - 5) accumulator) AND 0x1f])
      else (available_bits, output))"
  by pat_completeness auto
termination
  by (relation "measure (\<lambda>(_, available_bits, _). available_bits)") auto

declare encode_drain.simps [simp del]

fun encode_loop :: "bytes \<Rightarrow> u16 \<Rightarrow> nat \<Rightarrow> bytes \<Rightarrow> nat \<times> bytes" where
  "encode_loop [] accumulator available_bits output = (available_bits, output)"
| "encode_loop (byte # rest) accumulator available_bits output =
     (let accumulator = push_bit 8 accumulator OR ucast byte;
          (available_bits, output) = encode_drain accumulator (available_bits + 8) output
      in encode_loop rest accumulator available_bits output)"

definition encode_secret :: "bytes \<Rightarrow> bytes" where
  "encode_secret secret = snd (encode_loop secret 0 0 [])"

fun decode_loop :: "bytes \<Rightarrow> u16 \<Rightarrow> nat \<Rightarrow> bytes \<Rightarrow> nat \<times> bytes" where
  "decode_loop [] accumulator available_bits output = (available_bits, output)"
| "decode_loop (symbol # rest) accumulator available_bits output =
     (let accumulator = push_bit 5 accumulator OR ucast symbol;
          available_bits = available_bits + 5
      in if available_bits \<ge> 8
         then decode_loop rest accumulator (available_bits - 8)
                (output @ [low_byte (drop_bit (available_bits - 8) accumulator)])
         else decode_loop rest accumulator available_bits output)"

definition decode_secret :: "bytes \<Rightarrow> bytes" where
  "decode_secret symbols = snd (decode_loop symbols 0 0 [])"

section \<open>Checksum\<close>

definition checksum_symbols :: "(bytes \<Rightarrow> bytes) \<Rightarrow> bytes \<Rightarrow> bytes" where
  "checksum_symbols sha256 secret =
     (let digest = sha256 (CHECKSUM_DOMAIN @ secret)
      in [drop_bit 3 (digest ! 0),
          push_bit 2 (digest ! 0 AND 0x07) OR drop_bit 6 (digest ! 1)])"

definition checksum_matches :: "(bytes \<Rightarrow> bytes) \<Rightarrow> bytes \<Rightarrow> bytes \<Rightarrow> bool" where
  "checksum_matches sha256 secret supplied \<longleftrightarrow> checksum_symbols sha256 secret = supplied"

section \<open>Share codes\<close>

text \<open>A share code owns its 20 secret bytes (\<^verbatim>\<open>ShareCodeSecret\<close>).\<close>

record share_code =
  secret :: bytes

definition wf_share_code :: "share_code \<Rightarrow> bool" where
  "wf_share_code c \<longleftrightarrow> length (secret c) = SECRET_BYTES"

text \<open>\<open>fill\<close> is the operating-system entropy source: \<open>None\<close> when it fails.\<close>

definition generate :: "(nat \<Rightarrow> bytes option) \<Rightarrow> (generate_code_error, share_code) result" where
  "generate fill =
     bind_res (ok_or EntropyUnavailable (fill SECRET_BYTES)) (\<lambda>bytes. Ok \<lparr>secret = bytes\<rparr>)"

definition symbols :: "(bytes \<Rightarrow> bytes) \<Rightarrow> share_code \<Rightarrow> bytes" where
  "symbols sha256 code =
     map encode_symbol (encode_secret (secret code)) @
     map encode_symbol (checksum_symbols sha256 (secret code))"

text \<open>\<^verbatim>\<open>Display\<close>: a dash before every fourth symbol.\<close>

fun write_symbols :: "nat \<Rightarrow> bytes \<Rightarrow> bytes" where
  "write_symbols index [] = []"
| "write_symbols index (symbol # rest) =
     (if index mod 4 = 0 then [45] else []) @ symbol # write_symbols (index + 1) rest"

definition display :: "(bytes \<Rightarrow> bytes) \<Rightarrow> share_code \<Rightarrow> bytes" where
  "display sha256 code = CODE_PREFIX @ write_symbols 0 (symbols sha256 code)"

text \<open>The normalisation loop of \<^verbatim>\<open>from_str\<close>; \<open>None\<close> is the early return.\<close>

fun normalize_loop :: "bytes \<Rightarrow> bytes \<Rightarrow> bytes option" where
  "normalize_loop [] normalized = Some normalized"
| "normalize_loop (byte # rest) normalized =
     (if byte = 45 then normalize_loop rest normalized
      else if \<not> is_ascii byte \<or> length normalized = NORMALIZED_SYMBOLS then None
      else normalize_loop rest (normalized @ [to_ascii_uppercase byte]))"

fun decode_symbols :: "bytes \<Rightarrow> bytes option" where
  "decode_symbols [] = Some []"
| "decode_symbols (symbol # rest) =
     (case decode_symbol symbol of
        None \<Rightarrow> None
      | Some value \<Rightarrow> map_option ((#) value) (decode_symbols rest))"

definition from_str :: "(bytes \<Rightarrow> bytes) \<Rightarrow> bytes \<Rightarrow> (parse_code_error, share_code) result" where
  "from_str sha256 input =
     bind_res (ok_or Invalid (normalize_loop input [])) (\<lambda>normalized.
     if length normalized \<noteq> NORMALIZED_SYMBOLS
        \<or> take (length CODE_PREFIX) normalized \<noteq> ascii ''ESH1'' then Err Invalid
     else
       let encoded = drop (length CODE_PREFIX) normalized in
       bind_res (ok_or Invalid (decode_symbols (take SECRET_SYMBOLS encoded))) (\<lambda>secret_symbols.
       let secret_bytes = decode_secret secret_symbols in
       bind_res (ok_or Invalid (decode_symbol (encoded ! SECRET_SYMBOLS))) (\<lambda>first_checksum.
       bind_res (ok_or Invalid (decode_symbol (encoded ! (SECRET_SYMBOLS + 1)))) (\<lambda>second_checksum.
       if \<not> checksum_matches sha256 secret_bytes [first_checksum, second_checksum] then Err Invalid
       else Ok \<lparr>secret = secret_bytes\<rparr>))))"

section \<open>The 16-bit accumulators as numbers\<close>

lemma unat_push:
  fixes acc :: u16 and b :: u8
  assumes "unat b < 2 ^ k" and "k \<le> 8"
  shows "unat (push_bit k acc OR ucast b) = (unat acc * 2 ^ k + unat b) mod 65536"
proof -
  have b: "take_bit k b = b"
    using assms(1) by (simp add: word_unat_eq_iff unsigned_take_bit_eq take_bit_nat_eq_self)
  have "push_bit k acc AND ucast b = 0"
  proof (rule bit_eqI)
    fix n
    show "bit (push_bit k acc AND ucast b) n \<longleftrightarrow> bit (0 :: u16) n"
      using arg_cong [OF b, of "\<lambda>x. bit x n"] by (auto simp: bit_simps)
  qed
  then have "push_bit k acc OR ucast b = push_bit k acc + ucast b"
    by (simp add: disjunctive_add_eq_or)
  moreover have "unat (ucast b :: u16) = unat b"
  proof -
    have "unat b < 65536" using byte_lt_256 [of b] by (rule order.strict_trans) simp
    then have "unat b mod 65536 = unat b" by (rule mod_less)
    then show ?thesis by (simp add: unsigned_ucast_eq take_bit_eq_mod)
  qed
  moreover have "unat (push_bit k acc) = unat acc * 2 ^ k mod 65536"
    unfolding unsigned_push_bit_eq by (simp add: take_bit_eq_mod push_bit_eq_mult)
  ultimately show ?thesis
    by (simp only: unat_word_ariths) (simp add: mod_simps)
qed

lemma unat_low_byte: "unat (low_byte w) = unat w mod 256"
  by (simp add: low_byte_def be16_def unsigned_ucast_eq take_bit_eq_mod)

lemma unat_low_byte_drop: "unat (low_byte (drop_bit j w)) = unat w div 2 ^ j mod 256"
  unfolding unat_low_byte unat_drop_bit_eq by (simp add: drop_bit_eq_div)

lemma unat_symbol: "unat (low_byte (drop_bit j w) AND 0x1f) = unat w div 2 ^ j mod 32"
proof -
  have "low_byte (drop_bit j w) AND 0x1f = take_bit 5 (low_byte (drop_bit j w))"
    by (simp add: take_bit_eq_mask mask_eq_exp_minus_1)
  then have "unat (low_byte (drop_bit j w) AND 0x1f) = unat w div 2 ^ j mod 256 mod 32"
    by (simp add: take_bit_eq_mod unat_mod unat_low_byte_drop)
  then show ?thesis by (simp add: mod_mod_cancel)
qed

lemma split_pending:
  "(a div 2 ^ j mod 2 ^ k) * 2 ^ j + a mod 2 ^ j = (a :: nat) mod 2 ^ (k + j)"
  by (simp add: power_add mult.commute [of "2 ^ k"] mod_mult2_eq)

lemma pending_push:
  assumes "unat b < 2 ^ k" and "k \<le> 8" and "n + k \<le> 16"
  shows "unat (push_bit k (acc :: u16) OR ucast b) mod 2 ^ (n + k)
    = (unat acc mod 2 ^ n) * 2 ^ k + unat (b :: u8)"
proof -
  have "(65536 :: nat) = 2 ^ (n + k) * 2 ^ (16 - (n + k))"
    using assms(3) by (simp flip: power_add)
  then have d: "2 ^ (n + k) dvd (65536 :: nat)" by (metis dvd_triv_left)
  have "(unat acc * 2 ^ k + unat b) mod 2 ^ (n + k) = (unat acc mod 2 ^ n) * 2 ^ k + unat b"
    using assms(1) by (simp add: power_add mult.commute [of "2 ^ n"] mod_mult2_eq)
  then show ?thesis
    using d assms by (simp add: unat_push mod_mod_cancel)
qed

lemma encode_drain_spec:
  "encode_drain acc bits out = (bits', out') \<Longrightarrow> \<forall>x \<in> set out. unat x < 32 \<Longrightarrow>
     bits' = bits mod 5 \<and> length out' = length out + bits div 5 \<and>
     (\<forall>x \<in> set out'. unat x < 32) \<and>
     positional 32 out' * 2 ^ bits' + unat acc mod 2 ^ bits'
       = positional 32 out * 2 ^ bits + unat acc mod 2 ^ bits"
proof (induction acc bits out rule: encode_drain.induct)
  case (1 acc bits out)
  show ?case
  proof (cases "bits \<ge> 5")
    case True
    define j where "j = bits - 5"
    have bits: "bits = 5 + j" using True by (simp add: j_def)
    let ?d = "low_byte (drop_bit j acc) AND 0x1f"
    have eq: "encode_drain acc j (out @ [?d]) = (bits', out')"
      using "1.prems"(1) True by (subst (asm) encode_drain.simps) (simp add: j_def)
    have small: "\<forall>x \<in> set (out @ [?d]). unat x < 32"
      using "1.prems"(2) by (simp add: unat_symbol)
    have IH: "bits' = j mod 5 \<and> length out' = length (out @ [?d]) + j div 5 \<and>
       (\<forall>x \<in> set out'. unat x < 32) \<and>
       positional 32 out' * 2 ^ bits' + unat acc mod 2 ^ bits'
         = positional 32 (out @ [?d]) * 2 ^ j + unat acc mod 2 ^ j"
      using "1.IH" [OF True, folded j_def, OF eq small] .
    have "positional 32 (out @ [?d]) * 2 ^ j + unat acc mod 2 ^ j
        = positional 32 out * 2 ^ bits + unat acc mod 2 ^ bits"
      using split_pending [of "unat acc" j 5]
      by (simp add: positional_snoc unat_symbol bits power_add algebra_simps)
    moreover have "bits mod 5 = j mod 5" and "bits div 5 = Suc (j div 5)"
      by (simp_all add: bits)
    ultimately show ?thesis using IH by auto
  next
    case False
    then show ?thesis using "1.prems" by (subst (asm) encode_drain.simps) auto
  qed
qed

lemma encode_loop_spec:
  "encode_loop bs acc bits out = (bits', out') \<Longrightarrow> bits < 5 \<Longrightarrow> \<forall>x \<in> set out. unat x < 32 \<Longrightarrow>
     bits' = (bits + 8 * length bs) mod 5 \<and>
     length out' = length out + (bits + 8 * length bs) div 5 \<and>
     (\<forall>x \<in> set out'. unat x < 32) \<and>
     (bits' = 0 \<longrightarrow> positional 32 out'
       = (positional 32 out * 2 ^ bits + unat acc mod 2 ^ bits) * 256 ^ length bs
         + positional 256 bs)"
proof (induction bs acc bits out rule: encode_loop.induct)
  case (1 acc bits out)
  then show ?case by auto
next
  case (2 b bs acc bits out)
  define acc' where "acc' = push_bit 8 acc OR ucast b"
  obtain bits1 out1 where drain: "encode_drain acc' (bits + 8) out = (bits1, out1)"
    by (cases "encode_drain acc' (bits + 8) out")
  note d = encode_drain_spec [OF drain "2.prems"(3)]
  have eq: "encode_loop bs acc' bits1 out1 = (bits', out')"
    using "2.prems"(1) drain by (simp add: acc'_def)
  have IH: "bits' = (bits1 + 8 * length bs) mod 5 \<and>
     length out' = length out1 + (bits1 + 8 * length bs) div 5 \<and>
     (\<forall>x \<in> set out'. unat x < 32) \<and>
     (bits' = 0 \<longrightarrow> positional 32 out'
       = (positional 32 out1 * 2 ^ bits1 + unat acc' mod 2 ^ bits1) * 256 ^ length bs
         + positional 256 bs)"
    using "2.IH" [OF acc'_def drain [symmetric] refl eq] d by simp
  have "unat acc' mod 2 ^ (bits + 8) = (unat acc mod 2 ^ bits) * 256 + unat b"
    using pending_push [of b 8 bits acc] "2.prems"(2) by (simp add: acc'_def)
  then have "positional 32 out1 * 2 ^ bits1 + unat acc' mod 2 ^ bits1
      = (positional 32 out * 2 ^ bits + unat acc mod 2 ^ bits) * 256 + unat b"
    using conjunct2 [OF conjunct2 [OF conjunct2 [OF d]]] by (simp add: power_add algebra_simps)
  moreover have "(bits1 + 8 * length bs) mod 5 = (bits + 8 * length (b # bs)) mod 5"
    and "length out1 + (bits1 + 8 * length bs) div 5
      = length out + (bits + 8 * length (b # bs)) div 5"
    using d div_carry [of 5 "bits + 8" "8 * length bs"] by (simp_all add: mod_simps add.assoc)
  ultimately show ?case using IH by (simp add: algebra_simps)
qed

lemma decode_loop_spec:
  "decode_loop ys acc bits out = (bits', out') \<Longrightarrow> bits < 8 \<Longrightarrow> \<forall>y \<in> set ys. unat y < 32 \<Longrightarrow>
     bits' = (bits + 5 * length ys) mod 8 \<and>
     length out' = length out + (bits + 5 * length ys) div 8 \<and>
     (bits' = 0 \<longrightarrow> positional 256 out'
       = (positional 256 out * 2 ^ bits + unat acc mod 2 ^ bits) * 32 ^ length ys
         + positional 32 ys)"
proof (induction ys acc bits out rule: decode_loop.induct)
  case (1 acc bits out)
  then show ?case by auto
next
  case (2 y ys acc bits out)
  define acc' where "acc' = push_bit 5 acc OR ucast y"
  have y: "unat y < 32" using "2.prems"(3) by simp
  have pend: "unat acc' mod 2 ^ (bits + 5) = (unat acc mod 2 ^ bits) * 32 + unat y"
    using pending_push [of y 5 bits acc] "2.prems"(2) y by (simp add: acc'_def)
  show ?case
  proof (cases "bits + 5 \<ge> 8")
    case True
    define j where "j = bits + 5 - 8"
    let ?d = "low_byte (drop_bit j acc')"
    have bits: "bits + 5 = 8 + j" using True by (simp add: j_def)
    have eq: "decode_loop ys acc' j (out @ [?d]) = (bits', out')"
      using "2.prems"(1) True by (simp add: acc'_def j_def Let_def)
    have IH: "bits' = (j + 5 * length ys) mod 8 \<and>
       length out' = length (out @ [?d]) + (j + 5 * length ys) div 8 \<and>
       (bits' = 0 \<longrightarrow> positional 256 out'
         = (positional 256 (out @ [?d]) * 2 ^ j + unat acc' mod 2 ^ j) * 32 ^ length ys
           + positional 32 ys)"
      using "2.IH"(1) [OF acc'_def refl True, folded j_def, OF eq] "2.prems"(2,3) bits by simp
    have "positional 256 (out @ [?d]) * 2 ^ j + unat acc' mod 2 ^ j
        = positional 256 out * 2 ^ (bits + 5) + unat acc' mod 2 ^ (bits + 5)"
      using split_pending [of "unat acc'" j 8]
      by (simp add: positional_snoc unat_low_byte_drop bits power_add algebra_simps)
    also have "\<dots> = (positional 256 out * 2 ^ bits + unat acc mod 2 ^ bits) * 32 + unat y"
      using pend by (simp add: power_add algebra_simps)
    finally have "positional 256 (out @ [?d]) * 2 ^ j + unat acc' mod 2 ^ j
        = (positional 256 out * 2 ^ bits + unat acc mod 2 ^ bits) * 32 + unat y" .
    moreover have "bits + 5 * length (y # ys) = 8 + (j + 5 * length ys)" using bits by simp
    then have "(bits + 5 * length (y # ys)) mod 8 = (j + 5 * length ys) mod 8"
      and "(bits + 5 * length (y # ys)) div 8 = Suc ((j + 5 * length ys) div 8)"
      by (simp_all only: mod_add_self1 div_add_self1 zero_neq_numeral not_False_eq_True
          plus_1_eq_Suc)
    ultimately show ?thesis using IH by (simp add: algebra_simps)
  next
    case False
    have eq: "decode_loop ys acc' (bits + 5) out = (bits', out')"
      using "2.prems"(1) False by (simp add: acc'_def Let_def)
    have IH: "bits' = (bits + 5 + 5 * length ys) mod 8 \<and>
       length out' = length out + (bits + 5 + 5 * length ys) div 8 \<and>
       (bits' = 0 \<longrightarrow> positional 256 out'
         = (positional 256 out * 2 ^ (bits + 5) + unat acc' mod 2 ^ (bits + 5)) * 32 ^ length ys
           + positional 32 ys)"
      using "2.IH"(2) [OF acc'_def refl False eq] "2.prems"(2,3) False by simp
    have "positional 256 out * 2 ^ (bits + 5) + unat acc' mod 2 ^ (bits + 5)
        = (positional 256 out * 2 ^ bits + unat acc mod 2 ^ bits) * 32 + unat y"
      using pend by (simp add: power_add algebra_simps)
    then show ?thesis using IH by (simp add: algebra_simps)
  qed
qed

section \<open>Base32 of the 20 secret bytes is a bijection with 32 symbols\<close>

lemma encode_secret_props:
  assumes "length bs = 20"
  shows "length (encode_secret bs) = 32" and "\<forall>x \<in> set (encode_secret bs). unat x < 32"
    and "positional 32 (encode_secret bs) = positional 256 bs"
proof -
  obtain bits out where r: "encode_loop bs 0 0 [] = (bits, out)" by fastforce
  show "length (encode_secret bs) = 32" and "\<forall>x \<in> set (encode_secret bs). unat x < 32"
    and "positional 32 (encode_secret bs) = positional 256 bs"
    using encode_loop_spec [OF r] assms by (simp_all add: encode_secret_def r)
qed

lemma decode_secret_props:
  assumes "length ys = 32" and "\<forall>y \<in> set ys. unat y < 32"
  shows "length (decode_secret ys) = 20"
    and "positional 256 (decode_secret ys) = positional 32 ys"
proof -
  obtain bits out where r: "decode_loop ys 0 0 [] = (bits, out)" by fastforce
  show "length (decode_secret ys) = 20"
    and "positional 256 (decode_secret ys) = positional 32 ys"
    using decode_loop_spec [OF r] assms by (simp_all add: decode_secret_def r)
qed

lemma decode_encode_secret:
  assumes "length bs = 20"
  shows "decode_secret (encode_secret bs) = bs"
  using encode_secret_props [OF assms] assms
  by (intro positional_inj [of _ _ 256]) (simp_all add: decode_secret_props)

lemma encode_decode_secret:
  assumes "length ys = 32" and "\<forall>y \<in> set ys. unat y < 32"
  shows "encode_secret (decode_secret ys) = ys"
proof -
  note d = decode_secret_props [OF assms]
  show ?thesis using encode_secret_props [OF d(1)] d assms
    by (intro positional_inj [of _ _ 32]) simp_all
qed

section \<open>Symbols\<close>

definition canonical_symbol :: "nat \<Rightarrow> u8 \<Rightarrow> bool" where
  "canonical_symbol n b \<longleftrightarrow> decode_symbol b = Some (of_nat n) \<and> to_ascii_uppercase b = b
     \<and> b \<noteq> 45 \<and> is_ascii b"

lemma alphabet_canonical:
  "list_all2 canonical_symbol [0, 1, 2, 3, 4, 5, 6, 7, 8, 9, 10, 11, 12, 13, 14, 15, 16, 17, 18,
     19, 20, 21, 22, 23, 24, 25, 26, 27, 28, 29, 30, 31] ALPHABET"
  by (simp add: ALPHABET_def ascii_def canonical_symbol_def decode_symbol_def
      to_ascii_uppercase_def is_ascii_def)

lemma encode_symbol_canonical:
  assumes "unat v < 32"
  shows "canonical_symbol (unat v) (encode_symbol v)"
proof -
  have "[0, 1, 2, 3, 4, 5, 6, 7, 8, 9, 10, 11, 12, 13, 14, 15, 16, 17, 18,
     19, 20, 21, 22, 23, 24, 25, 26, 27, 28, 29, 30, 31] = [0..<32]"
    by code_simp
  then show ?thesis
    using alphabet_canonical assms by (simp add: list_all2_conv_all_nth encode_symbol_def)
qed

lemma encode_symbol_facts:
  assumes "unat v < 32"
  shows "decode_symbol (encode_symbol v) = Some v"
    and "to_ascii_uppercase (encode_symbol v) = encode_symbol v"
    and "encode_symbol v \<noteq> 45" and "is_ascii (encode_symbol v)"
  using encode_symbol_canonical [OF assms] by (simp_all add: canonical_symbol_def)

lemma to_ascii_uppercase_idem [simp]:
  "to_ascii_uppercase (to_ascii_uppercase b) = to_ascii_uppercase b"
proof (cases "97 \<le> b \<and> b \<le> 122")
  case True
  then have "\<not> 97 \<le> b - 32" by unat_arith
  then show ?thesis by (simp add: to_ascii_uppercase_def)
qed (auto simp: to_ascii_uppercase_def)

lemma to_ascii_uppercase_ascii: "to_ascii_uppercase b < 128 \<Longrightarrow> is_ascii b"
  by (auto simp: to_ascii_uppercase_def is_ascii_def intro: order.strict_trans1 split: if_splits)

lemma decode_symbol_uppercase [simp]: "decode_symbol (to_ascii_uppercase b) = decode_symbol b"
  by (simp add: decode_symbol_def)

lemma symbol_ranges:
  fixes u :: u8
  shows "50 \<le> u \<Longrightarrow> u \<le> 57 \<Longrightarrow> u - 48 < 32 \<and> u < 128"
    and "65 \<le> u \<Longrightarrow> u \<le> 72 \<Longrightarrow> u - 65 + 10 < 32 \<and> u < 128"
    and "74 \<le> u \<Longrightarrow> u \<le> 75 \<Longrightarrow> u - 74 + 18 < 32 \<and> u < 128"
    and "77 \<le> u \<Longrightarrow> u \<le> 78 \<Longrightarrow> u - 77 + 20 < 32 \<and> u < 128"
    and "80 \<le> u \<Longrightarrow> u \<le> 84 \<Longrightarrow> u - 80 + 22 < 32 \<and> u < 128"
    and "86 \<le> u \<Longrightarrow> u \<le> 90 \<Longrightarrow> u - 86 + 27 < 32 \<and> u < 128"
  by unat_arith+

lemma decode_symbol_facts:
  assumes "decode_symbol b = Some v"
  shows "unat v < 32" and "is_ascii b"
proof -
  define u where "u = to_ascii_uppercase b"
  consider "u = 48 \<or> u = 79" "v = 0" | "u = 49 \<or> u = 73 \<or> u = 76" "v = 1"
    | "50 \<le> u" "u \<le> 57" "v = u - 48" | "65 \<le> u" "u \<le> 72" "v = u - 65 + 10"
    | "74 \<le> u" "u \<le> 75" "v = u - 74 + 18" | "77 \<le> u" "u \<le> 78" "v = u - 77 + 20"
    | "80 \<le> u" "u \<le> 84" "v = u - 80 + 22" | "86 \<le> u" "u \<le> 90" "v = u - 86 + 27"
    using assms unfolding decode_symbol_def u_def [symmetric] Let_def
    by (simp only: option.inject option.distinct split: if_split_asm)
  then have "v < 32 \<and> u < 128"
    by cases (auto simp only: symbol_ranges, simp_all)
  then show "unat v < 32" and "is_ascii b"
    by (simp_all add: word_less_nat_alt u_def to_ascii_uppercase_ascii)
qed

section \<open>Printing and parsing\<close>

lemma normalize_loop_eq:
  "length acc \<le> NORMALIZED_SYMBOLS \<Longrightarrow>
   normalize_loop input acc =
     (let kept = filter (\<lambda>b. b \<noteq> 45) input
      in if list_all is_ascii kept \<and> length acc + length kept \<le> NORMALIZED_SYMBOLS
         then Some (acc @ map to_ascii_uppercase kept) else None)"
  by (induction input acc rule: normalize_loop.induct) (auto simp: Let_def)

lemma decode_symbols_eq_Some:
  "decode_symbols ss = Some vs \<longleftrightarrow> map decode_symbol ss = map Some vs"
  by (induction ss arbitrary: vs) (auto split: option.splits simp: Cons_eq_map_conv)

lemma decode_symbols_range:
  assumes "map decode_symbol ss = map Some vs"
  shows "\<forall>v \<in> set vs. unat v < 32"
proof
  fix v assume "v \<in> set vs"
  then have "Some v \<in> set (map Some vs)" by simp
  then have "Some v \<in> set (map decode_symbol ss)" by (simp only: assms)
  then obtain b where "decode_symbol b = Some v" by auto
  then show "unat v < 32" by (rule decode_symbol_facts)
qed

lemma filter_write_symbols:
  "45 \<notin> set ss \<Longrightarrow> filter (\<lambda>b. b \<noteq> 45) (write_symbols i ss) = ss"
  by (induction ss arbitrary: i) auto

lemma checksum_symbols_range: "\<forall>v \<in> set (checksum_symbols sha256 bs). unat v < 32"
proof -
  have shift: "unat (drop_bit 3 d) < 32" for d :: u8
    using byte_lt_256 [of d] unfolding unat_drop_bit_eq
    by (simp add: drop_bit_eq_div less_mult_imp_div_less)
  have "push_bit 2 (d AND 7) OR drop_bit 6 e = take_bit 5 (push_bit 2 (d AND 7) OR drop_bit 6 e)"
    for d e :: u8
  proof (rule bit_eqI)
    fix n
    have m: "(7 :: u8) = mask 3" by (simp add: mask_eq_exp_minus_1)
    show "bit (push_bit 2 (d AND 7) OR drop_bit 6 e) n
        \<longleftrightarrow> bit (take_bit 5 (push_bit 2 (d AND 7) OR drop_bit 6 e)) n"
      by (auto simp: m bit_simps dest: bit_imp_le_length)
  qed
  then have "unat (push_bit 2 (d AND 7) OR drop_bit 6 e) < 2 ^ 5" for d e :: u8
    by (intro unat_less_take_bit) metis
  then show ?thesis using shift by (simp add: checksum_symbols_def Let_def)
qed

text \<open>What the parser keeps of its input: everything but the separators.\<close>

definition strip_dashes :: "bytes \<Rightarrow> bytes" where
  "strip_dashes input = filter (\<lambda>b. b \<noteq> 45) input"

lemma prefix_ascii:
  assumes "map to_ascii_uppercase ps = ascii ''ESH1''"
  shows "list_all is_ascii ps"
proof -
  have "to_ascii_uppercase b < 128" if "b \<in> set ps" for b
  proof -
    have "to_ascii_uppercase b \<in> set (ascii ''ESH1'')" using that assms by (metis imageI list.set_map)
    then show ?thesis by (auto simp: ascii_def)
  qed
  then show ?thesis by (auto simp: list_all_iff intro: to_ascii_uppercase_ascii)
qed

lemma symbols_ascii:
  assumes "map decode_symbol ss = map Some vs"
  shows "list_all is_ascii ss"
proof -
  have "decode_symbol b \<noteq> None" if "b \<in> set ss" for b
  proof -
    have "decode_symbol b \<in> set (map Some vs)" using that assms by (metis imageI list.set_map)
    then show ?thesis by auto
  qed
  then show ?thesis by (auto simp: list_all_iff dest: decode_symbol_facts)
qed

lemma decoded_data_split:
  assumes "length vs = 32" and "length cs = 2"
  shows "map decode_symbol ds = map Some (vs @ cs) \<longleftrightarrow>
    length ds = 34 \<and> map decode_symbol (take 32 ds) = map Some vs \<and>
    decode_symbol (ds ! 32) = Some (cs ! 0) \<and> decode_symbol (ds ! 33) = Some (cs ! 1)"
proof -
  obtain c0 c1 where cs: "cs = [c0, c1]"
    using assms(2) by (auto simp: numeral_2_eq_2 length_Suc_conv)
  show ?thesis
  proof (cases "length ds = 34")
    case True
    then have "drop 32 ds = [ds ! 32, ds ! 33]"
      by (simp add: list_eq_iff_nth_eq nth_Cons numeral_eq_Suc split: nat.splits)
    then have "ds = take 32 ds @ [ds ! 32, ds ! 33]" by (metis append_take_drop_id)
    then have "map decode_symbol ds
        = map decode_symbol (take 32 ds) @ [decode_symbol (ds ! 32), decode_symbol (ds ! 33)]"
      by (metis list.simps(8,9) map_append)
    then show ?thesis using True assms by (simp add: cs)
  next
    case False
    then have "map decode_symbol ds \<noteq> map Some (vs @ cs)"
      using assms by (metis length_append length_map numeral_plus_numeral add_One semiring_norm(2,4,5,6))
    then show ?thesis using False by simp
  qed
qed

lemma from_str_eq_Ok:
  "from_str sha256 input = Ok c \<longleftrightarrow> wf_share_code c \<and>
     map to_ascii_uppercase (take 4 (strip_dashes input)) = ascii ''ESH1'' \<and>
     map decode_symbol (drop 4 (strip_dashes input))
       = map Some (encode_secret (secret c) @ checksum_symbols sha256 (secret c))"
  (is "?parse \<longleftrightarrow> ?wf \<and> ?pre \<and> ?data")
proof
  assume ?parse
  define kept where "kept = strip_dashes input"
  define ds where "ds = drop 4 (map to_ascii_uppercase kept)"
  obtain vs f1 f2 where len: "length kept = 38"
    and pre: "map to_ascii_uppercase (take 4 kept) = ascii ''ESH1''"
    and vs: "map decode_symbol (take 32 ds) = map Some vs"
    and f: "decode_symbol (ds ! 32) = Some f1" "decode_symbol (ds ! 33) = Some f2"
    and cs: "checksum_symbols sha256 (decode_secret vs) = [f1, f2]"
    and c: "c = \<lparr>secret = decode_secret vs\<rparr>"
    using \<open>?parse\<close> unfolding from_str_def kept_def ds_def strip_dashes_def
    by (auto simp: result_simps normalize_loop_eq Let_def code_nums decode_symbols_eq_Some
        checksum_matches_def take_map split: if_splits)
  have "length vs = 32" using arg_cong [OF vs, of length] len by (simp add: ds_def)
  moreover have "map decode_symbol (drop 4 kept) = map decode_symbol ds"
    by (simp add: ds_def drop_map)
  moreover have "length ds = 34" using len by (simp add: ds_def)
  ultimately show "?wf \<and> ?pre \<and> ?data"
    using pre vs f cs decode_symbols_range [OF vs] decoded_data_split [of vs "[f1, f2]" ds]
    by (simp add: c wf_share_code_def code_nums kept_def [symmetric] decode_secret_props
        encode_decode_secret)
next
  assume r: "?wf \<and> ?pre \<and> ?data"
  define kept where "kept = strip_dashes input"
  have kept: "filter (\<lambda>b. b \<noteq> 45) input = kept" by (simp add: kept_def strip_dashes_def)
  let ?vs = "encode_secret (secret c)" and ?cs = "checksum_symbols sha256 (secret c)"
  have sec: "length (secret c) = 20" using r by (simp add: wf_share_code_def SECRET_BYTES_def)
  have cs: "length ?cs = 2" by (simp add: checksum_symbols_def Let_def)
  have pre: "map to_ascii_uppercase (take 4 kept) = ascii ''ESH1''"
    and data: "map decode_symbol (drop 4 kept) = map Some (?vs @ ?cs)"
    using r by (simp_all add: kept_def)
  have split: "length (drop 4 kept) = 34" "map decode_symbol (take 32 (drop 4 kept)) = map Some ?vs"
    "decode_symbol (drop 4 kept ! 32) = Some (?cs ! 0)" "decode_symbol (drop 4 kept ! 33) = Some (?cs ! 1)"
    using data decoded_data_split [OF encode_secret_props(1) [OF sec] cs] by blast+
  then have len: "length kept = 38" by simp
  have "list_all is_ascii (take 4 kept @ drop 4 kept)"
    using prefix_ascii [OF pre] symbols_ascii [OF data] by (simp only: list_all_append)
  then have asc: "list_all is_ascii kept" by simp
  have two: "?cs = [?cs ! 0, ?cs ! 1]" by (simp add: checksum_symbols_def Let_def)
  have "decode_symbols (take 32 (drop 4 (map to_ascii_uppercase kept))) = Some ?vs"
    using split(2) by (simp add: decode_symbols_eq_Some drop_map take_map comp_def)
  moreover have "decode_symbol (drop 4 (map to_ascii_uppercase kept) ! 32) = Some (?cs ! 0)"
    and "decode_symbol (drop 4 (map to_ascii_uppercase kept) ! 33) = Some (?cs ! 1)"
    using split(3,4) len by (simp_all add: drop_map)
  ultimately show ?parse
    using len asc pre two sec unfolding from_str_def
    by (simp add: normalize_loop_eq kept Let_def code_nums take_map
        decode_encode_secret checksum_matches_def)
qed

section \<open>Properties\<close>

lemma decode_map_encode_symbol:
  "\<forall>v \<in> set vs. unat v < 32 \<Longrightarrow> map decode_symbol (map encode_symbol vs) = map Some vs"
  by (induction vs) (simp_all add: encode_symbol_facts)

lemma decode_symbols_of_code:
  assumes "wf_share_code c"
  shows "map decode_symbol (symbols sha256 c)
    = map Some (encode_secret (secret c) @ checksum_symbols sha256 (secret c))"
proof -
  have "length (secret c) = 20" using assms by (simp add: wf_share_code_def SECRET_BYTES_def)
  then show ?thesis
    unfolding symbols_def map_append
    using decode_map_encode_symbol [OF encode_secret_props(2)]
      decode_map_encode_symbol [OF checksum_symbols_range] by metis
qed

lemma strip_dashes_display:
  assumes "wf_share_code c"
  shows "strip_dashes (display sha256 c) = CODE_PREFIX @ symbols sha256 c"
proof -
  have "\<forall>v \<in> set (encode_secret (secret c) @ checksum_symbols sha256 (secret c)). unat v < 32"
    using encode_secret_props(2) [of "secret c"] checksum_symbols_range [of sha256 "secret c"] assms
    by (auto simp: wf_share_code_def SECRET_BYTES_def)
  then have "45 \<notin> set (symbols sha256 c)"
    using encode_symbol_facts(3) by (fastforce simp: symbols_def)
  then show ?thesis
    by (simp add: strip_dashes_def display_def filter_write_symbols CODE_PREFIX_def ascii_def)
qed

lemma from_str_display:
  assumes "wf_share_code c"
  shows "from_str sha256 (display sha256 c) = Ok c"
  unfolding from_str_eq_Ok strip_dashes_display [OF assms]
  using assms decode_symbols_of_code [OF assms]
  by (simp add: CODE_PREFIX_def ascii_def to_ascii_uppercase_def)

text \<open>A printed code is made of upper-case letters, digits and dashes.\<close>

lemma display_graphic:
  assumes "wf_share_code c" and "b \<in> set (display sha256 c)"
  shows "is_ascii_graphic b"
proof -
  have "\<forall>v \<in> set (encode_secret (secret c) @ checksum_symbols sha256 (secret c)). unat v < 32"
    using encode_secret_props(2) [of "secret c"] checksum_symbols_range [of sha256 "secret c"] assms(1)
    by (auto simp: wf_share_code_def SECRET_BYTES_def)
  moreover have "length ALPHABET = 32" by (simp add: ALPHABET_def ascii_def)
  ultimately have symbols: "set (symbols sha256 c) \<subseteq> set ALPHABET"
    by (auto simp: symbols_def encode_symbol_def)
  have alphabet: "\<forall>b \<in> set (45 # CODE_PREFIX @ ALPHABET). is_ascii_graphic b"
    by (simp add: CODE_PREFIX_def ALPHABET_def ascii_def is_ascii_graphic_def)
  have "set (write_symbols i ss) \<subseteq> {45} \<union> set ss" for i ss
    by (induction ss arbitrary: i) auto
  then show ?thesis using assms(2) symbols alphabet by (fastforce simp: display_def)
qed

text \<open>C25: Printing a share code and parsing the text gives the same capability back,
  whatever the hash function behind the checksum.\<close>

theorem share_code_roundtrip:
  assumes "wf_share_code c"
  shows "from_str sha256 (display sha256 c) = Ok c"
  using assms by (rule from_str_display)

theorem share_code_roundtrip_witness:
  "wf_share_code \<lparr>secret = replicate 20 171\<rparr> \<and>
   from_str (\<lambda>_. replicate 32 9) (display (\<lambda>_. replicate 32 9) \<lparr>secret = replicate 20 171\<rparr>)
     = Ok \<lparr>secret = replicate 20 171\<rparr>"
proof -
  have "wf_share_code \<lparr>secret = replicate 20 171\<rparr>"
    by (simp add: wf_share_code_def SECRET_BYTES_def)
  then show ?thesis using share_code_roundtrip by blast
qed



text \<open>The bit-accumulator encoder is a bijection between 20-byte secrets and lists of
  32 five-bit symbols, with the decoder as its inverse; in particular it writes exactly the 32
  array slots of the source.\<close>

theorem encode_secret_bij:
  "bij_betw encode_secret {bs. length bs = SECRET_BYTES}
     {ys. length ys = SECRET_SYMBOLS \<and> set ys \<subseteq> {y. unat y < 32}}"
proof (rule bij_betw_byWitness [where f' = decode_secret])
  show "\<forall>bs \<in> {bs. length bs = SECRET_BYTES}. decode_secret (encode_secret bs) = bs"
    by (simp add: decode_encode_secret SECRET_BYTES_def)
  show "\<forall>ys \<in> {ys. length ys = SECRET_SYMBOLS \<and> set ys \<subseteq> {y. unat y < 32}}.
      encode_secret (decode_secret ys) = ys"
    by (auto simp: SECRET_SYMBOLS_def intro!: encode_decode_secret)
  show "encode_secret ` {bs. length bs = SECRET_BYTES}
      \<subseteq> {ys. length ys = SECRET_SYMBOLS \<and> set ys \<subseteq> {y. unat y < 32}}"
    using encode_secret_props by (auto simp: SECRET_BYTES_def SECRET_SYMBOLS_def)
  show "decode_secret ` {ys. length ys = SECRET_SYMBOLS \<and> set ys \<subseteq> {y. unat y < 32}}
      \<subseteq> {bs. length bs = SECRET_BYTES}"
    using decode_secret_props by (auto simp: SECRET_BYTES_def SECRET_SYMBOLS_def)
qed

end
