(* ===== verification/Cbor.thy ===== *)
theory Cbor
  imports Prelude
begin

text \<open>
  The CBOR library the protocol crate calls (\<^verbatim>\<open>minicbor\<close>'s \<^verbatim>\<open>Encoder\<close> over a
  \<^verbatim>\<open>Vec<u8>\<close> and its slice \<^verbatim>\<open>Decoder\<close>) as an interface. It is not part of the
  repository: the model's functions take a value of type \<open>cbor\<close> as an argument, and the
  locale \<open>cbor_lib\<close> names the laws the sources rely on. An encoder method is the bytes it
  appends (a \<^verbatim>\<open>Vec\<close> writer cannot fail); a decoder method maps the unread bytes to the
  value read and the bytes left, \<open>None\<close> being any decoding error. The decoder's position is
  at the end of its input exactly when no byte is left.

  The second half gives the concrete codec of RFC 8949 for the item kinds used and interprets
  the locale on it, so that the laws are known to be satisfiable together.
\<close>

datatype cbor_type = TNull | TString | TOther

record cbor =
  enc_array :: "u64 \<Rightarrow> bytes"
  enc_map :: "u64 \<Rightarrow> bytes"
  enc_u8 :: "u8 \<Rightarrow> bytes"
  enc_u16 :: "u16 \<Rightarrow> bytes"
  enc_u32 :: "u32 \<Rightarrow> bytes"
  enc_u64 :: "u64 \<Rightarrow> bytes"
  enc_bytes :: "bytes \<Rightarrow> bytes"
  enc_str :: "bytes \<Rightarrow> bytes"
  enc_null :: bytes
  dec_array :: "bytes \<Rightarrow> (u64 option \<times> bytes) option"
  dec_map :: "bytes \<Rightarrow> (u64 option \<times> bytes) option"
  dec_u8 :: "bytes \<Rightarrow> (u8 \<times> bytes) option"
  dec_u16 :: "bytes \<Rightarrow> (u16 \<times> bytes) option"
  dec_u32 :: "bytes \<Rightarrow> (u32 \<times> bytes) option"
  dec_u64 :: "bytes \<Rightarrow> (u64 \<times> bytes) option"
  dec_bytes :: "bytes \<Rightarrow> (bytes \<times> bytes) option"
  dec_str :: "bytes \<Rightarrow> (bytes \<times> bytes) option"
  dec_null :: "bytes \<Rightarrow> bytes option"
  dec_datatype :: "bytes \<Rightarrow> cbor_type option"

section \<open>UTF-8, as checked by \<^verbatim>\<open>str::from_utf8\<close>\<close>

fun utf8_chars :: "bytes \<Rightarrow> nat list option" where
  "utf8_chars [] = Some []"
| "utf8_chars (b # bs) =
     (let cont = (\<lambda>x. 128 \<le> unat x \<and> unat x < 192); low = (\<lambda>x. unat x mod 64); h = unat b in
      if h < 128 then map_option ((#) h) (utf8_chars bs)
      else if 194 \<le> h \<and> h < 224 then
        (case bs of b1 # r1 \<Rightarrow>
           if cont b1 then map_option ((#) ((h - 192) * 64 + low b1)) (utf8_chars r1) else None
         | _ \<Rightarrow> None)
      else if 224 \<le> h \<and> h < 240 then
        (case bs of b1 # b2 # r2 \<Rightarrow>
           let c = (h - 224) * 4096 + low b1 * 64 + low b2 in
           if cont b1 \<and> cont b2 \<and> 2048 \<le> c \<and> \<not> (55296 \<le> c \<and> c < 57344)
           then map_option ((#) c) (utf8_chars r2) else None
         | _ \<Rightarrow> None)
      else if 240 \<le> h \<and> h < 245 then
        (case bs of b1 # b2 # b3 # r3 \<Rightarrow>
           let c = (h - 240) * 262144 + low b1 * 4096 + low b2 * 64 + low b3 in
           if cont b1 \<and> cont b2 \<and> cont b3 \<and> 65536 \<le> c \<and> c < 1114112
           then map_option ((#) c) (utf8_chars r3) else None
         | _ \<Rightarrow> None)
      else None)"

definition utf8_valid :: "bytes \<Rightarrow> bool" where
  "utf8_valid bs \<longleftrightarrow> utf8_chars bs \<noteq> None"

section \<open>The laws\<close>

locale cbor_lib =
  fixes C :: cbor
  assumes array_rt: "dec_array C (enc_array C n @ rest) = Some (Some n, rest)"
    and map_rt: "dec_map C (enc_map C n @ rest) = Some (Some n, rest)"
    and u8_rt: "dec_u8 C (enc_u8 C a @ rest) = Some (a, rest)"
    and u16_rt: "dec_u16 C (enc_u16 C b @ rest) = Some (b, rest)"
    and u32_rt: "dec_u32 C (enc_u32 C c @ rest) = Some (c, rest)"
    and u64_rt: "dec_u64 C (enc_u64 C d @ rest) = Some (d, rest)"
    and bytes_rt: "length bs < 2 ^ 64 \<Longrightarrow> dec_bytes C (enc_bytes C bs @ rest) = Some (bs, rest)"
    and str_rt: "length s < 2 ^ 64 \<Longrightarrow> utf8_valid s \<Longrightarrow>
      dec_str C (enc_str C s @ rest) = Some (s, rest)"
    and str_utf8: "dec_str C input = Some (s, rest) \<Longrightarrow> utf8_valid s"
    and null_rt: "dec_null C (enc_null C @ rest) = Some rest"
    and datatype_null: "dec_datatype C (enc_null C @ rest) = Some TNull"
    and datatype_str: "length s < 2 ^ 64 \<Longrightarrow> dec_datatype C (enc_str C s @ rest) = Some TString"
    and array_size: "0 < length (enc_array C n)" "length (enc_array C n) \<le> 9"
    and map_size: "0 < length (enc_map C n)" "length (enc_map C n) \<le> 9"
    and u8_size: "length (enc_u8 C a) \<le> 2"
    and u16_size: "length (enc_u16 C b) \<le> 3"
    and u32_size: "length (enc_u32 C c) \<le> 5"
    and u64_size: "length (enc_u64 C d) \<le> 9"
    and bytes_size: "length (enc_bytes C bs) \<le> 9 + length bs"
    and str_size: "length (enc_str C bs) \<le> 9 + length bs"
    and null_size: "length (enc_null C) = 1"
begin

lemmas roundtrips = array_rt map_rt u8_rt u16_rt u32_rt u64_rt bytes_rt str_rt null_rt
  datatype_null datatype_str

lemmas sizes = array_size map_size u8_size u16_size u32_size u64_size bytes_size str_size null_size

end

section \<open>RFC 8949\<close>

text \<open>Item heads: major type and argument in the shortest form.\<close>

definition enc_head :: "nat \<Rightarrow> u64 \<Rightarrow> bytes" where
  "enc_head major n =
     (let m = major * 32 in
      if unat n < 24 then [of_nat (m + unat n)]
      else if unat n < 256 then of_nat (m + 24) # be_digits 1 (unat n)
      else if unat n < 65536 then of_nat (m + 25) # be_digits 2 (unat n)
      else if unat n < 4294967296 then of_nat (m + 26) # be_digits 4 (unat n)
      else of_nat (m + 27) # be_digits 8 (unat n))"

definition dec_arg :: "nat \<Rightarrow> bytes \<Rightarrow> (u64 \<times> bytes) option" where
  "dec_arg k rest =
     (if length rest < k then None
      else Some (of_nat (positional 256 (take k rest)), drop k rest))"

definition dec_head :: "nat \<Rightarrow> bytes \<Rightarrow> (u64 option \<times> bytes) option" where
  "dec_head major bs = (case bs of [] \<Rightarrow> None | b # rest \<Rightarrow>
     if unat b div 32 \<noteq> major then None
     else let i = unat b mod 32; definite = map_option (\<lambda>(n, r). (Some n, r)) in
       if i < 24 then Some (Some (of_nat i), rest)
       else if i = 24 then definite (dec_arg 1 rest)
       else if i = 25 then definite (dec_arg 2 rest)
       else if i = 26 then definite (dec_arg 4 rest)
       else if i = 27 then definite (dec_arg 8 rest)
       else if i = 31 then Some (None, rest)
       else None)"

definition dec_uint :: "nat \<Rightarrow> bytes \<Rightarrow> (u64 \<times> bytes) option" where
  "dec_uint bound bs = (case dec_head 0 bs of
     Some (Some n, rest) \<Rightarrow> if unat n < bound then Some (n, rest) else None
   | _ \<Rightarrow> None)"

definition dec_chunk :: "nat \<Rightarrow> bytes \<Rightarrow> (bytes \<times> bytes) option" where
  "dec_chunk major bs = (case dec_head major bs of
     Some (Some n, rest) \<Rightarrow>
       if unat n \<le> length rest then Some (take (unat n) rest, drop (unat n) rest) else None
   | _ \<Rightarrow> None)"

definition rfc8949 :: cbor where
  "rfc8949 = \<lparr>
     enc_array = enc_head 4, enc_map = enc_head 5,
     enc_u8 = (\<lambda>a. enc_head 0 (ucast a)), enc_u16 = (\<lambda>b. enc_head 0 (ucast b)),
     enc_u32 = (\<lambda>c. enc_head 0 (ucast c)), enc_u64 = enc_head 0,
     enc_bytes = (\<lambda>bs. enc_head 2 (of_nat (length bs)) @ bs),
     enc_str = (\<lambda>bs. enc_head 3 (of_nat (length bs)) @ bs),
     enc_null = [246],
     dec_array = dec_head 4, dec_map = dec_head 5,
     dec_u8 = (\<lambda>bs. map_option (\<lambda>(n, r). (ucast n, r)) (dec_uint 256 bs)),
     dec_u16 = (\<lambda>bs. map_option (\<lambda>(n, r). (ucast n, r)) (dec_uint 65536 bs)),
     dec_u32 = (\<lambda>bs. map_option (\<lambda>(n, r). (ucast n, r)) (dec_uint 4294967296 bs)),
     dec_u64 = dec_uint 18446744073709551616,
     dec_bytes = dec_chunk 2,
     dec_str = (\<lambda>bs. case dec_chunk 3 bs of
        Some (s, r) \<Rightarrow> if utf8_valid s then Some (s, r) else None | None \<Rightarrow> None),
     dec_null = (\<lambda>bs. case bs of b # r \<Rightarrow> if b = 246 then Some r else None | [] \<Rightarrow> None),
     dec_datatype = (\<lambda>bs. case bs of [] \<Rightarrow> None | b # _ \<Rightarrow>
        Some (if b = 246 then TNull
              else if unat b div 32 = 3 \<and> unat b mod 32 \<noteq> 31 then TString
              else TOther))\<rparr>"

lemma length_be_digits [simp]: "length (be_digits k n) = k"
  by (induction k arbitrary: n) simp_all

lemma u64_bound: "unat (n :: u64) < 18446744073709551616"
  using unsigned_less [of n, where ?'a = nat] by simp

lemma dec_arg_digits:
  assumes "unat n < 256 ^ k"
  shows "dec_arg k (be_digits k (unat n) @ rest) = Some (n, rest)"
  using assms by (simp add: dec_arg_def positional_be_digits)

lemma head_byte: "major < 8 \<Longrightarrow> k < 32 \<Longrightarrow> unat (of_nat (major * 32 + k) :: u8) = major * 32 + k"
  by (subst unat_of_nat) simp

lemma dec_head_step:
  assumes "major < 8" and "k < 32"
  shows "dec_head major ((of_nat (major * 32 + k) :: u8) # rest) =
    (let definite = map_option (\<lambda>(n, r). (Some n, r)) in
       if k < 24 then Some (Some (of_nat k), rest)
       else if k = 24 then definite (dec_arg 1 rest)
       else if k = 25 then definite (dec_arg 2 rest)
       else if k = 26 then definite (dec_arg 4 rest)
       else if k = 27 then definite (dec_arg 8 rest)
       else if k = 31 then Some (None, rest)
       else None)"
  using assms by (simp only: dec_head_def list.case head_byte) (simp add: Let_def)

lemma dec_head_enc_head:
  assumes "major < 8"
  shows "dec_head major (enc_head major n @ rest) = Some (Some n, rest)"
proof -
  consider "unat n < 24" | "24 \<le> unat n" "unat n < 256" | "256 \<le> unat n" "unat n < 65536"
    | "65536 \<le> unat n" "unat n < 4294967296" | "4294967296 \<le> unat n"
    by linarith
  then show ?thesis
    using u64_bound [of n] dec_arg_digits [of n 1 rest] dec_arg_digits [of n 2 rest]
      dec_arg_digits [of n 4 rest] dec_arg_digits [of n 8 rest] assms
    by cases (simp_all add: enc_head_def dec_head_step Let_def del: of_nat_add of_nat_mult
        of_nat_numeral)
qed

lemma enc_head_size: "0 < length (enc_head major n)" "length (enc_head major n) \<le> 9"
  by (simp_all add: enc_head_def Let_def)

lemma enc_head_size_small:
  "unat n < 256 \<Longrightarrow> length (enc_head major n) \<le> 2"
  "unat n < 65536 \<Longrightarrow> length (enc_head major n) \<le> 3"
  "unat n < 4294967296 \<Longrightarrow> length (enc_head major n) \<le> 5"
  by (simp_all add: enc_head_def Let_def)

lemma dec_uint_enc:
  "unat n < bound \<Longrightarrow> dec_uint bound (enc_head 0 n @ rest) = Some (n, rest)"
  by (simp add: dec_uint_def dec_head_enc_head)

lemma dec_chunk_enc:
  assumes "major < 8" and "length bs < 2 ^ 64"
  shows "dec_chunk major (enc_head major (of_nat (length bs)) @ bs @ rest) = Some (bs, rest)"
  using assms by (simp add: dec_chunk_def dec_head_enc_head unat_of_nat)

lemma enc_head_hd: "enc_head major n \<noteq> [] \<and>
    (\<exists>k < 28. hd (enc_head major n) = of_nat (major * 32 + k))"
  by (auto simp: enc_head_def Let_def intro: exI [of _ 24] exI [of _ 25] exI [of _ 26]
      exI [of _ 27] exI [of _ "unat n"])

lemma str_datatype:
  "dec_datatype rfc8949 (enc_head 3 n @ rest) = Some TString"
proof -
  obtain k t where k: "k < 28" and e: "enc_head 3 n = (of_nat (3 * 32 + k) :: u8) # t"
    using enc_head_hd [of 3 n] by (metis list.collapse)
  have u: "unat (of_nat (3 * 32 + k) :: u8) = 3 * 32 + k" using k by (intro head_byte) simp_all
  then have "(of_nat (3 * 32 + k) :: u8) \<noteq> 246" using k by (auto simp: word_unat_eq_iff)
  moreover have "(3 * 32 + k) div 32 = 3" and "(3 * 32 + k) mod 32 \<noteq> 31"
    using k by (simp_all only: div_mult_self3 mod_mult_self3)
  ultimately show ?thesis
    unfolding e rfc8949_def using u by (simp only: cbor.simps append_Cons list.case) simp
qed

lemma ucast_small:
  "unat (ucast (a :: u8) :: u64) = unat a" "unat (ucast (b :: u16) :: u64) = unat b"
  "unat (ucast (c :: u32) :: u64) = unat c"
  by (simp_all add: unsigned_ucast_eq take_bit_nat_eq_self unsigned_less [THEN order.strict_trans])

lemma ucast_back:
  "ucast (ucast (a :: u8) :: u64) = a" "ucast (ucast (b :: u16) :: u64) = b"
  "ucast (ucast (c :: u32) :: u64) = c"
proof -
  show "ucast (ucast a :: u64) = a"
    unfolding word_unat_eq_iff unsigned_ucast_eq [where ?'c = 8] ucast_small
    by (simp add: take_bit_nat_eq_self)
  show "ucast (ucast b :: u64) = b"
    unfolding word_unat_eq_iff unsigned_ucast_eq [where ?'c = 16] ucast_small
    using unsigned_less [of b, where ?'a = nat] by (simp add: take_bit_nat_eq_self)
  show "ucast (ucast c :: u64) = c"
    unfolding word_unat_eq_iff unsigned_ucast_eq [where ?'c = 32] ucast_small
    using unsigned_less [of c, where ?'a = nat] by (simp add: take_bit_nat_eq_self)
qed

lemma enc_head_nonempty: "enc_head major n \<noteq> []"
  using enc_head_size(1) [of major n] by auto

lemmas rfc8949_simps = rfc8949_def dec_head_enc_head dec_uint_enc dec_chunk_enc ucast_small
  enc_head_size enc_head_size_small enc_head_nonempty

lemma small_bounds:
  "unat (b :: u16) < 65536" "unat (c :: u32) < 4294967296"
  using unsigned_less [of b, where ?'a = nat] unsigned_less [of c, where ?'a = nat] by simp_all

lemma rfc8949_ints:
  "dec_u8 rfc8949 (enc_u8 rfc8949 a @ rest) = Some (a, rest)"
  "dec_u16 rfc8949 (enc_u16 rfc8949 b @ rest) = Some (b, rest)"
  "dec_u32 rfc8949 (enc_u32 rfc8949 c @ rest) = Some (c, rest)"
  by (simp_all add: rfc8949_simps small_bounds ucast_back)

interpretation rfc: cbor_lib rfc8949
proof (unfold_locales, goal_cases)
  case (3 a rest)
  show ?case by (rule rfc8949_ints)
next
  case (4 b rest)
  show ?case by (rule rfc8949_ints)
next
  case (5 c rest)
  show ?case by (rule rfc8949_ints)
next
  case (9 input s rest)
  then show ?case by (auto simp: rfc8949_def split: option.splits if_splits)
next
  case (12 s rest)
  show ?case using str_datatype [of "of_nat (length s)" "s @ rest"] by (simp add: rfc8949_def)
qed (simp_all add: rfc8949_simps u64_bound small_bounds)

end
