(* ===== verification/Wire.thy ===== *)
theory Wire
  imports Cbor
begin

text \<open>
  The transfer protocol's wire format: \<^verbatim>\<open>crates/protocol/src/limits.rs\<close>,
  \<^verbatim>\<open>error.rs\<close>, \<^verbatim>\<open>message.rs\<close> and \<^verbatim>\<open>frame.rs\<close>. A message is a CBOR array of a
  discriminant and a map with the consecutive keys 0, 1, ...; a frame is the body behind its
  length in four big-endian bytes. Fixed-size Rust arrays are byte lists, and the predicates
  \<open>wf_\<dots>\<close> carry their lengths.
\<close>

section \<open>Limits and errors\<close>

definition MAX_PAYLOAD_BYTES :: nat where "MAX_PAYLOAD_BYTES = 1024 * 1024"
definition MAX_OPEN_BODY_BYTES :: nat where "MAX_OPEN_BODY_BYTES = 1024"
definition MAX_ACK_BODY_BYTES :: nat where "MAX_ACK_BODY_BYTES = 1024"
definition MAX_COMPLETED_BODY_BYTES :: nat where "MAX_COMPLETED_BODY_BYTES = 1024"
definition MAX_ERROR_BODY_BYTES :: nat where "MAX_ERROR_BODY_BYTES = 1024"
definition MAX_OFFER_OVERHEAD_BYTES :: nat where "MAX_OFFER_OVERHEAD_BYTES = 16 * 1024"
definition MAX_OFFER_BODY_BYTES :: nat where
  "MAX_OFFER_BODY_BYTES = MAX_PAYLOAD_BYTES + MAX_OFFER_OVERHEAD_BYTES"
definition MAX_ENVELOPE_BYTES :: nat where "MAX_ENVELOPE_BYTES = MAX_PAYLOAD_BYTES + 1024"
definition MAX_CIPHERTEXT_BYTES :: nat where "MAX_CIPHERTEXT_BYTES = MAX_ENVELOPE_BYTES + 16"
definition MAX_TRANSCRIPT_BYTES :: nat where "MAX_TRANSCRIPT_BYTES = 8 * 1024"
definition MAX_NETWORK_ID_BYTES :: nat where "MAX_NETWORK_ID_BYTES = 64"
definition MAX_SUGGESTED_NAME_BYTES :: nat where "MAX_SUGGESTED_NAME_BYTES = 128"

lemmas limit_defs = MAX_PAYLOAD_BYTES_def MAX_OPEN_BODY_BYTES_def MAX_ACK_BODY_BYTES_def
  MAX_COMPLETED_BODY_BYTES_def MAX_ERROR_BODY_BYTES_def MAX_OFFER_OVERHEAD_BYTES_def
  MAX_OFFER_BODY_BYTES_def MAX_ENVELOPE_BYTES_def MAX_CIPHERTEXT_BYTES_def
  MAX_TRANSCRIPT_BYTES_def MAX_NETWORK_ID_BYTES_def MAX_SUGGESTED_NAME_BYTES_def

datatype ProtocolErrorCode =
    NotFoundOrUnauthorized | UnsupportedVersion | InvalidMessage | ShareUnavailable
  | ShareExpired | ShareAlreadyClaimed | ClaimMismatch | PayloadTooLarge | InternalFailure
  | TemporarilyUnavailable

datatype WireError =
    WE_IncompleteHeader | WE_EmptyFrame | WE_FrameTooLarge | WE_LengthMismatch | WE_InvalidMessage

text \<open>The cast \<^verbatim>\<open>code as u8\<close> of the \<^verbatim>\<open>repr(u8)\<close> enumeration, and its \<^verbatim>\<open>TryFrom<u8>\<close>.\<close>

fun error_code_u8 :: "ProtocolErrorCode \<Rightarrow> u8" where
  "error_code_u8 NotFoundOrUnauthorized = 0"
| "error_code_u8 UnsupportedVersion = 1"
| "error_code_u8 InvalidMessage = 2"
| "error_code_u8 ShareUnavailable = 3"
| "error_code_u8 ShareExpired = 4"
| "error_code_u8 ShareAlreadyClaimed = 5"
| "error_code_u8 ClaimMismatch = 6"
| "error_code_u8 PayloadTooLarge = 7"
| "error_code_u8 InternalFailure = 8"
| "error_code_u8 TemporarilyUnavailable = 9"

definition error_code_try_from :: "u8 \<Rightarrow> (WireError, ProtocolErrorCode) result" where
  "error_code_try_from value =
     (if value = 0 then Ok NotFoundOrUnauthorized
      else if value = 1 then Ok UnsupportedVersion
      else if value = 2 then Ok InvalidMessage
      else if value = 3 then Ok ShareUnavailable
      else if value = 4 then Ok ShareExpired
      else if value = 5 then Ok ShareAlreadyClaimed
      else if value = 6 then Ok ClaimMismatch
      else if value = 7 then Ok PayloadTooLarge
      else if value = 8 then Ok InternalFailure
      else if value = 9 then Ok TemporarilyUnavailable
      else Err WE_InvalidMessage)"

lemma error_code_roundtrip [simp]: "error_code_try_from (error_code_u8 c) = Ok c"
  by (cases c) (simp_all add: error_code_try_from_def)

lemma error_code_try_from_Ok: "error_code_try_from b = Ok c \<Longrightarrow> error_code_u8 c = b"
  by (auto simp: error_code_try_from_def split: if_splits)

section \<open>Messages\<close>

record OpenRequest =
  open_protocol_version :: u16
  open_room_id :: bytes
  open_receiver_nonce :: bytes
  open_receiver_proof :: bytes

record OfferResponse =
  offer_protocol_version :: u16
  offer_claim_id :: bytes
  offer_sender_nonce :: bytes
  offer_aead_nonce :: bytes
  offer_expires_at_unix_ms :: u64
  offer_content_type :: u8
  offer_plaintext_length :: u32
  offer_ciphertext :: bytes
  offer_ciphertext_digest :: bytes
  offer_sender_proof :: bytes

record AcknowledgeRequest =
  ack_protocol_version :: u16
  ack_claim_id :: bytes
  ack_ciphertext_digest :: bytes
  ack_acknowledgement_proof :: bytes

record CompletedResponse =
  completed_protocol_version :: u16
  completed_claim_id :: bytes

record ProtocolErrorResponse =
  error_protocol_version :: u16
  error_code :: ProtocolErrorCode

datatype TransferRequest = ROpen OpenRequest | RAcknowledge AcknowledgeRequest

datatype TransferResponse =
    ROffer OfferResponse | RCompleted CompletedResponse | RError ProtocolErrorResponse

text \<open>The lengths the Rust array types guarantee.\<close>

definition wf_open :: "OpenRequest \<Rightarrow> bool" where
  "wf_open m \<longleftrightarrow> length (open_room_id m) = 16 \<and> length (open_receiver_nonce m) = 32 \<and>
     length (open_receiver_proof m) = 32"

definition wf_offer :: "OfferResponse \<Rightarrow> bool" where
  "wf_offer m \<longleftrightarrow> length (offer_claim_id m) = 16 \<and> length (offer_sender_nonce m) = 32 \<and>
     length (offer_aead_nonce m) = 24 \<and> length (offer_ciphertext_digest m) = 32 \<and>
     length (offer_sender_proof m) = 32"

definition wf_acknowledge :: "AcknowledgeRequest \<Rightarrow> bool" where
  "wf_acknowledge m \<longleftrightarrow> length (ack_claim_id m) = 16 \<and> length (ack_ciphertext_digest m) = 32 \<and>
     length (ack_acknowledgement_proof m) = 32"

definition wf_completed :: "CompletedResponse \<Rightarrow> bool" where
  "wf_completed m \<longleftrightarrow> length (completed_claim_id m) = 16"

fun wf_request :: "TransferRequest \<Rightarrow> bool" where
  "wf_request (ROpen m) = wf_open m"
| "wf_request (RAcknowledge m) = wf_acknowledge m"

fun wf_response :: "TransferResponse \<Rightarrow> bool" where
  "wf_response (ROffer m) = wf_offer m"
| "wf_response (RCompleted m) = wf_completed m"
| "wf_response (RError m) = True"

lemmas wf_message_defs = wf_open_def wf_offer_def wf_acknowledge_def wf_completed_def

section \<open>Encoders and decoders of the message parts\<close>

definition REQUEST_OPEN :: u8 where "REQUEST_OPEN = 0"
definition REQUEST_ACKNOWLEDGE :: u8 where "REQUEST_ACKNOWLEDGE = 1"
definition RESPONSE_OFFER :: u8 where "RESPONSE_OFFER = 0"
definition RESPONSE_COMPLETED :: u8 where "RESPONSE_COMPLETED = 1"
definition RESPONSE_ERROR :: u8 where "RESPONSE_ERROR = 2"

lemmas discriminant_defs = REQUEST_OPEN_def REQUEST_ACKNOWLEDGE_def RESPONSE_OFFER_def
  RESPONSE_COMPLETED_def RESPONSE_ERROR_def

text \<open>A decoder step consumes a prefix of the unread bytes.\<close>

type_synonym 'a wire_decoder = "bytes \<Rightarrow> (WireError, 'a \<times> bytes) result"

definition expect_array :: "cbor \<Rightarrow> u64 \<Rightarrow> bytes \<Rightarrow> (WireError, bytes) result" where
  "expect_array C len r =
     bind_res (ok_or WE_InvalidMessage (dec_array C r)) (\<lambda>(n, r).
       if n \<noteq> Some len then Err WE_InvalidMessage else Ok r)"

definition expect_map :: "cbor \<Rightarrow> u64 \<Rightarrow> bytes \<Rightarrow> (WireError, bytes) result" where
  "expect_map C len r =
     bind_res (ok_or WE_InvalidMessage (dec_map C r)) (\<lambda>(n, r).
       if n \<noteq> Some len then Err WE_InvalidMessage else Ok r)"

definition expect_key :: "cbor \<Rightarrow> u8 \<Rightarrow> bytes \<Rightarrow> (WireError, bytes) result" where
  "expect_key C expected r =
     bind_res (ok_or WE_InvalidMessage (dec_u8 C r)) (\<lambda>(k, r).
       if k \<noteq> expected then Err WE_InvalidMessage else Ok r)"

definition decode_fixed :: "cbor \<Rightarrow> nat \<Rightarrow> bytes wire_decoder" where
  "decode_fixed C N r =
     bind_res (ok_or WE_InvalidMessage (dec_bytes C r)) (\<lambda>(bs, r).
       if length bs = N then Ok (bs, r) else Err WE_InvalidMessage)"

definition finish_decode :: "bytes \<Rightarrow> (WireError, unit) result" where
  "finish_decode r = (if r \<noteq> [] then Err WE_InvalidMessage else Ok ())"

definition encode_open :: "cbor \<Rightarrow> OpenRequest \<Rightarrow> bytes" where
  "encode_open C m =
     enc_map C 4 @ enc_u8 C 0 @ enc_u16 C (open_protocol_version m) @
     enc_u8 C 1 @ enc_bytes C (open_room_id m) @
     enc_u8 C 2 @ enc_bytes C (open_receiver_nonce m) @
     enc_u8 C 3 @ enc_bytes C (open_receiver_proof m)"

definition decode_open :: "cbor \<Rightarrow> OpenRequest wire_decoder" where
  "decode_open C r =
     bind_res (expect_map C 4 r) (\<lambda>r.
     bind_res (expect_key C 0 r) (\<lambda>r.
     bind_res (ok_or WE_InvalidMessage (dec_u16 C r)) (\<lambda>(protocol_version, r).
     bind_res (expect_key C 1 r) (\<lambda>r.
     bind_res (decode_fixed C 16 r) (\<lambda>(room_id, r).
     bind_res (expect_key C 2 r) (\<lambda>r.
     bind_res (decode_fixed C 32 r) (\<lambda>(receiver_nonce, r).
     bind_res (expect_key C 3 r) (\<lambda>r.
     bind_res (decode_fixed C 32 r) (\<lambda>(receiver_proof, r).
     Ok (\<lparr>open_protocol_version = protocol_version, open_room_id = room_id,
          open_receiver_nonce = receiver_nonce, open_receiver_proof = receiver_proof\<rparr>, r))))))))))"

definition encode_offer :: "cbor \<Rightarrow> OfferResponse \<Rightarrow> bytes" where
  "encode_offer C m =
     enc_map C 10 @ enc_u8 C 0 @ enc_u16 C (offer_protocol_version m) @
     enc_u8 C 1 @ enc_bytes C (offer_claim_id m) @
     enc_u8 C 2 @ enc_bytes C (offer_sender_nonce m) @
     enc_u8 C 3 @ enc_bytes C (offer_aead_nonce m) @
     enc_u8 C 4 @ enc_u64 C (offer_expires_at_unix_ms m) @
     enc_u8 C 5 @ enc_u8 C (offer_content_type m) @
     enc_u8 C 6 @ enc_u32 C (offer_plaintext_length m) @
     enc_u8 C 7 @ enc_bytes C (offer_ciphertext m) @
     enc_u8 C 8 @ enc_bytes C (offer_ciphertext_digest m) @
     enc_u8 C 9 @ enc_bytes C (offer_sender_proof m)"

definition decode_offer :: "cbor \<Rightarrow> OfferResponse wire_decoder" where
  "decode_offer C r =
     bind_res (expect_map C 10 r) (\<lambda>r.
     bind_res (expect_key C 0 r) (\<lambda>r.
     bind_res (ok_or WE_InvalidMessage (dec_u16 C r)) (\<lambda>(protocol_version, r).
     bind_res (expect_key C 1 r) (\<lambda>r.
     bind_res (decode_fixed C 16 r) (\<lambda>(claim_id, r).
     bind_res (expect_key C 2 r) (\<lambda>r.
     bind_res (decode_fixed C 32 r) (\<lambda>(sender_nonce, r).
     bind_res (expect_key C 3 r) (\<lambda>r.
     bind_res (decode_fixed C 24 r) (\<lambda>(aead_nonce, r).
     bind_res (expect_key C 4 r) (\<lambda>r.
     bind_res (ok_or WE_InvalidMessage (dec_u64 C r)) (\<lambda>(expires_at_unix_ms, r).
     bind_res (expect_key C 5 r) (\<lambda>r.
     bind_res (ok_or WE_InvalidMessage (dec_u8 C r)) (\<lambda>(content_type, r).
     bind_res (expect_key C 6 r) (\<lambda>r.
     bind_res (ok_or WE_InvalidMessage (dec_u32 C r)) (\<lambda>(plaintext_length, r).
     bind_res (expect_key C 7 r) (\<lambda>r.
     bind_res (ok_or WE_InvalidMessage (dec_bytes C r)) (\<lambda>(ciphertext, r).
     if length ciphertext > MAX_CIPHERTEXT_BYTES then Err WE_FrameTooLarge else
     bind_res (expect_key C 8 r) (\<lambda>r.
     bind_res (decode_fixed C 32 r) (\<lambda>(ciphertext_digest, r).
     bind_res (expect_key C 9 r) (\<lambda>r.
     bind_res (decode_fixed C 32 r) (\<lambda>(sender_proof, r).
     Ok (\<lparr>offer_protocol_version = protocol_version, offer_claim_id = claim_id,
          offer_sender_nonce = sender_nonce, offer_aead_nonce = aead_nonce,
          offer_expires_at_unix_ms = expires_at_unix_ms, offer_content_type = content_type,
          offer_plaintext_length = plaintext_length, offer_ciphertext = ciphertext,
          offer_ciphertext_digest = ciphertext_digest, offer_sender_proof = sender_proof\<rparr>,
         r))))))))))))))))))))))"

definition validate_offer :: "OfferResponse \<Rightarrow> (WireError, unit) result" where
  "validate_offer m =
     (if unat (offer_plaintext_length m) > MAX_PAYLOAD_BYTES \<or>
         length (offer_ciphertext m) > MAX_CIPHERTEXT_BYTES
      then Err WE_FrameTooLarge else Ok ())"

definition encode_acknowledgement :: "cbor \<Rightarrow> AcknowledgeRequest \<Rightarrow> bytes" where
  "encode_acknowledgement C m =
     enc_map C 4 @ enc_u8 C 0 @ enc_u16 C (ack_protocol_version m) @
     enc_u8 C 1 @ enc_bytes C (ack_claim_id m) @
     enc_u8 C 2 @ enc_bytes C (ack_ciphertext_digest m) @
     enc_u8 C 3 @ enc_bytes C (ack_acknowledgement_proof m)"

definition decode_acknowledgement :: "cbor \<Rightarrow> AcknowledgeRequest wire_decoder" where
  "decode_acknowledgement C r =
     bind_res (expect_map C 4 r) (\<lambda>r.
     bind_res (expect_key C 0 r) (\<lambda>r.
     bind_res (ok_or WE_InvalidMessage (dec_u16 C r)) (\<lambda>(protocol_version, r).
     bind_res (expect_key C 1 r) (\<lambda>r.
     bind_res (decode_fixed C 16 r) (\<lambda>(claim_id, r).
     bind_res (expect_key C 2 r) (\<lambda>r.
     bind_res (decode_fixed C 32 r) (\<lambda>(ciphertext_digest, r).
     bind_res (expect_key C 3 r) (\<lambda>r.
     bind_res (decode_fixed C 32 r) (\<lambda>(acknowledgement_proof, r).
     Ok (\<lparr>ack_protocol_version = protocol_version, ack_claim_id = claim_id,
          ack_ciphertext_digest = ciphertext_digest,
          ack_acknowledgement_proof = acknowledgement_proof\<rparr>, r))))))))))"

definition encode_completed :: "cbor \<Rightarrow> CompletedResponse \<Rightarrow> bytes" where
  "encode_completed C m =
     enc_map C 2 @ enc_u8 C 0 @ enc_u16 C (completed_protocol_version m) @
     enc_u8 C 1 @ enc_bytes C (completed_claim_id m)"

definition decode_completed :: "cbor \<Rightarrow> CompletedResponse wire_decoder" where
  "decode_completed C r =
     bind_res (expect_map C 2 r) (\<lambda>r.
     bind_res (expect_key C 0 r) (\<lambda>r.
     bind_res (ok_or WE_InvalidMessage (dec_u16 C r)) (\<lambda>(protocol_version, r).
     bind_res (expect_key C 1 r) (\<lambda>r.
     bind_res (decode_fixed C 16 r) (\<lambda>(claim_id, r).
     Ok (\<lparr>completed_protocol_version = protocol_version, completed_claim_id = claim_id\<rparr>, r))))))"

definition encode_error :: "cbor \<Rightarrow> ProtocolErrorResponse \<Rightarrow> bytes" where
  "encode_error C m =
     enc_map C 2 @ enc_u8 C 0 @ enc_u16 C (error_protocol_version m) @
     enc_u8 C 1 @ enc_u8 C (error_code_u8 (error_code m))"

definition decode_error :: "cbor \<Rightarrow> ProtocolErrorResponse wire_decoder" where
  "decode_error C r =
     bind_res (expect_map C 2 r) (\<lambda>r.
     bind_res (expect_key C 0 r) (\<lambda>r.
     bind_res (ok_or WE_InvalidMessage (dec_u16 C r)) (\<lambda>(protocol_version, r).
     bind_res (expect_key C 1 r) (\<lambda>r.
     bind_res (ok_or WE_InvalidMessage (dec_u8 C r)) (\<lambda>(value, r).
     bind_res (error_code_try_from value) (\<lambda>code.
     Ok (\<lparr>error_protocol_version = protocol_version, error_code = code\<rparr>, r)))))))"

section \<open>Message bodies\<close>

definition MAX_REQUEST_BODY_BYTES :: nat where
  "MAX_REQUEST_BODY_BYTES = max MAX_OPEN_BODY_BYTES MAX_ACK_BODY_BYTES"

definition encode_request_body :: "cbor \<Rightarrow> TransferRequest \<Rightarrow> (WireError, bytes) result" where
  "encode_request_body C request =
     (let body = enc_array C 2 @
        (case request of
           ROpen m \<Rightarrow> enc_u8 C REQUEST_OPEN @ encode_open C m
         | RAcknowledge m \<Rightarrow> enc_u8 C REQUEST_ACKNOWLEDGE @ encode_acknowledgement C m)
      in if length body > MAX_REQUEST_BODY_BYTES then Err WE_FrameTooLarge else Ok body)"

definition decode_request_body :: "cbor \<Rightarrow> bytes \<Rightarrow> (WireError, TransferRequest) result" where
  "decode_request_body C encoded =
     (if encoded = [] \<or> length encoded > MAX_REQUEST_BODY_BYTES then Err WE_FrameTooLarge else
      bind_res (expect_array C 2 encoded) (\<lambda>r.
      bind_res (ok_or WE_InvalidMessage (dec_u8 C r)) (\<lambda>(d, r).
      bind_res
        (if d = REQUEST_OPEN then
           bind_res (decode_open C r) (\<lambda>(m, r). Ok (ROpen m, r))
         else if d = REQUEST_ACKNOWLEDGE then
           bind_res (decode_acknowledgement C r) (\<lambda>(m, r). Ok (RAcknowledge m, r))
         else Err WE_InvalidMessage) (\<lambda>(request, r).
      bind_res (finish_decode r) (\<lambda>_. Ok request)))))"

definition encode_response_body :: "cbor \<Rightarrow> TransferResponse \<Rightarrow> (WireError, bytes) result" where
  "encode_response_body C response =
     bind_res
       (case response of
          ROffer m \<Rightarrow> bind_res (validate_offer m) (\<lambda>_.
            Ok (enc_u8 C RESPONSE_OFFER @ encode_offer C m, MAX_OFFER_BODY_BYTES))
        | RCompleted m \<Rightarrow>
            Ok (enc_u8 C RESPONSE_COMPLETED @ encode_completed C m, MAX_COMPLETED_BODY_BYTES)
        | RError m \<Rightarrow>
            Ok (enc_u8 C RESPONSE_ERROR @ encode_error C m, MAX_ERROR_BODY_BYTES))
       (\<lambda>(tail, limit). let body = enc_array C 2 @ tail in
          if length body > limit then Err WE_FrameTooLarge else Ok body)"

definition decode_response_body :: "cbor \<Rightarrow> bytes \<Rightarrow> (WireError, TransferResponse) result" where
  "decode_response_body C encoded =
     (if encoded = [] \<or> length encoded > MAX_OFFER_BODY_BYTES then Err WE_FrameTooLarge else
      bind_res (expect_array C 2 encoded) (\<lambda>r.
      bind_res (ok_or WE_InvalidMessage (dec_u8 C r)) (\<lambda>(d, r).
      bind_res
        (if d = RESPONSE_OFFER then
           bind_res (decode_offer C r) (\<lambda>(offer, r).
           bind_res (validate_offer offer) (\<lambda>_. Ok (ROffer offer, MAX_OFFER_BODY_BYTES, r)))
         else if d = RESPONSE_COMPLETED then
           bind_res (decode_completed C r) (\<lambda>(m, r). Ok (RCompleted m, MAX_COMPLETED_BODY_BYTES, r))
         else if d = RESPONSE_ERROR then
           bind_res (decode_error C r) (\<lambda>(m, r). Ok (RError m, MAX_ERROR_BODY_BYTES, r))
         else Err WE_InvalidMessage) (\<lambda>(response, limit, r).
      if length encoded > limit then Err WE_FrameTooLarge else
      bind_res (finish_decode r) (\<lambda>_. Ok response)))))"

section \<open>Frames\<close>

definition HEADER_BYTES :: nat where "HEADER_BYTES = 4"

definition parse_frame_length :: "bytes \<Rightarrow> (WireError, nat) result" where
  "parse_frame_length header =
     bind_res (ok_or WE_IncompleteHeader
       (if HEADER_BYTES \<le> length header then Some (take HEADER_BYTES header) else None)) (\<lambda>bytes.
     let len = unat (from_be32 bytes) in
     if len = 0 then Err WE_EmptyFrame else Ok len)"

definition encode_frame :: "bytes \<Rightarrow> (WireError, bytes) result" where
  "encode_frame body =
     (if body = [] then Err WE_EmptyFrame else
      bind_res (ok_or WE_FrameTooLarge (u32_try_from (length body))) (\<lambda>len.
      Ok (be32 len @ body)))"

definition checked_body :: "bytes \<Rightarrow> nat \<Rightarrow> (WireError, bytes) result" where
  "checked_body frame limit =
     bind_res (parse_frame_length frame) (\<lambda>declared.
     if declared > limit then Err WE_FrameTooLarge else
     bind_res (ok_or WE_FrameTooLarge (checked_add_usize HEADER_BYTES declared)) (\<lambda>expected.
     if length frame \<noteq> expected then Err WE_LengthMismatch
     else Ok (drop HEADER_BYTES frame)))"

definition encode_request_frame :: "cbor \<Rightarrow> TransferRequest \<Rightarrow> (WireError, bytes) result" where
  "encode_request_frame C request = bind_res (encode_request_body C request) encode_frame"

definition decode_request_frame :: "cbor \<Rightarrow> bytes \<Rightarrow> (WireError, TransferRequest) result" where
  "decode_request_frame C frame =
     bind_res (checked_body frame MAX_REQUEST_BODY_BYTES) (decode_request_body C)"

definition encode_response_frame :: "cbor \<Rightarrow> TransferResponse \<Rightarrow> (WireError, bytes) result" where
  "encode_response_frame C response = bind_res (encode_response_body C response) encode_frame"

definition decode_response_frame :: "cbor \<Rightarrow> bytes \<Rightarrow> (WireError, TransferResponse) result" where
  "decode_response_frame C frame =
     bind_res (checked_body frame MAX_OFFER_BODY_BYTES) (decode_response_body C)"


section \<open>Decoded messages are well-formed, whatever the CBOR library\<close>

lemma decode_fixed_Ok: "decode_fixed C N r = Ok (bs, r') \<Longrightarrow> length bs = N"
  by (auto simp: decode_fixed_def result_simps split: if_splits)

lemma decode_open_wf: "decode_open C r = Ok (m, r') \<Longrightarrow> wf_open m"
  by (auto simp: decode_open_def result_simps wf_open_def dest!: decode_fixed_Ok)

lemma decode_acknowledgement_wf: "decode_acknowledgement C r = Ok (m, r') \<Longrightarrow> wf_acknowledge m"
  by (auto simp: decode_acknowledgement_def result_simps wf_acknowledge_def dest!: decode_fixed_Ok)

lemma decode_completed_wf: "decode_completed C r = Ok (m, r') \<Longrightarrow> wf_completed m"
  by (auto simp: decode_completed_def result_simps wf_completed_def dest!: decode_fixed_Ok)

lemma decode_offer_wf: "decode_offer C r = Ok (m, r') \<Longrightarrow> wf_offer m"
  by (auto simp: decode_offer_def result_simps wf_offer_def dest!: decode_fixed_Ok split: if_splits)

lemma validate_offer_Ok [result_simps]:
  "validate_offer m = Ok u \<longleftrightarrow>
     unat (offer_plaintext_length m) \<le> MAX_PAYLOAD_BYTES \<and>
     length (offer_ciphertext m) \<le> MAX_CIPHERTEXT_BYTES"
  by (auto simp: validate_offer_def)

lemma finish_decode_Ok [result_simps]: "finish_decode r = Ok u \<longleftrightarrow> r = []"
  by (auto simp: finish_decode_def)

text \<open>The bounds a receiver relies on before it looks at a response.\<close>

fun bounded_response :: "TransferResponse \<Rightarrow> bool" where
  "bounded_response (ROffer m) \<longleftrightarrow>
     unat (offer_plaintext_length m) \<le> MAX_PAYLOAD_BYTES \<and>
     length (offer_ciphertext m) \<le> MAX_CIPHERTEXT_BYTES"
| "bounded_response _ = True"

lemma decode_request_body_wf: "decode_request_body C bs = Ok m \<Longrightarrow> wf_request m"
  by (auto simp: decode_request_body_def result_simps dest: decode_open_wf decode_acknowledgement_wf
      split: if_splits)

lemma decode_response_body_wf:
  "decode_response_body C bs = Ok m \<Longrightarrow> wf_response m \<and> bounded_response m"
  by (auto simp: decode_response_body_def result_simps
      dest: decode_offer_wf decode_completed_wf split: if_splits)

section \<open>Framing\<close>

lemma parse_frame_length_frame:
  assumes "body \<noteq> []" and "length body < 4294967296"
  shows "parse_frame_length (be32 (of_nat (length body)) @ rest) = Ok (length body)"
  using assms by (simp add: parse_frame_length_def HEADER_BYTES_def unat_u32_of_nat)

lemma checked_body_frame:
  assumes "body \<noteq> []" and "length body \<le> limit" and "limit < 4294967296"
  shows "checked_body (be32 (of_nat (length body)) @ body) limit = Ok body"
  using assms by (simp add: checked_body_def parse_frame_length_frame HEADER_BYTES_def
      checked_add_usize_def usize_max_def)

lemma encode_frame_Ok:
  "encode_frame body = Ok frame \<longleftrightarrow>
     body \<noteq> [] \<and> length body < 4294967296 \<and> frame = be32 (of_nat (length body)) @ body"
  by (auto simp: encode_frame_def result_simps)

lemma checked_body_Ok:
  assumes "checked_body frame limit = Ok body"
  shows "body \<noteq> [] \<and> length body \<le> limit \<and> length body < 4294967296 \<and>
     frame = be32 (of_nat (length body)) @ body"
proof -
  have len: "4 \<le> length frame" and nz: "unat (from_be32 (take 4 frame)) \<noteq> 0"
    and lim: "unat (from_be32 (take 4 frame)) \<le> limit"
    and eq: "length frame = 4 + unat (from_be32 (take 4 frame))" and body: "body = drop 4 frame"
    using assms by (auto simp: checked_body_def parse_frame_length_def HEADER_BYTES_def Let_def
        result_simps checked_add_usize_def split: if_splits)
  let ?h = "from_be32 (take 4 frame)"
  have lb: "length body = unat ?h" using eq body by simp
  then have "of_nat (length body) = ?h" by simp
  moreover have "be32 ?h = take 4 frame" using len by (intro be32_from_be32) simp
  ultimately have "frame = be32 (of_nat (length body)) @ body" using body by simp
  moreover have "unat ?h < 4294967296" by (rule small_bounds)
  ultimately show ?thesis using lb nz lim by auto
qed

section \<open>Round trips\<close>

context cbor_lib
begin

lemma expect_ok [simp]:
  "expect_array C n (enc_array C n @ r) = Ok r"
  "expect_map C n (enc_map C n @ r) = Ok r"
  "expect_key C k (enc_u8 C k @ r) = Ok r"
  by (simp_all add: expect_array_def expect_map_def expect_key_def array_rt map_rt u8_rt)

lemma decode_fixed_ok [simp]:
  "length bs = N \<Longrightarrow> N < 2 ^ 64 \<Longrightarrow> decode_fixed C N (enc_bytes C bs @ r) = Ok (bs, r)"
  by (simp add: decode_fixed_def bytes_rt)

lemma open_rt: "wf_open m \<Longrightarrow> decode_open C (encode_open C m @ r) = Ok (m, r)"
  by (simp add: decode_open_def encode_open_def wf_open_def u16_rt)

lemma acknowledgement_rt:
  "wf_acknowledge m \<Longrightarrow> decode_acknowledgement C (encode_acknowledgement C m @ r) = Ok (m, r)"
  by (simp add: decode_acknowledgement_def encode_acknowledgement_def wf_acknowledge_def u16_rt)

lemma completed_rt: "wf_completed m \<Longrightarrow> decode_completed C (encode_completed C m @ r) = Ok (m, r)"
  by (simp add: decode_completed_def encode_completed_def wf_completed_def u16_rt)

lemma error_rt: "decode_error C (encode_error C m @ r) = Ok (m, r)"
  by (simp add: decode_error_def encode_error_def u16_rt u8_rt)

lemma offer_rt:
  assumes "wf_offer m" and "length (offer_ciphertext m) \<le> MAX_CIPHERTEXT_BYTES"
  shows "decode_offer C (encode_offer C m @ r) = Ok (m, r)"
  using assms
  by (simp add: decode_offer_def encode_offer_def wf_offer_def u16_rt u8_rt u32_rt u64_rt bytes_rt
      limit_defs)

lemma part_sizes:
  "wf_open m1 \<Longrightarrow> length (encode_open C m1) \<le> 200"
  "wf_acknowledge m2 \<Longrightarrow> length (encode_acknowledgement C m2) \<le> 200"
  "wf_completed m3 \<Longrightarrow> length (encode_completed C m3) \<le> 200"
  "length (encode_error C m4) \<le> 200"
  "wf_offer m5 \<Longrightarrow> length (encode_offer C m5) \<le> 400 + length (offer_ciphertext m5)"
proof -
  note u8 = u8_size [of 0] u8_size [of 1] u8_size [of 2] u8_size [of 3] u8_size [of 4]
    u8_size [of 5] u8_size [of 6] u8_size [of 7] u8_size [of 8] u8_size [of 9]
  show "wf_open m1 \<Longrightarrow> length (encode_open C m1) \<le> 200"
    using u8 map_size(2) [of 4] u16_size [of "open_protocol_version m1"]
      bytes_size [of "open_room_id m1"] bytes_size [of "open_receiver_nonce m1"]
      bytes_size [of "open_receiver_proof m1"]
    by (simp add: encode_open_def wf_open_def)
  show "wf_acknowledge m2 \<Longrightarrow> length (encode_acknowledgement C m2) \<le> 200"
    using u8 map_size(2) [of 4] u16_size [of "ack_protocol_version m2"]
      bytes_size [of "ack_claim_id m2"] bytes_size [of "ack_ciphertext_digest m2"]
      bytes_size [of "ack_acknowledgement_proof m2"]
    by (simp add: encode_acknowledgement_def wf_acknowledge_def)
  show "wf_completed m3 \<Longrightarrow> length (encode_completed C m3) \<le> 200"
    using u8 map_size(2) [of 2] u16_size [of "completed_protocol_version m3"]
      bytes_size [of "completed_claim_id m3"]
    by (simp add: encode_completed_def wf_completed_def)
  show "length (encode_error C m4) \<le> 200"
    using u8 map_size(2) [of 2] u16_size [of "error_protocol_version m4"]
      u8_size [of "error_code_u8 (error_code m4)"]
    by (simp add: encode_error_def)
  show "wf_offer m5 \<Longrightarrow> length (encode_offer C m5) \<le> 400 + length (offer_ciphertext m5)"
    using u8 map_size(2) [of 10] u16_size [of "offer_protocol_version m5"]
      bytes_size [of "offer_claim_id m5"] bytes_size [of "offer_sender_nonce m5"]
      bytes_size [of "offer_aead_nonce m5"] u64_size [of "offer_expires_at_unix_ms m5"]
      u8_size [of "offer_content_type m5"] u32_size [of "offer_plaintext_length m5"]
      bytes_size [of "offer_ciphertext m5"] bytes_size [of "offer_ciphertext_digest m5"]
      bytes_size [of "offer_sender_proof m5"]
    by (simp add: encode_offer_def wf_offer_def)
qed

lemma enc_array_nonempty [simp]: "enc_array C n \<noteq> []"
  using array_size(1) [of n] by auto

lemma request_body_rt:
  assumes "wf_request m"
  obtains body where "encode_request_body C m = Ok body" "body \<noteq> []"
    "length body \<le> MAX_REQUEST_BODY_BYTES" "decode_request_body C body = Ok m"
proof (cases m)
  case (ROpen x)
  let ?b = "enc_array C 2 @ enc_u8 C REQUEST_OPEN @ encode_open C x"
  have w: "wf_open x" using assms ROpen by simp
  have len: "length ?b \<le> MAX_REQUEST_BODY_BYTES"
    using part_sizes(1) [OF w] array_size(2) [of 2] u8_size [of REQUEST_OPEN]
    by (simp add: MAX_REQUEST_BODY_BYTES_def limit_defs)
  have "encode_request_body C m = Ok ?b" using len ROpen by (simp add: encode_request_body_def Let_def)
  moreover have "decode_request_body C ?b = Ok m"
    using len open_rt [OF w, of "[]"] ROpen
    by (simp add: decode_request_body_def u8_rt finish_decode_def)
  ultimately show ?thesis using that len by simp
next
  case (RAcknowledge x)
  let ?b = "enc_array C 2 @ enc_u8 C REQUEST_ACKNOWLEDGE @ encode_acknowledgement C x"
  have w: "wf_acknowledge x" using assms RAcknowledge by simp
  have len: "length ?b \<le> MAX_REQUEST_BODY_BYTES"
    using part_sizes(2) [OF w] array_size(2) [of 2] u8_size [of REQUEST_ACKNOWLEDGE]
    by (simp add: MAX_REQUEST_BODY_BYTES_def limit_defs)
  have "encode_request_body C m = Ok ?b"
    using len RAcknowledge by (simp add: encode_request_body_def Let_def)
  moreover have "decode_request_body C ?b = Ok m"
    using len acknowledgement_rt [OF w, of "[]"] RAcknowledge
    by (simp add: decode_request_body_def u8_rt finish_decode_def discriminant_defs)
  ultimately show ?thesis using that len by simp
qed

lemma response_body_rt:
  assumes "wf_response m" and "bounded_response m"
  obtains body where "encode_response_body C m = Ok body" "body \<noteq> []"
    "length body \<le> MAX_OFFER_BODY_BYTES" "decode_response_body C body = Ok m"
proof (cases m)
  case (ROffer x)
  let ?b = "enc_array C 2 @ enc_u8 C RESPONSE_OFFER @ encode_offer C x"
  have w: "wf_offer x" and b: "length (offer_ciphertext x) \<le> MAX_CIPHERTEXT_BYTES"
    and v: "validate_offer x = Ok ()" using assms ROffer by (simp_all add: result_simps)
  have len: "length ?b \<le> MAX_OFFER_BODY_BYTES"
    using part_sizes(5) [OF w] array_size(2) [of 2] u8_size [of RESPONSE_OFFER] b
    by (simp add: limit_defs)
  have "encode_response_body C m = Ok ?b" using len ROffer v by (simp add: encode_response_body_def)
  moreover have "decode_response_body C ?b = Ok m"
    using len offer_rt [OF w b, of "[]"] ROffer v
    by (simp add: decode_response_body_def u8_rt finish_decode_def)
  ultimately show ?thesis using that len by simp
next
  case (RCompleted x)
  let ?b = "enc_array C 2 @ enc_u8 C RESPONSE_COMPLETED @ encode_completed C x"
  have w: "wf_completed x" using assms RCompleted by simp
  have len: "length ?b \<le> MAX_COMPLETED_BODY_BYTES"
    using part_sizes(3) [OF w] array_size(2) [of 2] u8_size [of RESPONSE_COMPLETED]
    by (simp add: limit_defs)
  then have lim: "length ?b \<le> MAX_OFFER_BODY_BYTES" by (simp add: limit_defs)
  have "encode_response_body C m = Ok ?b"
    using len RCompleted by (simp add: encode_response_body_def)
  moreover have "decode_response_body C ?b = Ok m"
    using len lim completed_rt [OF w, of "[]"] RCompleted
    by (simp add: decode_response_body_def u8_rt finish_decode_def discriminant_defs)
  ultimately show ?thesis using that lim by simp
next
  case (RError x)
  let ?b = "enc_array C 2 @ enc_u8 C RESPONSE_ERROR @ encode_error C x"
  have len: "length ?b \<le> MAX_ERROR_BODY_BYTES"
    using part_sizes(4) [of x] array_size(2) [of 2] u8_size [of RESPONSE_ERROR]
    by (simp add: limit_defs)
  then have lim: "length ?b \<le> MAX_OFFER_BODY_BYTES" by (simp add: limit_defs)
  have "encode_response_body C m = Ok ?b" using len RError by (simp add: encode_response_body_def)
  moreover have "decode_response_body C ?b = Ok m"
    using len lim error_rt [of x "[]"] RError
    by (simp add: decode_response_body_def u8_rt finish_decode_def discriminant_defs)
  ultimately show ?thesis using that lim by simp
qed

lemma request_frame_rt:
  assumes "wf_request m"
  obtains body where "encode_request_frame C m = Ok (be32 (of_nat (length body)) @ body)"
    "body \<noteq> []" "length body \<le> MAX_REQUEST_BODY_BYTES"
    "decode_request_frame C (be32 (of_nat (length body)) @ body) = Ok m"
proof -
  obtain body where b: "encode_request_body C m = Ok body" "body \<noteq> []"
    "length body \<le> MAX_REQUEST_BODY_BYTES" "decode_request_body C body = Ok m"
    using request_body_rt [OF assms] .
  have lim: "MAX_REQUEST_BODY_BYTES < 4294967296"
    by (simp add: MAX_REQUEST_BODY_BYTES_def limit_defs)
  then have "encode_frame body = Ok (be32 (of_nat (length body)) @ body)"
    using b by (simp add: encode_frame_Ok)
  then have "encode_request_frame C m = Ok (be32 (of_nat (length body)) @ body)"
    using b by (simp add: encode_request_frame_def)
  moreover have "decode_request_frame C (be32 (of_nat (length body)) @ body) = Ok m"
    using b lim by (simp add: decode_request_frame_def checked_body_frame)
  ultimately show ?thesis using that b by blast
qed

lemma response_frame_rt:
  assumes "wf_response m" and "bounded_response m"
  obtains body where "encode_response_frame C m = Ok (be32 (of_nat (length body)) @ body)"
    "body \<noteq> []" "length body \<le> MAX_OFFER_BODY_BYTES"
    "decode_response_frame C (be32 (of_nat (length body)) @ body) = Ok m"
proof -
  obtain body where b: "encode_response_body C m = Ok body" "body \<noteq> []"
    "length body \<le> MAX_OFFER_BODY_BYTES" "decode_response_body C body = Ok m"
    using response_body_rt [OF assms] .
  have lim: "MAX_OFFER_BODY_BYTES < 4294967296" by (simp add: limit_defs)
  then have "encode_frame body = Ok (be32 (of_nat (length body)) @ body)"
    using b by (simp add: encode_frame_Ok)
  then have "encode_response_frame C m = Ok (be32 (of_nat (length body)) @ body)"
    using b by (simp add: encode_response_frame_def)
  moreover have "decode_response_frame C (be32 (of_nat (length body)) @ body) = Ok m"
    using b lim by (simp add: decode_response_frame_def checked_body_frame)
  ultimately show ?thesis using that b by blast
qed

end

section \<open>Properties\<close>

text \<open>
  Every request a program can build is encoded (no size check fires), its frame is at most
  1028 bytes long, and decoding the frame gives the request back.
\<close>

theorem request_frame_roundtrip:
  assumes "cbor_lib C" and "wf_request m"
  shows "\<exists>frame. encode_request_frame C m = Ok frame \<and> length frame \<le> 1028 \<and>
    decode_request_frame C frame = Ok m"
  by (rule cbor_lib.request_frame_rt [OF assms])
    (auto simp: MAX_REQUEST_BODY_BYTES_def limit_defs)

definition sample_open :: OpenRequest where
  "sample_open = \<lparr>open_protocol_version = 1, open_room_id = replicate 16 1,
     open_receiver_nonce = replicate 32 2, open_receiver_proof = replicate 32 3\<rparr>"

theorem request_frame_roundtrip_witness:
  "\<exists>frame. encode_request_frame rfc8949 (ROpen sample_open) = Ok frame \<and> length frame \<le> 1028 \<and>
    decode_request_frame rfc8949 frame = Ok (ROpen sample_open)"
  by (rule request_frame_roundtrip [OF rfc.cbor_lib_axioms])
    (simp add: sample_open_def wf_open_def)

text \<open>
  C27: The encoder of responses succeeds exactly on the responses within the protocol's payload
  and ciphertext limits; an accepted response decodes back to itself from a frame of at most
  1064964 bytes, and every other one is refused with the too-large error.
\<close>

theorem response_frame_roundtrip:
  assumes "cbor_lib C" and "wf_response m"
  shows "if bounded_response m
    then \<exists>frame. encode_response_frame C m = Ok frame \<and> length frame \<le> 1064964 \<and>
           decode_response_frame C frame = Ok m
    else encode_response_frame C m = Err WE_FrameTooLarge"
proof (cases "bounded_response m")
  case True
  show ?thesis
    by (rule cbor_lib.response_frame_rt [OF assms True])
      (use True in \<open>auto simp: limit_defs\<close>)
next
  case False
  then show ?thesis
    by (cases m) (auto simp: encode_response_frame_def encode_response_body_def validate_offer_def)
qed

definition sample_offer :: OfferResponse where
  "sample_offer = \<lparr>offer_protocol_version = 1, offer_claim_id = replicate 16 1,
     offer_sender_nonce = replicate 32 2, offer_aead_nonce = replicate 24 3,
     offer_expires_at_unix_ms = 1700000000000, offer_content_type = 1, offer_plaintext_length = 3,
     offer_ciphertext = [1, 2, 3], offer_ciphertext_digest = replicate 32 4,
     offer_sender_proof = replicate 32 5\<rparr>"

theorem response_frame_roundtrip_witness:
  "\<exists>frame. encode_response_frame rfc8949 (ROffer sample_offer) = Ok frame \<and>
    length frame \<le> 1064964 \<and> decode_response_frame rfc8949 frame = Ok (ROffer sample_offer)"
  using response_frame_roundtrip [OF rfc.cbor_lib_axioms, of "ROffer sample_offer"]
  by (simp add: sample_offer_def wf_offer_def limit_defs)

text \<open>
  C28: Whatever bytes arrive and however the CBOR library behaves, a decoded message has the
  field lengths of its type, a decoded offer is within the payload and ciphertext limits, and
  the accepted frame is exactly a four-byte length followed by that many bytes.
\<close>

theorem decoded_frames_are_wellformed:
  "(decode_request_frame C frame = Ok m \<longrightarrow> wf_request m \<and>
      (\<exists>body. frame = be32 (of_nat (length body)) @ body \<and> body \<noteq> [] \<and> length body \<le> 1024)) \<and>
   (decode_response_frame C frame = Ok m' \<longrightarrow> wf_response m' \<and> bounded_response m' \<and>
      (\<exists>body. frame = be32 (of_nat (length body)) @ body \<and> body \<noteq> [] \<and> length body \<le> 1064960))"
proof (intro conjI impI)
  assume d: "decode_request_frame C frame = Ok m"
  then obtain body where b: "checked_body frame MAX_REQUEST_BODY_BYTES = Ok body"
    "decode_request_body C body = Ok m" by (auto simp: decode_request_frame_def result_simps)
  show "wf_request m" using b(2) by (rule decode_request_body_wf)
  show "\<exists>body. frame = be32 (of_nat (length body)) @ body \<and> body \<noteq> [] \<and> length body \<le> 1024"
    using checked_body_Ok [OF b(1)] by (auto simp: MAX_REQUEST_BODY_BYTES_def limit_defs)
next
  assume d: "decode_response_frame C frame = Ok m'"
  then obtain body where b: "checked_body frame MAX_OFFER_BODY_BYTES = Ok body"
    "decode_response_body C body = Ok m'" by (auto simp: decode_response_frame_def result_simps)
  show "wf_response m'" and "bounded_response m'" using decode_response_body_wf [OF b(2)] by simp_all
  show "\<exists>body. frame = be32 (of_nat (length body)) @ body \<and> body \<noteq> [] \<and> length body \<le> 1064960"
    using checked_body_Ok [OF b(1)] by (auto simp: limit_defs)
qed

theorem decoded_frames_are_wellformed_witness:
  "\<exists>frame. decode_request_frame rfc8949 frame = Ok (ROpen sample_open) \<and>
     wf_request (ROpen sample_open) \<and>
     (\<exists>body. frame = be32 (of_nat (length body)) @ body \<and> body \<noteq> [] \<and> length body \<le> 1024)"
proof -
  obtain frame where f: "decode_request_frame rfc8949 frame = Ok (ROpen sample_open)"
    by (rule rfc.request_frame_rt [of "ROpen sample_open"])
      (auto simp: sample_open_def wf_open_def)
  show ?thesis
    using f decoded_frames_are_wellformed [of rfc8949 frame "ROpen sample_open"] by blast
qed

end
