(* ===== verification/Transfer_Codec.thy ===== *)
theory Transfer_Codec
  imports Wire
begin

text \<open>
  The stream codec of \<^verbatim>\<open>network/src/codec.rs\<close>: reading one frame from a byte stream and
  writing one to it. A stream being read is the bytes that will arrive before its end; a read
  returns what is left of it. A stream being written is the bytes written so far. I/O errors of
  the transport other than the end of the stream are not modelled.
\<close>

datatype io_error = UnexpectedEof | InvalidData

definition read_exact :: "nat \<Rightarrow> bytes \<Rightarrow> (io_error, bytes \<times> bytes) result" where
  "read_exact n io = (if length io < n then Err UnexpectedEof else Ok (take n io, drop n io))"

definition read_frame :: "bytes \<Rightarrow> nat \<Rightarrow> (io_error, bytes \<times> bytes) result" where
  "read_frame io limit =
     bind_res (read_exact 4 io) (\<lambda>(header, io).
     bind_res (map_err (\<lambda>_. InvalidData) (parse_frame_length header)) (\<lambda>len.
     if len > limit then Err InvalidData else
     bind_res (read_exact len io) (\<lambda>(body, io).
     Ok (header @ body, io))))"

definition write_frame :: "bytes \<Rightarrow> bytes \<Rightarrow> bytes" where
  "write_frame io frame = io @ frame"

definition read_request :: "cbor \<Rightarrow> bytes \<Rightarrow> (io_error, TransferRequest \<times> bytes) result" where
  "read_request C io =
     bind_res (read_frame io MAX_REQUEST_BODY_BYTES) (\<lambda>(frame, io).
     bind_res (map_err (\<lambda>_. InvalidData) (decode_request_frame C frame)) (\<lambda>m. Ok (m, io)))"

definition read_response :: "cbor \<Rightarrow> bytes \<Rightarrow> (io_error, TransferResponse \<times> bytes) result" where
  "read_response C io =
     bind_res (read_frame io MAX_OFFER_BODY_BYTES) (\<lambda>(frame, io).
     bind_res (map_err (\<lambda>_. InvalidData) (decode_response_frame C frame)) (\<lambda>m. Ok (m, io)))"

definition write_request :: "cbor \<Rightarrow> bytes \<Rightarrow> TransferRequest \<Rightarrow> (io_error, bytes) result" where
  "write_request C io request =
     bind_res (map_err (\<lambda>_. InvalidData) (encode_request_frame C request)) (\<lambda>frame.
     Ok (write_frame io frame))"

definition write_response :: "cbor \<Rightarrow> bytes \<Rightarrow> TransferResponse \<Rightarrow> (io_error, bytes) result" where
  "write_response C io response =
     bind_res (map_err (\<lambda>_. InvalidData) (encode_response_frame C response)) (\<lambda>frame.
     Ok (write_frame io frame))"

section \<open>Reading back what was written\<close>

lemma read_exact_append: "length a = n \<Longrightarrow> read_exact n (a @ b) = Ok (a, b)"
  by (simp add: read_exact_def)

lemma read_exact_Ok: "read_exact n io = Ok (a, b) \<longleftrightarrow> io = a @ b \<and> length a = n"
  by (auto simp: read_exact_def)

lemma read_frame_frame:
  assumes "body \<noteq> []" and "length body \<le> limit" and "limit < 4294967296"
  shows "read_frame ((be32 (of_nat (length body)) @ body) @ rest) limit =
    Ok (be32 (of_nat (length body)) @ body, rest)"
  using assms parse_frame_length_frame [of body "[]"]
  by (simp add: read_frame_def read_exact_append)

context cbor_lib
begin

lemma request_stream_rt:
  assumes "wf_request m"
  obtains frame where "write_request C [] m = Ok frame" "length frame \<le> 1028"
    "read_request C (frame @ rest) = Ok (m, rest)"
proof -
  obtain body where b: "encode_request_frame C m = Ok (be32 (of_nat (length body)) @ body)"
    "body \<noteq> []" "length body \<le> MAX_REQUEST_BODY_BYTES"
    "decode_request_frame C (be32 (of_nat (length body)) @ body) = Ok m"
    by (rule request_frame_rt [OF assms])
  have lim: "MAX_REQUEST_BODY_BYTES < 4294967296" "MAX_REQUEST_BODY_BYTES = 1024"
    by (simp_all add: MAX_REQUEST_BODY_BYTES_def limit_defs)
  show ?thesis
    by (rule that [of "be32 (of_nat (length body)) @ body"])
      (use b lim read_frame_frame [OF b(2,3) lim(1), of rest] in
        \<open>simp_all add: write_request_def write_frame_def read_request_def\<close>)
qed

lemma response_stream_rt:
  assumes "wf_response m" and "bounded_response m"
  obtains frame where "write_response C [] m = Ok frame" "length frame \<le> 1064964"
    "read_response C (frame @ rest) = Ok (m, rest)"
proof -
  obtain body where b: "encode_response_frame C m = Ok (be32 (of_nat (length body)) @ body)"
    "body \<noteq> []" "length body \<le> MAX_OFFER_BODY_BYTES"
    "decode_response_frame C (be32 (of_nat (length body)) @ body) = Ok m"
    by (rule response_frame_rt [OF assms])
  have lim: "MAX_OFFER_BODY_BYTES < 4294967296" "MAX_OFFER_BODY_BYTES = 1064960"
    by (simp_all add: limit_defs)
  show ?thesis
    by (rule that [of "be32 (of_nat (length body)) @ body"])
      (use b lim read_frame_frame [OF b(2,3) lim(1), of rest] in
        \<open>simp_all add: write_response_def write_frame_def read_response_def\<close>)
qed

end

section \<open>Properties\<close>

text \<open>
  A reader is bounded by its limit whatever a peer sends: an accepted frame is a prefix of
  the stream of at most four bytes more than the limit, its header gives its length, and a
  header that declares more than the limit, or nothing, is refused whatever follows it.
\<close>

theorem read_frame_bounded:
  "(read_frame io limit = Ok (frame, rest) \<longrightarrow> io = frame @ rest \<and> 4 < length frame \<and>
      length frame \<le> 4 + limit \<and> unat (from_be32 (take 4 frame)) = length frame - 4) \<and>
   (4 \<le> length io \<and> (unat (from_be32 (take 4 io)) = 0 \<or> unat (from_be32 (take 4 io)) > limit) \<longrightarrow>
      read_frame io limit = Err InvalidData)"
proof (intro conjI impI)
  assume r: "read_frame io limit = Ok (frame, rest)"
  obtain header io' len body where h: "io = header @ io'" "length header = 4"
    "parse_frame_length header = Ok len" "len \<le> limit" "io' = body @ rest" "length body = len"
    "frame = header @ body"
    using r by (auto simp: read_frame_def result_simps read_exact_Ok split: if_splits)
  have len: "len = unat (from_be32 header)" "len \<noteq> 0"
    using h(2,3) by (auto simp: parse_frame_length_def HEADER_BYTES_def Let_def result_simps
        split: if_splits)
  show "io = frame @ rest" and "4 < length frame" and "length frame \<le> 4 + limit"
    and "unat (from_be32 (take 4 frame)) = length frame - 4"
    using h len by simp_all
next
  assume "4 \<le> length io \<and>
    (unat (from_be32 (take 4 io)) = 0 \<or> unat (from_be32 (take 4 io)) > limit)"
  then show "read_frame io limit = Err InvalidData"
    by (auto simp: read_frame_def read_exact_def parse_frame_length_def HEADER_BYTES_def Let_def)
qed

theorem read_frame_bounded_witness:
  "read_frame [0, 0, 0, 2, 7, 8, 9] 1024 = Ok ([0, 0, 0, 2, 7, 8], [9]) \<and>
   (4 < length [0, 0, 0, 2, 7, 8 :: u8] \<and> length [0, 0, 0, 2, 7, 8 :: u8] \<le> 4 + 1024) \<and>
   read_frame [0, 0, 4, 1] 1024 = Err InvalidData"
proof -
  have a: "read_frame [0, 0, 0, 2, 7, 8, 9] 1024 = Ok ([0, 0, 0, 2, 7, 8], [9])"
    by (simp add: read_frame_def read_exact_def parse_frame_length_def HEADER_BYTES_def
        from_be32_def)
  have b: "unat (from_be32 (take 4 [0, 0, 4, 1])) = 1025" by (simp add: from_be32_def)
  show ?thesis
    using a b read_frame_bounded [of "[0, 0, 0, 2, 7, 8, 9]" 1024 "[0, 0, 0, 2, 7, 8]" "[9]"]
      read_frame_bounded [of "[0, 0, 4, 1]" 1024] by simp
qed

end
