(* ===== verification/Envelope.thy ===== *)
theory Envelope
  imports Wire
begin

text \<open>
  The plaintext envelope of \<^verbatim>\<open>crates/protocol/src/envelope.rs\<close>: the value that is encrypted,
  its constructor's checks and its strict CBOR encoding. A Rust \<^verbatim>\<open>String\<close> is its UTF-8 byte
  list. Erasing the payload on drop has no counterpart in a value semantics.
\<close>

datatype ContentType = DotenvRaw | DotenvNormalized

datatype EnvelopeError =
    EE_PayloadTooLarge | EE_InvalidSuggestedName | EE_InvalidTimestamps | EE_EncodedTooLarge
  | EE_InvalidEncoding

fun content_type_u8 :: "ContentType \<Rightarrow> u8" where
  "content_type_u8 DotenvRaw = 0"
| "content_type_u8 DotenvNormalized = 1"

definition content_type_try_from :: "u8 \<Rightarrow> (EnvelopeError, ContentType) result" where
  "content_type_try_from value =
     (if value = 0 then Ok DotenvRaw
      else if value = 1 then Ok DotenvNormalized
      else Err EE_InvalidEncoding)"

text \<open>\<^verbatim>\<open>str::chars\<close> and \<^verbatim>\<open>char::is_control\<close> (general category Cc).\<close>

definition str_chars :: "bytes \<Rightarrow> nat list" where
  "str_chars s = (case utf8_chars s of Some cs \<Rightarrow> cs | None \<Rightarrow> [])"

definition is_control :: "nat \<Rightarrow> bool" where
  "is_control c \<longleftrightarrow> c < 32 \<or> (127 \<le> c \<and> c < 160)"

definition suggested_name_new :: "bytes \<Rightarrow> (EnvelopeError, bytes) result" where
  "suggested_name_new value =
     (if value = [] \<or> length value > MAX_SUGGESTED_NAME_BYTES
         \<or> list_ex is_control (str_chars value)
         \<or> list_ex (\<lambda>c. c = 47 \<or> c = 92) (str_chars value)
      then Err EE_InvalidSuggestedName else Ok value)"

record SecretEnvelope =
  env_content_type :: ContentType
  env_suggested_name :: "bytes option"
  env_created_at_unix_ms :: u64
  env_expires_at_unix_ms :: u64
  env_payload :: bytes

definition envelope_new ::
  "ContentType \<Rightarrow> bytes option \<Rightarrow> u64 \<Rightarrow> u64 \<Rightarrow> bytes \<Rightarrow> (EnvelopeError, SecretEnvelope) result" where
  "envelope_new content_type suggested_name created_at expires_at payload =
     (if length payload > MAX_PAYLOAD_BYTES then Err EE_PayloadTooLarge
      else if expires_at < created_at then Err EE_InvalidTimestamps
      else Ok \<lparr>env_content_type = content_type, env_suggested_name = suggested_name,
               env_created_at_unix_ms = created_at, env_expires_at_unix_ms = expires_at,
               env_payload = payload\<rparr>)"

definition envelope_encode :: "cbor \<Rightarrow> SecretEnvelope \<Rightarrow> (EnvelopeError, bytes) result" where
  "envelope_encode C e =
     (let body = enc_map C 6 @
        enc_u8 C 0 @ enc_u16 C 1 @
        enc_u8 C 1 @ enc_u8 C (content_type_u8 (env_content_type e)) @
        enc_u8 C 2 @ (case env_suggested_name e of Some name \<Rightarrow> enc_str C name | None \<Rightarrow> enc_null C) @
        enc_u8 C 3 @ enc_u64 C (env_created_at_unix_ms e) @
        enc_u8 C 4 @ enc_u64 C (env_expires_at_unix_ms e) @
        enc_u8 C 5 @ enc_bytes C (env_payload e)
      in if length body > MAX_ENVELOPE_BYTES then Err EE_EncodedTooLarge else Ok body)"

definition envelope_expect_key :: "cbor \<Rightarrow> u8 \<Rightarrow> bytes \<Rightarrow> (EnvelopeError, bytes) result" where
  "envelope_expect_key C expected r =
     bind_res (ok_or EE_InvalidEncoding (dec_u8 C r)) (\<lambda>(k, r).
       if k \<noteq> expected then Err EE_InvalidEncoding else Ok r)"

definition decode_suggested_name ::
  "cbor \<Rightarrow> bytes \<Rightarrow> (EnvelopeError, bytes option \<times> bytes) result" where
  "decode_suggested_name C r =
     bind_res (ok_or EE_InvalidEncoding (dec_datatype C r)) (\<lambda>t. case t of
       TNull \<Rightarrow> bind_res (ok_or EE_InvalidEncoding (dec_null C r)) (\<lambda>r. Ok (None, r))
     | TString \<Rightarrow> bind_res (ok_or EE_InvalidEncoding (dec_str C r)) (\<lambda>(s, r).
         bind_res (suggested_name_new s) (\<lambda>name. Ok (Some name, r)))
     | TOther \<Rightarrow> Err EE_InvalidEncoding)"

definition envelope_decode :: "cbor \<Rightarrow> bytes \<Rightarrow> (EnvelopeError, SecretEnvelope) result" where
  "envelope_decode C encoded =
     (if encoded = [] \<or> length encoded > MAX_ENVELOPE_BYTES then Err EE_EncodedTooLarge else
      bind_res (ok_or EE_InvalidEncoding (dec_map C encoded)) (\<lambda>(n, r).
      if n \<noteq> Some 6 then Err EE_InvalidEncoding else
      bind_res (envelope_expect_key C 0 r) (\<lambda>r.
      bind_res (ok_or EE_InvalidEncoding (dec_u16 C r)) (\<lambda>(version, r).
      if version \<noteq> 1 then Err EE_InvalidEncoding else
      bind_res (envelope_expect_key C 1 r) (\<lambda>r.
      bind_res (ok_or EE_InvalidEncoding (dec_u8 C r)) (\<lambda>(ct, r).
      bind_res (content_type_try_from ct) (\<lambda>content_type.
      bind_res (envelope_expect_key C 2 r) (\<lambda>r.
      bind_res (decode_suggested_name C r) (\<lambda>(suggested_name, r).
      bind_res (envelope_expect_key C 3 r) (\<lambda>r.
      bind_res (ok_or EE_InvalidEncoding (dec_u64 C r)) (\<lambda>(created_at, r).
      bind_res (envelope_expect_key C 4 r) (\<lambda>r.
      bind_res (ok_or EE_InvalidEncoding (dec_u64 C r)) (\<lambda>(expires_at, r).
      bind_res (envelope_expect_key C 5 r) (\<lambda>r.
      bind_res (ok_or EE_InvalidEncoding (dec_bytes C r)) (\<lambda>(payload, r).
      if length payload > MAX_PAYLOAD_BYTES then Err EE_PayloadTooLarge else
      if r \<noteq> [] then Err EE_InvalidEncoding else
      envelope_new content_type suggested_name created_at expires_at payload)))))))))))))))"

section \<open>The envelope invariant\<close>

text \<open>A display name that cannot be read as a path or move a terminal's cursor.\<close>

definition wf_suggested_name :: "bytes \<Rightarrow> bool" where
  "wf_suggested_name s \<longleftrightarrow> utf8_valid s \<and> s \<noteq> [] \<and> length s \<le> 128 \<and>
     (\<forall>c \<in> set (str_chars s). \<not> is_control c \<and> c \<noteq> 47 \<and> c \<noteq> 92)"

definition wf_envelope :: "SecretEnvelope \<Rightarrow> bool" where
  "wf_envelope e \<longleftrightarrow> length (env_payload e) \<le> MAX_PAYLOAD_BYTES \<and>
     env_created_at_unix_ms e \<le> env_expires_at_unix_ms e \<and>
     (case env_suggested_name e of None \<Rightarrow> True | Some s \<Rightarrow> wf_suggested_name s)"

lemma content_type_roundtrip [simp]: "content_type_try_from (content_type_u8 t) = Ok t"
  by (cases t) (simp_all add: content_type_try_from_def)

lemma content_type_u8_inj [simp]: "content_type_u8 s = content_type_u8 t \<longleftrightarrow> s = t"
  by (cases s; cases t) simp_all

lemma suggested_name_new_Ok:
  "utf8_valid s \<Longrightarrow> suggested_name_new s = Ok n \<longleftrightarrow> n = s \<and> wf_suggested_name s"
  by (auto simp: suggested_name_new_def wf_suggested_name_def limit_defs list_ex_iff)

lemma envelope_new_Ok:
  "envelope_new t n c x p = Ok e \<longleftrightarrow>
     length p \<le> MAX_PAYLOAD_BYTES \<and> c \<le> x \<and>
     e = \<lparr>env_content_type = t, env_suggested_name = n, env_created_at_unix_ms = c,
          env_expires_at_unix_ms = x, env_payload = p\<rparr>"
  by (auto simp: envelope_new_def)

context cbor_lib
begin

lemma envelope_expect_key_ok [simp]: "envelope_expect_key C k (enc_u8 C k @ r) = Ok r"
  by (simp add: envelope_expect_key_def u8_rt)

lemma suggested_name_rt:
  assumes "case n of None \<Rightarrow> True | Some s \<Rightarrow> wf_suggested_name s"
  shows "decode_suggested_name C ((case n of Some s \<Rightarrow> enc_str C s | None \<Rightarrow> enc_null C) @ r) =
    Ok (n, r)"
proof (cases n)
  case None
  then show ?thesis by (simp add: decode_suggested_name_def datatype_null null_rt)
next
  case (Some s)
  then have w: "wf_suggested_name s" using assms by simp
  then have "length s < 2 ^ 64" and u: "utf8_valid s" by (auto simp: wf_suggested_name_def)
  moreover have "suggested_name_new s = Ok s" using w u by (simp add: suggested_name_new_Ok)
  ultimately show ?thesis
    using Some by (simp add: decode_suggested_name_def datatype_str str_rt)
qed

lemma envelope_size:
  assumes "wf_envelope e"
  shows "\<exists>body. envelope_encode C e = Ok body \<and> body \<noteq> [] \<and> length body \<le> MAX_ENVELOPE_BYTES \<and>
    envelope_decode C body = Ok e"
proof -
  let ?name = "case env_suggested_name e of Some s \<Rightarrow> enc_str C s | None \<Rightarrow> enc_null C"
  let ?body = "enc_map C 6 @ enc_u8 C 0 @ enc_u16 C 1 @
        enc_u8 C 1 @ enc_u8 C (content_type_u8 (env_content_type e)) @ enc_u8 C 2 @ ?name @
        enc_u8 C 3 @ enc_u64 C (env_created_at_unix_ms e) @
        enc_u8 C 4 @ enc_u64 C (env_expires_at_unix_ms e) @ enc_u8 C 5 @ enc_bytes C (env_payload e)"
  have p: "length (env_payload e) \<le> MAX_PAYLOAD_BYTES"
    and t: "env_created_at_unix_ms e \<le> env_expires_at_unix_ms e"
    and n: "case env_suggested_name e of None \<Rightarrow> True | Some s \<Rightarrow> wf_suggested_name s"
    using assms by (auto simp: wf_envelope_def)
  have name: "length ?name \<le> 137"
    using n null_size str_size [of "the (env_suggested_name e)"]
    by (auto simp: wf_suggested_name_def split: option.splits)
  have len: "length ?body \<le> MAX_ENVELOPE_BYTES"
    using p name map_size(2) [of 6] u8_size [of 0] u8_size [of 1] u8_size [of 2] u8_size [of 3]
      u8_size [of 4] u8_size [of 5] u8_size [of "content_type_u8 (env_content_type e)"]
      u16_size [of 1] u64_size [of "env_created_at_unix_ms e"]
      u64_size [of "env_expires_at_unix_ms e"] bytes_size [of "env_payload e"]
    by (simp add: limit_defs)
  have m: "enc_map C 6 \<noteq> []" using map_size(1) [of 6] by auto
  then have ne: "?body \<noteq> []" by simp
  have pb: "length (env_payload e) < 2 ^ 64" using p by (simp add: limit_defs)
  have "envelope_decode C ?body =
      envelope_new (env_content_type e) (env_suggested_name e) (env_created_at_unix_ms e)
        (env_expires_at_unix_ms e) (env_payload e)"
    unfolding envelope_decode_def
    using len m p bytes_rt [OF pb, of "[]"]
    by (simp add: map_rt u16_rt u8_rt u64_rt suggested_name_rt [OF n])
  then have "envelope_decode C ?body = Ok e" using p t by (simp add: envelope_new_Ok)
  then show ?thesis using len ne by (auto simp: envelope_encode_def Let_def)
qed

lemma decoded_name_wf:
  assumes "decode_suggested_name C r = Ok (n, r')"
  shows "case n of None \<Rightarrow> True | Some s \<Rightarrow> wf_suggested_name s"
proof -
  obtain t where t: "dec_datatype C r = Some t"
    using assms by (auto simp: decode_suggested_name_def result_simps)
  show ?thesis
    using assms t by (cases t) (auto simp: decode_suggested_name_def result_simps
        suggested_name_new_Ok dest: str_utf8)
qed

lemma decoded_envelope_wf: "envelope_decode C bs = Ok e \<Longrightarrow> wf_envelope e"
  by (auto simp: envelope_decode_def result_simps envelope_new_Ok wf_envelope_def
      dest: decoded_name_wf split: if_splits)

end

lemmas envelope_rt = cbor_lib.envelope_size

section \<open>Properties\<close>

text \<open>
  Every well-formed envelope is encoded within the envelope limit and decodes to itself.
\<close>

theorem envelope_roundtrip:
  assumes "cbor_lib C" and "wf_envelope e"
  shows "\<exists>body. envelope_encode C e = Ok body \<and> length body \<le> MAX_ENVELOPE_BYTES \<and>
    envelope_decode C body = Ok e"
  using envelope_rt [OF assms] by blast

definition sample_envelope :: SecretEnvelope where
  "sample_envelope = \<lparr>env_content_type = DotenvRaw,
     env_suggested_name = Some (map of_char ''app.env''), env_created_at_unix_ms = 1000,
     env_expires_at_unix_ms = 2000, env_payload = map of_char ''KEY=value''\<rparr>"

lemma sample_envelope_wf: "wf_envelope sample_envelope"
  by (simp add: wf_envelope_def sample_envelope_def wf_suggested_name_def utf8_valid_def
      str_chars_def limit_defs is_control_def)

theorem envelope_roundtrip_witness:
  "\<exists>body. envelope_encode rfc8949 sample_envelope = Ok body \<and>
     length body \<le> MAX_ENVELOPE_BYTES \<and> envelope_decode rfc8949 body = Ok sample_envelope"
  by (rule envelope_roundtrip [OF rfc.cbor_lib_axioms sample_envelope_wf])

text \<open>
  Whatever plaintext is decoded, an accepted envelope satisfies the constructor's
  invariant: payload within the limit, expiry not before creation, and a suggested name, if
  any, that is valid UTF-8 of 1 to 128 bytes without control characters and path separators.
\<close>

theorem decoded_envelope_invariant:
  assumes "cbor_lib C" and "envelope_decode C bs = Ok e"
  shows "wf_envelope e"
  using assms by (rule cbor_lib.decoded_envelope_wf)

theorem decoded_envelope_invariant_witness:
  "\<exists>bs. envelope_decode rfc8949 bs = Ok sample_envelope \<and> wf_envelope sample_envelope"
proof -
  obtain bs where "envelope_decode rfc8949 bs = Ok sample_envelope"
    using rfc.envelope_size [OF sample_envelope_wf] by blast
  then show ?thesis using decoded_envelope_invariant [OF rfc.cbor_lib_axioms] by blast
qed

end
