(* ===== verification/Crypto.thy ===== *)
theory Crypto
  imports Wire
begin

text \<open>
  The crypto crate: canonical transcripts (\<^verbatim>\<open>transcript.rs\<close>), key derivation (\<^verbatim>\<open>kdf.rs\<close>),
  endpoint-bound proofs (\<^verbatim>\<open>proof.rs\<close>), payload protection (\<^verbatim>\<open>aead.rs\<close>) and the
  ciphertext digest (\<^verbatim>\<open>digest.rs\<close>). The primitives come from other crates (\<^verbatim>\<open>sha2\<close>,
  \<^verbatim>\<open>hkdf\<close>, \<^verbatim>\<open>hmac\<close>, \<^verbatim>\<open>chacha20poly1305\<close>, \<^verbatim>\<open>getrandom\<close>): they are the fields of the
  record \<open>primitives\<close>, an argument of every function that uses them, and the locale
  \<open>crypto_lib\<close> states what the crate relies on: output lengths, totality on the sizes used,
  and that decryption inverts encryption under the same key, nonce and associated data. No law
  says that a primitive is hard to invert or to forge.
\<close>

datatype CryptoError =
    CE_InvalidNetworkId | CE_InvalidPeerIdentity | CE_TranscriptTooLarge | CE_KeyDerivation
  | CE_EntropyUnavailable | CE_Encryption | CE_Decryption

record primitives =
  sha256 :: "bytes \<Rightarrow> bytes"
  hkdf_expand :: "bytes \<Rightarrow> bytes \<Rightarrow> bytes \<Rightarrow> nat \<Rightarrow> bytes option"
  hmac_sha256 :: "bytes \<Rightarrow> bytes \<Rightarrow> bytes option"
  aead_encrypt :: "bytes \<Rightarrow> bytes \<Rightarrow> bytes \<Rightarrow> bytes \<Rightarrow> bytes option"
  aead_decrypt :: "bytes \<Rightarrow> bytes \<Rightarrow> bytes \<Rightarrow> bytes \<Rightarrow> bytes option"

text \<open>
  \<open>hkdf_expand P salt ikm info n\<close> is \<^verbatim>\<open>Hkdf::new(Some(salt), ikm).expand(info, out)\<close> for an
  output buffer of \<open>n\<close> bytes; \<open>aead_encrypt P key nonce msg aad\<close> and \<open>aead_decrypt\<close> are the two
  directions of XChaCha20-Poly1305.
\<close>

locale crypto_lib =
  fixes P :: primitives
  assumes sha256_length: "length (sha256 P m) = 32"
    and hkdf_total: "n \<le> 8160 \<Longrightarrow> \<exists>out. hkdf_expand P salt ikm info n = Some out \<and> length out = n"
    and hmac_total: "\<exists>tag. hmac_sha256 P key m = Some tag \<and> length tag = 32"
    and aead_total: "length key = 32 \<Longrightarrow> length nonce = 24 \<Longrightarrow> length m < 2 ^ 32 \<Longrightarrow>
      \<exists>c. aead_encrypt P key nonce m aad = Some c \<and> length c = length m + 16"
    and aead_inverse: "aead_encrypt P key nonce m aad = Some c \<Longrightarrow>
      aead_decrypt P key nonce c aad = Some m"

section \<open>Protocol values\<close>

definition PROTOCOL_VERSION :: u16 where "PROTOCOL_VERSION = 1"

record PeerContext =
  ctx_network_id :: bytes
  ctx_room_id :: bytes
  ctx_sender_peer_id :: bytes
  ctx_receiver_peer_id :: bytes

record DerivedRoot =
  root_room_id :: bytes
  root_authentication_key :: bytes
  root_session_base_key :: bytes

record SessionKeys =
  payload_key :: bytes
  acknowledgement_key :: bytes

record OfferProofInput =
  opi_context :: PeerContext
  opi_receiver_nonce :: bytes
  opi_sender_nonce :: bytes
  opi_claim_id :: bytes
  opi_expires_at_unix_ms :: u64
  opi_content_type :: u8
  opi_plaintext_length :: u32
  opi_aead_nonce :: bytes
  opi_ciphertext_digest :: bytes

record PayloadAadInput =
  aad_context :: PeerContext
  aad_receiver_nonce :: bytes
  aad_sender_nonce :: bytes
  aad_claim_id :: bytes
  aad_expires_at_unix_ms :: u64
  aad_content_type :: u8
  aad_plaintext_length :: u32

text \<open>\<^verbatim>\<open>ct_eq\<close> on byte arrays decides equality.\<close>

definition verifies :: "bytes \<Rightarrow> bytes \<Rightarrow> bool" where
  "verifies proof supplied \<longleftrightarrow> proof = supplied"

section \<open>Transcripts\<close>

definition ensure_capacity :: "bytes \<Rightarrow> nat \<Rightarrow> (CryptoError, unit) result" where
  "ensure_capacity t additional =
     bind_res (ok_or CE_TranscriptTooLarge (checked_add_usize (length t) additional)) (\<lambda>len.
     if len > MAX_TRANSCRIPT_BYTES then Err CE_TranscriptTooLarge else Ok ())"

definition append_fixed :: "bytes \<Rightarrow> bytes \<Rightarrow> (CryptoError, bytes) result" where
  "append_fixed t value =
     bind_res (ensure_capacity t (length value)) (\<lambda>_. Ok (t @ value))"

definition append_u16 :: "bytes \<Rightarrow> u16 \<Rightarrow> (CryptoError, bytes) result" where
  "append_u16 t value = append_fixed t (be16 value)"

definition append_u32 :: "bytes \<Rightarrow> u32 \<Rightarrow> (CryptoError, bytes) result" where
  "append_u32 t value = append_fixed t (be32 value)"

definition append_u64 :: "bytes \<Rightarrow> u64 \<Rightarrow> (CryptoError, bytes) result" where
  "append_u64 t value = append_fixed t (be64 value)"

definition append_bytes :: "bytes \<Rightarrow> bytes \<Rightarrow> (CryptoError, bytes) result" where
  "append_bytes t value =
     bind_res (ok_or CE_TranscriptTooLarge (u32_try_from (length value))) (\<lambda>len.
     bind_res (ensure_capacity t (saturating_add_usize 4 (length value))) (\<lambda>_.
     Ok (t @ be32 len @ value)))"

definition transcript_new :: "bytes \<Rightarrow> (CryptoError, bytes) result" where
  "transcript_new domain = append_bytes [] domain"

section \<open>Context validation\<close>

definition validate_network_id :: "bytes \<Rightarrow> (CryptoError, bytes) result" where
  "validate_network_id bytes =
     (if bytes = [] \<or> length bytes > MAX_NETWORK_ID_BYTES \<or> \<not> list_all is_ascii_graphic bytes
      then Err CE_InvalidNetworkId else Ok bytes)"

definition validate_context :: "PeerContext \<Rightarrow> (CryptoError, unit) result" where
  "validate_context ctx =
     bind_res (validate_network_id (ctx_network_id ctx)) (\<lambda>_.
     if ctx_sender_peer_id ctx = [] \<or> ctx_receiver_peer_id ctx = []
     then Err CE_InvalidPeerIdentity else Ok ())"

section \<open>Key derivation\<close>

definition ROOT_SALT_DOMAIN :: bytes where "ROOT_SALT_DOMAIN = ascii ''envshare/root-salt/v1''"
definition ROOM_INFO_DOMAIN :: bytes where "ROOM_INFO_DOMAIN = ascii ''envshare/room-id/v1''"
definition AUTH_INFO_DOMAIN :: bytes where "AUTH_INFO_DOMAIN = ascii ''envshare/auth-key/v1''"
definition SESSION_BASE_INFO_DOMAIN :: bytes where
  "SESSION_BASE_INFO_DOMAIN = ascii ''envshare/session-base-key/v1''"
definition SESSION_SALT_DOMAIN :: bytes where
  "SESSION_SALT_DOMAIN = ascii ''envshare/session-salt/v1''"
definition PAYLOAD_KEY_DOMAIN :: bytes where "PAYLOAD_KEY_DOMAIN = ascii ''envshare/payload-key/v1''"
definition ACK_KEY_DOMAIN :: bytes where "ACK_KEY_DOMAIN = ascii ''envshare/ack-key/v1''"

definition expand :: "primitives \<Rightarrow> nat \<Rightarrow> bytes \<Rightarrow> bytes \<Rightarrow> bytes \<Rightarrow> (CryptoError, bytes) result" where
  "expand P N salt ikm info = ok_or CE_KeyDerivation (hkdf_expand P salt ikm info N)"

definition network_info :: "bytes \<Rightarrow> bytes \<Rightarrow> (CryptoError, bytes) result" where
  "network_info domain network_id =
     bind_res (ok_or CE_InvalidNetworkId (u32_try_from (length network_id))) (\<lambda>len.
     Ok (domain @ be32 len @ network_id))"

definition session_info :: "bytes \<Rightarrow> PeerContext \<Rightarrow> bytes \<Rightarrow> (CryptoError, bytes) result" where
  "session_info domain ctx claim_id =
     bind_res (transcript_new domain) (\<lambda>t.
     bind_res (append_bytes t (ctx_network_id ctx)) (\<lambda>t.
     bind_res (append_bytes t (ctx_room_id ctx)) (\<lambda>t.
     bind_res (append_bytes t (ctx_sender_peer_id ctx)) (\<lambda>t.
     bind_res (append_bytes t (ctx_receiver_peer_id ctx)) (\<lambda>t.
     append_bytes t claim_id)))))"

definition derive_root :: "primitives \<Rightarrow> bytes \<Rightarrow> bytes \<Rightarrow> (CryptoError, DerivedRoot) result" where
  "derive_root P secret network_id =
     bind_res (validate_network_id network_id) (\<lambda>network_id.
     let root_salt = sha256 P ROOT_SALT_DOMAIN in
     bind_res (network_info ROOM_INFO_DOMAIN network_id) (\<lambda>info.
     bind_res (expand P 16 root_salt secret info) (\<lambda>room_id.
     bind_res (network_info AUTH_INFO_DOMAIN network_id) (\<lambda>info.
     bind_res (expand P 32 root_salt secret info) (\<lambda>authentication_key.
     bind_res (network_info SESSION_BASE_INFO_DOMAIN network_id) (\<lambda>info.
     bind_res (expand P 32 root_salt secret info) (\<lambda>session_base_key.
     Ok \<lparr>root_room_id = room_id, root_authentication_key = authentication_key,
         root_session_base_key = session_base_key\<rparr>)))))))"

definition derive_session ::
  "primitives \<Rightarrow> bytes \<Rightarrow> PeerContext \<Rightarrow> bytes \<Rightarrow> bytes \<Rightarrow> bytes \<Rightarrow> (CryptoError, SessionKeys) result" where
  "derive_session P session_base_key ctx receiver_nonce sender_nonce claim_id =
     bind_res (validate_context ctx) (\<lambda>_.
     let session_salt = sha256 P (SESSION_SALT_DOMAIN @ receiver_nonce @ sender_nonce) in
     bind_res (session_info PAYLOAD_KEY_DOMAIN ctx claim_id) (\<lambda>payload_info.
     bind_res (session_info ACK_KEY_DOMAIN ctx claim_id) (\<lambda>acknowledgement_info.
     bind_res (expand P 32 session_salt session_base_key payload_info) (\<lambda>pk.
     bind_res (expand P 32 session_salt session_base_key acknowledgement_info) (\<lambda>ak.
     Ok \<lparr>payload_key = pk, acknowledgement_key = ak\<rparr>)))))"

section \<open>Proofs\<close>

definition OPEN_DOMAIN :: bytes where "OPEN_DOMAIN = ascii ''envshare/open/v1''"
definition OFFER_DOMAIN :: bytes where "OFFER_DOMAIN = ascii ''envshare/offer/v1''"
definition ACK_DOMAIN :: bytes where "ACK_DOMAIN = ascii ''envshare/ack/v1''"

definition common_transcript :: "bytes \<Rightarrow> PeerContext \<Rightarrow> (CryptoError, bytes) result" where
  "common_transcript domain ctx =
     bind_res (transcript_new domain) (\<lambda>t.
     bind_res (append_u16 t PROTOCOL_VERSION) (\<lambda>t.
     bind_res (append_bytes t (ctx_network_id ctx)) (\<lambda>t.
     bind_res (append_bytes t (ctx_room_id ctx)) (\<lambda>t.
     bind_res (append_bytes t (ctx_sender_peer_id ctx)) (\<lambda>t.
     append_bytes t (ctx_receiver_peer_id ctx))))))"

definition authenticate :: "primitives \<Rightarrow> bytes \<Rightarrow> bytes \<Rightarrow> (CryptoError, bytes) result" where
  "authenticate P key transcript = ok_or CE_KeyDerivation (hmac_sha256 P key transcript)"

text \<open>
  Each proof function is the HMAC of a transcript; the transcripts are definitions of their
  own so that they can be compared.
\<close>

definition open_transcript :: "PeerContext \<Rightarrow> bytes \<Rightarrow> (CryptoError, bytes) result" where
  "open_transcript ctx receiver_nonce =
     bind_res (validate_context ctx) (\<lambda>_.
     bind_res (common_transcript OPEN_DOMAIN ctx) (\<lambda>t.
     append_bytes t receiver_nonce))"

definition open_proof :: "primitives \<Rightarrow> bytes \<Rightarrow> PeerContext \<Rightarrow> bytes \<Rightarrow> (CryptoError, bytes) result" where
  "open_proof P key ctx receiver_nonce =
     bind_res (open_transcript ctx receiver_nonce) (authenticate P key)"

definition offer_transcript :: "OfferProofInput \<Rightarrow> (CryptoError, bytes) result" where
  "offer_transcript i =
     bind_res (validate_context (opi_context i)) (\<lambda>_.
     bind_res (common_transcript OFFER_DOMAIN (opi_context i)) (\<lambda>t.
     bind_res (append_bytes t (opi_receiver_nonce i)) (\<lambda>t.
     bind_res (append_bytes t (opi_sender_nonce i)) (\<lambda>t.
     bind_res (append_bytes t (opi_claim_id i)) (\<lambda>t.
     bind_res (append_u64 t (opi_expires_at_unix_ms i)) (\<lambda>t.
     bind_res (append_u16 t (ucast (opi_content_type i))) (\<lambda>t.
     bind_res (append_u32 t (opi_plaintext_length i)) (\<lambda>t.
     bind_res (append_bytes t (opi_aead_nonce i)) (\<lambda>t.
     append_bytes t (opi_ciphertext_digest i))))))))))"

definition offer_proof :: "primitives \<Rightarrow> bytes \<Rightarrow> OfferProofInput \<Rightarrow> (CryptoError, bytes) result" where
  "offer_proof P key i = bind_res (offer_transcript i) (authenticate P key)"

definition acknowledgement_transcript ::
  "PeerContext \<Rightarrow> bytes \<Rightarrow> bytes \<Rightarrow> (CryptoError, bytes) result" where
  "acknowledgement_transcript ctx claim_id ciphertext_digest =
     bind_res (validate_context ctx) (\<lambda>_.
     bind_res (common_transcript ACK_DOMAIN ctx) (\<lambda>t.
     bind_res (append_bytes t claim_id) (\<lambda>t.
     append_bytes t ciphertext_digest)))"

definition acknowledgement_proof ::
  "primitives \<Rightarrow> bytes \<Rightarrow> PeerContext \<Rightarrow> bytes \<Rightarrow> bytes \<Rightarrow> (CryptoError, bytes) result" where
  "acknowledgement_proof P key ctx claim_id ciphertext_digest =
     bind_res (acknowledgement_transcript ctx claim_id ciphertext_digest) (authenticate P key)"

section \<open>Payload protection\<close>

definition PAYLOAD_AAD_DOMAIN :: bytes where "PAYLOAD_AAD_DOMAIN = ascii ''envshare/payload-aad/v1''"

definition payload_associated_data :: "PayloadAadInput \<Rightarrow> (CryptoError, bytes) result" where
  "payload_associated_data i =
     bind_res (validate_context (aad_context i)) (\<lambda>_.
     bind_res (transcript_new PAYLOAD_AAD_DOMAIN) (\<lambda>t.
     bind_res (append_u16 t PROTOCOL_VERSION) (\<lambda>t.
     bind_res (append_bytes t (ctx_network_id (aad_context i))) (\<lambda>t.
     bind_res (append_bytes t (ctx_room_id (aad_context i))) (\<lambda>t.
     bind_res (append_bytes t (ctx_sender_peer_id (aad_context i))) (\<lambda>t.
     bind_res (append_bytes t (ctx_receiver_peer_id (aad_context i))) (\<lambda>t.
     bind_res (append_bytes t (aad_receiver_nonce i)) (\<lambda>t.
     bind_res (append_bytes t (aad_sender_nonce i)) (\<lambda>t.
     bind_res (append_bytes t (aad_claim_id i)) (\<lambda>t.
     bind_res (append_u64 t (aad_expires_at_unix_ms i)) (\<lambda>t.
     bind_res (append_u16 t (ucast (aad_content_type i))) (\<lambda>t.
     append_u32 t (aad_plaintext_length i)))))))))))))"

text \<open>\<^verbatim>\<open>getrandom::fill\<close> is the operating system's answer to a request for a number of bytes.\<close>

definition generate_aead_nonce :: "(nat \<Rightarrow> bytes option) \<Rightarrow> (CryptoError, bytes) result" where
  "generate_aead_nonce getrandom = ok_or CE_EntropyUnavailable (getrandom 24)"

definition encrypt_payload ::
  "primitives \<Rightarrow> bytes \<Rightarrow> bytes \<Rightarrow> bytes \<Rightarrow> bytes \<Rightarrow> (CryptoError, bytes) result" where
  "encrypt_payload P key nonce plaintext associated_data =
     ok_or CE_Encryption (aead_encrypt P key nonce plaintext associated_data)"

definition decrypt_payload ::
  "primitives \<Rightarrow> bytes \<Rightarrow> bytes \<Rightarrow> bytes \<Rightarrow> bytes \<Rightarrow> (CryptoError, bytes) result" where
  "decrypt_payload P key nonce ciphertext associated_data =
     ok_or CE_Decryption (aead_decrypt P key nonce ciphertext associated_data)"

definition ciphertext_digest :: "primitives \<Rightarrow> bytes \<Rightarrow> bytes \<Rightarrow> bytes" where
  "ciphertext_digest P nonce ciphertext = sha256 P (nonce @ ciphertext)"

definition verify_ciphertext_digest :: "primitives \<Rightarrow> bytes \<Rightarrow> bytes \<Rightarrow> bytes \<Rightarrow> bool" where
  "verify_ciphertext_digest P expected nonce ciphertext \<longleftrightarrow>
     ciphertext_digest P nonce ciphertext = expected"

section \<open>Transcripts as lists of fields\<close>

datatype field = FBytes bytes | FU16 u16 | FU32 u32 | FU64 u64

fun render :: "field \<Rightarrow> bytes" where
  "render (FBytes bs) = be32 (of_nat (length bs)) @ bs"
| "render (FU16 w) = be16 w"
| "render (FU32 w) = be32 w"
| "render (FU64 w) = be64 w"

definition render_all :: "field list \<Rightarrow> bytes" where
  "render_all fs = concat (map render fs)"

fun same_kind :: "field \<Rightarrow> field \<Rightarrow> bool" where
  "same_kind (FBytes _) (FBytes _) = True"
| "same_kind (FU16 _) (FU16 _) = True"
| "same_kind (FU32 _) (FU32 _) = True"
| "same_kind (FU64 _) (FU64 _) = True"
| "same_kind _ _ = False"

fun field_ok :: "field \<Rightarrow> bool" where
  "field_ok (FBytes bs) = (length bs < 4294967296)"
| "field_ok _ = True"

fun append_field :: "bytes \<Rightarrow> field \<Rightarrow> (CryptoError, bytes) result" where
  "append_field t (FBytes bs) = append_bytes t bs"
| "append_field t (FU16 w) = append_u16 t w"
| "append_field t (FU32 w) = append_u32 t w"
| "append_field t (FU64 w) = append_u64 t w"

fun append_fields :: "bytes \<Rightarrow> field list \<Rightarrow> (CryptoError, bytes) result" where
  "append_fields t [] = Ok t"
| "append_fields t (f # fs) = bind_res (append_field t f) (\<lambda>t. append_fields t fs)"

lemma append_field_eq:
  "append_field t f =
     (if length t + length (render f) \<le> MAX_TRANSCRIPT_BYTES then Ok (t @ render f)
      else Err CE_TranscriptTooLarge)"
  by (cases f)
    (auto simp: append_bytes_def append_u16_def append_u32_def append_u64_def append_fixed_def
      ensure_capacity_def checked_add_usize_def saturating_add_usize_def usize_max_def limit_defs
      u32_try_from_def bind_res_def)

lemma append_fields_eq:
  assumes "length t \<le> MAX_TRANSCRIPT_BYTES"
  shows "append_fields t fs =
     (if length t + length (render_all fs) \<le> MAX_TRANSCRIPT_BYTES then Ok (t @ render_all fs)
      else Err CE_TranscriptTooLarge)"
  using assms
proof (induction fs arbitrary: t)
  case Nil
  then show ?case by (simp add: render_all_def)
next
  case (Cons f fs)
  then show ?case by (simp add: append_field_eq render_all_def)
qed

lemma append_fields_Ok:
  "append_fields [] fs = Ok t \<longleftrightarrow> length (render_all fs) \<le> MAX_TRANSCRIPT_BYTES \<and> t = render_all fs"
  by (auto simp: append_fields_eq)

lemma bind_res_assoc [simp]: "bind_res (bind_res m f) g = bind_res m (\<lambda>x. bind_res (f x) g)"
  by (cases m) simp_all

lemma bind_res_Ok_id: "bind_res m Ok = m"
  by (cases m) simp_all


lemma render_prefix_inj:
  assumes "same_kind f g" and "field_ok f" and "field_ok g" and "render f @ r = render g @ s"
  shows "f = g \<and> r = s"
proof (cases f)
  case (FBytes a)
  then obtain b where g: "g = FBytes b" using assms(1) by (cases g) auto
  have "be32 (of_nat (length a)) @ a @ r = be32 (of_nat (length b)) @ b @ s"
    using assms(4) FBytes g by simp
  then have w: "(of_nat (length a) :: u32) = of_nat (length b)" and rest: "a @ r = b @ s"
    by (simp_all add: append_eq_append_conv)
  have "length a = length b"
    using w assms(2,3) FBytes g by (metis field_ok.simps(1) unat_u32_of_nat)
  then show ?thesis using rest FBytes g by (simp add: append_eq_append_conv)
qed (use assms in \<open>cases g; simp add: append_eq_append_conv\<close>)+

lemma render_all_inj:
  assumes "list_all2 same_kind fs gs" and "list_all field_ok fs" and "list_all field_ok gs"
    and "render_all fs = render_all gs"
  shows "fs = gs"
  using assms
proof (induction rule: list_all2_induct)
  case Nil
  then show ?case by simp
next
  case (Cons f fs g gs)
  have "render f @ render_all fs = render g @ render_all gs"
    using Cons.prems by (simp add: render_all_def)
  then have "f = g \<and> render_all fs = render_all gs"
    using Cons by (intro render_prefix_inj) simp_all
  then show ?case using Cons by simp
qed

lemma render_all_fits: "length (render_all fs) \<le> MAX_TRANSCRIPT_BYTES \<Longrightarrow> list_all field_ok fs"
proof (induction fs)
  case Nil
  then show ?case by simp
next
  case (Cons f fs)
  then have "length (render f) + length (render_all fs) \<le> MAX_TRANSCRIPT_BYTES"
    by (simp add: render_all_def)
  then have "field_ok f" by (cases f) (simp_all add: limit_defs)
  then show ?case using Cons by (simp add: render_all_def)
qed

lemma append_fields_inj:
  assumes "append_fields [] fs = Ok t" and "append_fields [] gs = Ok t" and "list_all2 same_kind fs gs"
  shows "fs = gs"
  using assms by (intro render_all_inj) (auto simp: append_fields_Ok intro: render_all_fits)

text \<open>Transcripts of different domains differ, whatever follows the domain.\<close>

lemma append_fields_domain:
  assumes "append_fields [] (FBytes d # fs) = Ok t" and "append_fields [] (FBytes e # gs) = Ok t"
  shows "d = e"
proof -
  have "render (FBytes d) @ render_all fs = render (FBytes e) @ render_all gs"
    using assms unfolding append_fields_Ok by (simp add: render_all_def)
  moreover have "field_ok (FBytes d)" and "field_ok (FBytes e)"
    using assms [unfolded append_fields_Ok] render_all_fits by fastforce+
  ultimately show ?thesis using render_prefix_inj [of "FBytes d" "FBytes e"] by auto
qed

section \<open>The five transcripts\<close>

definition context_fields :: "PeerContext \<Rightarrow> field list" where
  "context_fields ctx = [FBytes (ctx_network_id ctx), FBytes (ctx_room_id ctx),
     FBytes (ctx_sender_peer_id ctx), FBytes (ctx_receiver_peer_id ctx)]"

definition open_fields :: "PeerContext \<Rightarrow> bytes \<Rightarrow> field list" where
  "open_fields ctx n = FBytes OPEN_DOMAIN # FU16 PROTOCOL_VERSION # context_fields ctx @ [FBytes n]"

definition offer_fields :: "OfferProofInput \<Rightarrow> field list" where
  "offer_fields i = FBytes OFFER_DOMAIN # FU16 PROTOCOL_VERSION # context_fields (opi_context i) @
     [FBytes (opi_receiver_nonce i), FBytes (opi_sender_nonce i), FBytes (opi_claim_id i),
      FU64 (opi_expires_at_unix_ms i), FU16 (ucast (opi_content_type i)),
      FU32 (opi_plaintext_length i), FBytes (opi_aead_nonce i), FBytes (opi_ciphertext_digest i)]"

definition ack_fields :: "PeerContext \<Rightarrow> bytes \<Rightarrow> bytes \<Rightarrow> field list" where
  "ack_fields ctx c d = FBytes ACK_DOMAIN # FU16 PROTOCOL_VERSION # context_fields ctx @
     [FBytes c, FBytes d]"

definition session_fields :: "bytes \<Rightarrow> PeerContext \<Rightarrow> bytes \<Rightarrow> field list" where
  "session_fields domain ctx c = FBytes domain # context_fields ctx @ [FBytes c]"

definition aad_fields :: "PayloadAadInput \<Rightarrow> field list" where
  "aad_fields i = FBytes PAYLOAD_AAD_DOMAIN # FU16 PROTOCOL_VERSION #
     context_fields (aad_context i) @
     [FBytes (aad_receiver_nonce i), FBytes (aad_sender_nonce i), FBytes (aad_claim_id i),
      FU64 (aad_expires_at_unix_ms i), FU16 (ucast (aad_content_type i)),
      FU32 (aad_plaintext_length i)]"

lemmas field_list_defs = context_fields_def open_fields_def offer_fields_def ack_fields_def
  session_fields_def aad_fields_def

definition valid_context :: "PeerContext \<Rightarrow> bool" where
  "valid_context ctx \<longleftrightarrow> validate_context ctx = Ok ()"

lemma validate_context_bind:
  "bind_res (validate_context ctx) f = Ok x \<longleftrightarrow> valid_context ctx \<and> f () = Ok x"
  by (auto simp: valid_context_def result_simps)

lemma transcripts_as_fields:
  "session_info domain ctx c = append_fields [] (session_fields domain ctx c)"
  "open_transcript ctx n = bind_res (validate_context ctx) (\<lambda>_. append_fields [] (open_fields ctx n))"
  "acknowledgement_transcript ctx c d =
     bind_res (validate_context ctx) (\<lambda>_. append_fields [] (ack_fields ctx c d))"
  "offer_transcript i =
     bind_res (validate_context (opi_context i)) (\<lambda>_. append_fields [] (offer_fields i))"
  "payload_associated_data j =
     bind_res (validate_context (aad_context j)) (\<lambda>_. append_fields [] (aad_fields j))"
  by (simp_all add: session_info_def open_transcript_def acknowledgement_transcript_def
      offer_transcript_def payload_associated_data_def common_transcript_def transcript_new_def
      field_list_defs bind_res_Ok_id cong: if_cong)

lemma domains_distinct:
  "distinct [OPEN_DOMAIN, OFFER_DOMAIN, ACK_DOMAIN, PAYLOAD_AAD_DOMAIN, PAYLOAD_KEY_DOMAIN,
     ACK_KEY_DOMAIN]"
  by (simp add: OPEN_DOMAIN_def OFFER_DOMAIN_def ACK_DOMAIN_def PAYLOAD_AAD_DOMAIN_def
      PAYLOAD_KEY_DOMAIN_def ACK_KEY_DOMAIN_def ascii_def)


lemma content_u16_inj [simp]: "(ucast (a :: u8) :: u16) = ucast b \<longleftrightarrow> a = b"
proof
  assume "(ucast a :: u16) = ucast b"
  then have "unat (ucast a :: u16) = unat (ucast b :: u16)" by simp
  then show "a = b"
    by (simp add: unsigned_ucast_eq take_bit_nat_eq_self word_unat_eq_iff
        order.strict_trans [OF byte_lt_256])
qed simp

lemma field_list_kinds:
  "list_all2 same_kind (open_fields c n) (open_fields c' n')"
  "list_all2 same_kind (ack_fields c x y) (ack_fields c' x' y')"
  "list_all2 same_kind (session_fields d c x) (session_fields d' c' x')"
  "list_all2 same_kind (offer_fields i) (offer_fields i')"
  "list_all2 same_kind (aad_fields j) (aad_fields j')"
  by (simp_all add: field_list_defs)

lemma field_lists_inj:
  "open_fields c n = open_fields c' n' \<longleftrightarrow> c = c' \<and> n = n'"
  "ack_fields c x y = ack_fields c' x' y' \<longleftrightarrow> c = c' \<and> x = x' \<and> y = y'"
  "session_fields d c x = session_fields d' c' x' \<longleftrightarrow> d = d' \<and> c = c' \<and> x = x'"
  "offer_fields i = offer_fields i' \<longleftrightarrow> i = i'"
  "aad_fields j = aad_fields j' \<longleftrightarrow> j = j'"
  by (auto simp: field_list_defs)

text \<open>Sizes: the fixed parts, and what the peer identities add.\<close>

lemma network_id_size: "valid_context ctx \<Longrightarrow> length (ctx_network_id ctx) \<le> 64"
  by (auto simp: valid_context_def validate_context_def validate_network_id_def result_simps
      limit_defs split: if_splits)

lemmas domain_defs = OPEN_DOMAIN_def OFFER_DOMAIN_def ACK_DOMAIN_def PAYLOAD_AAD_DOMAIN_def
  PAYLOAD_KEY_DOMAIN_def ACK_KEY_DOMAIN_def ascii_def

definition peers_fit :: "PeerContext \<Rightarrow> bool" where
  "peers_fit ctx \<longleftrightarrow> length (ctx_room_id ctx) = 16 \<and>
     length (ctx_sender_peer_id ctx) + length (ctx_receiver_peer_id ctx) \<le> 7800"

lemma transcripts_succeed:
  assumes "valid_context ctx" and "peers_fit ctx"
  shows "length n = 32 \<Longrightarrow> \<exists>t. open_transcript ctx n = Ok t"
    and "length c = 16 \<Longrightarrow> length d = 32 \<Longrightarrow> \<exists>t. acknowledgement_transcript ctx c d = Ok t"
    and "length c = 16 \<Longrightarrow> domain \<in> {PAYLOAD_KEY_DOMAIN, ACK_KEY_DOMAIN} \<Longrightarrow>
      \<exists>t. session_info domain ctx c = Ok t"
    and "opi_context i = ctx \<Longrightarrow> length (opi_receiver_nonce i) = 32 \<Longrightarrow>
      length (opi_sender_nonce i) = 32 \<Longrightarrow> length (opi_claim_id i) = 16 \<Longrightarrow>
      length (opi_aead_nonce i) = 24 \<Longrightarrow> length (opi_ciphertext_digest i) = 32 \<Longrightarrow>
      \<exists>t. offer_transcript i = Ok t"
    and "aad_context j = ctx \<Longrightarrow> length (aad_receiver_nonce j) = 32 \<Longrightarrow>
      length (aad_sender_nonce j) = 32 \<Longrightarrow> length (aad_claim_id j) = 16 \<Longrightarrow>
      \<exists>t. payload_associated_data j = Ok t"
  using assms network_id_size [OF assms(1)]
  by (auto simp: transcripts_as_fields append_fields_eq valid_context_def peers_fit_def
      render_all_def field_list_defs limit_defs domain_defs simp del: append_fields.simps)

lemma transcript_eqs:
  "open_transcript c n = Ok t \<longleftrightarrow> valid_context c \<and> append_fields [] (open_fields c n) = Ok t"
  "offer_transcript i = Ok t \<longleftrightarrow>
     valid_context (opi_context i) \<and> append_fields [] (offer_fields i) = Ok t"
  "acknowledgement_transcript c x y = Ok t \<longleftrightarrow>
     valid_context c \<and> append_fields [] (ack_fields c x y) = Ok t"
  "payload_associated_data j = Ok t \<longleftrightarrow>
     valid_context (aad_context j) \<and> append_fields [] (aad_fields j) = Ok t"
  "session_info d c x = Ok t \<longleftrightarrow> append_fields [] (session_fields d c x) = Ok t"
  by (simp_all add: transcripts_as_fields validate_context_bind)

section \<open>Success of the operations\<close>

lemma network_info_ok: "length net \<le> 64 \<Longrightarrow> \<exists>i. network_info d net = Ok i"
  by (simp add: network_info_def u32_try_from_def)

context crypto_lib
begin

lemma expand_ok: "n \<le> 8160 \<Longrightarrow> \<exists>k. expand P n salt ikm info = Ok k \<and> length k = n"
  using hkdf_total [of n salt ikm info] by (auto simp: expand_def)

lemma authenticate_ok: "\<exists>tag. authenticate P key t = Ok tag \<and> length tag = 32"
  using hmac_total [of key t] by (auto simp: authenticate_def)

lemma digest_length: "length (ciphertext_digest P nonce c) = 32"
  by (simp add: ciphertext_digest_def sha256_length)

lemma derive_root_ok:
  assumes "validate_network_id net = Ok net"
  obtains root where "derive_root P secret net = Ok root" "length (root_room_id root) = 16"
    "length (root_authentication_key root) = 32" "length (root_session_base_key root) = 32"
proof -
  have len: "length net \<le> 64"
    using assms by (auto simp: validate_network_id_def limit_defs split: if_splits)
  obtain i1 i2 i3 where i: "network_info ROOM_INFO_DOMAIN net = Ok i1"
    "network_info AUTH_INFO_DOMAIN net = Ok i2" "network_info SESSION_BASE_INFO_DOMAIN net = Ok i3"
    using network_info_ok [OF len] by meson
  let ?x = "\<lambda>n i. expand P n (sha256 P ROOT_SALT_DOMAIN) secret i"
  obtain a b c where k: "?x 16 i1 = Ok a" "length a = 16" "?x 32 i2 = Ok b" "length b = 32"
    "?x 32 i3 = Ok c" "length c = 32"
    using expand_ok [of 16 _ _ i1] expand_ok [of 32 _ _ i2] expand_ok [of 32 _ _ i3] by auto meson
  show ?thesis
    by (rule that [of "\<lparr>root_room_id = a, root_authentication_key = b, root_session_base_key = c\<rparr>"])
      (use assms i k in \<open>simp_all add: derive_root_def Let_def\<close>)
qed

lemma derive_session_ok:
  assumes "valid_context ctx" and "peers_fit ctx" and "length c = 16"
  obtains keys where "derive_session P base ctx rn sn c = Ok keys"
    "length (payload_key keys) = 32" "length (acknowledgement_key keys) = 32"
proof -
  obtain i1 i2 where i: "session_info PAYLOAD_KEY_DOMAIN ctx c = Ok i1"
    "session_info ACK_KEY_DOMAIN ctx c = Ok i2"
    using transcripts_succeed(3) [OF assms, of PAYLOAD_KEY_DOMAIN]
      transcripts_succeed(3) [OF assms, of ACK_KEY_DOMAIN] by auto
  let ?x = "\<lambda>i. expand P 32 (sha256 P (SESSION_SALT_DOMAIN @ rn @ sn)) base i"
  obtain a b where k: "?x i1 = Ok a" "length a = 32" "?x i2 = Ok b" "length b = 32"
    using expand_ok [of 32 _ _ i1] expand_ok [of 32 _ _ i2] by auto meson
  show ?thesis
    by (rule that [of "\<lparr>payload_key = a, acknowledgement_key = b\<rparr>"])
      (use assms i k in \<open>simp_all add: derive_session_def Let_def valid_context_def\<close>)
qed

lemma open_proof_ok:
  assumes "valid_context ctx" and "peers_fit ctx" and "length n = 32"
  obtains tag where "open_proof P key ctx n = Ok tag" "length tag = 32"
  using transcripts_succeed(1) [OF assms] authenticate_ok [of key] that
  by (fastforce simp: open_proof_def)

lemma acknowledgement_proof_ok:
  assumes "valid_context ctx" and "peers_fit ctx" and "length c = 16" and "length d = 32"
  obtains tag where "acknowledgement_proof P key ctx c d = Ok tag" "length tag = 32"
  using transcripts_succeed(2) [OF assms] authenticate_ok [of key] that
  by (fastforce simp: acknowledgement_proof_def)

lemma offer_proof_ok:
  assumes "valid_context (opi_context i)" and "peers_fit (opi_context i)"
    and "length (opi_receiver_nonce i) = 32" and "length (opi_sender_nonce i) = 32"
    and "length (opi_claim_id i) = 16" and "length (opi_aead_nonce i) = 24"
    and "length (opi_ciphertext_digest i) = 32"
  obtains tag where "offer_proof P key i = Ok tag" "length tag = 32"
  using transcripts_succeed(4) [OF assms(1,2) refl assms(3-7)] authenticate_ok [of key] that
  by (fastforce simp: offer_proof_def)

lemma decrypt_encrypt:
  "encrypt_payload P k n m aad = Ok c \<Longrightarrow> decrypt_payload P k n c aad = Ok m"
  by (auto simp: encrypt_payload_def decrypt_payload_def result_simps dest: aead_inverse)

lemma encrypt_payload_ok:
  assumes "length k = 32" and "length n = 24" and "length m < 2 ^ 32"
  obtains c where "encrypt_payload P k n m aad = Ok c" "length c = length m + 16"
  using aead_total [OF assms, of aad] that by (auto simp: encrypt_payload_def)

end

section \<open>Properties\<close>

text \<open>
  C13: Transcripts are unambiguous: two Open transcripts are equal only for the same context and
  nonce, two Offer transcripts and two associated-data transcripts only for the same input in
  every field, two acknowledgement transcripts only for the same context, claim and digest, and
  two session key infos only for the same purpose, context and claim.
\<close>

theorem transcripts_injective:
  "(open_transcript c n = Ok t \<and> open_transcript c' n' = Ok t \<longrightarrow> c = c' \<and> n = n') \<and>
   (offer_transcript i = Ok t \<and> offer_transcript i' = Ok t \<longrightarrow> i = i') \<and>
   (acknowledgement_transcript c x y = Ok t \<and> acknowledgement_transcript c' x' y' = Ok t \<longrightarrow>
      c = c' \<and> x = x' \<and> y = y') \<and>
   (payload_associated_data j = Ok t \<and> payload_associated_data j' = Ok t \<longrightarrow> j = j') \<and>
   (session_info d c x = Ok t \<and> session_info d' c' x' = Ok t \<longrightarrow> d = d' \<and> c = c' \<and> x = x')"
  unfolding transcript_eqs
  using append_fields_inj [OF _ _ field_list_kinds(1), of c n t c' n']
    append_fields_inj [OF _ _ field_list_kinds(2), of c x y t c' x' y']
    append_fields_inj [OF _ _ field_list_kinds(3), of d c x t d' c' x']
    append_fields_inj [OF _ _ field_list_kinds(4), of i t i']
    append_fields_inj [OF _ _ field_list_kinds(5), of j t j']
  unfolding field_lists_inj by blast

definition sample_context :: PeerContext where
  "sample_context = \<lparr>ctx_network_id = ascii ''public-v1'', ctx_room_id = replicate 16 7,
     ctx_sender_peer_id = [1, 2, 3], ctx_receiver_peer_id = [4, 5]\<rparr>"

lemma sample_context_ok: "valid_context sample_context" "peers_fit sample_context"
  by (simp_all add: valid_context_def validate_context_def validate_network_id_def peers_fit_def
      sample_context_def ascii_def is_ascii_graphic_def limit_defs)

definition sample_offer_input :: OfferProofInput where
  "sample_offer_input = \<lparr>opi_context = sample_context, opi_receiver_nonce = replicate 32 1,
     opi_sender_nonce = replicate 32 2, opi_claim_id = replicate 16 3, opi_expires_at_unix_ms = 9,
     opi_content_type = 0, opi_plaintext_length = 15, opi_aead_nonce = replicate 24 4,
     opi_ciphertext_digest = replicate 32 5\<rparr>"

definition sample_aad_input :: PayloadAadInput where
  "sample_aad_input = \<lparr>aad_context = sample_context, aad_receiver_nonce = replicate 32 1,
     aad_sender_nonce = replicate 32 2, aad_claim_id = replicate 16 3, aad_expires_at_unix_ms = 9,
     aad_content_type = 0, aad_plaintext_length = 15\<rparr>"

theorem transcripts_injective_witness:
  "\<exists>t. open_transcript sample_context (replicate 32 1) = Ok t \<and>
     open_transcript sample_context (replicate 32 2) \<noteq> Ok t"
proof -
  obtain t where t: "open_transcript sample_context (replicate 32 1) = Ok t"
    using transcripts_succeed(1) [OF sample_context_ok, of "replicate 32 1"] by auto
  have "replicate 32 (1 :: u8) \<noteq> replicate 32 2" by (simp add: replicate_eq_replicate)
  then show ?thesis
    using t transcripts_injective [of sample_context "replicate 32 1" t sample_context
        "replicate 32 2"] by blast
qed

text \<open>
  Domain separation: an Open, an Offer, an acknowledgement, an associated-data transcript
  and the infos of the two session keys never coincide, so no HMAC computed for one purpose
  verifies for another, and the three infos of the root derivation differ from each other for
  all network identifiers.
\<close>

theorem transcripts_domain_separated:
  assumes "open_transcript c1 n = Ok t1" and "offer_transcript i = Ok t2"
    and "acknowledgement_transcript c3 x y = Ok t3" and "payload_associated_data j = Ok t4"
    and "session_info PAYLOAD_KEY_DOMAIN c5 u = Ok t5" and "session_info ACK_KEY_DOMAIN c6 v = Ok t6"
    and "network_info ROOM_INFO_DOMAIN m1 = Ok r1" and "network_info AUTH_INFO_DOMAIN m2 = Ok r2"
    and "network_info SESSION_BASE_INFO_DOMAIN m3 = Ok r3"
  shows "distinct [t1, t2, t3, t4, t5, t6] \<and> distinct [r1, r2, r3]"
proof -
  note f = assms(1-6) [unfolded transcript_eqs, unfolded field_list_defs]
  have "distinct [t1, t2, t3, t4, t5, t6]"
    using f domains_distinct append_fields_domain by (auto simp: append_fields_domain simp del: append_fields.simps)
  moreover have "distinct [r1, r2, r3]"
    using assms(7-9) by (auto simp: network_info_def result_simps ROOM_INFO_DOMAIN_def
        AUTH_INFO_DOMAIN_def SESSION_BASE_INFO_DOMAIN_def ascii_def)
  ultimately show ?thesis by simp
qed

theorem transcripts_domain_separated_witness:
  "\<exists>t1 t2 t3 t4 t5 t6 r1 r2 r3.
     open_transcript sample_context (replicate 32 1) = Ok t1 \<and>
     offer_transcript sample_offer_input = Ok t2 \<and>
     acknowledgement_transcript sample_context (replicate 16 1) (replicate 32 1) = Ok t3 \<and>
     payload_associated_data sample_aad_input = Ok t4 \<and>
     session_info PAYLOAD_KEY_DOMAIN sample_context (replicate 16 1) = Ok t5 \<and>
     session_info ACK_KEY_DOMAIN sample_context (replicate 16 1) = Ok t6 \<and>
     network_info ROOM_INFO_DOMAIN [97] = Ok r1 \<and> network_info AUTH_INFO_DOMAIN [97] = Ok r2 \<and>
     network_info SESSION_BASE_INFO_DOMAIN [97] = Ok r3 \<and>
     distinct [t1, t2, t3, t4, t5, t6] \<and> distinct [r1, r2, r3]"
proof -
  note ok = transcripts_succeed [OF sample_context_ok]
  obtain t1 where 1: "open_transcript sample_context (replicate 32 1) = Ok t1"
    using ok(1) [of "replicate 32 1"] by auto
  obtain t2 where 2: "offer_transcript sample_offer_input = Ok t2"
    using ok(4) [of sample_offer_input] by (auto simp: sample_offer_input_def)
  obtain t3 where 3: "acknowledgement_transcript sample_context (replicate 16 1) (replicate 32 1) = Ok t3"
    using ok(2) [of "replicate 16 1" "replicate 32 1"] by auto
  obtain t4 where 4: "payload_associated_data sample_aad_input = Ok t4"
    using ok(5) [of sample_aad_input] by (auto simp: sample_aad_input_def)
  obtain t5 where 5: "session_info PAYLOAD_KEY_DOMAIN sample_context (replicate 16 1) = Ok t5"
    using ok(3) [of "replicate 16 1" PAYLOAD_KEY_DOMAIN] by auto
  obtain t6 where 6: "session_info ACK_KEY_DOMAIN sample_context (replicate 16 1) = Ok t6"
    using ok(3) [of "replicate 16 1" ACK_KEY_DOMAIN] by auto
  obtain r1 r2 r3 where 7: "network_info ROOM_INFO_DOMAIN [97] = Ok r1"
    "network_info AUTH_INFO_DOMAIN [97] = Ok r2" "network_info SESSION_BASE_INFO_DOMAIN [97] = Ok r3"
    by (auto simp: network_info_def u32_try_from_def)
  show ?thesis
    using 1 2 3 4 5 6 7 transcripts_domain_separated [OF 1 2 3 4 5 6 7] by blast
qed

text \<open>
  A proof is computed only for a canonical context. An empty, over-long or non-graphic
  network identifier is refused first, an empty peer identity second, and a transcript longer
  than the limit of 8192 bytes last, the size being that of the fixed fields (90 bytes of
  domain, version, length prefixes, room and nonce) plus the variable ones; otherwise the Open
  proof is the HMAC of the transcript.
\<close>

theorem open_proof_behaviour:
  assumes "length (ctx_room_id ctx) = 16" and "length n = 32"
  shows "open_proof P key ctx n =
    (let net = ctx_network_id ctx; size = 90 + length net + length (ctx_sender_peer_id ctx) +
       length (ctx_receiver_peer_id ctx) in
     if net = [] \<or> length net > 64 \<or> \<not> list_all is_ascii_graphic net then Err CE_InvalidNetworkId
     else if ctx_sender_peer_id ctx = [] \<or> ctx_receiver_peer_id ctx = []
       then Err CE_InvalidPeerIdentity
     else if size > 8192 then Err CE_TranscriptTooLarge
     else ok_or CE_KeyDerivation (hmac_sha256 P key (render_all (open_fields ctx n))))"
proof -
  have size: "length (render_all (open_fields ctx n)) = 90 + length (ctx_network_id ctx) +
      length (ctx_sender_peer_id ctx) + length (ctx_receiver_peer_id ctx)"
    using assms by (simp add: render_all_def field_list_defs domain_defs)
  show ?thesis
    unfolding open_proof_def transcripts_as_fields Let_def size [symmetric]
    by (auto simp: validate_context_def validate_network_id_def append_fields_eq
        authenticate_def limit_defs simp del: append_fields.simps)
qed

theorem open_proof_behaviour_witness:
  "\<forall>P key. open_proof P key (sample_context \<lparr>ctx_sender_peer_id := replicate 9000 1\<rparr>)
     (replicate 32 1) = Err CE_TranscriptTooLarge"
  by (intro allI, subst open_proof_behaviour)
    (simp_all add: sample_context_def ascii_def is_ascii_graphic_def Let_def)

end
