(* ===== verification/Core_Types.thy ===== *)
theory Core_Types
  imports Envelope Crypto
begin

text \<open>
  Types shared by the core crate's components: \<^verbatim>\<open>CoreError\<close> (\<^verbatim>\<open>core/src/error.rs\<close>),
  the entropy interface (\<^verbatim>\<open>sender/entropy.rs\<close>) and monotonic time. An \<^verbatim>\<open>Instant\<close> is a
  number of nanoseconds; \<^verbatim>\<open>checked_add\<close> fails beyond the largest instant of a Linux
  \<^verbatim>\<open>timespec\<close> (signed 64-bit seconds).
\<close>

datatype CoreError =
    Core_InvalidCode | Core_NotFoundOrUnauthorized | Core_ShareUnavailable | Core_Network
  | Core_Transfer | Core_Output | Core_ChildProcess | Core_Configuration | Core_Internal

type_synonym instant = nat
type_synonym duration = nat

definition INSTANT_MAX :: nat where
  "INSTANT_MAX = 9223372036854775807 * 1000000000 + 999999999"

definition instant_checked_add :: "instant \<Rightarrow> duration \<Rightarrow> instant option" where
  "instant_checked_add t d = (if t + d \<le> INSTANT_MAX then Some (t + d) else None)"

text \<open>
  \<^verbatim>\<open>OfferEntropy::fill\<close>: a source with its own state fills a buffer of a given length or
  fails.
\<close>

type_synonym 's entropy = "'s \<Rightarrow> nat \<Rightarrow> (CoreError, bytes) result \<times> 's"

definition entropy_fills :: "'s entropy \<Rightarrow> bool" where
  "entropy_fills E \<longleftrightarrow> (\<forall>s n bs s'. E s n = (Ok bs, s') \<longrightarrow> length bs = n)"

text \<open>
  \<^verbatim>\<open>OsEntropy\<close> over \<^verbatim>\<open>getrandom::fill\<close>, whose \<open>k\<close>th call answers a request for \<open>n\<close> bytes with
  \<open>getrandom k n\<close>; the state counts the calls.
\<close>

definition os_entropy :: "(nat \<Rightarrow> nat \<Rightarrow> bytes option) \<Rightarrow> nat entropy" where
  "os_entropy getrandom k n =
     (case getrandom k n of
        Some bs \<Rightarrow> (Ok bs, k + 1)
      | None \<Rightarrow> (Err Core_Internal, k + 1))"

lemma os_entropy_fills:
  "(\<And>k n bs. getrandom k n = Some bs \<Longrightarrow> length bs = n) \<Longrightarrow> entropy_fills (os_entropy getrandom)"
  by (auto simp: entropy_fills_def os_entropy_def split: option.splits)

end
