(* ===== verification/Sender_Actor.thy ===== *)
theory Sender_Actor
  imports Core_Types
begin

text \<open>
  The single-use sender: \<^verbatim>\<open>core/src/sender/state.rs\<close> and \<^verbatim>\<open>actor.rs\<close>. The actor is a
  record; every \<^verbatim>\<open>&mut self\<close> method returns the updated actor. Methods that draw entropy also
  thread the source's state. Erasing a secret (\<^verbatim>\<open>wipe_source\<close>) is setting its field to
  \<open>None\<close>.
\<close>

datatype SenderState =
    Available | PreparingOffer | Disclosed | Consumed | Expired | DeliveryUnknown | FailedClosed

record BoundClaim =
  bc_receiver_peer_id :: bytes
  bc_receiver_nonce :: bytes
  bc_claim_id :: bytes
  bc_digest :: bytes
  bc_expected_acknowledgement :: bytes
  bc_offer :: OfferResponse
  bc_resume_deadline :: instant

record SenderActor =
  sa_state :: SenderState
  sa_root :: "DerivedRoot option"
  sa_room_id :: bytes
  sa_network_id :: bytes
  sa_sender_peer_id :: bytes
  sa_encoded_envelope :: "bytes option"
  sa_content_type :: u8
  sa_plaintext_length :: u32
  sa_expires_at_unix_ms :: u64
  sa_available_deadline :: instant
  sa_resume_duration :: duration
  sa_claim :: "BoundClaim option"

definition sender_new ::
  "cbor \<Rightarrow> DerivedRoot \<Rightarrow> bytes \<Rightarrow> bytes \<Rightarrow> SecretEnvelope \<Rightarrow> instant \<Rightarrow> duration \<Rightarrow>
   (CoreError, SenderActor) result" where
  "sender_new C root network_id sender_peer_id envelope available_deadline resume_duration =
     (if sender_peer_id = [] \<or> network_id = [] then Err Core_Configuration else
      bind_res (ok_or Core_Internal (u32_try_from (length (env_payload envelope)))) (\<lambda>plaintext_length.
      bind_res (map_err (\<lambda>_. Core_Transfer) (envelope_encode C envelope)) (\<lambda>encoded_envelope.
      Ok \<lparr>sa_state = Available, sa_root = Some root, sa_room_id = root_room_id root,
          sa_network_id = network_id, sa_sender_peer_id = sender_peer_id,
          sa_encoded_envelope = Some encoded_envelope,
          sa_content_type = content_type_u8 (env_content_type envelope),
          sa_plaintext_length = plaintext_length,
          sa_expires_at_unix_ms = env_expires_at_unix_ms envelope,
          sa_available_deadline = available_deadline, sa_resume_duration = resume_duration,
          sa_claim = None\<rparr>)))"

definition sender_context :: "SenderActor \<Rightarrow> bytes \<Rightarrow> PeerContext" where
  "sender_context a receiver_peer_id =
     \<lparr>ctx_network_id = sa_network_id a, ctx_room_id = sa_room_id a,
      ctx_sender_peer_id = sa_sender_peer_id a, ctx_receiver_peer_id = receiver_peer_id\<rparr>"

definition wipe_source :: "SenderActor \<Rightarrow> SenderActor" where
  "wipe_source a = a\<lparr>sa_root := None, sa_encoded_envelope := None\<rparr>"

definition close :: "SenderActor \<Rightarrow> SenderState \<Rightarrow> SenderActor" where
  "close a s = wipe_source (a\<lparr>sa_state := s\<rparr>)"

definition authenticates_open :: "primitives \<Rightarrow> SenderActor \<Rightarrow> bytes \<Rightarrow> OpenRequest \<Rightarrow> bool" where
  "authenticates_open P a receiver_peer_id request =
     (case sa_root a of
        None \<Rightarrow> False
      | Some root \<Rightarrow>
          if open_room_id request \<noteq> sa_room_id a then False
          else (case open_proof P (root_authentication_key root)
                    (sender_context a receiver_peer_id) (open_receiver_nonce request) of
                  Inr expected \<Rightarrow> verifies expected (open_receiver_proof request)
                | Inl _ \<Rightarrow> False))"

definition resume_offer ::
  "SenderActor \<Rightarrow> bytes \<Rightarrow> OpenRequest \<Rightarrow> (ProtocolErrorCode, OfferResponse) result" where
  "resume_offer a receiver_peer_id request =
     bind_res (ok_or ShareUnavailable (sa_claim a)) (\<lambda>claim.
     if receiver_peer_id = bc_receiver_peer_id claim \<and>
        open_receiver_nonce request = bc_receiver_nonce claim
     then Ok (bc_offer claim) else Err ShareAlreadyClaimed)"

text \<open>The part of \<^verbatim>\<open>prepare_offer\<close> after its three draws of entropy.\<close>

definition build_offer ::
  "primitives \<Rightarrow> SenderActor \<Rightarrow> DerivedRoot \<Rightarrow> bytes \<Rightarrow> bytes \<Rightarrow> bytes \<Rightarrow> instant \<Rightarrow>
   bytes \<Rightarrow> bytes \<Rightarrow> bytes \<Rightarrow> (unit, OfferResponse \<times> BoundClaim) result" where
  "build_offer P a root plaintext receiver_peer_id receiver_nonce now
      sender_nonce claim_id aead_nonce =
     (let ctx = sender_context a receiver_peer_id in
      bind_res (map_err (\<lambda>_. ()) (derive_session P (root_session_base_key root) ctx
        receiver_nonce sender_nonce claim_id)) (\<lambda>session.
      bind_res (map_err (\<lambda>_. ()) (payload_associated_data
        \<lparr>aad_context = ctx, aad_receiver_nonce = receiver_nonce, aad_sender_nonce = sender_nonce,
         aad_claim_id = claim_id, aad_expires_at_unix_ms = sa_expires_at_unix_ms a,
         aad_content_type = sa_content_type a, aad_plaintext_length = sa_plaintext_length a\<rparr>)) (\<lambda>aad.
      bind_res (map_err (\<lambda>_. ()) (encrypt_payload P (payload_key session) aead_nonce plaintext aad))
        (\<lambda>ciphertext.
      let digest = ciphertext_digest P aead_nonce ciphertext in
      bind_res (map_err (\<lambda>_. ()) (offer_proof P (root_authentication_key root)
        \<lparr>opi_context = ctx, opi_receiver_nonce = receiver_nonce, opi_sender_nonce = sender_nonce,
         opi_claim_id = claim_id, opi_expires_at_unix_ms = sa_expires_at_unix_ms a,
         opi_content_type = sa_content_type a, opi_plaintext_length = sa_plaintext_length a,
         opi_aead_nonce = aead_nonce, opi_ciphertext_digest = digest\<rparr>)) (\<lambda>sender_proof.
      bind_res (map_err (\<lambda>_. ()) (acknowledgement_proof P (acknowledgement_key session) ctx
        claim_id digest)) (\<lambda>expected_acknowledgement.
      let offer = \<lparr>offer_protocol_version = PROTOCOL_VERSION, offer_claim_id = claim_id,
            offer_sender_nonce = sender_nonce, offer_aead_nonce = aead_nonce,
            offer_expires_at_unix_ms = sa_expires_at_unix_ms a,
            offer_content_type = sa_content_type a,
            offer_plaintext_length = sa_plaintext_length a, offer_ciphertext = ciphertext,
            offer_ciphertext_digest = digest, offer_sender_proof = sender_proof\<rparr> in
      bind_res (ok_or () (instant_checked_add now (sa_resume_duration a))) (\<lambda>resume_deadline.
      Ok (offer, \<lparr>bc_receiver_peer_id = receiver_peer_id, bc_receiver_nonce = receiver_nonce,
           bc_claim_id = claim_id, bc_digest = digest,
           bc_expected_acknowledgement = expected_acknowledgement, bc_offer = offer,
           bc_resume_deadline = resume_deadline\<rparr>))))))))"

definition prepare_offer ::
  "primitives \<Rightarrow> 's entropy \<Rightarrow> SenderActor \<Rightarrow> bytes \<Rightarrow> OpenRequest \<Rightarrow> instant \<Rightarrow> 's \<Rightarrow>
   (unit, OfferResponse \<times> BoundClaim) result \<times> 's" where
  "prepare_offer P E a receiver_peer_id request now s =
     (case sa_root a of None \<Rightarrow> (Err (), s) | Some root \<Rightarrow>
     (case sa_encoded_envelope a of None \<Rightarrow> (Err (), s) | Some plaintext \<Rightarrow>
     (case E s 32 of (Inl _, s) \<Rightarrow> (Err (), s) | (Inr sender_nonce, s) \<Rightarrow>
     (case E s 16 of (Inl _, s) \<Rightarrow> (Err (), s) | (Inr claim_id, s) \<Rightarrow>
     (case E s 24 of (Inl _, s) \<Rightarrow> (Err (), s) | (Inr aead_nonce, s) \<Rightarrow>
       (build_offer P a root plaintext receiver_peer_id (open_receiver_nonce request) now
          sender_nonce claim_id aead_nonce, s))))))"

definition past_resume_deadline :: "SenderActor \<Rightarrow> instant \<Rightarrow> bool" where
  "past_resume_deadline a now =
     (case sa_claim a of None \<Rightarrow> False | Some claim \<Rightarrow> bc_resume_deadline claim \<le> now)"

definition handle_open ::
  "primitives \<Rightarrow> 's entropy \<Rightarrow> SenderActor \<Rightarrow> bytes \<Rightarrow> OpenRequest \<Rightarrow> instant \<Rightarrow> 's \<Rightarrow>
   (ProtocolErrorCode, OfferResponse) result \<times> SenderActor \<times> 's" where
  "handle_open P E a receiver_peer_id request now s =
     (if open_protocol_version request \<noteq> PROTOCOL_VERSION then (Err UnsupportedVersion, a, s)
      else if \<not> authenticates_open P a receiver_peer_id request
        then (Err NotFoundOrUnauthorized, a, s)
      else (case sa_state a of
        Available \<Rightarrow>
          if sa_available_deadline a \<le> now then (Err ShareExpired, close a Expired, s)
          else let a = a\<lparr>sa_state := PreparingOffer\<rparr> in
            (case prepare_offer P E a receiver_peer_id request now s of
               (Inr (offer, claim), s) \<Rightarrow>
                 (Ok offer, a\<lparr>sa_claim := Some claim, sa_state := Disclosed\<rparr>, s)
             | (Inl _, s) \<Rightarrow> (Err InternalFailure, close a FailedClosed, s))
      | Disclosed \<Rightarrow>
          if past_resume_deadline a now
          then (Err ShareUnavailable, close a DeliveryUnknown, s)
          else (resume_offer a receiver_peer_id request, a, s)
      | PreparingOffer \<Rightarrow> (Err TemporarilyUnavailable, a, s)
      | Consumed \<Rightarrow> (Err ShareUnavailable, a, s)
      | Expired \<Rightarrow> (Err ShareUnavailable, a, s)
      | DeliveryUnknown \<Rightarrow> (Err ShareUnavailable, a, s)
      | FailedClosed \<Rightarrow> (Err ShareUnavailable, a, s)))"

definition handle_acknowledgement ::
  "SenderActor \<Rightarrow> bytes \<Rightarrow> AcknowledgeRequest \<Rightarrow>
   (ProtocolErrorCode, CompletedResponse) result \<times> SenderActor" where
  "handle_acknowledgement a receiver_peer_id request =
     (if ack_protocol_version request \<noteq> PROTOCOL_VERSION then (Err UnsupportedVersion, a)
      else if sa_state a \<noteq> Disclosed \<and> sa_state a \<noteq> Consumed then (Err ShareUnavailable, a)
      else (case sa_claim a of
        None \<Rightarrow> (Err ShareUnavailable, a)
      | Some claim \<Rightarrow>
          if receiver_peer_id \<noteq> bc_receiver_peer_id claim
             \<or> ack_claim_id request \<noteq> bc_claim_id claim
             \<or> ack_ciphertext_digest request \<noteq> bc_digest claim
             \<or> \<not> verifies (bc_expected_acknowledgement claim) (ack_acknowledgement_proof request)
          then (Err ClaimMismatch, a)
          else (Ok \<lparr>completed_protocol_version = PROTOCOL_VERSION,
                     completed_claim_id = ack_claim_id request\<rparr>,
                if sa_state a = Disclosed then wipe_source (a\<lparr>sa_state := Consumed\<rparr>) else a)))"

definition handle_timer :: "SenderActor \<Rightarrow> instant \<Rightarrow> SenderActor" where
  "handle_timer a now =
     (if sa_state a = Available \<and> sa_available_deadline a \<le> now then close a Expired
      else if sa_state a = Disclosed \<and> past_resume_deadline a now then close a DeliveryUnknown
      else a)"

section \<open>Invariant\<close>

definition terminal :: "SenderState \<Rightarrow> bool" where
  "terminal s \<longleftrightarrow> s = Consumed \<or> s = Expired \<or> s = DeliveryUnknown \<or> s = FailedClosed"

definition wiped :: "SenderActor \<Rightarrow> bool" where
  "wiped a \<longleftrightarrow> sa_root a = None \<and> sa_encoded_envelope a = None"

definition holds_source :: "SenderActor \<Rightarrow> bool" where
  "holds_source a \<longleftrightarrow> sa_root a \<noteq> None \<and> sa_encoded_envelope a \<noteq> None"

text \<open>What a claim records agrees with the offer it caches.\<close>

definition claim_consistent :: "BoundClaim \<Rightarrow> bool" where
  "claim_consistent c \<longleftrightarrow> offer_protocol_version (bc_offer c) = PROTOCOL_VERSION \<and>
     offer_claim_id (bc_offer c) = bc_claim_id c \<and>
     offer_ciphertext_digest (bc_offer c) = bc_digest c"

definition actor_inv :: "SenderActor \<Rightarrow> bool" where
  "actor_inv a \<longleftrightarrow>
     (case sa_state a of
        Available \<Rightarrow> holds_source a \<and> sa_claim a = None
      | PreparingOffer \<Rightarrow> False
      | Disclosed \<Rightarrow> holds_source a \<and> sa_claim a \<noteq> None
      | Consumed \<Rightarrow> wiped a \<and> sa_claim a \<noteq> None
      | Expired \<Rightarrow> wiped a \<and> sa_claim a = None
      | DeliveryUnknown \<Rightarrow> wiped a \<and> sa_claim a \<noteq> None
      | FailedClosed \<Rightarrow> wiped a \<and> sa_claim a = None) \<and>
     (\<forall>c. sa_claim a = Some c \<longrightarrow> claim_consistent c)"


section \<open>One lemma per operation\<close>

lemma close_simps [simp]:
  "sa_state (close a st) = st" "sa_claim (close a st) = sa_claim a" "wiped (close a st)"
  "sa_room_id (close a st) = sa_room_id a" "sa_network_id (close a st) = sa_network_id a"
  by (simp_all add: close_def wipe_source_def wiped_def)

lemma wiped_no_auth: "wiped a \<Longrightarrow> \<not> authenticates_open P a p r"
  by (simp add: wiped_def authenticates_open_def)

lemma actor_inv_terminal: "actor_inv a \<Longrightarrow> terminal (sa_state a) \<longleftrightarrow> wiped a"
  by (cases "sa_state a") (auto simp: actor_inv_def terminal_def holds_source_def wiped_def)

lemma sender_new_inv: "sender_new C root net p env d rd = Ok a \<Longrightarrow> actor_inv a \<and> sa_state a = Available"
  by (auto simp: sender_new_def result_simps actor_inv_def holds_source_def split: if_splits)

lemma build_offer_Ok:
  assumes "build_offer P a root pt p rn now sn cid an = Ok (offer, c)"
  shows "bc_offer c = offer" "bc_receiver_peer_id c = p" "bc_receiver_nonce c = rn"
    "claim_consistent c" "bc_claim_id c = cid" "bc_resume_deadline c = now + sa_resume_duration a"
  using assms
  by (auto simp: build_offer_def Let_def result_simps claim_consistent_def instant_checked_add_def
      split: if_splits)

lemma prepare_offer_Ok:
  assumes "prepare_offer P E a p r now s = (Ok (offer, c), s')"
  shows "bc_offer c = offer \<and> bc_receiver_peer_id c = p \<and>
    bc_receiver_nonce c = open_receiver_nonce r \<and> claim_consistent c"
  using assms
  by (auto simp: prepare_offer_def build_offer_Ok split: option.splits prod.splits sum.splits)

text \<open>The transitions of \<open>handle_open\<close>, by the state it starts from.\<close>

lemma handle_open_cases:
  assumes "handle_open P E a p r now s = (res, a', s')"
  obtains
    (refused) e where "res = Err e" "a' = a"
  | (expired) "sa_state a = Available" "res = Err ShareExpired" "a' = close a Expired"
      "sa_available_deadline a \<le> now"
  | (claimed) offer c where "sa_state a = Available" "now < sa_available_deadline a"
      "authenticates_open P a p r" "res = Ok offer"
      "a' = a\<lparr>sa_state := Disclosed, sa_claim := Some c\<rparr>" "bc_offer c = offer"
      "bc_receiver_peer_id c = p" "bc_receiver_nonce c = open_receiver_nonce r" "claim_consistent c"
  | (failed) "sa_state a = Available" "res = Err InternalFailure" "a' = close a FailedClosed"
  | (timeout) "sa_state a = Disclosed" "res = Err ShareUnavailable" "a' = close a DeliveryUnknown"
  | (resumed) c where "sa_state a = Disclosed" "sa_claim a = Some c" "res = Ok (bc_offer c)"
      "authenticates_open P a p r" "a' = a" "bc_receiver_peer_id c = p"
      "bc_receiver_nonce c = open_receiver_nonce r" "now < bc_resume_deadline c"
proof (cases "open_protocol_version r = PROTOCOL_VERSION \<and> authenticates_open P a p r")
  case False
  then show ?thesis using assms refused by (auto simp: handle_open_def split: if_splits)
next
  case auth: True
  show ?thesis
  proof (cases "sa_state a")
    case Available
    show ?thesis
    proof (cases "sa_available_deadline a \<le> now")
      case True
      then show ?thesis using assms auth Available expired by (auto simp: handle_open_def)
    next
      case False
      let ?a = "a\<lparr>sa_state := PreparingOffer\<rparr>"
      obtain m s1 where prep: "prepare_offer P E ?a p r now s = (m, s1)" by fastforce
      show ?thesis
      proof (cases m)
        case (Inl e)
        then show ?thesis using assms auth Available False failed prep
          by (auto simp: handle_open_def close_def wipe_source_def)
      next
        case (Inr oc)
        obtain offer c where oc: "oc = (offer, c)" by (cases oc)
        have c: "bc_offer c = offer \<and> bc_receiver_peer_id c = p \<and>
            bc_receiver_nonce c = open_receiver_nonce r \<and> claim_consistent c"
          using prepare_offer_Ok prep Inr oc by metis
        have "res = Ok offer" and "a' = a\<lparr>sa_state := Disclosed, sa_claim := Some c\<rparr>"
          using assms auth Available False prep Inr oc by (auto simp: handle_open_def)
        moreover have "now < sa_available_deadline a" using False by simp
        ultimately show ?thesis using c claimed [OF Available] auth by blast
      qed
    qed
  next
    case Disclosed
    note eq = assms [unfolded handle_open_def, simplified auth Disclosed, simplified]
    show ?thesis
    proof (cases "sa_claim a")
      case None
      then show ?thesis using eq refused [of ShareUnavailable]
        by (auto simp: past_resume_deadline_def resume_offer_def)
    next
      case (Some c)
      show ?thesis
      proof (cases "bc_resume_deadline c \<le> now")
        case True
        then show ?thesis using eq Some timeout [OF Disclosed]
          by (auto simp: past_resume_deadline_def)
      next
        case False
        then have r: "res = resume_offer a p r" and a': "a' = a"
          using eq Some by (auto simp: past_resume_deadline_def)
        show ?thesis
        proof (cases "p = bc_receiver_peer_id c \<and> open_receiver_nonce r = bc_receiver_nonce c")
          case True
          then have "res = Ok (bc_offer c)" using r Some by (simp add: resume_offer_def)
          moreover have "now < bc_resume_deadline c" using False by simp
          ultimately show ?thesis using resumed [OF Disclosed Some _ _ a'] auth True by metis
        next
          case no: False
          then have "res = Err ShareAlreadyClaimed" using r Some by (auto simp: resume_offer_def)
          then show ?thesis using refused a' by blast
        qed
      qed
    qed
  qed (use assms auth refused in \<open>auto simp: handle_open_def\<close>)
qed

lemma handle_open_inv:
  assumes "actor_inv a" and "handle_open P E a p r now s = (res, a', s')"
  shows "actor_inv a'"
  using assms(2)
  by (cases rule: handle_open_cases)
    (use assms(1) in \<open>auto simp: actor_inv_def holds_source_def\<close>)

lemma handle_acknowledgement_cases:
  assumes "handle_acknowledgement a p r = (res, a')"
  obtains
    (refused) e where "res = Err e" "a' = a"
  | (completed) c where "sa_claim a = Some c" "sa_state a = Disclosed \<or> sa_state a = Consumed"
      "res = Ok \<lparr>completed_protocol_version = PROTOCOL_VERSION, completed_claim_id = bc_claim_id c\<rparr>"
      "a' = (if sa_state a = Disclosed then close a Consumed else a)"
      "p = bc_receiver_peer_id c" "ack_protocol_version r = PROTOCOL_VERSION"
      "ack_claim_id r = bc_claim_id c" "ack_ciphertext_digest r = bc_digest c"
      "ack_acknowledgement_proof r = bc_expected_acknowledgement c"
proof (cases "sa_claim a")
  case None
  then show ?thesis using assms refused by (auto simp: handle_acknowledgement_def split: if_splits)
next
  case (Some c)
  then show ?thesis using assms refused completed [of c]
    by (fastforce simp: handle_acknowledgement_def verifies_def close_def split: if_splits)
qed

lemma handle_acknowledgement_inv:
  assumes "actor_inv a" and "handle_acknowledgement a p r = (res, a')"
  shows "actor_inv a'"
  using assms(2)
  by (cases rule: handle_acknowledgement_cases) (use assms(1) in \<open>auto simp: actor_inv_def\<close>)

lemma handle_timer_inv: "actor_inv a \<Longrightarrow> actor_inv (handle_timer a now)"
  by (auto simp: actor_inv_def handle_timer_def)

section \<open>The actor as a state machine\<close>

datatype sender_input =
    Open bytes OpenRequest instant
  | Acknowledge bytes AcknowledgeRequest
  | Timer instant

datatype sender_output =
    Offered "(ProtocolErrorCode, OfferResponse) result"
  | Completed "(ProtocolErrorCode, CompletedResponse) result"
  | Silent

inductive sender_step ::
  "primitives \<Rightarrow> 's entropy \<Rightarrow> SenderActor \<times> 's \<Rightarrow> sender_input \<Rightarrow> sender_output \<Rightarrow>
   SenderActor \<times> 's \<Rightarrow> bool"
  for P :: primitives and E :: "'s entropy" where
  step_open: "handle_open P E a p r now s = (res, a', s') \<Longrightarrow>
    sender_step P E (a, s) (Open p r now) (Offered res) (a', s')"
| step_acknowledge: "handle_acknowledgement a p r = (res, a') \<Longrightarrow>
    sender_step P E (a, s) (Acknowledge p r) (Completed res) (a', s)"
| step_timer: "sender_step P E (a, s) (Timer now) Silent (handle_timer a now, s)"

inductive_cases sender_step_openE: "sender_step P E (a, s) (Open p r now) out (a', s')"
inductive_cases sender_step_ackE: "sender_step P E (a, s) (Acknowledge p r) out (a', s')"
inductive_cases sender_stepE: "sender_step P E (a, s) i out (a', s')"

inductive sender_run ::
  "primitives \<Rightarrow> 's entropy \<Rightarrow> SenderActor \<times> 's \<Rightarrow> (sender_input \<times> sender_output) list \<Rightarrow>
   SenderActor \<times> 's \<Rightarrow> bool"
  for P :: primitives and E :: "'s entropy" where
  run_nil: "sender_run P E c [] c"
| run_snoc: "sender_run P E c tr (a, s) \<Longrightarrow> sender_step P E (a, s) i out (a', s') \<Longrightarrow>
    sender_run P E c (tr @ [(i, out)]) (a', s')"

lemma sender_step_inv: "sender_step P E (a, s) i out (a', s') \<Longrightarrow> actor_inv a \<Longrightarrow> actor_inv a'"
  by (erule sender_stepE)
    (auto intro: handle_open_inv handle_acknowledgement_inv handle_timer_inv)

lemma sender_run_inv:
  assumes "sender_run P E (a, s) tr (a', s')" and "actor_inv a"
  shows "actor_inv a'"
proof -
  have "sender_run P E c tr c' \<Longrightarrow> actor_inv (fst c) \<Longrightarrow> actor_inv (fst c')" for c c'
    by (induction rule: sender_run.induct) (auto dest: sender_step_inv)
  from this [OF assms(1)] assms(2) show ?thesis by simp
qed

lemma sender_step_claim:
  "sender_step P E (a, s) i out (a', s') \<Longrightarrow> actor_inv a \<Longrightarrow> sa_claim a = Some c \<Longrightarrow> sa_claim a' = Some c"
  by (erule sender_stepE)
    (auto elim!: handle_open_cases handle_acknowledgement_cases
      simp: actor_inv_def handle_timer_def split: if_splits)

lemma sender_step_terminal:
  "sender_step P E (a, s) i out (a', s') \<Longrightarrow> actor_inv a \<Longrightarrow> terminal (sa_state a) \<Longrightarrow> a' = a"
  by (erule sender_stepE)
    (auto elim!: handle_open_cases handle_acknowledgement_cases
      simp: terminal_def actor_inv_def handle_timer_def split: if_splits)

text \<open>The identity of the share never changes, and its root is only ever erased.\<close>

definition same_share :: "SenderActor \<Rightarrow> SenderActor \<Rightarrow> bool" where
  "same_share a b \<longleftrightarrow> sa_room_id b = sa_room_id a \<and> sa_network_id b = sa_network_id a \<and>
     sa_sender_peer_id b = sa_sender_peer_id a \<and> (sa_root b = sa_root a \<or> sa_root b = None)"

lemma sender_step_share: "sender_step P E (a, s) i out (a', s') \<Longrightarrow> same_share a a'"
  by (erule sender_stepE)
    (auto elim!: handle_open_cases handle_acknowledgement_cases
      simp: same_share_def handle_timer_def close_def wipe_source_def split: if_splits)

lemma sender_run_share: "sender_run P E (a, s) tr (a', s') \<Longrightarrow> same_share a a'"
proof -
  have "sender_run P E c tr c' \<Longrightarrow> same_share (fst c) (fst c')" for c c'
  proof (induction rule: sender_run.induct)
    case (run_snoc c tr a s i out a' s')
    then show ?case using sender_step_share [of P E a s i out a' s'] by (auto simp: same_share_def)
  qed (simp add: same_share_def)
  then show "sender_run P E (a, s) tr (a', s') \<Longrightarrow> same_share a a'" by fastforce
qed

text \<open>Opens answered with an offer, and acknowledgements answered with a completion.\<close>

definition disclosures :: "(sender_input \<times> sender_output) list \<Rightarrow> (bytes \<times> bytes \<times> OfferResponse) set" where
  "disclosures tr = {(p, open_receiver_nonce r, offer) | p r now offer.
     (Open p r now, Offered (Ok offer)) \<in> set tr}"

definition completions :: "(sender_input \<times> sender_output) list \<Rightarrow> (bytes \<times> AcknowledgeRequest) set" where
  "completions tr = {(p, r) | p r resp. (Acknowledge p r, Completed (Ok resp)) \<in> set tr}"

lemma disclosures_simps [simp]:
  "disclosures [] = {}" "disclosures (tr @ tr') = disclosures tr \<union> disclosures tr'"
  "disclosures [(Open p r now, Offered (Inr offer))] = {(p, open_receiver_nonce r, offer)}"
  "disclosures [(Open p r now, Offered (Inl e))] = {}"
  "disclosures [(Acknowledge p r', out)] = {}" "disclosures [(Timer now, out)] = {}"
  by (auto simp: disclosures_def)

lemma completions_simps [simp]:
  "completions [] = {}" "completions (tr @ tr') = completions tr \<union> completions tr'"
  "completions [(Open p r now, out)] = {}"
  "completions [(Acknowledge p r', Completed (Inr resp))] = {(p, r')}"
  "completions [(Acknowledge p r', Completed (Inl e))] = {}" "completions [(Timer now, out)] = {}"
  by (auto simp: completions_def)

definition claim_key :: "BoundClaim \<Rightarrow> bytes \<times> bytes \<times> OfferResponse" where
  "claim_key c = (bc_receiver_peer_id c, bc_receiver_nonce c, bc_offer c)"

text \<open>One step discloses exactly what the claim after it records.\<close>

lemma sender_step_disclosures:
  assumes "sender_step P E (a, s) i out (a', s')" and "actor_inv a"
  shows "disclosures [(i, out)] \<subseteq> claim_key ` set_option (sa_claim a')"
    and "sa_claim a' \<noteq> sa_claim a \<Longrightarrow> disclosures [(i, out)] = claim_key ` set_option (sa_claim a')"
    and "(p, r) \<in> completions [(i, out)] \<Longrightarrow> \<exists>c. sa_claim a = Some c \<and> p = bc_receiver_peer_id c \<and>
      ack_claim_id r = bc_claim_id c \<and> ack_ciphertext_digest r = bc_digest c \<and>
      ack_acknowledgement_proof r = bc_expected_acknowledgement c"
  using assms(1)
  by (atomize(full), cases rule: sender_stepE)
    (auto elim!: handle_open_cases handle_acknowledgement_cases
      simp: claim_key_def handle_timer_def split: if_splits)

lemma sender_run_disclosures:
  assumes "sender_run P E (a, s) tr (a', s')" and "actor_inv a" and "sa_claim a = None"
  shows "disclosures tr = claim_key ` set_option (sa_claim a')"
    and "(p, r) \<in> completions tr \<Longrightarrow> \<exists>c. sa_claim a' = Some c \<and> p = bc_receiver_peer_id c \<and>
      ack_claim_id r = bc_claim_id c \<and> ack_ciphertext_digest r = bc_digest c \<and>
      ack_acknowledgement_proof r = bc_expected_acknowledgement c"
proof -
  have "sender_run P E c tr c' \<Longrightarrow> actor_inv (fst c) \<Longrightarrow> sa_claim (fst c) = None \<Longrightarrow>
      actor_inv (fst c') \<and> disclosures tr = claim_key ` set_option (sa_claim (fst c')) \<and>
      (\<forall>p r. (p, r) \<in> completions tr \<longrightarrow> (\<exists>d. sa_claim (fst c') = Some d \<and>
         p = bc_receiver_peer_id d \<and> ack_claim_id r = bc_claim_id d \<and>
         ack_ciphertext_digest r = bc_digest d \<and>
         ack_acknowledgement_proof r = bc_expected_acknowledgement d))" for c c'
  proof (induction rule: sender_run.induct)
    case (run_snoc c tr a s i out a' s')
    then have inv: "actor_inv a" by simp
    note step = run_snoc.hyps(2)
    have keep: "sa_claim a' = sa_claim a \<or> sa_claim a = None"
      using sender_step_claim [OF step inv] by (cases "sa_claim a") auto
    show ?case
      using run_snoc.IH [OF run_snoc.prems] keep sender_step_disclosures(1,2) [OF step inv]
        sender_step_disclosures(3) [OF step inv] sender_step_inv [OF step inv]
        sender_step_claim [OF step inv]
      by (cases "sa_claim a' = sa_claim a") auto
  qed auto
  from this [OF assms(1)] assms(2,3)
  show "disclosures tr = claim_key ` set_option (sa_claim a')"
    and "(p, r) \<in> completions tr \<Longrightarrow> \<exists>c. sa_claim a' = Some c \<and> p = bc_receiver_peer_id c \<and>
      ack_claim_id r = bc_claim_id c \<and> ack_ciphertext_digest r = bc_digest c \<and>
      ack_acknowledgement_proof r = bc_expected_acknowledgement c"
    by auto
qed



text \<open>A disclosure answers an Open whose proof is the HMAC of its own transcript.\<close>

lemma authenticates_openD:
  assumes "authenticates_open P a p r"
  obtains root where "sa_root a = Some root" "open_room_id r = sa_room_id a"
    "open_proof P (root_authentication_key root) (sender_context a p) (open_receiver_nonce r) =
       Ok (open_receiver_proof r)"
  using assms by (auto simp: authenticates_open_def verifies_def split: option.splits sum.splits if_splits)

lemma handle_open_Ok_auth:
  assumes "handle_open P E a p r now s = (Ok offer, a', s')"
  shows "authenticates_open P a p r \<and> open_protocol_version r = PROTOCOL_VERSION"
  using assms by (auto simp: handle_open_def split: if_splits)

lemma sender_context_share:
  "same_share a b \<Longrightarrow> sender_context b p = sender_context a p"
  by (simp add: same_share_def sender_context_def)

lemma sender_run_auth:
  assumes "sender_run P E (a, s) tr (a', s')" and "sa_root a = Some root"
    and "(Open p r now, Offered (Ok offer)) \<in> set tr"
  shows "open_protocol_version r = PROTOCOL_VERSION \<and> open_room_id r = sa_room_id a \<and>
    open_proof P (root_authentication_key root) (sender_context a p) (open_receiver_nonce r) =
      Ok (open_receiver_proof r)"
proof -
  have "sender_run P E c tr c' \<Longrightarrow> sa_root (fst c) = Some root \<Longrightarrow>
      (Open p r now, Offered (Ok offer)) \<in> set tr \<Longrightarrow>
      open_protocol_version r = PROTOCOL_VERSION \<and> open_room_id r = sa_room_id (fst c) \<and>
      open_proof P (root_authentication_key root) (sender_context (fst c) p)
        (open_receiver_nonce r) = Ok (open_receiver_proof r)" for c c'
  proof (induction rule: sender_run.induct)
    case (run_nil c)
    then show ?case by simp
  next
    case (run_snoc c tr a s i out a' s')
    show ?case
    proof (cases "(i, out) = (Open p r now, Offered (Ok offer))")
      case False
      then show ?thesis using run_snoc by auto
    next
      case True
      have share: "same_share (fst c) a"
        using sender_run_share [of P E "fst c" "snd c" tr a s] run_snoc.hyps(1) by simp
      have "handle_open P E a p r now s = (Ok offer, a', s')"
        using run_snoc.hyps(2) True by (auto elim: sender_step_openE)
      then have auth: "authenticates_open P a p r" and v: "open_protocol_version r = PROTOCOL_VERSION"
        using handle_open_Ok_auth [of P E a p r now s offer a' s'] by simp_all
      obtain root' where "sa_root a = Some root'" "open_room_id r = sa_room_id a"
        "open_proof P (root_authentication_key root') (sender_context a p) (open_receiver_nonce r) =
          Ok (open_receiver_proof r)"
        using auth by (rule authenticates_openD)
      then show ?thesis
        using share run_snoc.prems(1) v sender_context_share [OF share]
        by (auto simp: same_share_def)
    qed
  qed
  from this [OF assms(1)] assms(2,3) show ?thesis by simp
qed

text \<open>
  How a closed actor answers: an Open is refused before its state is looked at, since the erased
  capability authenticates nobody, and only the acknowledgement of a delivered claim is confirmed.
\<close>

fun closed_answer :: "SenderActor \<Rightarrow> sender_input \<Rightarrow> sender_output \<Rightarrow> bool" where
  "closed_answer a (Open p r now) (Offered res) \<longleftrightarrow>
     res = Err (if open_protocol_version r = PROTOCOL_VERSION then NotFoundOrUnauthorized else UnsupportedVersion)"
| "closed_answer a (Acknowledge p r) (Completed res) \<longleftrightarrow>
     (is_ok res \<longrightarrow> sa_state a = Consumed \<and> (\<exists>c. sa_claim a = Some c \<and> p = bc_receiver_peer_id c \<and>
        ack_claim_id r = bc_claim_id c \<and> ack_ciphertext_digest r = bc_digest c \<and>
        ack_acknowledgement_proof r = bc_expected_acknowledgement c))"
| "closed_answer a (Timer now) Silent \<longleftrightarrow> True"
| "closed_answer a _ _ \<longleftrightarrow> False"

lemma sender_step_closed:
  assumes "sender_step P E (a, s) i out (a', s')" and "actor_inv a" and "terminal (sa_state a)"
  shows "a' = a \<and> s' = s \<and> closed_answer a i out"
proof -
  have same: "a' = a" using sender_step_terminal [OF assms] .
  have w: "wiped a" using assms(2,3) by (simp add: actor_inv_terminal)
  from assms(1) show ?thesis
  proof (cases rule: sender_step.cases)
    case (step_open p r now res)
    then show ?thesis using same w by (auto simp: handle_open_def wiped_no_auth)
  next
    case (step_acknowledge p r res)
    from step_acknowledge(4) show ?thesis
      by (cases rule: handle_acknowledgement_cases)
        (use step_acknowledge same assms(3) in \<open>auto simp: terminal_def\<close>)
  next
    case step_timer
    then show ?thesis using same by simp
  qed
qed

lemma sender_run_closed:
  assumes "sender_run P E (a, s) tr (a', s')" and "actor_inv a" and "terminal (sa_state a)"
  shows "a' = a \<and> s' = s \<and> (\<forall>(i, out) \<in> set tr. closed_answer a i out)"
proof -
  have "sender_run P E c tr c' \<Longrightarrow> c = (a, s) \<Longrightarrow> c' = (a, s) \<and> (\<forall>(i, out) \<in> set tr. closed_answer a i out)" for c c'
  proof (induction rule: sender_run.induct)
    case (run_snoc c tr b t i out b' t')
    then show ?case using sender_step_closed [OF run_snoc.hyps(2)] assms(2,3) by auto
  qed simp
  from this [OF assms(1)] show ?thesis by simp
qed

section \<open>Properties\<close>

text \<open>
  C4: Every state the actor can reach satisfies the lifecycle invariant: the capability and the
  plaintext are held exactly while the share can still be delivered and are erased in every
  closed state, a claim is bound exactly from disclosure on, it agrees with the offer it
  caches, and the transient preparing state is never observable between requests.
\<close>

theorem sender_reachable_invariant:
  assumes "sender_new C root net peer env deadline resume = Ok a0"
    and "sender_run P E (a0, s0) tr (a, s)"
  shows "actor_inv a \<and> sa_state a \<noteq> PreparingOffer \<and> (terminal (sa_state a) \<longleftrightarrow> wiped a) \<and>
    (\<not> terminal (sa_state a) \<longleftrightarrow> holds_source a)"
proof -
  have "actor_inv a" using sender_run_inv [OF assms(2)] sender_new_inv [OF assms(1)] by simp
  then show ?thesis
    using actor_inv_terminal [of a]
    by (cases "sa_state a") (auto simp: actor_inv_def holds_source_def wiped_def terminal_def)
qed

text \<open>
  C2: Single use. In every run of the actor from its creation, all Opens that are answered with
  an offer come from one peer with one nonce and receive one and the same offer, and every
  acknowledgement that is accepted comes from that peer, names the claim and digest of that
  offer, and was preceded by its disclosure.
\<close>

theorem sender_single_use:
  assumes "sender_new C root net peer env deadline resume = Ok a0"
    and "sender_run P E (a0, s0) tr (a, s)"
  shows "(\<exists>d. disclosures tr \<subseteq> {d}) \<and>
    (\<forall>p r. (p, r) \<in> completions tr \<longrightarrow> (\<exists>nonce offer. disclosures tr = {(p, nonce, offer)} \<and>
       ack_claim_id r = offer_claim_id offer \<and>
       ack_ciphertext_digest r = offer_ciphertext_digest offer))"
proof -
  have inv0: "actor_inv a0" and c0: "sa_claim a0 = None"
    using sender_new_inv [OF assms(1)] by (auto simp: actor_inv_def)
  note d = sender_run_disclosures [OF assms(2) inv0 c0]
  have cons: "sa_claim a = Some c \<Longrightarrow> claim_consistent c" for c
    using sender_run_inv [OF assms(2) inv0] by (simp add: actor_inv_def)
  have "\<exists>d. disclosures tr \<subseteq> {d}"
    unfolding d(1) by (intro exI [of _ "claim_key (the (sa_claim a))"]) (cases "sa_claim a"; simp)
  moreover have "\<exists>nonce offer. disclosures tr = {(p, nonce, offer)} \<and>
       ack_claim_id r = offer_claim_id offer \<and> ack_ciphertext_digest r = offer_ciphertext_digest offer"
    if "(p, r) \<in> completions tr" for p r
    using d(2) [OF that] d(1) cons by (auto simp: claim_key_def claim_consistent_def)
  ultimately show ?thesis by blast
qed

text \<open>
  C8: Only a holder of the capability is served. Every Open that is answered with an offer
  carries the protocol version, the room of the share and, as its proof, the HMAC under the
  authentication key of the Open transcript of this network, room, sender, the requesting peer
  and the request's own nonce.
\<close>

theorem offers_are_authenticated:
  assumes "sender_new C root net peer env deadline resume = Ok a0"
    and "sender_run P E (a0, s0) tr (a, s)"
    and "(Open p r now, Offered (Ok offer)) \<in> set tr"
  shows "open_protocol_version r = 1 \<and> open_room_id r = root_room_id root \<and>
    open_proof P (root_authentication_key root)
      \<lparr>ctx_network_id = net, ctx_room_id = root_room_id root, ctx_sender_peer_id = peer,
       ctx_receiver_peer_id = p\<rparr> (open_receiver_nonce r) = Ok (open_receiver_proof r)"
proof -
  have new: "sa_root a0 = Some root" "sa_room_id a0 = root_room_id root" "sa_network_id a0 = net"
    "sa_sender_peer_id a0 = peer"
    using assms(1) by (auto simp: sender_new_def result_simps split: if_splits)
  show ?thesis
    using sender_run_auth [OF assms(2) new(1) assms(3)]
    by (simp add: new sender_context_def PROTOCOL_VERSION_def)
qed

text \<open>
  C16: Closed means closed. Once a reachable actor is consumed, expired, undelivered or failed, no
  sequence of requests and timer ticks changes it, it holds neither the capability nor the plaintext
  and draws no entropy; every further Open is answered with an error, never with an offer, and an
  acknowledgement is confirmed only for a consumed share, from the peer of its claim and with the
  claim, digest and proof of the offer that was delivered.
\<close>

theorem closed_share_stays_closed:
  assumes "sender_new C root net peer env deadline resume = Ok a0"
    and "sender_run P E (a0, s0) tr (a, s)" and "terminal (sa_state a)"
    and "sender_run P E (a, s) tr' (a', s')"
  shows "a' = a \<and> s' = s \<and> wiped a
    \<and> (\<forall>p r now res. (Open p r now, Offered res) \<in> set tr' \<longrightarrow> \<not> is_ok res)
    \<and> (\<forall>p r res. (Acknowledge p r, Completed res) \<in> set tr' \<and> is_ok res \<longrightarrow>
         sa_state a = Consumed \<and> (\<exists>c. sa_claim a = Some c \<and> p = bc_receiver_peer_id c \<and>
           ack_claim_id r = bc_claim_id c \<and> ack_ciphertext_digest r = bc_digest c \<and>
           ack_acknowledgement_proof r = bc_expected_acknowledgement c))"
proof -
  have inv: "actor_inv a" using sender_run_inv [OF assms(2)] sender_new_inv [OF assms(1)] by simp
  have "\<forall>(i, out) \<in> set tr'. closed_answer a i out" "a' = a" "s' = s"
    using sender_run_closed [OF assms(4) inv assms(3)] by auto
  then show ?thesis using actor_inv_terminal [OF inv] assms(3) by fastforce
qed

text \<open>
  Acknowledgement is idempotent and final: an accepted acknowledgement leaves the share
  consumed with its secrets erased, and repeating it gives the same completion and changes
  nothing.
\<close>

theorem acknowledgement_idempotent:
  assumes "actor_inv a" and "handle_acknowledgement a p r = (Ok resp, a')"
  shows "sa_state a' = Consumed \<and> wiped a' \<and> completed_claim_id resp = ack_claim_id r \<and>
    handle_acknowledgement a' p r = (Ok resp, a')"
  using assms(2)
proof (cases rule: handle_acknowledgement_cases)
  case (completed c)
  then show ?thesis
    using assms(1)
    by (auto simp: actor_inv_def handle_acknowledgement_def verifies_def)
qed simp

text \<open>
  Deadlines are enforced: at a timer tick at or after the availability deadline an unclaimed
  share expires, at or after the resume deadline a disclosed share becomes undelivered, and a
  tick before them, or in a closed state, changes nothing.
\<close>

theorem timer_enforces_deadlines:
  assumes "actor_inv a"
  shows "handle_timer a now =
    (case (sa_state a, sa_claim a) of
       (Available, None) \<Rightarrow> if sa_available_deadline a \<le> now then close a Expired else a
     | (Disclosed, Some c) \<Rightarrow> if bc_resume_deadline c \<le> now then close a DeliveryUnknown else a
     | _ \<Rightarrow> a) \<and>
    (sa_available_deadline a \<le> now \<and> (\<forall>c. sa_claim a = Some c \<longrightarrow> bc_resume_deadline c \<le> now) \<longrightarrow>
       terminal (sa_state (handle_timer a now)) \<and> wiped (handle_timer a now))"
  using assms
  by (cases "sa_state a"; cases "sa_claim a")
    (auto simp: actor_inv_def handle_timer_def past_resume_deadline_def terminal_def)

end
