(* ===== verification/Receiver_Session.thy ===== *)
theory Receiver_Session
  imports Sender_Actor
begin

text \<open>
  The receiver's side of one transfer: \<^verbatim>\<open>core/src/receiver/session.rs\<close>, and the lemmas that
  relate it to the sender's actor: an offer built by the actor for an authenticated Open
  verifies, decrypts to the sender's envelope, and yields the acknowledgement the actor expects.
\<close>

record ReceiverSession =
  rs_root :: DerivedRoot
  rs_network_id :: bytes
  rs_sender_peer_id :: bytes
  rs_receiver_peer_id :: bytes
  rs_receiver_nonce :: bytes

record VerifiedOffer =
  vo_envelope :: SecretEnvelope
  vo_acknowledgement :: AcknowledgeRequest

definition receiver_new ::
  "DerivedRoot \<Rightarrow> bytes \<Rightarrow> bytes \<Rightarrow> bytes \<Rightarrow> bytes \<Rightarrow> (CoreError, ReceiverSession) result" where
  "receiver_new root network_id sender_peer_id receiver_peer_id receiver_nonce =
     (if network_id = [] \<or> sender_peer_id = [] \<or> receiver_peer_id = []
      then Err Core_Configuration
      else Ok \<lparr>rs_root = root, rs_network_id = network_id, rs_sender_peer_id = sender_peer_id,
               rs_receiver_peer_id = receiver_peer_id, rs_receiver_nonce = receiver_nonce\<rparr>)"

definition receiver_context :: "ReceiverSession \<Rightarrow> PeerContext" where
  "receiver_context r =
     \<lparr>ctx_network_id = rs_network_id r, ctx_room_id = root_room_id (rs_root r),
      ctx_sender_peer_id = rs_sender_peer_id r, ctx_receiver_peer_id = rs_receiver_peer_id r\<rparr>"

definition open_request :: "primitives \<Rightarrow> ReceiverSession \<Rightarrow> (CoreError, OpenRequest) result" where
  "open_request P r =
     bind_res (map_err (\<lambda>_. Core_Transfer) (open_proof P (root_authentication_key (rs_root r))
       (receiver_context r) (rs_receiver_nonce r))) (\<lambda>proof.
     Ok \<lparr>open_protocol_version = PROTOCOL_VERSION, open_room_id = root_room_id (rs_root r),
         open_receiver_nonce = rs_receiver_nonce r, open_receiver_proof = proof\<rparr>)"

definition verify_offer ::
  "cbor \<Rightarrow> primitives \<Rightarrow> ReceiverSession \<Rightarrow> OfferResponse \<Rightarrow> (CoreError, VerifiedOffer) result" where
  "verify_offer C P r offer =
     (if offer_protocol_version offer \<noteq> PROTOCOL_VERSION then Err Core_Transfer else
      bind_res (map_err (\<lambda>_. Core_Transfer) (content_type_try_from (offer_content_type offer))) (\<lambda>_.
      let ctx = receiver_context r; sender_nonce = offer_sender_nonce offer;
          claim_id = offer_claim_id offer; aead_nonce = offer_aead_nonce offer;
          digest = offer_ciphertext_digest offer in
      bind_res (map_err (\<lambda>_. Core_Transfer) (offer_proof P (root_authentication_key (rs_root r))
        \<lparr>opi_context = ctx, opi_receiver_nonce = rs_receiver_nonce r,
         opi_sender_nonce = sender_nonce, opi_claim_id = claim_id,
         opi_expires_at_unix_ms = offer_expires_at_unix_ms offer,
         opi_content_type = offer_content_type offer,
         opi_plaintext_length = offer_plaintext_length offer,
         opi_aead_nonce = aead_nonce, opi_ciphertext_digest = digest\<rparr>)) (\<lambda>expected_offer.
      if \<not> verifies expected_offer (offer_sender_proof offer)
         \<or> \<not> verify_ciphertext_digest P digest aead_nonce (offer_ciphertext offer)
      then Err Core_Transfer else
      bind_res (map_err (\<lambda>_. Core_Transfer) (derive_session P (root_session_base_key (rs_root r))
        ctx (rs_receiver_nonce r) sender_nonce claim_id)) (\<lambda>session.
      bind_res (map_err (\<lambda>_. Core_Transfer) (payload_associated_data
        \<lparr>aad_context = ctx, aad_receiver_nonce = rs_receiver_nonce r,
         aad_sender_nonce = sender_nonce, aad_claim_id = claim_id,
         aad_expires_at_unix_ms = offer_expires_at_unix_ms offer,
         aad_content_type = offer_content_type offer,
         aad_plaintext_length = offer_plaintext_length offer\<rparr>)) (\<lambda>aad.
      bind_res (map_err (\<lambda>_. Core_Transfer) (decrypt_payload P (payload_key session) aead_nonce
        (offer_ciphertext offer) aad)) (\<lambda>plaintext.
      bind_res (map_err (\<lambda>_. Core_Transfer) (envelope_decode C plaintext)) (\<lambda>envelope.
      if content_type_u8 (env_content_type envelope) \<noteq> offer_content_type offer
         \<or> env_expires_at_unix_ms envelope \<noteq> offer_expires_at_unix_ms offer
      then Err Core_Transfer else
      bind_res (ok_or Core_Transfer (u32_try_from (length (env_payload envelope)))) (\<lambda>len.
      if len \<noteq> offer_plaintext_length offer then Err Core_Transfer else
      bind_res (map_err (\<lambda>_. Core_Transfer) (acknowledgement_proof P (acknowledgement_key session)
        ctx claim_id digest)) (\<lambda>proof.
      Ok \<lparr>vo_envelope = envelope,
          vo_acknowledgement = \<lparr>ack_protocol_version = PROTOCOL_VERSION,
            ack_claim_id = offer_claim_id offer, ack_ciphertext_digest = offer_ciphertext_digest offer,
            ack_acknowledgement_proof = proof\<rparr>\<rparr>)))))))))"

definition into_parts :: "VerifiedOffer \<Rightarrow> SecretEnvelope \<times> AcknowledgeRequest" where
  "into_parts v = (vo_envelope v, vo_acknowledgement v)"


section \<open>What a verified offer guarantees\<close>

lemma u32_of_nat_eq: "n < 4294967296 \<Longrightarrow> (of_nat n :: u32) = w \<longleftrightarrow> n = unat w"
  using unat_u32_of_nat by auto

definition offer_input :: "ReceiverSession \<Rightarrow> OfferResponse \<Rightarrow> OfferProofInput" where
  "offer_input r offer = \<lparr>opi_context = receiver_context r, opi_receiver_nonce = rs_receiver_nonce r,
     opi_sender_nonce = offer_sender_nonce offer, opi_claim_id = offer_claim_id offer,
     opi_expires_at_unix_ms = offer_expires_at_unix_ms offer,
     opi_content_type = offer_content_type offer,
     opi_plaintext_length = offer_plaintext_length offer, opi_aead_nonce = offer_aead_nonce offer,
     opi_ciphertext_digest = offer_ciphertext_digest offer\<rparr>"

lemma verify_offer_Ok:
  assumes "verify_offer C P r offer = Ok v"
  obtains keys aad plaintext tag where
    "offer_protocol_version offer = PROTOCOL_VERSION"
    "offer_proof P (root_authentication_key (rs_root r)) (offer_input r offer) =
       Ok (offer_sender_proof offer)"
    "ciphertext_digest P (offer_aead_nonce offer) (offer_ciphertext offer) =
       offer_ciphertext_digest offer"
    "derive_session P (root_session_base_key (rs_root r)) (receiver_context r)
       (rs_receiver_nonce r) (offer_sender_nonce offer) (offer_claim_id offer) = Ok keys"
    "decrypt_payload P (payload_key keys) (offer_aead_nonce offer) (offer_ciphertext offer) aad =
       Ok plaintext"
    "envelope_decode C plaintext = Ok (vo_envelope v)"
    "content_type_u8 (env_content_type (vo_envelope v)) = offer_content_type offer"
    "env_expires_at_unix_ms (vo_envelope v) = offer_expires_at_unix_ms offer"
    "length (env_payload (vo_envelope v)) = unat (offer_plaintext_length offer)"
    "acknowledgement_proof P (acknowledgement_key keys) (receiver_context r)
       (offer_claim_id offer) (offer_ciphertext_digest offer) = Ok tag"
    "vo_acknowledgement v = \<lparr>ack_protocol_version = PROTOCOL_VERSION,
       ack_claim_id = offer_claim_id offer, ack_ciphertext_digest = offer_ciphertext_digest offer,
       ack_acknowledgement_proof = tag\<rparr>"
  using assms that
  by (auto simp: verify_offer_def Let_def result_simps verifies_def verify_ciphertext_digest_def
      offer_input_def u32_of_nat_eq split: if_splits)

section \<open>The sender's offer, seen by the receiver\<close>

text \<open>The receiver's session belongs to the actor's share and the peer that opened it.\<close>

definition matches :: "ReceiverSession \<Rightarrow> SenderActor \<Rightarrow> DerivedRoot \<Rightarrow> bytes \<Rightarrow> bool" where
  "matches r a root p \<longleftrightarrow> rs_root r = root \<and> receiver_context r = sender_context a p"

definition describes :: "SenderActor \<Rightarrow> SecretEnvelope \<Rightarrow> bool" where
  "describes a env \<longleftrightarrow> sa_content_type a = content_type_u8 (env_content_type env) \<and>
     sa_expires_at_unix_ms a = env_expires_at_unix_ms env \<and>
     length (env_payload env) < 4294967296 \<and>
     sa_plaintext_length a = of_nat (length (env_payload env))"

context crypto_lib
begin

lemma built_offer_verifies:
  assumes build: "build_offer P a root pt p (rs_receiver_nonce r) now sn cid an = Ok (offer, c)"
    and dec: "envelope_decode C pt = Ok env"
    and desc: "describes a env" and m: "matches r a root p"
  shows "verify_offer C P r offer = Ok \<lparr>vo_envelope = env, vo_acknowledgement =
    \<lparr>ack_protocol_version = PROTOCOL_VERSION, ack_claim_id = bc_claim_id c,
     ack_ciphertext_digest = bc_digest c,
     ack_acknowledgement_proof = bc_expected_acknowledgement c\<rparr>\<rparr>"
  using build dec desc m
  by (auto simp: build_offer_def verify_offer_def Let_def result_simps matches_def describes_def
      verifies_def verify_ciphertext_digest_def decrypt_encrypt u32_try_from_def)

lemma build_offer_total:
  assumes "valid_context (sender_context a p)" and "peers_fit (sender_context a p)"
    and "length (root_session_base_key root) = 32" and "length pt \<le> MAX_ENVELOPE_BYTES"
    and "length rn = 32" and "length sn = 32" and "length cid = 16" and "length an = 24"
    and "now + sa_resume_duration a \<le> INSTANT_MAX"
  obtains offer c where "build_offer P a root pt p rn now sn cid an = Ok (offer, c)"
    "wf_offer offer" "length (offer_ciphertext offer) \<le> MAX_CIPHERTEXT_BYTES"
    "offer_plaintext_length offer = sa_plaintext_length a"
proof -
  let ?ctx = "sender_context a p"
  obtain keys where keys: "derive_session P (root_session_base_key root) ?ctx rn sn cid = Ok keys"
    "length (payload_key keys) = 32"
    by (rule derive_session_ok [OF assms(1,2,7)])
  let ?aad = "\<lparr>aad_context = ?ctx, aad_receiver_nonce = rn, aad_sender_nonce = sn,
    aad_claim_id = cid, aad_expires_at_unix_ms = sa_expires_at_unix_ms a,
    aad_content_type = sa_content_type a, aad_plaintext_length = sa_plaintext_length a\<rparr>"
  obtain aad where aad: "payload_associated_data ?aad = Ok aad"
    using transcripts_succeed(5) [OF assms(1,2), of ?aad] assms by auto
  have "length pt < 2 ^ 32" using assms(4) by (simp add: limit_defs)
  then obtain ct where ct: "encrypt_payload P (payload_key keys) an pt aad = Ok ct"
    "length ct = length pt + 16"
    using encrypt_payload_ok [OF keys(2) assms(8)] by metis
  let ?d = "ciphertext_digest P an ct"
  let ?opi = "\<lparr>opi_context = ?ctx, opi_receiver_nonce = rn, opi_sender_nonce = sn,
    opi_claim_id = cid, opi_expires_at_unix_ms = sa_expires_at_unix_ms a,
    opi_content_type = sa_content_type a, opi_plaintext_length = sa_plaintext_length a,
    opi_aead_nonce = an, opi_ciphertext_digest = ?d\<rparr>"
  obtain sp where sp: "offer_proof P (root_authentication_key root) ?opi = Ok sp" "length sp = 32"
    by (rule offer_proof_ok [of ?opi]) (use assms digest_length in auto)
  obtain ap where ap: "acknowledgement_proof P (acknowledgement_key keys) ?ctx cid ?d = Ok ap"
    by (rule acknowledgement_proof_ok [OF assms(1,2,7) digest_length])
  show ?thesis
    using assms keys aad ct sp ap digest_length [of an ct]
    by (intro that) (auto simp: build_offer_def Let_def instant_checked_add_def wf_offer_def limit_defs)
qed

end

section \<open>A complete transfer\<close>

lemma sender_new_ok:
  assumes "cbor_lib C" and "wf_envelope env" and "net \<noteq> []" and "peer \<noteq> []"
  obtains a pt where "sender_new C root net peer env dl rd = Ok a" "envelope_decode C pt = Ok env"
    "length pt \<le> MAX_ENVELOPE_BYTES" "sa_encoded_envelope a = Some pt" "describes a env"
    "sa_state a = Available" "sa_root a = Some root" "sa_room_id a = root_room_id root"
    "sa_network_id a = net" "sa_sender_peer_id a = peer" "sa_available_deadline a = dl"
    "sa_resume_duration a = rd"
proof -
  obtain pt where pt: "envelope_encode C env = Ok pt" "length pt \<le> MAX_ENVELOPE_BYTES"
    "envelope_decode C pt = Ok env"
    using envelope_rt [OF assms(1,2)] by blast
  have "length (env_payload env) < 4294967296"
    using assms(2) by (auto simp: wf_envelope_def limit_defs)
  then show ?thesis
    using assms(3,4) pt
    by (intro that [of "the (case sender_new C root net peer env dl rd of Inr a \<Rightarrow> Some a)" pt])
      (simp_all add: sender_new_def u32_try_from_def describes_def)
qed

text \<open>The three draws of entropy an offer needs succeed from state \<open>s\<close> on.\<close>

definition draws_succeed :: "'s entropy \<Rightarrow> 's \<Rightarrow> bool" where
  "draws_succeed E s \<longleftrightarrow> (\<exists>b1 s1 b2 s2 b3 s3. E s 32 = (Ok b1, s1) \<and> E s1 16 = (Ok b2, s2) \<and>
     E s2 24 = (Ok b3, s3))"

context crypto_lib
begin

lemma prepare_offer_total:
  assumes "entropy_fills E" and "draws_succeed E s"
    and "sa_root a = Some root" and "sa_encoded_envelope a = Some pt"
    and "valid_context (sender_context a p)" and "peers_fit (sender_context a p)"
    and "length (root_session_base_key root) = 32" and "length pt \<le> MAX_ENVELOPE_BYTES"
    and "length (open_receiver_nonce req) = 32" and "now + sa_resume_duration a \<le> INSTANT_MAX"
  obtains offer c s' sn cid an where
    "prepare_offer P E a p req now s = (Ok (offer, c), s')"
    "build_offer P a root pt p (open_receiver_nonce req) now sn cid an = Ok (offer, c)"
    "wf_offer offer" "length (offer_ciphertext offer) \<le> MAX_CIPHERTEXT_BYTES"
    "offer_plaintext_length offer = sa_plaintext_length a"
proof -
  obtain sn s1 cid s2 an s3 where e: "E s 32 = (Ok sn, s1)" "E s1 16 = (Ok cid, s2)"
    "E s2 24 = (Ok an, s3)" using assms(2) by (auto simp: draws_succeed_def)
  have len: "length sn = 32" "length cid = 16" "length an = 24"
    using assms(1) e by (auto simp: entropy_fills_def)
  obtain offer c where b:
    "build_offer P a root pt p (open_receiver_nonce req) now sn cid an = Ok (offer, c)"
    "wf_offer offer" "length (offer_ciphertext offer) \<le> MAX_CIPHERTEXT_BYTES"
    "offer_plaintext_length offer = sa_plaintext_length a"
    by (rule build_offer_total [OF assms(5-9) len assms(10)])
  show ?thesis
    by (rule that [OF _ b, of s3]) (simp add: prepare_offer_def assms(3,4) e b)
qed

end


text \<open>
  A receiver session for the same capability, and an actor that has not been opened: the
  hypotheses of a transfer that should succeed.
\<close>

definition transfer_ready ::
  "DerivedRoot \<Rightarrow> bytes \<Rightarrow> bytes \<Rightarrow> bytes \<Rightarrow> bytes \<Rightarrow> instant \<Rightarrow> instant \<Rightarrow> duration \<Rightarrow> bool" where
  "transfer_ready root net sp rp nonce now dl rd \<longleftrightarrow>
     validate_network_id net = Ok net \<and> sp \<noteq> [] \<and> rp \<noteq> [] \<and> length sp + length rp \<le> 7800 \<and>
     length (root_room_id root) = 16 \<and> length (root_session_base_key root) = 32 \<and>
     length nonce = 32 \<and> now < dl \<and> now + rd \<le> INSTANT_MAX"

lemma transfer_ready_context:
  assumes "transfer_ready root net sp rp nonce now dl rd"
    and "ctx = \<lparr>ctx_network_id = net, ctx_room_id = root_room_id root, ctx_sender_peer_id = sp,
      ctx_receiver_peer_id = rp\<rparr>"
  shows "valid_context ctx" "peers_fit ctx" "net \<noteq> []"
  using assms
  by (auto simp: transfer_ready_def valid_context_def validate_context_def peers_fit_def
      validate_network_id_def split: if_splits)

text \<open>An actor that can serve the peer, and the session of that peer.\<close>

definition can_serve ::
  "cbor \<Rightarrow> SenderActor \<Rightarrow> DerivedRoot \<Rightarrow> SecretEnvelope \<Rightarrow> ReceiverSession \<Rightarrow> bytes \<Rightarrow> instant \<Rightarrow> bool" where
  "can_serve C a root env session p now \<longleftrightarrow>
     sa_state a = Available \<and> now < sa_available_deadline a \<and>
     now + sa_resume_duration a \<le> INSTANT_MAX \<and> sa_root a = Some root \<and>
     sa_room_id a = root_room_id root \<and> length (root_session_base_key root) = 32 \<and>
     describes a env \<and> (\<exists>pt. sa_encoded_envelope a = Some pt \<and> envelope_decode C pt = Ok env \<and>
       length pt \<le> MAX_ENVELOPE_BYTES) \<and>
     rs_root session = root \<and> receiver_context session = sender_context a p \<and>
     length (rs_receiver_nonce session) = 32 \<and>
     valid_context (sender_context a p) \<and> peers_fit (sender_context a p)"

context crypto_lib
begin

lemma open_request_ok:
  assumes "can_serve C a root env session p now"
  obtains req where "open_request P session = Ok req" "wf_open req"
    "open_receiver_nonce req = rs_receiver_nonce session"
    "open_protocol_version req = PROTOCOL_VERSION" "authenticates_open P a p req"
proof -
  let ?n = "rs_receiver_nonce session"
  obtain tag where tag: "open_proof P (root_authentication_key root) (sender_context a p) ?n = Ok tag"
    "length tag = 32"
    using open_proof_ok [of "sender_context a p" ?n] assms by (auto simp: can_serve_def)
  let ?req = "\<lparr>open_protocol_version = PROTOCOL_VERSION, open_room_id = root_room_id root,
    open_receiver_nonce = ?n, open_receiver_proof = tag\<rparr>"
  show ?thesis
    by (rule that [of ?req])
      (use assms tag in \<open>auto simp: can_serve_def open_request_def authenticates_open_def
          verifies_def wf_open_def peers_fit_def sender_context_def\<close>)
qed

lemma open_served:
  assumes serve: "can_serve C a root env session p now"
    and ent: "entropy_fills E" "draws_succeed E s"
    and req: "open_receiver_nonce req = rs_receiver_nonce session"
      "open_protocol_version req = PROTOCOL_VERSION" "authenticates_open P a p req"
  obtains offer c s' where
    "handle_open P E a p req now s = (Ok offer, a\<lparr>sa_state := Disclosed, sa_claim := Some c\<rparr>, s')"
    "wf_offer offer" "bounded_response (ROffer offer)" "bc_offer c = offer"
    "bc_receiver_peer_id c = p" "claim_consistent c"
    "verify_offer C P session offer = Ok \<lparr>vo_envelope = env, vo_acknowledgement =
       \<lparr>ack_protocol_version = PROTOCOL_VERSION, ack_claim_id = bc_claim_id c,
        ack_ciphertext_digest = bc_digest c,
        ack_acknowledgement_proof = bc_expected_acknowledgement c\<rparr>\<rparr>"
proof -
  let ?a = "a\<lparr>sa_state := PreparingOffer\<rparr>"
  have ctx: "sender_context ?a p = sender_context a p" by (simp add: sender_context_def)
  obtain pt where pt: "sa_encoded_envelope a = Some pt" "envelope_decode C pt = Ok env"
    "length pt \<le> MAX_ENVELOPE_BYTES" using serve by (auto simp: can_serve_def)
  obtain offer c s' sn cid an where prep: "prepare_offer P E ?a p req now s = (Ok (offer, c), s')"
    and build: "build_offer P ?a root pt p (rs_receiver_nonce session) now sn cid an = Ok (offer, c)"
    and wf: "wf_offer offer" "length (offer_ciphertext offer) \<le> MAX_CIPHERTEXT_BYTES"
      "offer_plaintext_length offer = sa_plaintext_length ?a"
    by (rule prepare_offer_total [OF ent, of ?a root pt p req now])
      (use serve pt req in \<open>simp_all add: can_serve_def ctx\<close>)
  note c = build_offer_Ok [OF build]
  have ver: "verify_offer C P session offer = Ok \<lparr>vo_envelope = env, vo_acknowledgement =
     \<lparr>ack_protocol_version = PROTOCOL_VERSION, ack_claim_id = bc_claim_id c,
      ack_ciphertext_digest = bc_digest c,
      ack_acknowledgement_proof = bc_expected_acknowledgement c\<rparr>\<rparr>"
    by (rule built_offer_verifies [OF build pt(2)])
      (use serve ctx in \<open>simp_all add: can_serve_def matches_def describes_def\<close>)
  have bnd: "bounded_response (ROffer offer)"
    using wf pt(2) serve
    by (auto simp: can_serve_def describes_def unat_u32_of_nat envelope_decode_def result_simps
        envelope_new_Ok split: if_splits)
  have "handle_open P E a p req now s = (Ok offer, a\<lparr>sa_state := Disclosed, sa_claim := Some c\<rparr>, s')"
    using serve prep req by (simp add: handle_open_def can_serve_def)
  then show ?thesis using that wf bnd c ver by blast
qed

end

lemma acknowledgement_accepted:
  assumes "sa_state a = Disclosed" and "sa_claim a = Some c"
  shows "handle_acknowledgement a (bc_receiver_peer_id c)
      \<lparr>ack_protocol_version = PROTOCOL_VERSION, ack_claim_id = bc_claim_id c,
       ack_ciphertext_digest = bc_digest c,
       ack_acknowledgement_proof = bc_expected_acknowledgement c\<rparr> =
    (Ok \<lparr>completed_protocol_version = PROTOCOL_VERSION, completed_claim_id = bc_claim_id c\<rparr>,
     close a Consumed)"
  using assms by (simp add: handle_acknowledgement_def verifies_def close_def)

lemma new_actor_can_serve:
  assumes "cbor_lib C" and "wf_envelope env"
    and ready: "transfer_ready root net sp rp nonce now dl rd"
  obtains a session where "sender_new C root net sp env dl rd = Ok a"
    "receiver_new root net sp rp nonce = Ok session" "can_serve C a root env session rp now"
proof -
  have net: "net \<noteq> []" "sp \<noteq> []" "rp \<noteq> []"
    using transfer_ready_context(3) [OF ready refl] ready by (auto simp: transfer_ready_def)
  obtain a pt where new: "sender_new C root net sp env dl rd = Ok a"
    and a: "envelope_decode C pt = Ok env" "length pt \<le> MAX_ENVELOPE_BYTES"
      "sa_encoded_envelope a = Some pt" "describes a env" "sa_state a = Available"
      "sa_root a = Some root" "sa_room_id a = root_room_id root" "sa_network_id a = net"
      "sa_sender_peer_id a = sp" "sa_available_deadline a = dl" "sa_resume_duration a = rd"
    by (rule sender_new_ok [OF assms(1,2) net(1,2)])
  let ?session = "\<lparr>rs_root = root, rs_network_id = net, rs_sender_peer_id = sp,
    rs_receiver_peer_id = rp, rs_receiver_nonce = nonce\<rparr>"
  have "valid_context (sender_context a rp)" "peers_fit (sender_context a rp)"
    by (rule transfer_ready_context [OF ready]; simp add: sender_context_def a)+
  then have "can_serve C a root env ?session rp now"
    using a ready by (simp add: can_serve_def transfer_ready_def receiver_context_def sender_context_def)
  then show ?thesis using that new net by (simp add: receiver_new_def)
qed

lemma acknowledgement_wf:
  assumes "crypto_lib P" and "verify_offer C P r offer = Ok v" and "wf_offer offer"
  shows "wf_acknowledge (vo_acknowledgement v)"
  using assms(2)
proof (cases rule: verify_offer_Ok)
  case (1 keys aad plaintext tag)
  obtain t where t: "authenticate P (acknowledgement_key keys) t = Ok tag"
    using 1(10) by (auto simp: acknowledgement_proof_def result_simps)
  have "length tag = 32"
    using t crypto_lib.authenticate_ok [OF assms(1), of "acknowledgement_key keys" t] by auto
  then show ?thesis using 1 assms(3) by (simp add: wf_acknowledge_def wf_offer_def)
qed

lemma offer_transcript_inj:
  "offer_transcript i = Ok t \<Longrightarrow> offer_transcript i' = Ok t \<Longrightarrow> i = i'"
  using append_fields_inj [OF _ _ field_list_kinds(4), of i t i']
  by (simp add: transcript_eqs field_lists_inj)

lemma served_claim:
  assumes "sa_state a = Available" and "handle_open P E a p r now s = (Ok offer, a1, s1)"
  obtains c where "a1 = a\<lparr>sa_state := Disclosed, sa_claim := Some c\<rparr>" "bc_offer c = offer"
    "bc_receiver_peer_id c = p" "bc_receiver_nonce c = open_receiver_nonce r"
    "bc_resume_deadline c = now + sa_resume_duration a"
proof -
  let ?a = "a\<lparr>sa_state := PreparingOffer\<rparr>"
  obtain c where prep: "prepare_offer P E ?a p r now s = (Ok (offer, c), s1)"
    and a1: "a1 = ?a\<lparr>sa_claim := Some c, sa_state := Disclosed\<rparr>"
    using assms by (auto simp: handle_open_def Let_def split: if_splits prod.splits sum.splits)
  have d: "bc_resume_deadline c = now + sa_resume_duration a"
    using prep by (auto simp: prepare_offer_def dest: build_offer_Ok(6)
        split: option.splits prod.splits sum.splits)
  show ?thesis
    using that [of c] a1 d prepare_offer_Ok [OF prep] by simp
qed

lemma transfer_completes:
  assumes lib: "cbor_lib C" "crypto_lib P" and ent: "entropy_fills E" "draws_succeed E s"
    and env: "wf_envelope env" and ready: "transfer_ready root net sp rp nonce now dl rd"
  shows "\<exists>a0 session req offer a1 s' v resp a2.
    sender_new C root net sp env dl rd = Ok a0 \<and>
    receiver_new root net sp rp nonce = Ok session \<and>
    open_request P session = Ok req \<and> wf_open req \<and>
    handle_open P E a0 rp req now s = (Ok offer, a1, s') \<and> sa_state a1 = Disclosed \<and>
    wf_offer offer \<and> bounded_response (ROffer offer) \<and>
    verify_offer C P session offer = Ok v \<and> vo_envelope v = env \<and>
    handle_acknowledgement a1 rp (vo_acknowledgement v) = (Ok resp, a2) \<and>
    completed_claim_id resp = offer_claim_id offer \<and> sa_state a2 = Consumed \<and> wiped a2"
proof -
  obtain a session where a: "sender_new C root net sp env dl rd = Ok a"
    "receiver_new root net sp rp nonce = Ok session" and serve: "can_serve C a root env session rp now"
    by (rule new_actor_can_serve [OF lib(1) env ready])
  obtain req where req: "open_request P session = Ok req" "wf_open req"
    and r: "open_receiver_nonce req = rs_receiver_nonce session"
      "open_protocol_version req = PROTOCOL_VERSION" "authenticates_open P a rp req"
    by (rule crypto_lib.open_request_ok [OF lib(2) serve])
  obtain offer c s' where o: "handle_open P E a rp req now s =
      (Ok offer, a\<lparr>sa_state := Disclosed, sa_claim := Some c\<rparr>, s')" "wf_offer offer"
    "bounded_response (ROffer offer)" "bc_offer c = offer" "bc_receiver_peer_id c = rp"
    "claim_consistent c"
    "verify_offer C P session offer = Ok \<lparr>vo_envelope = env, vo_acknowledgement =
       \<lparr>ack_protocol_version = PROTOCOL_VERSION, ack_claim_id = bc_claim_id c,
        ack_ciphertext_digest = bc_digest c,
        ack_acknowledgement_proof = bc_expected_acknowledgement c\<rparr>\<rparr>"
    by (rule crypto_lib.open_served [OF lib(2) serve ent r])
  have "bc_claim_id c = offer_claim_id offer" using o(4,6) by (simp add: claim_consistent_def)
  then show ?thesis
    using a req o acknowledgement_accepted [of "a\<lparr>sa_state := Disclosed, sa_claim := Some c\<rparr>" c]
    by fastforce
qed

section \<open>Properties\<close>

text \<open>
  End-to-end correctness. Between a sender that creates a share and a receiver with the
  same capability, with working entropy and within the deadline, the transfer completes: the
  receiver's Open is served, the offer fits the wire limits, verification recovers exactly the
  sender's envelope, and the acknowledgement it yields is accepted and consumes the share.
\<close>

theorem transfer_end_to_end:
  assumes lib: "cbor_lib C" "crypto_lib P" and ent: "entropy_fills E" "draws_succeed E s"
    and env: "wf_envelope env" and ready: "transfer_ready root net sp rp nonce now dl rd"
  shows "\<exists>a0 session req offer a1 s' v resp a2.
    sender_new C root net sp env dl rd = Ok a0 \<and>
    receiver_new root net sp rp nonce = Ok session \<and>
    open_request P session = Ok req \<and> wf_open req \<and>
    handle_open P E a0 rp req now s = (Ok offer, a1, s') \<and> sa_state a1 = Disclosed \<and>
    wf_offer offer \<and> bounded_response (ROffer offer) \<and>
    verify_offer C P session offer = Ok v \<and> vo_envelope v = env \<and>
    handle_acknowledgement a1 rp (vo_acknowledgement v) = (Ok resp, a2) \<and>
    completed_claim_id resp = offer_claim_id offer \<and> sa_state a2 = Consumed \<and> wiped a2"
  by (rule transfer_completes [OF assms])

text \<open>
  C17: What the receiver may rely on. An offer is accepted only if its proof is the HMAC of the
  Offer transcript of this session, its digest is the hash of its nonce and ciphertext, and its
  ciphertext decrypts to a well-formed envelope whose content type, expiry and payload length
  are the ones the offer announced; the acknowledgement produced names exactly that claim.
\<close>

theorem verified_offer_sound:
  assumes "cbor_lib C" and "verify_offer C P r offer = Ok v"
  shows "offer_proof P (root_authentication_key (rs_root r)) (offer_input r offer) =
      Ok (offer_sender_proof offer) \<and>
    sha256 P (offer_aead_nonce offer @ offer_ciphertext offer) = offer_ciphertext_digest offer \<and>
    wf_envelope (vo_envelope v) \<and>
    content_type_u8 (env_content_type (vo_envelope v)) = offer_content_type offer \<and>
    env_expires_at_unix_ms (vo_envelope v) = offer_expires_at_unix_ms offer \<and>
    length (env_payload (vo_envelope v)) = unat (offer_plaintext_length offer) \<and>
    ack_claim_id (vo_acknowledgement v) = offer_claim_id offer \<and>
    ack_ciphertext_digest (vo_acknowledgement v) = offer_ciphertext_digest offer"
  using assms(2)
proof (cases rule: verify_offer_Ok)
  case (1 keys aad plaintext tag)
  then show ?thesis
    using cbor_lib.decoded_envelope_wf [OF assms(1) 1(6)] by (simp add: ciphertext_digest_def)
qed

text \<open>
  C10: Tampering. If an offer is authentic, every other offer presented to the same session with
  the same proof is rejected, unless the two exhibit a collision: two different Offer
  transcripts with one HMAC under the authentication key, or two different nonce and ciphertext
  strings with one SHA-256 digest.
\<close>

theorem tampered_offer_rejected:
  assumes "offer_proof P (root_authentication_key (rs_root r)) (offer_input r offer) =
      Ok (offer_sender_proof offer)"
    and "ciphertext_digest P (offer_aead_nonce offer) (offer_ciphertext offer) =
      offer_ciphertext_digest offer"
    and "offer_protocol_version offer = PROTOCOL_VERSION"
    and "offer_sender_proof forged = offer_sender_proof offer" and "forged \<noteq> offer"
    and "\<not> (\<exists>t t'. offer_transcript (offer_input r offer) = Ok t \<and>
      offer_transcript (offer_input r forged) = Ok t' \<and> t \<noteq> t' \<and>
      hmac_sha256 P (root_authentication_key (rs_root r)) t =
      hmac_sha256 P (root_authentication_key (rs_root r)) t')"
    and "\<not> (offer_aead_nonce forged @ offer_ciphertext forged \<noteq>
        offer_aead_nonce offer @ offer_ciphertext offer \<and>
      sha256 P (offer_aead_nonce forged @ offer_ciphertext forged) =
      sha256 P (offer_aead_nonce offer @ offer_ciphertext offer))"
  shows "verify_offer C P r forged = Err Core_Transfer"
proof (rule ccontr)
  assume no: "verify_offer C P r forged \<noteq> Err Core_Transfer"
  have only: "verify_offer C P r forged = Err e \<Longrightarrow> e = Core_Transfer" for e
    by (auto simp: verify_offer_def Let_def result_simps map_err_def split: if_splits sum.splits)
  obtain v where v: "verify_offer C P r forged = Ok v"
    using no only by (cases "verify_offer C P r forged") auto
  have f: "offer_proof P (root_authentication_key (rs_root r)) (offer_input r forged) =
      Ok (offer_sender_proof forged)" "offer_protocol_version forged = PROTOCOL_VERSION"
    "ciphertext_digest P (offer_aead_nonce forged) (offer_ciphertext forged) =
       offer_ciphertext_digest forged"
    using v by (auto elim: verify_offer_Ok)
  have "offer_transcript (offer_input r forged) = offer_transcript (offer_input r offer)"
    using assms(1,4,6) f(1) by (auto simp: offer_proof_def authenticate_def result_simps)
  then have "offer_input r forged = offer_input r offer"
    using assms(1) offer_transcript_inj by (auto simp: offer_proof_def result_simps)
  then have eq: "offer_aead_nonce forged = offer_aead_nonce offer"
    "offer_ciphertext_digest forged = offer_ciphertext_digest offer"
    and same: "forged\<lparr>offer_ciphertext := offer_ciphertext offer\<rparr> = offer"
    using assms(3,4) f(2) by (auto simp: offer_input_def)
  then have "offer_ciphertext forged = offer_ciphertext offer"
    using f(3) assms(2,7) by (auto simp: ciphertext_digest_def)
  then show False using same assms(5) by (metis OfferResponse.surjective OfferResponse.update_convs(8))
qed

text \<open>
  Retries. After an Open was served, the same peer repeating the request before the resume
  deadline receives the identical offer, no entropy is drawn and the actor does not change,
  while any other authenticated Open, from another peer or with another nonce, is told that
  the share is already claimed.
\<close>

theorem open_retry_resumes:
  assumes "sa_state a = Available" and "handle_open P E a p r now s = (Ok offer, a1, s1)"
    and "now' < now + sa_resume_duration a"
  shows "handle_open P E a1 p r now' s' = (Ok offer, a1, s') \<and>
    (authenticates_open P a p' r' \<and> open_protocol_version r' = PROTOCOL_VERSION \<and>
       (p' \<noteq> p \<or> open_receiver_nonce r' \<noteq> open_receiver_nonce r) \<longrightarrow>
     handle_open P E a1 p' r' now' s' = (Err ShareAlreadyClaimed, a1, s'))"
proof -
  have auth: "authenticates_open P a p r" and ver: "open_protocol_version r = PROTOCOL_VERSION"
    using handle_open_Ok_auth [OF assms(2)] by simp_all
  obtain c where c: "a1 = a\<lparr>sa_state := Disclosed, sa_claim := Some c\<rparr>" "bc_offer c = offer"
    "bc_receiver_peer_id c = p" "bc_receiver_nonce c = open_receiver_nonce r"
    "bc_resume_deadline c = now + sa_resume_duration a"
    using served_claim [OF assms(1,2)] .
  have same: "authenticates_open P (a\<lparr>sa_state := Disclosed, sa_claim := Some c\<rparr>) q x =
      authenticates_open P a q x" for q x
    by (cases "sa_root a") (simp_all add: authenticates_open_def sender_context_def)
  show ?thesis
    using assms(3) auth ver c
    by (auto simp: handle_open_def same past_resume_deadline_def resume_offer_def)
qed

end
