(* ===== verification/Network_Types.thy ===== *)
theory Network_Types
  imports Wire
begin

text \<open>
  Types of the network crate's interface: \<^verbatim>\<open>network/src/error.rs\<close> and the events of
  \<^verbatim>\<open>driver.rs\<close>. A libp2p \<^verbatim>\<open>PeerId\<close> is its canonical byte string (\<^verbatim>\<open>to_bytes\<close>), a
  \<^verbatim>\<open>Multiaddr\<close> the list of its protocol components; the components the sources do not
  distinguish are \<open>Other\<close>, with their code and text.
\<close>

type_synonym peer_id = bytes

datatype ip_address = V4 u8 u8 u8 u8 | V6 u16 u16 u16 u16 u16 u16 u16 u16

datatype protocol =
    Ip4 u8 u8 u8 u8
  | Ip6 u16 u16 u16 u16 u16 u16 u16 u16
  | Tcp u16
  | Udp u16
  | Quic
  | QuicV1
  | Dns bytes
  | Dns4 bytes
  | Dns6 bytes
  | Dnsaddr bytes
  | P2p peer_id
  | P2pCircuit
  | Memory u64
  | Onion bytes
  | Onion3 bytes
  | Unix bytes
  | Other nat bytes

type_synonym multiaddr = "protocol list"

datatype NetworkError =
    Net_TaskStopped | Net_Busy | Net_Listen | Net_Dial | Net_Request | Net_Response
  | Net_Configuration

record DiscoveredPeer =
  dp_peer :: peer_id
  dp_addresses :: "multiaddr list"

type_synonym inbound_request_id = u64

datatype NetworkEvent =
    Listening multiaddr
  | InboundRequest peer_id inbound_request_id TransferRequest
  | Connected peer_id
  | Disconnected peer_id
  | RelayReservation peer_id bool
  | OutboundRelayCircuit peer_id
  | InboundRelayCircuit peer_id
  | DiscoveryRegistered peer_id u64
  | DiscoveryResults peer_id "DiscoveredPeer list"
  | DiscoveryFailed peer_id
  | DiscoveryExpired peer_id
  | LanDiscovered "DiscoveredPeer list"
  | LanExpired peer_id

end
