(* ===== verification/Direct.thy ===== *)
theory Direct
  imports Receiver_Session Network_Types
begin

text \<open>
  The direct workflows of \<^verbatim>\<open>core/src/direct.rs\<close>: the sender's event loop around its actor, and
  the receiver's two-step exchange. The network client is a parameter: \<open>respond\<close> tells whether
  the response to an inbound request could be delivered, \<open>request\<close> answers an outbound one. The
  loop's \<^verbatim>\<open>select!\<close> is resolved by the list of its inputs in the order they are taken.
\<close>

definition protocol_error :: "ProtocolErrorCode \<Rightarrow> TransferResponse" where
  "protocol_error code = RError \<lparr>error_protocol_version = PROTOCOL_VERSION, error_code = code\<rparr>"

fun map_protocol_error :: "ProtocolErrorCode \<Rightarrow> CoreError" where
  "map_protocol_error NotFoundOrUnauthorized = Core_NotFoundOrUnauthorized"
| "map_protocol_error ShareUnavailable = Core_ShareUnavailable"
| "map_protocol_error ShareExpired = Core_ShareUnavailable"
| "map_protocol_error ShareAlreadyClaimed = Core_ShareUnavailable"
| "map_protocol_error ClaimMismatch = Core_ShareUnavailable"
| "map_protocol_error TemporarilyUnavailable = Core_Network"
| "map_protocol_error UnsupportedVersion = Core_Transfer"
| "map_protocol_error InvalidMessage = Core_Transfer"
| "map_protocol_error PayloadTooLarge = Core_Transfer"
| "map_protocol_error InternalFailure = Core_Transfer"

section \<open>The sender's loop\<close>

text \<open>The response to one request, and the actor and entropy after it.\<close>

fun answer_request ::
  "primitives \<Rightarrow> 's entropy \<Rightarrow> SenderActor \<Rightarrow> peer_id \<Rightarrow> TransferRequest \<Rightarrow> instant \<Rightarrow> 's \<Rightarrow>
   TransferResponse \<times> SenderActor \<times> 's" where
  "answer_request P E a peer (ROpen req) now s =
     (case handle_open P E a peer req now s of
        (Inr offer, a, s) \<Rightarrow> (ROffer offer, a, s)
      | (Inl code, a, s) \<Rightarrow> (protocol_error code, a, s))"
| "answer_request P E a peer (RAcknowledge req) now s =
     (case handle_acknowledgement a peer req of
        (Inr completed, a) \<Rightarrow> (RCompleted completed, a, s)
      | (Inl code, a) \<Rightarrow> (protocol_error code, a, s))"

type_synonym sent = "inbound_request_id \<times> TransferResponse"

definition handle_event ::
  "primitives \<Rightarrow> 's entropy \<Rightarrow> (inbound_request_id \<Rightarrow> TransferResponse \<Rightarrow> bool) \<Rightarrow> SenderActor \<Rightarrow>
   NetworkEvent \<Rightarrow> instant \<Rightarrow> 's \<Rightarrow> (CoreError, unit) result \<times> SenderActor \<times> 's \<times> sent list" where
  "handle_event P E respond a event now s =
     (case event of
        InboundRequest peer request_id request \<Rightarrow>
          (case answer_request P E a peer request now s of (response, a, s) \<Rightarrow>
             (if respond request_id response then Ok () else Err Core_Network, a, s,
              [(request_id, response)]))
      | _ \<Rightarrow> (Ok (), a, s, []))"

datatype loop_input =
    Cancelled
  | TimerTick instant
  | Received "NetworkEvent option" instant

text \<open>
  \<open>direct_loop\<close> is \<^verbatim>\<open>DirectSender::run\<close> on a finite sequence of inputs: its result, if it has
  returned, the actor, the entropy and the responses handed to the network.
\<close>

fun direct_loop ::
  "primitives \<Rightarrow> 's entropy \<Rightarrow> (inbound_request_id \<Rightarrow> TransferResponse \<Rightarrow> bool) \<Rightarrow> SenderActor \<Rightarrow> 's \<Rightarrow>
   loop_input list \<Rightarrow> (CoreError, SenderState) result option \<times> SenderActor \<times> 's \<times> sent list" where
  "direct_loop P E respond a s [] = (None, a, s, [])"
| "direct_loop P E respond a s (i # inputs) =
     (case i of
        Cancelled \<Rightarrow> (Some (Ok (sa_state a)), a, s, [])
      | TimerTick now \<Rightarrow>
          (let a = handle_timer a now in
           if terminal (sa_state a) then (Some (Ok (sa_state a)), a, s, [])
           else direct_loop P E respond a s inputs)
      | Received None now \<Rightarrow> (Some (Err Core_Network), a, s, [])
      | Received (Some event) now \<Rightarrow>
          (case handle_event P E respond a event now s of
             (Inl e, a, s, sent) \<Rightarrow> (Some (Err e), a, s, sent)
           | (Inr _, a, s, sent) \<Rightarrow>
               if terminal (sa_state a) then (Some (Ok (sa_state a)), a, s, sent)
               else (case direct_loop P E respond a s inputs of
                       (r, a, s, sent') \<Rightarrow> (r, a, s, sent @ sent'))))"

section \<open>The receiver\<close>

definition receive ::
  "cbor \<Rightarrow> primitives \<Rightarrow> (TransferRequest \<Rightarrow> (NetworkError, TransferResponse) result) \<Rightarrow>
   ReceiverSession \<Rightarrow> (CoreError, VerifiedOffer) result" where
  "receive C P request session =
     bind_res (open_request P session) (\<lambda>req.
     bind_res (map_err (\<lambda>_. Core_Network) (request (ROpen req))) (\<lambda>response.
     case response of
       ROffer offer \<Rightarrow> verify_offer C P session offer
     | RError error \<Rightarrow> Err (map_protocol_error (error_code error))
     | RCompleted _ \<Rightarrow> Err Core_Transfer))"

definition acknowledge ::
  "(TransferRequest \<Rightarrow> (NetworkError, TransferResponse) result) \<Rightarrow> VerifiedOffer \<Rightarrow>
   (CoreError, SecretEnvelope) result" where
  "acknowledge request verified =
     (let (envelope, acknowledgement) = into_parts verified;
          expected_claim = ack_claim_id acknowledgement in
      bind_res (map_err (\<lambda>_. Core_Network) (request (RAcknowledge acknowledgement))) (\<lambda>response.
      case response of
        RCompleted completed \<Rightarrow>
          if completed_protocol_version completed = PROTOCOL_VERSION \<and>
             completed_claim_id completed = expected_claim
          then Ok envelope else Err Core_Transfer
      | RError error \<Rightarrow> Err (map_protocol_error (error_code error))
      | ROffer _ \<Rightarrow> Err Core_Transfer))"

section \<open>The loop refines the actor\<close>

text \<open>The response the loop hands to the network for an actor output.\<close>

fun response_of :: "sender_output \<Rightarrow> TransferResponse list" where
  "response_of (Offered (Inr offer)) = [ROffer offer]"
| "response_of (Offered (Inl code)) = [protocol_error code]"
| "response_of (Completed (Inr completed)) = [RCompleted completed]"
| "response_of (Completed (Inl code)) = [protocol_error code]"
| "response_of Silent = []"

lemma run_cons:
  assumes "sender_step P E (a, s) i out (a1, s1)" and "sender_run P E (a1, s1) tr (a2, s2)"
  shows "sender_run P E (a, s) ((i, out) # tr) (a2, s2)"
proof -
  have "sender_run P E c tr c' \<Longrightarrow> c = (a1, s1) \<Longrightarrow> sender_run P E (a, s) ((i, out) # tr) c'" for c c'
  proof (induction rule: sender_run.induct)
    case (run_nil c)
    have "sender_run P E (a, s) ([] @ [(i, out)]) (a1, s1)"
      using sender_run.run_nil assms(1) by (rule sender_run.run_snoc)
    then show ?case using run_nil by simp
  next
    case (run_snoc c tr b t j o' b' t')
    then have "sender_run P E (a, s) (((i, out) # tr) @ [(j, o')]) (b', t')"
      by (intro sender_run.run_snoc) auto
    then show ?case by simp
  qed
  then show ?thesis using assms(2) by blast
qed

lemma answer_request_step:
  assumes "answer_request P E a peer request now s = (response, a', s')"
  obtains i out where "sender_step P E (a, s) i out (a', s')" "response_of out = [response]"
proof (cases request)
  case (ROpen r)
  obtain res b t where h: "handle_open P E a peer r now s = (res, b, t)" by (metis prod_cases3)
  show ?thesis
    by (rule that [of "Open peer r now" "Offered res"])
      (use assms h ROpen in \<open>cases res; simp add: sender_step.step_open\<close>)+
next
  case (RAcknowledge r)
  obtain res b where h: "handle_acknowledgement a peer r = (res, b)" by fastforce
  show ?thesis
    by (rule that [of "Acknowledge peer r" "Completed res"])
      (use assms h RAcknowledge in \<open>cases res; simp add: sender_step.step_acknowledge\<close>)+
qed

lemma handle_event_step:
  assumes "handle_event P E respond a event now s = (res, a', s', sent)"
  obtains "a' = a" "s' = s" "sent = []"
  | i out where "sender_step P E (a, s) i out (a', s')" "map snd sent = response_of out"
proof (cases "\<exists>peer id request. event = InboundRequest peer id request")
  case True
  then obtain peer id request where e: "event = InboundRequest peer id request" by blast
  obtain response b t where ans: "answer_request P E a peer request now s = (response, b, t)"
    by (metis prod_cases3)
  then have eqs: "a' = b" "s' = t" "sent = [(id, response)]"
    using assms e by (auto simp: handle_event_def)
  obtain i out where "sender_step P E (a, s) i out (b, t)" "response_of out = [response]"
    using ans by (rule answer_request_step)
  then show ?thesis using that(2) eqs by auto
next
  case False
  then show ?thesis
    using assms that(1) by (cases event) (auto simp: handle_event_def)
qed

lemma direct_loop_refines:
  assumes "direct_loop P E respond a s inputs = (res, a', s', sent)"
  shows "\<exists>tr. sender_run P E (a, s) tr (a', s') \<and>
    map snd sent = concat (map (\<lambda>(i, out). response_of out) tr)"
  using assms
proof (induction inputs arbitrary: a s res a' s' sent)
  case Nil
  then show ?case by (auto intro!: exI [of _ "[]"] sender_run.run_nil)
next
  case (Cons i inputs)
  show ?case
  proof (cases i)
    case Cancelled
    then show ?thesis using Cons.prems by (auto intro!: exI [of _ "[]"] sender_run.run_nil)
  next
    case (TimerTick now)
    let ?b = "handle_timer a now"
    have step: "sender_step P E (a, s) (Timer now) Silent (?b, s)" by (rule sender_step.step_timer)
    show ?thesis
    proof (cases "terminal (sa_state ?b)")
      case True
      then have "a' = ?b" "s' = s" "sent = []" using Cons.prems TimerTick by (auto simp: Let_def)
      then show ?thesis using run_cons [OF step sender_run.run_nil]
        by (intro exI [of _ "[(Timer now, Silent)]"]) simp
    next
      case False
      then have "direct_loop P E respond ?b s inputs = (res, a', s', sent)"
        using Cons.prems TimerTick by (simp add: Let_def)
      from Cons.IH [OF this] obtain tr where "sender_run P E (?b, s) tr (a', s')"
        "map snd sent = concat (map (\<lambda>(i, out). response_of out) tr)" by blast
      then show ?thesis using run_cons [OF step] by (intro exI [of _ "(Timer now, Silent) # tr"]) simp
    qed
  next
    case (Received ev now)
    show ?thesis
    proof (cases ev)
      case None
      then show ?thesis using Cons.prems Received
        by (auto intro!: exI [of _ "[]"] sender_run.run_nil)
    next
      case (Some event)
      obtain r b t out1 where h: "handle_event P E respond a event now s = (r, b, t, out1)"
        by (metis prod_cases4)
      obtain res2 a2 s2 sent2 where l: "direct_loop P E respond b t inputs = (res2, a2, s2, sent2)"
        by (metis prod_cases4)
      from Cons.IH [OF l] obtain tr2 where tr2: "sender_run P E (b, t) tr2 (a2, s2)"
        "map snd sent2 = concat (map (\<lambda>(i, out). response_of out) tr2)" by blast
      have cases: "(a' = b \<and> s' = t \<and> sent = out1) \<or> (a' = a2 \<and> s' = s2 \<and> sent = out1 @ sent2)"
        using Cons.prems Received Some h l by (cases r) (auto split: if_splits)
      from h show ?thesis
      proof (cases rule: handle_event_step)
        case 1
        then show ?thesis using cases tr2 sender_run.run_nil by fastforce
      next
        case (2 j out)
        then show ?thesis using cases
          by (elim disjE)
            (use run_cons [OF 2(1) sender_run.run_nil] run_cons [OF 2(1) tr2(1)] tr2(2) in
              \<open>auto intro: exI [of _ "[(j, out)]"] exI [of _ "(j, out) # tr2"]\<close>)
      qed
    qed
  qed
qed

text \<open>What the network is given, in terms of the claim of the final actor.\<close>

lemma sender_run_shape:
  assumes "sender_run P E c tr c'" and "(j, out) \<in> set tr"
  shows "(\<forall>res. out = Offered res \<longrightarrow> (\<exists>p r now. j = Open p r now)) \<and>
    (\<forall>d. out = Completed (Ok d) \<longrightarrow>
      (\<exists>p r. j = Acknowledge p r \<and> completed_claim_id d = ack_claim_id r))"
  using assms
proof (induction rule: sender_run.induct)
  case (run_snoc c tr a s i o' a' s')
  show ?case
  proof (cases "(j, out) = (i, o')")
    case True
    show ?thesis
      using run_snoc.hyps(2) True
      by (cases rule: sender_stepE) (auto elim!: handle_acknowledgement_cases)
  qed (use run_snoc in auto)
qed simp

lemma response_of_mem:
  "ROffer offer \<in> set (response_of out) \<longleftrightarrow> out = Offered (Ok offer)"
  "RCompleted d \<in> set (response_of out) \<longleftrightarrow> out = Completed (Ok d)"
  by (cases out rule: response_of.cases; auto simp: protocol_error_def)+

lemma sent_mem:
  assumes "map snd sent = concat (map (\<lambda>(i, out). response_of out) tr)"
  shows "(\<exists>i. (i, x) \<in> set sent) \<longleftrightarrow> (\<exists>j out. (j, out) \<in> set tr \<and> x \<in> set (response_of out))"
proof -
  have "(\<exists>i. (i, x) \<in> set sent) \<longleftrightarrow> x \<in> set (map snd sent)" by force
  then show ?thesis unfolding assms by auto
qed

lemma sent_key:
  assumes run: "sender_run P E (a0, s0) tr (a, s)" and inv: "actor_inv a0" "sa_claim a0 = None"
    and sent: "map snd sent = concat (map (\<lambda>(i, out). response_of out) tr)"
  shows "(i, ROffer offer) \<in> set sent \<Longrightarrow> \<exists>c. sa_claim a = Some c \<and> offer = bc_offer c"
    and "(i, RCompleted d) \<in> set sent \<Longrightarrow> \<exists>c j. sa_claim a = Some c \<and>
      completed_claim_id d = offer_claim_id (bc_offer c) \<and> (j, ROffer (bc_offer c)) \<in> set sent"
proof -
  note disc = sender_run_disclosures [OF run inv]
  note mem = sent_mem [OF sent]
  assume "(i, ROffer offer) \<in> set sent"
  then obtain j where "(j, Offered (Ok offer)) \<in> set tr" using mem response_of_mem(1) by metis
  moreover from this obtain p r now where "j = Open p r now" using sender_run_shape [OF run] by blast
  ultimately have "(p, open_receiver_nonce r, offer) \<in> disclosures tr"
    by (auto simp: disclosures_def)
  then show "\<exists>c. sa_claim a = Some c \<and> offer = bc_offer c"
    unfolding disc(1) by (cases "sa_claim a") (auto simp: claim_key_def)
next
  note disc = sender_run_disclosures [OF run inv]
  note mem = sent_mem [OF sent]
  assume "(i, RCompleted d) \<in> set sent"
  then obtain j where j: "(j, Completed (Ok d)) \<in> set tr" using mem response_of_mem(2) by metis
  then obtain p r where pr: "j = Acknowledge p r" "completed_claim_id d = ack_claim_id r"
    using sender_run_shape [OF run] by blast
  then have "(p, r) \<in> completions tr" using j by (auto simp: completions_def)
  then obtain c where c: "sa_claim a = Some c" "ack_claim_id r = bc_claim_id c"
    using disc(2) by blast
  have "claim_consistent c" using sender_run_inv [OF run inv(1)] c(1) by (simp add: actor_inv_def)
  moreover have "claim_key c \<in> disclosures tr" unfolding disc(1) using c(1) by simp
  then obtain k where "(k, Offered (Ok (bc_offer c))) \<in> set tr"
    by (auto simp: disclosures_def claim_key_def)
  then have "\<exists>j. (j, ROffer (bc_offer c)) \<in> set sent" using mem response_of_mem(1) by metis
  ultimately show "\<exists>c j. sa_claim a = Some c \<and>
      completed_claim_id d = offer_claim_id (bc_offer c) \<and> (j, ROffer (bc_offer c)) \<in> set sent"
    using c pr by (auto simp: claim_consistent_def)
qed

lemma handle_event_error:
  "handle_event P E respond a event now s = (Inl e, a', s', sent) \<Longrightarrow> e = Core_Network"
  by (cases event) (auto simp: handle_event_def split: prod.splits if_splits)

section \<open>Properties\<close>

text \<open>
  C24: The event loop never discloses twice: whatever events, requests and timer ticks a sender
  serves, in any order and from any peers, all the offers it hands to the network are the same
  offer, and a completion it sends names the claim of that offer.
\<close>

theorem direct_sender_discloses_once:
  assumes "sender_new C root net peer env deadline resume = Ok a0"
    and "direct_loop P E respond a0 s0 inputs = (res, a, s, sent)"
  shows "(\<forall>i j o1 o2. (i, ROffer o1) \<in> set sent \<and> (j, ROffer o2) \<in> set sent \<longrightarrow> o1 = o2) \<and>
    (\<forall>i c. (i, RCompleted c) \<in> set sent \<longrightarrow>
       (\<exists>j offer. (j, ROffer offer) \<in> set sent \<and> completed_claim_id c = offer_claim_id offer))"
proof -
  obtain tr where run: "sender_run P E (a0, s0) tr (a, s)"
    and sent: "map snd sent = concat (map (\<lambda>(i, out). response_of out) tr)"
    using direct_loop_refines [OF assms(2)] by blast
  have inv0: "actor_inv a0" "sa_claim a0 = None"
    using sender_new_inv [OF assms(1)] by (auto simp: actor_inv_def)
  note key = sent_key [OF run inv0 sent]
  show ?thesis
  proof (intro conjI allI impI)
    fix i j o1 o2
    assume "(i, ROffer o1) \<in> set sent \<and> (j, ROffer o2) \<in> set sent"
    then show "o1 = o2" using key(1) [of i o1] key(1) [of j o2] by auto
  next
    fix i c
    assume "(i, RCompleted c) \<in> set sent"
    then show "\<exists>j offer. (j, ROffer offer) \<in> set sent \<and> completed_claim_id c = offer_claim_id offer"
      using key(2) by blast
  qed
qed

text \<open>
  When the event loop ends it reports the actor's state: a terminal state, unless it was
  cancelled, and the only error it can report is that the network stopped; while it has not
  ended, the share is still open.
\<close>

theorem direct_sender_result:
  assumes "\<not> terminal (sa_state a0)"
    and "direct_loop P E respond a0 s0 inputs = (res, a, s, sent)"
  shows "case res of
      None \<Rightarrow> \<not> terminal (sa_state a)
    | Some (Inr st) \<Rightarrow> st = sa_state a \<and> (terminal st \<or> Cancelled \<in> set inputs)
    | Some (Inl e) \<Rightarrow> e = Core_Network"
  using assms
proof (induction inputs arbitrary: a0 s0 sent)
  case Nil
  then show ?case by auto
next
  case (Cons i inputs)
  show ?case
  proof (cases i)
    case Cancelled
    then show ?thesis using Cons.prems by auto
  next
    case (TimerTick now)
    then show ?thesis
      using Cons.prems Cons.IH [of "handle_timer a0 now" s0 sent]
      by (cases "terminal (sa_state (handle_timer a0 now))")
        (auto simp: Let_def split: option.splits sum.splits)
  next
    case (Received ev now)
    show ?thesis
    proof (cases ev)
      case None
      then show ?thesis using Cons.prems Received by auto
    next
      case (Some event)
      obtain r b t out where h: "handle_event P E respond a0 event now s0 = (r, b, t, out)"
        by (metis prod_cases4)
      obtain res2 a2 s2 sent2 where l: "direct_loop P E respond b t inputs = (res2, a2, s2, sent2)"
        by (metis prod_cases4)
      show ?thesis
        using Cons.prems Cons.IH [of b t sent2] Received Some h l handle_event_error
        by (cases r; cases "terminal (sa_state b)")
          (auto split: option.splits sum.splits)
    qed
  qed
qed

end
