(* ===== verification/Crypto_Reference.thy ===== *)
theory Crypto_Reference
  imports Crypto
begin

text \<open>
  The public algorithms behind the primitives of theory \<open>Crypto\<close>, written from their standards:
  SHA-256 (FIPS 180-4), HMAC (RFC 2104), HKDF (RFC 5869) and XChaCha20-Poly1305 (RFC 8439 and
  the XChaCha draft). The suite \<open>reference_primitives\<close> interprets \<open>crypto_lib\<close>, so the laws the
  model relies on hold for the algorithms the crate names.
\<close>

section \<open>SHA-256\<close>

definition rotr32 :: "nat \<Rightarrow> u32 \<Rightarrow> u32" where
  "rotr32 n w = drop_bit n w OR push_bit (32 - n) w"

definition chunks :: "nat \<Rightarrow> 'a list \<Rightarrow> 'a list list" where
  "chunks n xs = map (\<lambda>i. take n (drop (i * n) xs)) [0..<(length xs + n - 1) div n]"

definition sha256_k :: "u32 list" where
  "sha256_k = [
     1116352408, 1899447441, 3049323471, 3921009573, 961987163, 1508970993, 2453635748,
     2870763221, 3624381080, 310598401, 607225278, 1426881987, 1925078388, 2162078206,
     2614888103, 3248222580, 3835390401, 4022224774, 264347078, 604807628, 770255983,
     1249150122, 1555081692, 1996064986, 2554220882, 2821834349, 2952996808, 3210313671,
     3336571891, 3584528711, 113926993, 338241895, 666307205, 773529912, 1294757372,
     1396182291, 1695183700, 1986661051, 2177026350, 2456956037, 2730485921, 2820302411,
     3259730800, 3345764771, 3516065817, 3600352804, 4094571909, 275423344, 430227734,
     506948616, 659060556, 883997877, 958139571, 1322822218, 1537002063, 1747873779,
     1955562222, 2024104815, 2227730452, 2361852424, 2428436474, 2756734187, 3204031479,
     3329325298]"

definition sha256_h0 :: "u32 list" where
  "sha256_h0 = [
     1779033703, 3144134277, 1013904242, 2773480762, 1359893119, 2600822924, 528734635,
     1541459225]"

definition sha256_pad :: "bytes \<Rightarrow> bytes" where
  "sha256_pad m = m @ [128] @ replicate ((119 - length m mod 64) mod 64) 0 @
     be64 (of_nat (8 * length m))"

definition sha256_schedule :: "bytes \<Rightarrow> u32 list" where
  "sha256_schedule block = foldl (\<lambda>ws t.
     let w15 = ws ! (t - 15); w2 = ws ! (t - 2);
         s0 = rotr32 7 w15 XOR rotr32 18 w15 XOR drop_bit 3 w15;
         s1 = rotr32 17 w2 XOR rotr32 19 w2 XOR drop_bit 10 w2
     in ws @ [ws ! (t - 16) + s0 + ws ! (t - 7) + s1]) (map from_be32 (chunks 4 block)) [16..<64]"

fun sha256_round :: "u32 \<times> u32 \<times> u32 \<times> u32 \<times> u32 \<times> u32 \<times> u32 \<times> u32 \<Rightarrow> u32 \<times> u32 \<Rightarrow>
    u32 \<times> u32 \<times> u32 \<times> u32 \<times> u32 \<times> u32 \<times> u32 \<times> u32" where
  "sha256_round (a, b, c, d, e, f, g, h) (k, w) =
     (let s1 = rotr32 6 e XOR rotr32 11 e XOR rotr32 25 e;
          ch = (e AND f) XOR (NOT e AND g);
          t1 = h + s1 + ch + k + w;
          s0 = rotr32 2 a XOR rotr32 13 a XOR rotr32 22 a;
          maj = (a AND b) XOR (a AND c) XOR (b AND c)
      in (t1 + s0 + maj, a, b, c, d + t1, e, f, g))"

definition sha256_compress :: "u32 list \<Rightarrow> bytes \<Rightarrow> u32 list" where
  "sha256_compress hs block =
     (case foldl sha256_round
         (hs ! 0, hs ! 1, hs ! 2, hs ! 3, hs ! 4, hs ! 5, hs ! 6, hs ! 7)
         (zip sha256_k (sha256_schedule block)) of
       (a, b, c, d, e, f, g, h) \<Rightarrow>
         [hs ! 0 + a, hs ! 1 + b, hs ! 2 + c, hs ! 3 + d, hs ! 4 + e, hs ! 5 + f, hs ! 6 + g,
          hs ! 7 + h])"

definition sha256_ref :: "bytes \<Rightarrow> bytes" where
  "sha256_ref m = concat (map be32 (foldl sha256_compress sha256_h0 (chunks 64 (sha256_pad m))))"

section \<open>HMAC and HKDF\<close>

definition hmac_ref :: "bytes \<Rightarrow> bytes \<Rightarrow> bytes" where
  "hmac_ref key m =
     (let k = (if length key > 64 then sha256_ref key else key);
          k = k @ replicate (64 - length k) 0
      in sha256_ref (map (\<lambda>b. b XOR 92) k @ sha256_ref (map (\<lambda>b. b XOR 54) k @ m)))"

fun hkdf_blocks :: "bytes \<Rightarrow> bytes \<Rightarrow> nat \<Rightarrow> bytes \<Rightarrow> nat \<Rightarrow> bytes" where
  "hkdf_blocks prk info i prev 0 = []"
| "hkdf_blocks prk info i prev (Suc k) =
     (let t = hmac_ref prk (prev @ info @ [of_nat i]) in t @ hkdf_blocks prk info (i + 1) t k)"

definition hkdf_ref :: "bytes \<Rightarrow> bytes \<Rightarrow> bytes \<Rightarrow> nat \<Rightarrow> bytes option" where
  "hkdf_ref salt ikm info n =
     (if n > 255 * 32 then None
      else Some (take n (hkdf_blocks (hmac_ref salt ikm) info 1 [] ((n + 31) div 32))))"

section \<open>XChaCha20-Poly1305\<close>

definition le_value :: "bytes \<Rightarrow> nat" where
  "le_value bs = positional 256 (rev bs)"

definition le_digits :: "nat \<Rightarrow> nat \<Rightarrow> bytes" where
  "le_digits k n = rev (be_digits k n)"

definition quarter_round :: "nat \<Rightarrow> nat \<Rightarrow> nat \<Rightarrow> nat \<Rightarrow> u32 list \<Rightarrow> u32 list" where
  "quarter_round ia ib ic id' s =
     (let a = s ! ia; b = s ! ib; c = s ! ic; d = s ! id';
          a = a + b; d = rotr32 16 (d XOR a);
          c = c + d; b = rotr32 20 (b XOR c);
          a = a + b; d = rotr32 24 (d XOR a);
          c = c + d; b = rotr32 25 (b XOR c)
      in s[ia := a, ib := b, ic := c, id' := d])"

definition double_round :: "u32 list \<Rightarrow> u32 list" where
  "double_round s =
     (let s = quarter_round 0 4 8 12 s; s = quarter_round 1 5 9 13 s;
          s = quarter_round 2 6 10 14 s; s = quarter_round 3 7 11 15 s;
          s = quarter_round 0 5 10 15 s; s = quarter_round 1 6 11 12 s;
          s = quarter_round 2 7 8 13 s
      in quarter_round 3 4 9 14 s)"

definition chacha_rounds :: "u32 list \<Rightarrow> u32 list" where
  "chacha_rounds s = (double_round ^^ 10) s"

definition le_words :: "bytes \<Rightarrow> u32 list" where
  "le_words bs = map (\<lambda>c. of_nat (le_value c)) (chunks 4 bs)"

definition chacha_init :: "bytes \<Rightarrow> bytes \<Rightarrow> u32 list" where
  "chacha_init key tail = take 16 ([1634760805, 857760878, 2036477234, 1797285236] @ le_words key @
     le_words tail @ replicate 16 0)"

definition chacha20_block :: "bytes \<Rightarrow> nat \<Rightarrow> bytes \<Rightarrow> bytes" where
  "chacha20_block key counter nonce =
     (let s = chacha_init key (le_digits 4 counter @ nonce)
      in concat (map (\<lambda>(x, y). le_digits 4 (unat (x + y))) (zip (chacha_rounds s) s)))"

definition hchacha20 :: "bytes \<Rightarrow> bytes \<Rightarrow> bytes" where
  "hchacha20 key nonce =
     (let s = chacha_rounds (chacha_init key nonce)
      in concat (map (\<lambda>x. le_digits 4 (unat x)) (take 4 s @ drop 12 s)))"

definition keystream :: "bytes \<Rightarrow> bytes \<Rightarrow> nat \<Rightarrow> bytes" where
  "keystream key nonce len =
     concat (map (\<lambda>i. chacha20_block key (i + 1) nonce) [0..<(len + 63) div 64])"

definition chacha20_xor :: "bytes \<Rightarrow> bytes \<Rightarrow> bytes \<Rightarrow> bytes" where
  "chacha20_xor key nonce m = map (\<lambda>(a, b). a XOR b) (zip m (keystream key nonce (length m)))"

definition clamp :: "nat \<Rightarrow> nat" where
  "clamp r = r AND 21267647620597763993911028882763415551"

definition poly1305 :: "bytes \<Rightarrow> bytes \<Rightarrow> bytes" where
  "poly1305 key m =
     (let r = clamp (le_value (take 16 key)); s = le_value (drop 16 key);
          acc = foldl (\<lambda>a c. (a + le_value (c @ [1])) * r mod (2 ^ 130 - 5)) 0 (chunks 16 m)
      in le_digits 16 (acc + s))"

definition pad16 :: "bytes \<Rightarrow> bytes" where
  "pad16 m = m @ replicate ((16 - length m mod 16) mod 16) 0"

definition xchacha_subkey :: "bytes \<Rightarrow> bytes \<Rightarrow> bytes \<times> bytes" where
  "xchacha_subkey key nonce = (hchacha20 key (take 16 nonce), replicate 4 0 @ drop 16 nonce)"

definition xchacha_tag :: "bytes \<Rightarrow> bytes \<Rightarrow> bytes \<Rightarrow> bytes \<Rightarrow> bytes" where
  "xchacha_tag k n aad c =
     poly1305 (take 32 (chacha20_block k 0 n))
       (pad16 aad @ pad16 c @ le_digits 8 (length aad) @ le_digits 8 (length c))"

definition xchacha_encrypt :: "bytes \<Rightarrow> bytes \<Rightarrow> bytes \<Rightarrow> bytes \<Rightarrow> bytes option" where
  "xchacha_encrypt key nonce m aad =
     (case xchacha_subkey key nonce of (k, n) \<Rightarrow>
        if length m > 274877906880 then None
        else let c = chacha20_xor k n m in Some (c @ xchacha_tag k n aad c))"

definition xchacha_decrypt :: "bytes \<Rightarrow> bytes \<Rightarrow> bytes \<Rightarrow> bytes \<Rightarrow> bytes option" where
  "xchacha_decrypt key nonce ct aad =
     (case xchacha_subkey key nonce of (k, n) \<Rightarrow>
        if length ct < 16 then None
        else let c = take (length ct - 16) ct; tag = drop (length ct - 16) ct in
          if xchacha_tag k n aad c = tag then Some (chacha20_xor k n c) else None)"

definition reference_primitives :: primitives where
  "reference_primitives = \<lparr>sha256 = sha256_ref, hkdf_expand = hkdf_ref,
     hmac_sha256 = (\<lambda>key m. Some (hmac_ref key m)),
     aead_encrypt = xchacha_encrypt, aead_decrypt = xchacha_decrypt\<rparr>"

section \<open>The laws hold\<close>

lemma length_sha256_compress: "length (sha256_compress hs b) = 8"
  by (simp add: sha256_compress_def split: prod.split)

lemma length_sha256_ref: "length (sha256_ref m) = 32"
proof -
  have "length (foldl sha256_compress sha256_h0 bs) = 8" for bs
    by (induction bs rule: rev_induct) (simp_all add: sha256_h0_def length_sha256_compress)
  then show ?thesis by (simp add: sha256_ref_def length_concat comp_def sum_list_triv)
qed

lemma length_hmac_ref: "length (hmac_ref k m) = 32"
  by (simp add: hmac_ref_def Let_def length_sha256_ref)

lemma length_hkdf_blocks: "length (hkdf_blocks prk info i prev k) = 32 * k"
  by (induction k arbitrary: i prev) (simp_all add: Let_def length_hmac_ref)

lemma hkdf_ref_total: "n \<le> 8160 \<Longrightarrow> \<exists>out. hkdf_ref salt ikm info n = Some out \<and> length out = n"
  by (auto simp: hkdf_ref_def length_hkdf_blocks)

lemma length_quarter_round [simp]: "length (quarter_round a b c d s) = length s"
  by (simp add: quarter_round_def Let_def)

lemma length_chacha_rounds: "length (chacha_rounds s) = length s"
proof -
  have "length (double_round s) = length s" for s by (simp add: double_round_def Let_def)
  then have "length ((double_round ^^ n) s) = length s" for n by (induction n) simp_all
  then show ?thesis by (simp add: chacha_rounds_def)
qed

lemma length_chacha20_block: "length (chacha20_block key c n) = 64"
proof -
  have "length (chacha_init key t) = 16" for t by (simp add: chacha_init_def)
  then show ?thesis
    by (simp add: chacha20_block_def Let_def length_concat comp_def case_prod_beta le_digits_def
        sum_list_triv length_chacha_rounds)
qed

lemma length_keystream: "length (keystream key n len) \<ge> len"
proof -
  have "length (keystream key n len) = (len + 63) div 64 * 64"
    by (simp add: keystream_def length_concat comp_def length_chacha20_block sum_list_triv)
  moreover have "(len + 63) div 64 * 64 + (len + 63) mod 64 = len + 63"
    by (rule div_mult_mod_eq)
  moreover have "(len + 63) mod 64 < 64" by simp
  ultimately show ?thesis by linarith
qed

lemma length_chacha20_xor [simp]: "length (chacha20_xor key n m) = length m"
  using length_keystream [of "length m" key n] by (simp add: chacha20_xor_def)

lemma chacha20_xor_involution: "chacha20_xor key n (chacha20_xor key n m) = m"
proof (rule nth_equalityI)
  fix i
  assume "i < length (chacha20_xor key n (chacha20_xor key n m))"
  then have i: "i < length m" by simp
  let ?ks = "keystream key n (length m)"
  have ks: "i < length ?ks" using i length_keystream [of "length m" key n] by simp
  have "chacha20_xor key n m ! i = m ! i XOR ?ks ! i" using i ks by (simp add: chacha20_xor_def)
  moreover have "chacha20_xor key n (chacha20_xor key n m) ! i = chacha20_xor key n m ! i XOR ?ks ! i"
    using i ks by (subst chacha20_xor_def) simp
  ultimately show "chacha20_xor key n (chacha20_xor key n m) ! i = m ! i"
    by (simp add: xor.assoc)
qed simp

lemma length_xchacha_tag [simp]: "length (xchacha_tag k n aad c) = 16"
  by (simp add: xchacha_tag_def poly1305_def Let_def le_digits_def)

interpretation ref: crypto_lib reference_primitives
proof (unfold_locales, goal_cases)
  case (1 m)
  show ?case by (simp add: reference_primitives_def length_sha256_ref)
next
  case (2 n salt ikm info)
  then show ?case by (simp add: reference_primitives_def hkdf_ref_total)
next
  case (3 key m)
  show ?case by (simp add: reference_primitives_def length_hmac_ref)
next
  case (4 key nonce m aad)
  then show ?case
    by (simp add: reference_primitives_def xchacha_encrypt_def xchacha_subkey_def Let_def)
next
  case (5 key nonce m aad c)
  then show ?case
    by (auto simp: reference_primitives_def xchacha_encrypt_def xchacha_decrypt_def
        xchacha_subkey_def Let_def chacha20_xor_involution split: if_splits)
qed

end
