(* ===== verification/Sample_Transfer.thy ===== *)
theory Sample_Transfer
  imports Direct Crypto_Reference
begin

text \<open>
  One concrete transfer, on the RFC 8949 codec and the reference primitives, and the instances
  of the sender's, receiver's and event loop's properties at it.
\<close>

section \<open>The transfer\<close>

definition sample_root :: DerivedRoot where
  "sample_root = \<lparr>root_room_id = replicate 16 1, root_authentication_key = replicate 32 2,
     root_session_base_key = replicate 32 3\<rparr>"

definition sample_net :: bytes where "sample_net = ascii ''public-v1''"
definition sample_sender :: bytes where "sample_sender = [1, 2, 3]"
definition sample_receiver :: bytes where "sample_receiver = [4, 5]"
definition sample_nonce :: bytes where "sample_nonce = replicate 32 9"

definition sample_entropy :: "nat entropy" where
  "sample_entropy = os_entropy (\<lambda>k n. Some (replicate n (of_nat k)))"

definition sample_new :: "(CoreError, SenderActor) result" where
  "sample_new = sender_new rfc8949 sample_root sample_net sample_sender sample_envelope 1000 500"

definition sample_session :: ReceiverSession where
  "sample_session = \<lparr>rs_root = sample_root, rs_network_id = sample_net,
     rs_sender_peer_id = sample_sender, rs_receiver_peer_id = sample_receiver,
     rs_receiver_nonce = sample_nonce\<rparr>"

lemma sample_ready:
  "transfer_ready sample_root sample_net sample_sender sample_receiver sample_nonce 10 1000 500"
  by (simp add: transfer_ready_def sample_root_def sample_net_def sample_sender_def
      sample_receiver_def sample_nonce_def validate_network_id_def ascii_def is_ascii_graphic_def
      limit_defs INSTANT_MAX_def)

lemma sample_entropy_ok: "entropy_fills sample_entropy" "draws_succeed sample_entropy 0"
  unfolding sample_entropy_def
  by (rule os_entropy_fills, simp, simp add: draws_succeed_def os_entropy_def)

lemma sample_receiver_new:
  "receiver_new sample_root sample_net sample_sender sample_receiver sample_nonce = Ok sample_session"
  by (simp add: receiver_new_def sample_session_def sample_net_def sample_sender_def
      sample_receiver_def ascii_def)

lemma sample_transfer:
  obtains a0 req offer a1 s' v resp a2 where
    "sample_new = Ok a0" "open_request reference_primitives sample_session = Ok req"
    "handle_open reference_primitives sample_entropy a0 sample_receiver req 10 0 = (Ok offer, a1, s')"
    "sa_state a1 = Disclosed" "verify_offer rfc8949 reference_primitives sample_session offer = Ok v"
    "handle_acknowledgement a1 sample_receiver (vo_acknowledgement v) = (Ok resp, a2)"
    "sa_state a2 = Consumed"
  using transfer_completes [OF rfc.cbor_lib_axioms ref.crypto_lib_axioms sample_entropy_ok
      sample_envelope_wf sample_ready]
  unfolding sample_new_def [symmetric] sample_receiver_new by auto

text \<open>The transfer as a run of the actor: Open, acknowledgement, then a late Open.\<close>

lemma sample_run:
  obtains a0 req offer a1 s' ack resp a2 where
    "sample_new = Ok a0"
    "handle_open reference_primitives sample_entropy a0 sample_receiver req 10 0 = (Ok offer, a1, s')"
    "sa_state a0 = Available" "sa_state a2 = Consumed"
    "handle_acknowledgement a1 sample_receiver ack = (Ok resp, a2)"
    "sender_run reference_primitives sample_entropy (a0, 0)
       [(Open sample_receiver req 10, Offered (Ok offer))] (a1, s')"
    "sender_run reference_primitives sample_entropy (a0, 0)
       [(Open sample_receiver req 10, Offered (Ok offer)),
        (Acknowledge sample_receiver ack, Completed (Ok resp))] (a2, s')"
proof -
  obtain a0 req offer a1 s' resp a2 and v :: VerifiedOffer where t: "sample_new = Ok a0"
    "handle_open reference_primitives sample_entropy a0 sample_receiver req 10 0 = (Ok offer, a1, s')"
    "handle_acknowledgement a1 sample_receiver (vo_acknowledgement v) = (Ok resp, a2)"
    "sa_state a2 = Consumed" using sample_transfer by metis
  note r1 = run_cons [OF sender_step.step_open [OF t(2)]]
  note r2 = run_cons [OF sender_step.step_acknowledge [OF t(3)] sender_run.run_nil]
  show ?thesis
    by (rule that [OF t(1,2) _ t(4,3) r1 [OF sender_run.run_nil] r1 [OF r2]])
      (use t(1) sender_new_inv in \<open>auto simp: sample_new_def\<close>)
qed

section \<open>Instances of the sender's properties\<close>

theorem sender_reachable_invariant_witness:
  "\<exists>a0 tr a s. sample_new = Ok a0 \<and>
     sender_run reference_primitives sample_entropy (a0, 0) tr (a, s) \<and> sa_state a = Consumed \<and>
     actor_inv a \<and> wiped a"
proof -
  obtain a0 req offer a1 s' ack resp a2 where t: "sample_new = Ok a0" "sa_state a2 = Consumed"
    "sender_run reference_primitives sample_entropy (a0, 0)
       [(Open sample_receiver req 10, Offered (Ok offer)),
        (Acknowledge sample_receiver ack, Completed (Ok resp))] (a2, s')"
    by (rule sample_run) (rule that; assumption)
  show ?thesis
    using sender_reachable_invariant [OF t(1) [unfolded sample_new_def] t(3)] t
    by (auto simp: terminal_def)
qed

theorem sender_single_use_witness:
  "\<exists>a0 tr a s p r nonce offer. sample_new = Ok a0 \<and>
     sender_run reference_primitives sample_entropy (a0, 0) tr (a, s) \<and>
     (p, r) \<in> completions tr \<and> disclosures tr = {(p, nonce, offer)} \<and>
     ack_claim_id r = offer_claim_id offer"
proof -
  obtain a0 req offer a1 s' ack resp a2 where t: "sample_new = Ok a0"
    "sender_run reference_primitives sample_entropy (a0, 0)
       [(Open sample_receiver req 10, Offered (Ok offer)),
        (Acknowledge sample_receiver ack, Completed (Ok resp))] (a2, s')"
    by (rule sample_run) (rule that; assumption)
  let ?tr = "[(Open sample_receiver req 10, Offered (Ok offer)),
        (Acknowledge sample_receiver ack, Completed (Ok resp))]"
  have "(sample_receiver, ack) \<in> completions ?tr" by (auto simp: completions_def)
  then obtain nonce offer' where "disclosures ?tr = {(sample_receiver, nonce, offer')}"
    "ack_claim_id ack = offer_claim_id offer'"
    using sender_single_use [OF t(1) [unfolded sample_new_def] t(2)] by blast
  then show ?thesis using t \<open>(sample_receiver, ack) \<in> completions ?tr\<close> by blast
qed

theorem offers_are_authenticated_witness:
  "\<exists>a0 tr a s p r now offer. sample_new = Ok a0 \<and>
     sender_run reference_primitives sample_entropy (a0, 0) tr (a, s) \<and>
     (Open p r now, Offered (Ok offer)) \<in> set tr \<and> open_room_id r = replicate 16 1"
proof -
  obtain a0 req offer a1 s' where t: "sample_new = Ok a0"
    "sender_run reference_primitives sample_entropy (a0, 0)
       [(Open sample_receiver req 10, Offered (Ok offer))] (a1, s')"
    by (rule sample_run) (rule that; assumption)
  have "open_room_id req = root_room_id sample_root"
    using offers_are_authenticated [OF t(1) [unfolded sample_new_def] t(2),
        of sample_receiver req 10 offer] by simp
  then show ?thesis using t by (fastforce simp: sample_root_def)
qed

theorem closed_share_stays_closed_witness:
  "\<exists>a0 tr a s r out a' s'. sample_new = Ok a0 \<and>
     sender_run reference_primitives sample_entropy (a0, 0) tr (a, s) \<and> terminal (sa_state a) \<and>
     sender_run reference_primitives sample_entropy (a, s) [(Open sample_receiver r 11, Offered out)]
       (a', s') \<and> a' = a \<and> s' = s \<and> wiped a \<and> \<not> is_ok out"
proof -
  obtain a0 req offer a1 s' ack resp a2 where t: "sample_new = Ok a0" "sa_state a2 = Consumed"
    "sender_run reference_primitives sample_entropy (a0, 0)
       [(Open sample_receiver req 10, Offered (Ok offer)),
        (Acknowledge sample_receiver ack, Completed (Ok resp))] (a2, s')"
    by (rule sample_run) (rule that; assumption)
  obtain out a3 s3 where h: "handle_open reference_primitives sample_entropy a2 sample_receiver req
      11 s' = (out, a3, s3)" by (metis prod_cases3)
  note run = run_cons [OF sender_step.step_open [OF h] sender_run.run_nil]
  have closed: "terminal (sa_state a2)" using t(2) by (simp add: terminal_def)
  have "a3 = a2 \<and> s3 = s' \<and> wiped a2 \<and> \<not> is_ok out"
    using closed_share_stays_closed [OF t(1) [unfolded sample_new_def] t(3) closed run] by auto
  then show ?thesis using t closed run by blast
qed

theorem acknowledgement_idempotent_witness:
  "\<exists>a p r resp a'. actor_inv a \<and> sa_state a = Disclosed \<and>
     handle_acknowledgement a p r = (Ok resp, a') \<and> sa_state a' = Consumed \<and>
     handle_acknowledgement a' p r = (Ok resp, a')"
proof -
  obtain a0 req offer a1 s' resp a2 and v :: VerifiedOffer where t: "sample_new = Ok a0"
    "handle_open reference_primitives sample_entropy a0 sample_receiver req 10 0 = (Ok offer, a1, s')"
    "sa_state a1 = Disclosed"
    "handle_acknowledgement a1 sample_receiver (vo_acknowledgement v) = (Ok resp, a2)"
    using sample_transfer by metis
  have "actor_inv a1"
    using handle_open_inv [OF _ t(2)] sender_new_inv t(1) unfolding sample_new_def by blast
  then show ?thesis using acknowledgement_idempotent t(3,4) by blast
qed

theorem timer_enforces_deadlines_witness:
  "\<exists>a. sample_new = Ok a \<and> handle_timer a 999 = a \<and> handle_timer a 1000 = close a Expired \<and>
     terminal (sa_state (handle_timer a 1000)) \<and> wiped (handle_timer a 1000)"
proof -
  obtain a where a: "sample_new = Ok a" by (rule sample_transfer) (rule that; assumption)
  have inv: "actor_inv a" and st: "sa_state a = Available" and dl: "sa_available_deadline a = 1000"
    using sender_new_inv [OF a [unfolded sample_new_def]] a
    by (auto simp: sample_new_def sender_new_def result_simps split: if_splits)
  have "sa_claim a = None" using inv st by (simp add: actor_inv_def)
  then show ?thesis
    using a st dl timer_enforces_deadlines [OF inv, of 999] timer_enforces_deadlines [OF inv, of 1000]
    by (intro exI [of _ a]) (simp add: terminal_def)
qed

section \<open>Instances of the receiver's properties\<close>

theorem transfer_end_to_end_witness:
  "\<exists>a0 session req offer a1 s' v resp a2.
    sender_new rfc8949 sample_root sample_net sample_sender sample_envelope 1000 500 = Ok a0 \<and>
    receiver_new sample_root sample_net sample_sender sample_receiver sample_nonce = Ok session \<and>
    open_request reference_primitives session = Ok req \<and> wf_open req \<and>
    handle_open reference_primitives sample_entropy a0 sample_receiver req 10 0 =
      (Ok offer, a1, s') \<and> sa_state a1 = Disclosed \<and>
    wf_offer offer \<and> bounded_response (ROffer offer) \<and>
    verify_offer rfc8949 reference_primitives session offer = Ok v \<and>
    vo_envelope v = sample_envelope \<and>
    handle_acknowledgement a1 sample_receiver (vo_acknowledgement v) = (Ok resp, a2) \<and>
    completed_claim_id resp = offer_claim_id offer \<and> sa_state a2 = Consumed \<and> wiped a2"
  by (rule transfer_end_to_end [OF rfc.cbor_lib_axioms ref.crypto_lib_axioms sample_entropy_ok
      sample_envelope_wf sample_ready])

theorem verified_offer_sound_witness:
  "\<exists>offer v. verify_offer rfc8949 reference_primitives sample_session offer = Ok v \<and>
     wf_envelope (vo_envelope v) \<and>
     length (env_payload (vo_envelope v)) = unat (offer_plaintext_length offer)"
proof -
  obtain offer v where v: "verify_offer rfc8949 reference_primitives sample_session offer = Ok v"
    using sample_transfer by metis
  then show ?thesis using verified_offer_sound [OF rfc.cbor_lib_axioms v] by blast
qed

text \<open>
  Primitives whose hash and HMAC are the message itself, so that different messages never
  collide.
\<close>

definition transparent_primitives :: primitives where
  "transparent_primitives = \<lparr>sha256 = id, hkdf_expand = (\<lambda>_ _ _ n. Some (replicate n 0)),
     hmac_sha256 = (\<lambda>_ m. Some m), aead_encrypt = (\<lambda>_ _ m _. Some m),
     aead_decrypt = (\<lambda>_ _ m _. Some m)\<rparr>"

definition genuine_offer :: OfferResponse where
  "genuine_offer = (let base = sample_offer\<lparr>offer_ciphertext_digest :=
       offer_aead_nonce sample_offer @ offer_ciphertext sample_offer\<rparr>
     in base\<lparr>offer_sender_proof := render_all (offer_fields (offer_input sample_session base))\<rparr>)"

theorem tampered_offer_rejected_witness:
  "verify_offer rfc8949 transparent_primitives sample_session
     (genuine_offer\<lparr>offer_expires_at_unix_ms := 0\<rparr>) = Err Core_Transfer"
proof (rule tampered_offer_rejected [of _ _ genuine_offer])
  let ?o = "sample_offer\<lparr>offer_ciphertext_digest :=
    offer_aead_nonce sample_offer @ offer_ciphertext sample_offer\<rparr>"
  have inp: "offer_input sample_session genuine_offer = offer_input sample_session ?o"
    by (simp add: genuine_offer_def Let_def offer_input_def)
  have ctx: "valid_context (receiver_context sample_session)" "peers_fit (receiver_context sample_session)"
    by (rule transfer_ready_context [OF sample_ready]; simp add: receiver_context_def sample_session_def)+
  have "\<exists>t. offer_transcript (offer_input sample_session ?o) = Ok t"
    using ctx network_id_size [OF ctx(1)]
    by (auto simp: transcripts_as_fields append_fields_eq valid_context_def peers_fit_def
        render_all_def field_list_defs limit_defs domain_defs offer_input_def sample_offer_def
        sample_session_def sample_nonce_def receiver_context_def sample_root_def
        simp del: append_fields.simps)
  then have "offer_transcript (offer_input sample_session ?o) =
      Ok (render_all (offer_fields (offer_input sample_session ?o)))"
    by (auto simp: transcript_eqs append_fields_Ok)
  then show "offer_proof transparent_primitives (root_authentication_key (rs_root sample_session))
      (offer_input sample_session genuine_offer) = Ok (offer_sender_proof genuine_offer)"
    unfolding offer_proof_def inp
    by (simp add: authenticate_def transparent_primitives_def genuine_offer_def Let_def)
qed (auto simp: genuine_offer_def Let_def ciphertext_digest_def transparent_primitives_def
    sample_offer_def PROTOCOL_VERSION_def)

theorem open_retry_resumes_witness:
  "\<exists>a0 req offer a1. sample_new = Ok a0 \<and>
     handle_open reference_primitives sample_entropy a0 sample_receiver req 10 0 = (Ok offer, a1, 3) \<and>
     handle_open reference_primitives sample_entropy a1 sample_receiver req 509 3 = (Ok offer, a1, 3)"
proof -
  obtain a0 req offer a1 s' where t: "sample_new = Ok a0" "sa_state a0 = Available"
    "handle_open reference_primitives sample_entropy a0 sample_receiver req 10 0 = (Ok offer, a1, s')"
    using sample_run by metis
  have "sa_resume_duration a0 = 500"
    using t(1) by (auto simp: sample_new_def sender_new_def result_simps split: if_splits)
  moreover have "s' = 3"
    using t(2,3) by (auto simp: handle_open_def Let_def prepare_offer_def sample_entropy_def
        os_entropy_def split: if_splits option.splits prod.splits sum.splits)
  ultimately have "handle_open reference_primitives sample_entropy a1 sample_receiver req 509 3 =
      (Ok offer, a1, 3)"
    using open_retry_resumes [OF t(2,3), of 509 3] by simp
  then show ?thesis using t \<open>s' = 3\<close> by blast
qed

section \<open>Instances of the event loop's properties\<close>

lemma sample_loop:
  obtains a0 req offer a1 s' where "sample_new = Ok a0" "\<not> terminal (sa_state a0)"
    "direct_loop reference_primitives sample_entropy (\<lambda>_ _. True) a0 0
       [Received (Some (InboundRequest sample_receiver 1 (ROpen req))) 10] =
     (None, a1, s', [(1, ROffer offer)])" "sa_state a1 = Disclosed"
proof -
  obtain a0 req offer a1 s' where t: "sample_new = Ok a0"
    "handle_open reference_primitives sample_entropy a0 sample_receiver req 10 0 = (Ok offer, a1, s')"
    "sa_state a1 = Disclosed"
    using sample_transfer by metis
  have "sa_state a0 = Available" using sender_new_inv t(1) by (auto simp: sample_new_def)
  then show ?thesis using that [of a0 req a1 s' offer] t by (simp add: handle_event_def terminal_def)
qed

theorem direct_sender_discloses_once_witness:
  "\<exists>a0 inputs a s offer c. sample_new = Ok a0 \<and>
     direct_loop reference_primitives sample_entropy (\<lambda>_ _. True) a0 0 inputs =
       (Some (Ok Consumed), a, s, [(1, ROffer offer), (2, RCompleted c)]) \<and>
     completed_claim_id c = offer_claim_id offer"
proof -
  obtain a0 req offer a1 s' v resp a2 where t: "sample_new = Ok a0"
    "handle_open reference_primitives sample_entropy a0 sample_receiver req 10 0 = (Ok offer, a1, s')"
    "sa_state a1 = Disclosed" "verify_offer rfc8949 reference_primitives sample_session offer = Ok v"
    "handle_acknowledgement a1 sample_receiver (vo_acknowledgement v) = (Ok resp, a2)"
    "sa_state a2 = Consumed"
    using sample_transfer by metis
  let ?in = "[Received (Some (InboundRequest sample_receiver 1 (ROpen req))) 10,
    Received (Some (InboundRequest sample_receiver 2 (RAcknowledge (vo_acknowledgement v)))) 11]"
  have l: "direct_loop reference_primitives sample_entropy (\<lambda>_ _. True) a0 0 ?in =
      (Some (Ok Consumed), a2, s', [(1, ROffer offer), (2, RCompleted resp)])"
    using t by (simp add: handle_event_def terminal_def)
  have "completed_claim_id resp = offer_claim_id offer"
    using direct_sender_discloses_once [OF t(1) [unfolded sample_new_def] l] by auto
  then show ?thesis using t l by blast
qed

theorem direct_sender_result_witness:
  "\<exists>a0 inputs a s sent. sample_new = Ok a0 \<and>
     direct_loop reference_primitives sample_entropy (\<lambda>_ _. True) a0 0 inputs = (None, a, s, sent) \<and>
     \<not> terminal (sa_state a)"
proof -
  obtain a0 req offer a1 s' where t: "sample_new = Ok a0" "\<not> terminal (sa_state a0)"
    "direct_loop reference_primitives sample_entropy (\<lambda>_ _. True) a0 0
       [Received (Some (InboundRequest sample_receiver 1 (ROpen req))) 10] =
     (None, a1, s', [(1, ROffer offer)])"
    using sample_loop by metis
  have "\<not> terminal (sa_state a1)" using direct_sender_result [OF t(2,3)] by simp
  then show ?thesis using t by blast
qed

end
