(* ===== verification/Rendezvous_Codec.thy ===== *)
theory Rendezvous_Codec
  imports Transfer_Codec
begin

text \<open>
  The discovery server's wire layer, \<^verbatim>\<open>node/src/rendezvous/codec.rs\<close>: the request and
  response types, the unsigned varint length prefix, and the translation between protobuf
  messages and requests. Protobuf encoding itself (\<^verbatim>\<open>prost\<close>) is a parameter: \<open>decode_message\<close>
  and \<open>encode_message\<close>. Strings are UTF-8 byte lists; streams are as in \<open>Transfer_Codec\<close>.
\<close>

definition MAX_WIRE_MESSAGE_BYTES :: nat where "MAX_WIRE_MESSAGE_BYTES = 1024 * 1024"

datatype Status =
    InvalidNamespace | InvalidSignedPeerRecord | InvalidTtl | InvalidCookie | NotAuthorized
  | Unavailable

datatype Request =
    Register bytes bytes "u64 option"
  | Unregister bytes
  | Discover "bytes option" "bytes option" "u64 option"

record WireRegistration =
  wr_namespace :: bytes
  wr_signed_record :: bytes
  wr_ttl :: u64

record DiscoveryPage =
  page_registrations :: "WireRegistration list"
  page_cookie :: bytes

datatype Response =
    RegisterResponse "(Status, u64) result"
  | DiscoverResponse "(Status, DiscoveryPage) result"

section \<open>Protobuf messages\<close>

record WireRegister =
  wreg_namespace :: "bytes option"
  wreg_signed_peer_record :: "bytes option"
  wreg_ttl :: "u64 option"

record WireRegisterResponse =
  wrr_status :: "int option"
  wrr_ttl :: "u64 option"

record WireUnregister =
  wun_namespace :: "bytes option"
  wun_id :: "bytes option"

record WireDiscover =
  wdis_namespace :: "bytes option"
  wdis_limit :: "u64 option"
  wdis_cookie :: "bytes option"

record WireDiscoverResponse =
  wdr_registrations :: "WireRegister list"
  wdr_cookie :: "bytes option"
  wdr_status :: "int option"

record WireMessage =
  wm_message_type :: "int option"
  wm_register :: "WireRegister option"
  wm_register_response :: "WireRegisterResponse option"
  wm_unregister :: "WireUnregister option"
  wm_discover :: "WireDiscover option"
  wm_discover_response :: "WireDiscoverResponse option"

definition empty_message :: WireMessage where
  "empty_message = \<lparr>wm_message_type = None, wm_register = None, wm_register_response = None,
     wm_unregister = None, wm_discover = None, wm_discover_response = None\<rparr>"

fun status_i32 :: "Status \<Rightarrow> int" where
  "status_i32 InvalidNamespace = 100"
| "status_i32 InvalidSignedPeerRecord = 101"
| "status_i32 InvalidTtl = 102"
| "status_i32 InvalidCookie = 103"
| "status_i32 NotAuthorized = 200"
| "status_i32 Unavailable = 400"

definition request_try_from :: "WireMessage \<Rightarrow> (io_error, Request) result" where
  "request_try_from m =
     (case (wm_message_type m, wm_register m, wm_unregister m, wm_discover m) of
        (Some t, r, u, d) \<Rightarrow>
          if t = 0 \<and> r \<noteq> None then
            (let reg = the r in
             bind_res (ok_or InvalidData (wreg_namespace reg)) (\<lambda>namespace.
             bind_res (ok_or InvalidData (wreg_signed_peer_record reg)) (\<lambda>signed_record.
             Ok (Register namespace signed_record (wreg_ttl reg)))))
          else if t = 2 \<and> u \<noteq> None then
            bind_res (ok_or InvalidData (wun_namespace (the u))) (\<lambda>namespace.
            Ok (Unregister namespace))
          else if t = 3 \<and> d \<noteq> None then
            Ok (Discover (wdis_namespace (the d)) (wdis_cookie (the d)) (wdis_limit (the d)))
          else Err InvalidData
      | (None, _) \<Rightarrow> Err InvalidData)"

definition wire_message_of_response :: "Response \<Rightarrow> WireMessage" where
  "wire_message_of_response response =
     (case response of
        RegisterResponse r \<Rightarrow>
          (let (status, ttl) = (case r of Inl st \<Rightarrow> (status_i32 st, None) | Inr ttl \<Rightarrow> (0, Some ttl))
           in empty_message\<lparr>wm_message_type := Some 1,
                wm_register_response := Some \<lparr>wrr_status = Some status, wrr_ttl = ttl\<rparr>\<rparr>)
      | DiscoverResponse r \<Rightarrow>
          (let resp = (case r of
               Inl st \<Rightarrow> \<lparr>wdr_registrations = [], wdr_cookie = None, wdr_status = Some (status_i32 st)\<rparr>
             | Inr page \<Rightarrow>
                 \<lparr>wdr_registrations = map (\<lambda>w. \<lparr>wreg_namespace = Some (wr_namespace w),
                     wreg_signed_peer_record = Some (wr_signed_record w),
                     wreg_ttl = Some (wr_ttl w)\<rparr>) (page_registrations page),
                  wdr_cookie = Some (page_cookie page), wdr_status = Some 0\<rparr>)
           in empty_message\<lparr>wm_message_type := Some 4, wm_discover_response := Some resp\<rparr>))"

section \<open>Varint frames\<close>

fun read_length :: "nat list \<Rightarrow> u64 \<Rightarrow> bytes \<Rightarrow> (io_error, u64 \<times> bytes) result" where
  "read_length [] len io = Err InvalidData"
| "read_length (shift # shifts) len io =
     bind_res (read_exact 1 io) (\<lambda>(input, io).
     let byte = input ! 0 in
     if shift = 63 \<and> byte > 1 then Err InvalidData else
     let len = len OR push_bit shift (ucast (byte AND 0x7f)) in
     if byte AND 0x80 = 0 then Ok (len, io) else read_length shifts len io)"

definition read_varint_frame :: "bytes \<Rightarrow> (io_error, bytes \<times> bytes) result" where
  "read_varint_frame io =
     bind_res (read_length (map (\<lambda>i. 7 * i) [0..<10]) 0 io) (\<lambda>(len, io).
     if unat len > MAX_WIRE_MESSAGE_BYTES then Err InvalidData
     else read_exact (unat len) io)"

function encode_varint_loop :: "u64 \<Rightarrow> bytes" where
  "encode_varint_loop v =
     (let byte = ucast (v AND 0x7f); v' = drop_bit 7 v;
          byte = (if v' \<noteq> 0 then byte OR 0x80 else byte)
      in byte # (if v' = 0 then [] else encode_varint_loop v'))"
  by pat_completeness auto
termination
proof (relation "measure unat")
  fix v :: u64 and byte v' byte'
  assume v': "v' = drop_bit 7 v" and "v' \<noteq> 0"
  then have "unat v \<noteq> 0" by (cases "v = 0") (auto simp: unat_eq_zero)
  then have "unat v div 128 < unat v" by simp
  moreover have "unat (drop_bit 7 v) = unat v div 128"
    unfolding unat_drop_bit_eq by (simp add: drop_bit_eq_div)
  ultimately show "(v', v) \<in> measure unat" using v' by simp
qed simp

declare encode_varint_loop.simps [simp del]

definition encode_varint :: "nat \<Rightarrow> bytes" where
  "encode_varint len = encode_varint_loop (of_nat len)"

definition rv_read_request ::
  "(bytes \<Rightarrow> WireMessage option) \<Rightarrow> bytes \<Rightarrow> (io_error, Request \<times> bytes) result" where
  "rv_read_request decode_message io =
     bind_res (read_varint_frame io) (\<lambda>(payload, io).
     bind_res (ok_or InvalidData (decode_message payload)) (\<lambda>m.
     bind_res (request_try_from m) (\<lambda>request. Ok (request, io))))"

definition rv_write_response ::
  "(WireMessage \<Rightarrow> bytes) \<Rightarrow> bytes \<Rightarrow> Response \<Rightarrow> (io_error, bytes) result" where
  "rv_write_response encode_message io response =
     (let payload = encode_message (wire_message_of_response response); len = length payload in
      if len > MAX_WIRE_MESSAGE_BYTES then Err InvalidData
      else Ok (io @ encode_varint len @ payload))"

section \<open>Varint round trip\<close>

lemma and_0x7f: "v AND 0x7f = take_bit 7 (v :: u64)" "b AND 0x7f = take_bit 7 (b :: u8)"
  by (simp_all add: take_bit_eq_mask mask_eq_exp_minus_1)

lemma low7: "unat (v AND 0x7f :: u64) = unat v mod 128"
  unfolding and_0x7f unsigned_take_bit_eq by (simp only: take_bit_eq_mod) simp

lemma bit_0x80: "bit (0x80 :: u8) n \<longleftrightarrow> n = 7"
proof -
  have e: "(0x80 :: u8) = 2 ^ 7" by simp
  show ?thesis by (subst e, subst bit_exp_iff) auto
qed

lemma varint_byte:
  fixes v :: u64
  defines "b \<equiv> ucast (v AND 0x7f) :: u8"
  shows "ucast (b AND 0x7f) = v AND 0x7f" "b AND 0x80 = 0"
    "ucast ((b OR 0x80) AND 0x7f) = v AND 0x7f" "(b OR 0x80) AND 0x80 \<noteq> 0"
proof -
  show "ucast (b AND 0x7f) = v AND 0x7f"
    unfolding b_def and_0x7f by (intro bit_word_eqI) (auto simp: bit_simps)
  show "b AND 0x80 = 0"
    unfolding b_def and_0x7f by (intro bit_word_eqI)
      (simp only: bit_and_iff bit_0x80 bit_take_bit_iff bit_unsigned_iff bit_0_eq, auto)
  show "ucast ((b OR 0x80) AND 0x7f) = v AND 0x7f"
    unfolding b_def and_0x7f by (intro bit_word_eqI)
      (simp only: bit_and_iff bit_or_iff bit_0x80 bit_take_bit_iff bit_unsigned_iff, auto)
  show "(b OR 0x80) AND 0x80 \<noteq> 0"
  proof
    assume "(b OR 0x80) AND 0x80 = 0"
    then have "bit ((b OR 0x80) AND 0x80) 7 = bit (0 :: u8) 7" by simp
    then show False by (simp only: bit_and_iff bit_or_iff bit_0x80 bit_0_eq) simp
  qed
qed

lemma or_shifted:
  fixes v :: u64
  assumes "L < 2 ^ s" and "s < 64"
  shows "of_nat L OR push_bit s (v AND 0x7f) = of_nat L + push_bit s (v AND 0x7f)"
proof -
  have L: "take_bit s (of_nat L) = (of_nat L :: u64)"
    using assms(1) by (metis take_bit_nat_eq_self take_bit_of_nat)
  have "of_nat L AND push_bit s (v AND 0x7f) = 0"
  proof (rule bit_word_eqI)
    fix n
    show "bit (of_nat L AND push_bit s (v AND 0x7f)) n = bit (0 :: u64) n"
      using arg_cong [OF L, of "\<lambda>x. bit x n"] by (auto simp: bit_simps)
  qed
  then show ?thesis by (simp add: disjunctive_add_eq_or)
qed

lemma read_length_Cons:
  "read_length (s # ss) len (b # io) =
     (if s = 63 \<and> b > 1 then Err InvalidData
      else if b AND 0x80 = 0 then Ok (len OR push_bit s (ucast (b AND 0x7f)), io)
      else read_length ss (len OR push_bit s (ucast (b AND 0x7f))) io)"
  by (simp add: read_exact_def Let_def)

lemma read_length_varint:
  assumes "k < 10" and "unat v * 2 ^ (7 * k) + L < 2 ^ 64" and "L < 2 ^ (7 * k)"
  shows "read_length (map (\<lambda>i. 7 * i) [k..<10]) (of_nat L) (encode_varint_loop v @ rest) =
    Ok (of_nat (unat v * 2 ^ (7 * k) + L), rest)"
  using assms
proof (induction "10 - k" arbitrary: k v L)
  case 0
  then show ?case by simp
next
  case (Suc d)
  let ?s = "7 * k" and ?low = "unat v mod 128"
  have shifts: "map (\<lambda>i. 7 * i) [k..<10] = ?s # map (\<lambda>i. 7 * i) [Suc k..<10]"
    using Suc.prems(1) by (simp add: upt_conv_Cons)
  have s: "?s < 64" using Suc.prems(1) by simp
  have acc: "of_nat L OR push_bit ?s (v AND 0x7f) = of_nat (?low * 2 ^ ?s + L)"
  proof -
    have "push_bit ?s (v AND 0x7f) = (of_nat (unat (v AND 0x7f) * 2 ^ ?s) :: u64)"
      by (simp add: push_bit_eq_mult)
    then show ?thesis
      unfolding or_shifted [OF Suc.prems(3) s] low7 by (simp add: algebra_simps)
  qed
  have v2: "?s = 63 \<Longrightarrow> unat v < 2" using Suc.prems(2) by auto
  show ?case
  proof (cases "drop_bit 7 v = 0")
    case True
    then have "unat v div 128 = 0"
      using unat_drop_bit_eq [of 7 v] by (simp add: drop_bit_eq_div)
    then have lt: "?low = unat v" by simp
    have enc: "encode_varint_loop v = [ucast (v AND 0x7f)]"
      using True by (simp add: encode_varint_loop.simps)
    have "\<not> (?s = 63 \<and> 1 < (ucast (v AND 0x7f) :: u8))"
    proof
      assume a: "?s = 63 \<and> 1 < (ucast (v AND 0x7f) :: u8)"
      have "unat (ucast (v AND 0x7f) :: u8) = unat v"
        using low7 [of v] lt by (simp add: unsigned_ucast_eq take_bit_nat_eq_self)
      then show False using a v2 by (simp add: word_less_nat_alt)
    qed
    then show ?thesis
      unfolding shifts enc append_Cons append_Nil read_length_Cons varint_byte(1) acc
      by (simp add: varint_byte(2) lt)
  next
    case False
    let ?v = "drop_bit 7 v"
    have uv: "unat ?v = unat v div 128"
      unfolding unat_drop_bit_eq by (simp add: drop_bit_eq_div)
    have "unat ?v \<noteq> 0" using False by (simp add: unat_eq_zero)
    then have big: "128 \<le> unat v" using uv by (simp add: div_greater_zero_iff)
    have k: "k < 9"
    proof (rule ccontr)
      assume "\<not> k < 9"
      then have "?s = 63" using Suc.prems(1) by simp
      then show False using v2 big by simp
    qed
    have enc: "encode_varint_loop v = (ucast (v AND 0x7f) OR 0x80) # encode_varint_loop ?v"
      using False by (subst encode_varint_loop.simps) (simp add: Let_def)
    have p: "(2 :: nat) ^ (7 * Suc k) = 128 * 2 ^ ?s" by (simp add: power_add)
    have split: "unat v * 2 ^ ?s = unat ?v * 2 ^ (7 * Suc k) + ?low * 2 ^ ?s"
    proof -
      have "unat v = unat ?v * 128 + ?low" unfolding uv by (simp add: div_mult_mod_eq)
      then have "unat v * 2 ^ ?s = (unat ?v * 128 + ?low) * 2 ^ ?s" by simp
      then show ?thesis unfolding p by (simp only: add_mult_distrib mult.assoc)
    qed
    have "?low * 2 ^ ?s + L < (?low + 1) * 2 ^ ?s" using Suc.prems(3) by simp
    also have "\<dots> \<le> 128 * 2 ^ ?s" by (intro mult_le_mono1) (simp add: Suc_leI)
    finally have L': "?low * 2 ^ ?s + L < 2 ^ (7 * Suc k)" unfolding p .
    have bound: "unat ?v * 2 ^ (7 * Suc k) + (?low * 2 ^ ?s + L) < 2 ^ 64"
      using Suc.prems(2) split by simp
    have ih: "read_length (map (\<lambda>i. 7 * i) [Suc k..<10]) (of_nat (?low * 2 ^ ?s + L))
        (encode_varint_loop ?v @ rest) =
      Ok (of_nat (unat ?v * 2 ^ (7 * Suc k) + (?low * 2 ^ ?s + L)), rest)"
      by (rule Suc.hyps(1) [OF _ _ bound L']) (use Suc.hyps(2) k in simp_all)
    have sum: "unat ?v * 2 ^ (7 * Suc k) + (?low * 2 ^ ?s + L) = unat v * 2 ^ ?s + L"
      using split by simp
    have "?s \<noteq> 63" using k by simp
    then show ?thesis
      unfolding shifts enc append_Cons read_length_Cons varint_byte(3) acc
      using varint_byte(4) [of v] ih [unfolded sum] by (simp only: if_False simp_thms)
  qed
qed

lemma read_varint_frame_encoded:
  assumes "length payload \<le> MAX_WIRE_MESSAGE_BYTES"
  shows "read_varint_frame (encode_varint (length payload) @ payload @ rest) = Ok (payload, rest)"
proof -
  have len: "length payload < 2 ^ 64" using assms by (simp add: MAX_WIRE_MESSAGE_BYTES_def)
  then have u: "unat (of_nat (length payload) :: u64) = length payload" by (simp add: unat_of_nat)
  have "read_length (map (\<lambda>i. 7 * i) [0..<10]) 0 (encode_varint (length payload) @ payload @ rest) =
      Ok (of_nat (length payload), payload @ rest)"
    using read_length_varint [of 0 "of_nat (length payload)" 0 "payload @ rest"] len u
    by (simp add: encode_varint_def)
  then show ?thesis using assms u by (simp add: read_varint_frame_def read_exact_append)
qed

lemma read_length_shape:
  "read_length ss len io = Ok (n, rest) \<Longrightarrow>
     \<exists>p. io = p @ rest \<and> p \<noteq> [] \<and> length p \<le> length ss"
proof (induction ss len io arbitrary: n rest rule: read_length.induct)
  case (1 len io)
  then show ?case by simp
next
  case (2 s ss len io)
  show ?case
  proof (cases io)
    case Nil
    then show ?thesis using "2.prems" by (simp add: read_exact_def)
  next
    case (Cons b io')
    have step: "\<not> (s = 63 \<and> 1 < b)" using "2.prems" unfolding Cons read_length_Cons
      by (auto split: if_splits)
    show ?thesis
    proof (cases "b AND 0x80 = 0")
      case True
      then have "rest = io'" using "2.prems" step unfolding Cons read_length_Cons
        by (auto split: if_splits)
      then show ?thesis using Cons by (intro exI [of _ "[b]"]) simp
    next
      case False
      then have r: "read_length ss (len OR push_bit s (ucast (b AND 0x7f))) io' = Ok (n, rest)"
        using "2.prems" step unfolding Cons read_length_Cons by (auto split: if_splits)
      obtain p where "io' = p @ rest" "p \<noteq> []" "length p \<le> length ss"
        using "2.IH" [OF nth_Cons_0 [symmetric, of b "[]"] step refl False r] by auto
      then show ?thesis using Cons by (intro exI [of _ "b # p"]) simp
    qed
  qed
qed

lemma varint_frames:
  shows "length payload \<le> MAX_WIRE_MESSAGE_BYTES \<Longrightarrow>
      read_varint_frame (encode_varint (length payload) @ payload @ rest) = Ok (payload, rest)"
    and "read_varint_frame io = Ok (p, rest') \<Longrightarrow>
      length p \<le> MAX_WIRE_MESSAGE_BYTES \<and>
      (\<exists>prefix. io = prefix @ p @ rest' \<and> 1 \<le> length prefix \<and> length prefix \<le> 10)"
    and "length (encode_message (wire_message_of_response response)) > MAX_WIRE_MESSAGE_BYTES \<Longrightarrow>
      rv_write_response encode_message out response = Err InvalidData"
    and "length (encode_message (wire_message_of_response response)) \<le> MAX_WIRE_MESSAGE_BYTES \<Longrightarrow>
      \<exists>frame. rv_write_response encode_message out response = Ok (out @ frame) \<and>
        read_varint_frame (frame @ rest) =
          Ok (encode_message (wire_message_of_response response), rest)"
proof -
  show "length payload \<le> MAX_WIRE_MESSAGE_BYTES \<Longrightarrow>
      read_varint_frame (encode_varint (length payload) @ payload @ rest) = Ok (payload, rest)"
    by (rule read_varint_frame_encoded)
next
  assume "read_varint_frame io = Ok (p, rest')"
  then obtain n io'' where n: "read_length (map (\<lambda>i. 7 * i) [0..<10]) 0 io = Ok (n, io'')"
    and p: "unat n \<le> MAX_WIRE_MESSAGE_BYTES" "read_exact (unat n) io'' = Ok (p, rest')"
    by (auto simp: read_varint_frame_def result_simps split: if_splits)
  obtain pre where "io = pre @ io''" "pre \<noteq> []" "length pre \<le> 10"
    using read_length_shape [OF n] by auto
  then show "length p \<le> MAX_WIRE_MESSAGE_BYTES \<and>
      (\<exists>prefix. io = prefix @ p @ rest' \<and> 1 \<le> length prefix \<and> length prefix \<le> 10)"
    using p by (auto simp: Suc_le_eq read_exact_Ok)
next
  assume "length (encode_message (wire_message_of_response response)) > MAX_WIRE_MESSAGE_BYTES"
  then show "rv_write_response encode_message out response = Err InvalidData"
    by (simp add: rv_write_response_def Let_def)
next
  assume "length (encode_message (wire_message_of_response response)) \<le> MAX_WIRE_MESSAGE_BYTES"
  then show "\<exists>frame. rv_write_response encode_message out response = Ok (out @ frame) \<and>
        read_varint_frame (frame @ rest) =
          Ok (encode_message (wire_message_of_response response), rest)"
    using read_varint_frame_encoded by (simp add: rv_write_response_def Let_def)
qed

text \<open>
  The discovery stream's length-prefixed frames. A payload within the limit, written as the
  server writes it, is read back exactly and leaves what follows on the stream; whatever bytes
  arrive, an accepted frame has at most ten prefix bytes, a payload of at most 1 MiB and nothing
  else consumed. A response is written exactly when its message is within the limit, and then
  the peer's reader recovers the message.
\<close>
theorem varint_frame_roundtrip:
  "(length payload \<le> MAX_WIRE_MESSAGE_BYTES \<longrightarrow>
      read_varint_frame (encode_varint (length payload) @ payload @ rest) = Ok (payload, rest))
   \<and> (read_varint_frame io = Ok (p, rest') \<longrightarrow>
      length p \<le> MAX_WIRE_MESSAGE_BYTES \<and>
      (\<exists>prefix. io = prefix @ p @ rest' \<and> 1 \<le> length prefix \<and> length prefix \<le> 10))
   \<and> (length (encode_message (wire_message_of_response response)) > MAX_WIRE_MESSAGE_BYTES \<longrightarrow>
      rv_write_response encode_message out response = Err InvalidData)
   \<and> (length (encode_message (wire_message_of_response response)) \<le> MAX_WIRE_MESSAGE_BYTES \<longrightarrow>
      (\<exists>frame. rv_write_response encode_message out response = Ok (out @ frame) \<and>
        read_varint_frame (frame @ rest) =
          Ok (encode_message (wire_message_of_response response), rest)))"
  using varint_frames by blast


theorem varint_frame_roundtrip_witness:
  "read_varint_frame (encode_varint (length (replicate 300 (7 :: byte))) @ replicate 300 7 @ [9]) =
     Ok (replicate 300 7, [9]) \<and>
   (\<exists>prefix. [0x83, 0x00, 1, 2, 3, 4] = prefix @ [1, 2, 3] @ [4 :: byte] \<and> length prefix \<le> 10) \<and>
   rv_write_response (\<lambda>_. replicate (Suc MAX_WIRE_MESSAGE_BYTES) 0) []
     (RegisterResponse (Err Unavailable)) = Err InvalidData \<and>
   (\<exists>frame. rv_write_response (\<lambda>_. [1, 2, 3]) [5] (RegisterResponse (Ok 60)) = Ok ([5] @ frame))"
proof -
  have "read_varint_frame [0x83, 0x00, 1, 2, 3, 4] = Ok ([1, 2, 3], [4])"
    by (simp add: read_varint_frame_def read_length_Cons upt_conv_Cons read_exact_def
        MAX_WIRE_MESSAGE_BYTES_def)
  then show ?thesis
    using varint_frame_roundtrip [of "replicate 300 7" "[9]" "[0x83, 0x00, 1, 2, 3, 4]"
        "[1, 2, 3]" "[4]" "\<lambda>_. replicate (Suc MAX_WIRE_MESSAGE_BYTES) 0"
        "RegisterResponse (Err Unavailable)" "[]"]
      varint_frame_roundtrip [of "[]" "[]" "[]" "[]" "[]" "\<lambda>_. [1, 2, 3]"
        "RegisterResponse (Ok 60)" "[5]"]
    by (auto simp: MAX_WIRE_MESSAGE_BYTES_def simp del: replicate.simps)
qed

end
