(* ===== verification/Local_Input.thy ===== *)
theory Local_Input
  imports Core_Types
begin

text \<open>
  Bounded input reading, \<^verbatim>\<open>core/src/local/input.rs\<close>. A reader is what reading from it gives:
  \<open>reader n\<close> is the outcome of \<^verbatim>\<open>reader.take(n).read_to_end\<close>, the bytes or an I/O error, which
  for a source of content \<open>s\<close> is \<open>reading_from s\<close>.
\<close>

type_synonym reader = "nat \<Rightarrow> bytes option"

definition reading_from :: "bytes \<Rightarrow> reader" where
  "reading_from content n = Some (take n content)"

definition read_bounded :: "reader \<Rightarrow> nat \<Rightarrow> (CoreError, bytes) result" where
  "read_bounded reader maximum_bytes =
     (if maximum_bytes = 0 then Err Core_Configuration else
      bind_res (ok_or Core_Internal (checked_add_usize maximum_bytes 1)) (\<lambda>read_limit.
      bind_res (ok_or Core_Output (reader read_limit)) (\<lambda>content.
      if length content > maximum_bytes then Err Core_Transfer else Ok content)))"

lemma read_bounded_content:
  assumes "0 < m" and "m < usize_max"
  shows "read_bounded (reading_from s) m = (if length s \<le> m then Ok s else Err Core_Transfer)"
  using assms by (simp add: read_bounded_def checked_add_usize_def reading_from_def)

lemma read_bounded_Ok:
  "read_bounded r m = Ok s \<longleftrightarrow> 0 < m \<and> m < usize_max \<and> r (m + 1) = Some s \<and> length s \<le> m"
  by (cases "r (Suc m)") (auto simp: read_bounded_def checked_add_usize_def split: if_splits)

end
