(* ===== verification/Node_Config.thy ===== *)
theory Node_Config
  imports Local_Input Network_Types
begin

text \<open>
  The relay node's configuration, \<^verbatim>\<open>node/src/config.rs\<close>: the record with its defaults, the
  safety ceilings of \<^verbatim>\<open>NodeConfig::validate\<close> and \<^verbatim>\<open>validate_telemetry\<close>, and the guards of
  \<^verbatim>\<open>NodeConfig::load\<close>. Strings are UTF-8 byte lists and durations nanoseconds. A finite
  64-bit float is its exact value in units of \<open>2 ^ - 1074\<close>, of which every one is a multiple. TOML decoding and the tracing
  filter's parser are third-party code and parameters.
\<close>

datatype f64 = Finite int | Infinite | NaN

definition secs :: "nat \<Rightarrow> duration" where "secs n = n * 1000000000"

datatype LogFormat = LogText | LogJson

record TelemetryConfig =
  log_format :: LogFormat
  log_filter :: bytes
  otlp_endpoint :: "bytes option"
  otlp_sample_ratio :: f64

record SocketAddr =
  sa_ip :: ip_address
  sa_port :: u16

record NodeConfig =
  listen_addresses :: "multiaddr list"
  max_reservations :: nat
  max_reservations_per_peer :: nat
  reservation_duration :: duration
  max_circuits :: nat
  max_circuits_per_peer :: nat
  max_circuit_duration :: duration
  max_circuit_bytes :: u64
  max_connections :: u32
  max_connections_per_peer :: u32
  max_connections_per_ip :: nat
  connection_attempts_per_ip_per_minute :: u32
  connection_rate_limit_ips :: nat
  max_process_memory_bytes :: nat
  event_capacity :: nat
  operations_address :: "SocketAddr option"
  shutdown_grace_period :: duration
  discovery_min_ttl_seconds :: u64
  discovery_max_ttl_seconds :: u64
  discovery_registrations_per_peer :: nat
  discovery_registrations_total :: nat
  discovery_registrations_per_namespace :: nat
  discovery_cookies :: nat
  discovery_addresses_per_registration :: nat
  discovery_record_bytes :: nat
  discovery_results :: nat
  discovery_register_requests_per_minute :: u32
  discovery_discover_requests_per_minute :: u32
  discovery_rate_limit_peers :: nat
  discovery_allow_private_addresses :: bool
  telemetry :: TelemetryConfig

text \<open>The literal \<^verbatim>\<open>0.1\<close> and \<^verbatim>\<open>0.01\<close> are the nearest doubles.\<close>

definition double_0_1 :: int where "double_0_1 = 3602879701896397 * 2 ^ (1074 - 55)"
definition double_0_01 :: int where "double_0_01 = 5764607523034235 * 2 ^ (1074 - 59)"

definition telemetry_default :: TelemetryConfig where
  "telemetry_default = \<lparr>log_format = LogText, log_filter = ascii ''info,libp2p=warn'',
     otlp_endpoint = None, otlp_sample_ratio = Finite double_0_01\<rparr>"

definition node_config_default :: NodeConfig where
  "node_config_default = \<lparr>
     listen_addresses = [[Ip4 0 0 0 0, Tcp 4001], [Ip4 0 0 0 0, Udp 4001, QuicV1]],
     max_reservations = 128,
     max_reservations_per_peer = 2,
     reservation_duration = secs (60 * 60),
     max_circuits = 64,
     max_circuits_per_peer = 4,
     max_circuit_duration = secs (2 * 60),
     max_circuit_bytes = 2 * 1024 * 1024,
     max_connections = 512,
     max_connections_per_peer = 8,
     max_connections_per_ip = 32,
     connection_attempts_per_ip_per_minute = 120,
     connection_rate_limit_ips = 4096,
     max_process_memory_bytes = 1024 * 1024 * 1024,
     event_capacity = 256,
     operations_address = Some \<lparr>sa_ip = V4 127 0 0 1, sa_port = 9100\<rparr>,
     shutdown_grace_period = secs 30,
     discovery_min_ttl_seconds = 30,
     discovery_max_ttl_seconds = 300,
     discovery_registrations_per_peer = 8,
     discovery_registrations_total = 256,
     discovery_registrations_per_namespace = 32,
     discovery_cookies = 512,
     discovery_addresses_per_registration = 8,
     discovery_record_bytes = 16 * 1024,
     discovery_results = 32,
     discovery_register_requests_per_minute = 12,
     discovery_discover_requests_per_minute = 30,
     discovery_rate_limit_peers = 1024,
     discovery_allow_private_addresses = False,
     telemetry = telemetry_default\<rparr>"

definition MAX_CONFIG_BYTES :: nat where "MAX_CONFIG_BYTES = 256 * 1024"
definition MAX_LISTENERS :: nat where "MAX_LISTENERS = 16"

definition MAX_PROCESS_MEMORY_BYTES :: nat where
  "MAX_PROCESS_MEMORY_BYTES = min (64 * (1024 * 1024 * 1024)) usize_max"

fun ip_is_loopback :: "ip_address \<Rightarrow> bool" where
  "ip_is_loopback (V4 a b c d) = (a = 127)"
| "ip_is_loopback (V6 a b c d e f g h) =
     (a = 0 \<and> b = 0 \<and> c = 0 \<and> d = 0 \<and> e = 0 \<and> f = 0 \<and> g = 0 \<and> h = 1)"

text \<open>\<^verbatim>\<open>char::is_whitespace\<close>: the code points with Unicode's property White\_Space.\<close>

definition is_whitespace :: "nat \<Rightarrow> bool" where
  "is_whitespace c \<longleftrightarrow> (9 \<le> c \<and> c \<le> 13) \<or> c = 32 \<or> c = 0x85 \<or> c = 0xA0 \<or> c = 0x1680 \<or>
     (0x2000 \<le> c \<and> c \<le> 0x200A) \<or> c = 0x2028 \<or> c = 0x2029 \<or> c = 0x202F \<or> c = 0x205F \<or> c = 0x3000"

definition strip_prefix :: "bytes \<Rightarrow> bytes \<Rightarrow> bytes option" where
  "strip_prefix p s = (if take (length p) s = p then Some (drop (length p) s) else None)"

definition valid_otlp_endpoint :: "bytes \<Rightarrow> bool" where
  "valid_otlp_endpoint endpoint =
     (if endpoint = [] then True else
      let authority =
        map_option (takeWhile (\<lambda>b. b \<noteq> 47))
          (case strip_prefix (ascii ''https://'') endpoint of
             Some rest \<Rightarrow> Some rest
           | None \<Rightarrow> strip_prefix (ascii ''http://'') endpoint)
      in length endpoint \<le> 2048
         \<and> (case authority of Some v \<Rightarrow> v \<noteq> [] | None \<Rightarrow> False)
         \<and> \<not> list_ex is_whitespace (str_chars endpoint)
         \<and> \<not> list_ex (\<lambda>c. c = 64 \<or> c = 63 \<or> c = 35) (str_chars endpoint))"

definition validate_telemetry :: "(bytes \<Rightarrow> bool) \<Rightarrow> TelemetryConfig \<Rightarrow> bool" where
  "validate_telemetry env_filter_ok config =
     (let valid_filter = log_filter config \<noteq> []
            \<and> length (log_filter config) \<le> 256
            \<and> \<not> list_ex is_control (str_chars (log_filter config))
            \<and> env_filter_ok (log_filter config);
          valid_endpoint = (case otlp_endpoint config of
              None \<Rightarrow> True | Some endpoint \<Rightarrow> valid_otlp_endpoint endpoint)
      in valid_filter
         \<and> valid_endpoint
         \<and> (case otlp_sample_ratio config of
              Finite r \<Rightarrow> 0 \<le> r \<and> r \<le> double_0_1
            | _ \<Rightarrow> False))"

definition node_config_validate :: "(bytes \<Rightarrow> bool) \<Rightarrow> NodeConfig \<Rightarrow> bool" where
  "node_config_validate env_filter_ok c \<longleftrightarrow>
     listen_addresses c \<noteq> []
     \<and> length (listen_addresses c) \<le> MAX_LISTENERS
     \<and> list_all (\<lambda>a. a \<noteq> []) (listen_addresses c)
     \<and> max_reservations c > 0
     \<and> max_reservations c \<le> 4096
     \<and> max_reservations_per_peer c > 0
     \<and> max_reservations_per_peer c \<le> 64
     \<and> max_reservations_per_peer c \<le> max_reservations c
     \<and> reservation_duration c \<noteq> 0
     \<and> reservation_duration c \<le> secs (24 * 60 * 60)
     \<and> max_circuits c > 0
     \<and> max_circuits c \<le> 4096
     \<and> max_circuits_per_peer c > 0
     \<and> max_circuits_per_peer c \<le> 64
     \<and> max_circuits_per_peer c \<le> max_circuits c
     \<and> max_circuit_duration c \<noteq> 0
     \<and> max_circuit_duration c \<le> secs (60 * 60)
     \<and> 1024 \<le> max_circuit_bytes c \<and> max_circuit_bytes c \<le> 1024 * 1024 * 1024
     \<and> max_connections c > 0
     \<and> max_connections c \<le> 8192
     \<and> max_connections_per_peer c > 0
     \<and> max_connections_per_peer c \<le> 128
     \<and> max_connections_per_peer c \<le> max_connections c
     \<and> 1 \<le> max_connections_per_ip c \<and> max_connections_per_ip c \<le> 256
     \<and> 1 \<le> connection_attempts_per_ip_per_minute c
     \<and> connection_attempts_per_ip_per_minute c \<le> 1200
     \<and> 1 \<le> connection_rate_limit_ips c \<and> connection_rate_limit_ips c \<le> 16384
     \<and> max_process_memory_bytes c \<ge> 64 * 1024 * 1024
     \<and> max_process_memory_bytes c \<le> MAX_PROCESS_MEMORY_BYTES
     \<and> 1 \<le> event_capacity c \<and> event_capacity c \<le> 8192
     \<and> (case operations_address c of None \<Rightarrow> True | Some a \<Rightarrow> ip_is_loopback (sa_ip a))
     \<and> shutdown_grace_period c \<le> secs (5 * 60)
     \<and> discovery_min_ttl_seconds c > 0
     \<and> discovery_min_ttl_seconds c \<le> discovery_max_ttl_seconds c
     \<and> discovery_max_ttl_seconds c \<le> 86400
     \<and> discovery_registrations_per_peer c > 0
     \<and> discovery_registrations_per_peer c \<le> discovery_registrations_total c
     \<and> discovery_registrations_total c \<le> 4096
     \<and> discovery_registrations_per_namespace c > 0
     \<and> discovery_registrations_per_namespace c \<le> discovery_registrations_total c
     \<and> discovery_cookies c > 0
     \<and> discovery_cookies c \<le> 8192
     \<and> discovery_addresses_per_registration c > 0
     \<and> discovery_addresses_per_registration c \<le> 16
     \<and> 512 \<le> discovery_record_bytes c \<and> discovery_record_bytes c \<le> 16 * 1024
     \<and> discovery_results c > 0
     \<and> discovery_results c \<le> 64
     \<and> discovery_results c \<le> discovery_registrations_total c
     \<and> discovery_results c * discovery_record_bytes c \<le> usize_max
     \<and> discovery_results c * discovery_record_bytes c \<le> 900 * 1024
     \<and> discovery_register_requests_per_minute c > 0
     \<and> discovery_register_requests_per_minute c \<le> 120
     \<and> discovery_discover_requests_per_minute c > 0
     \<and> discovery_discover_requests_per_minute c \<le> 240
     \<and> discovery_rate_limit_peers c > 0
     \<and> discovery_rate_limit_peers c \<le> 4096
     \<and> validate_telemetry env_filter_ok (telemetry c)"

text \<open>
  \<^verbatim>\<open>NodeConfig::load\<close>: a regular file of at most \<open>MAX_CONFIG_BYTES\<close>, UTF-8 text, decodable and
  within the ceilings; \<open>file\<close> is what opening and inspecting the path gives: whether it is a
  regular file, and its reader. The single failure is \<^verbatim>\<open>NodeError::Configuration\<close>.
\<close>

datatype NodeError = Node_Identity | Node_Configuration | Node_Listen | Node_Operations

definition node_config_load ::
  "(bytes \<Rightarrow> bool) \<Rightarrow> (bytes \<Rightarrow> NodeConfig option) \<Rightarrow> (bool \<times> reader) option
   \<Rightarrow> (NodeError, NodeConfig) result" where
  "node_config_load env_filter_ok from_toml file =
     (case file of
        None \<Rightarrow> Err Node_Configuration
      | Some (is_file, reader) \<Rightarrow>
          if \<not> is_file then Err Node_Configuration else
          bind_res (map_err (\<lambda>_. Node_Configuration) (read_bounded reader MAX_CONFIG_BYTES))
            (\<lambda>content.
          if \<not> utf8_valid content then Err Node_Configuration else
          bind_res (ok_or Node_Configuration (from_toml content)) (\<lambda>config.
          if node_config_validate env_filter_ok config then Ok config
          else Err Node_Configuration)))"


lemma default_config_valid:
  assumes "env_filter_ok (ascii ''info,libp2p=warn'')"
  shows "node_config_validate env_filter_ok node_config_default"
  using assms
  by (simp add: node_config_validate_def node_config_default_def MAX_LISTENERS_def secs_def
      MAX_PROCESS_MEMORY_BYTES_def usize_max_def validate_telemetry_def telemetry_default_def
      double_0_1_def double_0_01_def str_chars_def is_control_def ascii_def)

lemma config_load:
  shows "node_config_load env_filter_ok from_toml opened = Ok config \<longleftrightarrow>
      (\<exists>reader content. opened = Some (True, reader) \<and> reader (256 * 1024 + 1) = Some content
         \<and> length content \<le> 256 * 1024 \<and> utf8_valid content \<and> from_toml content = Some config
         \<and> node_config_validate env_filter_ok config)"
    and "node_config_load env_filter_ok from_toml opened = Err e \<Longrightarrow> e = Node_Configuration"
    and "env_filter_ok (ascii ''info,libp2p=warn'') \<Longrightarrow>
      node_config_validate env_filter_ok node_config_default"
proof -
  show "node_config_load env_filter_ok from_toml opened = Ok config \<longleftrightarrow>
      (\<exists>reader content. opened = Some (True, reader) \<and> reader (256 * 1024 + 1) = Some content
         \<and> length content \<le> 256 * 1024 \<and> utf8_valid content \<and> from_toml content = Some config
         \<and> node_config_validate env_filter_ok config)"
    by (cases opened)
      (auto simp: node_config_load_def result_simps read_bounded_Ok MAX_CONFIG_BYTES_def
        usize_max_def split: if_splits)
  show "node_config_load env_filter_ok from_toml opened = Err e \<Longrightarrow> e = Node_Configuration"
    by (cases opened)
      (auto simp: node_config_load_def result_simps map_err_def
        split: if_splits sum.splits)
  show "env_filter_ok (ascii ''info,libp2p=warn'') \<Longrightarrow>
      node_config_validate env_filter_ok node_config_default"
    by (rule default_config_valid)
qed

text \<open>
  The configuration loader accepts a file exactly when it is a regular file that yields at
  most 256 KiB of valid UTF-8, the text decodes, and the decoded configuration is within every
  ceiling; the configuration is then the decoded one, and every other outcome is the one
  configuration error. The built-in defaults are within the ceilings.
\<close>
theorem config_load_exact:
  "(node_config_load env_filter_ok from_toml opened = Ok config \<longleftrightarrow>
      (\<exists>reader content. opened = Some (True, reader) \<and> reader (256 * 1024 + 1) = Some content
         \<and> length content \<le> 256 * 1024 \<and> utf8_valid content \<and> from_toml content = Some config
         \<and> node_config_validate env_filter_ok config))
   \<and> (node_config_load env_filter_ok from_toml opened = Err e \<longrightarrow> e = Node_Configuration)
   \<and> (env_filter_ok (ascii ''info,libp2p=warn'') \<longrightarrow>
      node_config_validate env_filter_ok node_config_default)"
  by (intro conjI)
    (rule config_load(1), rule impI, erule config_load(2), rule impI, erule config_load(3))


theorem config_load_exact_witness:
  "node_config_validate (\<lambda>f. f = ascii ''info,libp2p=warn'') node_config_default"
  using config_load_exact [of "\<lambda>f. f = ascii ''info,libp2p=warn''" Map.empty None
      node_config_default Node_Configuration] by simp

end
