(* ===== verification/Hash_Maps.thy ===== *)
theory Hash_Maps
  imports Main "HOL-Library.AList"
begin

text \<open>
  The standard library's \<^verbatim>\<open>HashMap\<close> as the node uses it. The locale \<open>hash_map\<close> states the
  interface: what \<^verbatim>\<open>get\<close>, \<^verbatim>\<open>insert\<close>, \<^verbatim>\<open>remove\<close> and \<^verbatim>\<open>len\<close> promise of each other. Association
  lists with distinct keys implement it, the order of the list standing for the unspecified
  iteration order.
\<close>

locale hash_map =
  fixes get :: "'m \<Rightarrow> 'k \<Rightarrow> 'v option"
    and insert :: "'k \<Rightarrow> 'v \<Rightarrow> 'm \<Rightarrow> 'm"
    and remove :: "'k \<Rightarrow> 'm \<Rightarrow> 'm"
    and len :: "'m \<Rightarrow> nat"
    and invar :: "'m \<Rightarrow> bool"
  assumes get_insert: "invar m \<Longrightarrow> get (insert k v m) = (get m)(k \<mapsto> v)"
    and get_remove: "invar m \<Longrightarrow> get (remove k m) = (get m)(k := None)"
    and len_insert: "invar m \<Longrightarrow> len (insert k v m) = (if get m k = None then len m + 1 else len m)"
    and len_remove: "invar m \<Longrightarrow> len (remove k m) = (if get m k = None then len m else len m - 1)"
    and invar_insert: "invar m \<Longrightarrow> invar (insert k v m)"
    and invar_remove: "invar m \<Longrightarrow> invar (remove k m)"
begin

text \<open>A table that only takes a new key while it has room keeps its bound.\<close>

lemma bounded_insert:
  assumes "invar m" and "len m \<le> n" and "get m k = None \<Longrightarrow> len m < n"
  shows "len (insert k v m) \<le> n"
  using assms by (cases "get m k") (simp_all add: len_insert Suc_le_eq)

text \<open>Replacing an entry makes the room it needs.\<close>

lemma room_after_remove:
  assumes "invar m" and "len m \<le> n" and "get m k = Some v" and "0 < n"
  shows "len (remove k m) < n"
  using assms by (simp add: len_remove)

lemma insert_elsewhere: "invar m \<Longrightarrow> k' \<noteq> k \<Longrightarrow> get (insert k v m) k' = get m k'"
  by (simp add: get_insert)

lemma remove_elsewhere: "invar m \<Longrightarrow> k' \<noteq> k \<Longrightarrow> get (remove k m) k' = get m k'"
  by (simp add: get_remove)

end

section \<open>Association lists\<close>

lemma update_new: "k \<notin> fst ` set al \<Longrightarrow> AList.update k v al = al @ [(k, v)]"
  by (induction al) auto

lemma map_of_None_keys: "map_of al k = None \<longleftrightarrow> k \<notin> fst ` set al"
  by (rule map_of_eq_None_iff)

lemma length_filter_filter: "length (filter Q (filter P xs)) \<le> length (filter Q xs)"
  by (induction xs) auto

lemma length_update_le: "length (AList.update k v al) \<le> Suc (length al)"
  by (induction al) auto

lemma length_update_old: "k \<in> fst ` set al \<Longrightarrow> length (AList.update k v al) = length al"
  by (induction al) auto

lemma distinct_keys_filter: "distinct (map fst al) \<Longrightarrow> distinct (map fst (filter P al))"
  by (induction al) auto

lemma set_update_subset: "set (AList.update k v al) \<subseteq> insert (k, v) (set al)"
  by (induction al) auto

lemma delete_absent: "map_of al k = None \<Longrightarrow> AList.delete k al = al"
  by (induction al) (auto split: if_splits)

lemma map_of_delete_other: "k' \<noteq> k \<Longrightarrow> map_of (AList.delete k al) k' = map_of al k'"
  by (simp add: AList.delete_conv')

lemma map_of_filter_value:
  "distinct (map fst al) \<Longrightarrow>
   map_of (filter (\<lambda>(_, v). P v) al) k = (case map_of al k of Some v \<Rightarrow> if P v then Some v else None
     | None \<Rightarrow> None)"
proof (induction al)
  case (Cons x al)
  then show ?case
    by (cases x) (auto simp: map_of_None_keys split: option.splits dest: map_of_SomeD)
qed simp

lemma length_update_new: "k \<notin> fst ` set al \<Longrightarrow> length (AList.update k v al) = Suc (length al)"
  by (simp add: update_new)

lemma length_delete_old:
  assumes "distinct (map fst al)" and "k \<in> fst ` set al"
  shows "length (AList.delete k al) = length al - 1"
  using assms
proof (induction al)
  case (Cons x al)
  show ?case
  proof (cases "fst x = k")
    case True
    then have "AList.delete k al = al" using Cons.prems(1)
      by (intro delete_absent) (auto simp: map_of_None_keys)
    then show ?thesis using True by (cases x) simp
  next
    case False
    then have "k \<in> fst ` set al" using Cons.prems(2) by auto
    then have "al \<noteq> []" by auto
    then show ?thesis using False Cons \<open>k \<in> fst ` set al\<close> by (cases x) simp
  qed
qed simp

interpretation alist: hash_map map_of AList.update AList.delete length "\<lambda>m. distinct (map fst m)"
proof unfold_locales
  fix m :: "('a \<times> 'b) list" and k :: 'a and v :: 'b
  assume d: "distinct (map fst m)"
  show "map_of (AList.update k v m) = (map_of m)(k \<mapsto> v)" by (rule AList.update_conv')
  show "map_of (AList.delete k m) = (map_of m)(k := None)" by (rule AList.delete_conv')
  show "length (AList.update k v m) = (if map_of m k = None then length m + 1 else length m)"
    unfolding map_of_None_keys using length_update_new length_update_old by fastforce
  show "length (AList.delete k m) = (if map_of m k = None then length m else length m - 1)"
    using d length_delete_old [OF d, of k] delete_absent [of m k] unfolding map_of_None_keys
    by simp
  show "distinct (map fst (AList.update k v m))" using d by (rule AList.distinct_update)
  show "distinct (map fst (AList.delete k m))" using d by (rule AList.distinct_delete)
qed

end
