(* ===== verification/Rendezvous_Store.thy ===== *)
theory Rendezvous_Store
  imports Rendezvous_Codec Node_Config Hash_Maps
begin

text \<open>
  The discovery server's state, \<^verbatim>\<open>node/src/rendezvous/store.rs\<close>. A \<^verbatim>\<open>HashMap\<close> is an association
  list with distinct keys (\<open>map_of\<close> is \<^verbatim>\<open>get\<close>, \<open>AList.update\<close> is \<^verbatim>\<open>insert\<close>, \<open>AList.delete\<close> is
  \<^verbatim>\<open>remove\<close>), whose order stands for the unspecified iteration order; a \<^verbatim>\<open>HashSet\<close> is a set.
  Decoding and verifying a signed peer record is libp2p's and a parameter. A request whose
  expiry lies beyond the largest \<^verbatim>\<open>Instant\<close> panics; that outcome is \<open>None\<close>.
\<close>

definition WINDOW :: duration where "WINDOW = secs 60"
definition NAMESPACE_PREFIX :: bytes where "NAMESPACE_PREFIX = ascii ''envshare-v1-''"
definition ROOM_HEX_BYTES :: nat where "ROOM_HEX_BYTES = 32"

type_synonym namespace = bytes
type_synonym cookie = bytes

record Limits =
  lim_min_ttl :: u64
  lim_max_ttl :: u64
  lim_per_peer :: nat
  lim_total :: nat
  lim_per_namespace :: nat
  lim_cookies :: nat
  lim_addresses :: nat
  lim_record_bytes :: nat
  lim_results :: nat
  lim_register_rate :: u32
  lim_discover_rate :: u32
  lim_rate_peers :: nat
  lim_allow_private :: bool

record Registration =
  reg_id :: u64
  reg_signed_record :: bytes
  reg_ttl :: u64
  reg_expires_at :: instant

record CookieState =
  ck_namespace :: namespace
  ck_seen :: "u64 set"

record RateState =
  window_started :: instant
  rate_registrations :: u32
  rate_discoveries :: u32

record Store =
  limits :: Limits
  registrations :: "((peer_id \<times> namespace) \<times> Registration) list"
  cookies :: "(cookie \<times> CookieState) list"
  cookie_order :: "cookie list"
  rates :: "(peer_id \<times> RateState) list"
  next_registration :: u64
  next_cookie :: u64

datatype Event =
    Registered peer_id
  | Unregistered peer_id
  | Served peer_id nat
  | Rejected peer_id

record Handled =
  handled_response :: "Response option"
  handled_event :: Event

datatype Operation = OpRegister | OpUnregister | OpDiscover

text \<open>libp2p's \<^verbatim>\<open>PeerRecord\<close> and the two checks that give it.\<close>

record PeerRecord =
  record_peer_id :: peer_id
  record_addresses :: "multiaddr list"

record 'e record_lib =
  from_protobuf_encoding :: "bytes \<Rightarrow> 'e option"
  from_signed_envelope :: "'e \<Rightarrow> PeerRecord option"

section \<open>Validation\<close>

definition limits_of :: "NodeConfig \<Rightarrow> Limits" where
  "limits_of config = \<lparr>
     lim_min_ttl = discovery_min_ttl_seconds config,
     lim_max_ttl = discovery_max_ttl_seconds config,
     lim_per_peer = discovery_registrations_per_peer config,
     lim_total = discovery_registrations_total config,
     lim_per_namespace = discovery_registrations_per_namespace config,
     lim_cookies = discovery_cookies config,
     lim_addresses = discovery_addresses_per_registration config,
     lim_record_bytes = discovery_record_bytes config,
     lim_results = discovery_results config,
     lim_register_rate = discovery_register_requests_per_minute config,
     lim_discover_rate = discovery_discover_requests_per_minute config,
     lim_rate_peers = discovery_rate_limit_peers config,
     lim_allow_private = discovery_allow_private_addresses config\<rparr>"

definition store_new :: "NodeConfig \<Rightarrow> Store" where
  "store_new config = \<lparr>limits = limits_of config, registrations = [], cookies = [],
     cookie_order = [], rates = [], next_registration = 1, next_cookie = 1\<rparr>"

definition is_ascii_hexdigit :: "byte \<Rightarrow> bool" where
  "is_ascii_hexdigit b \<longleftrightarrow> (48 \<le> b \<and> b \<le> 57) \<or> (65 \<le> b \<and> b \<le> 70) \<or> (97 \<le> b \<and> b \<le> 102)"

definition is_ascii_uppercase :: "byte \<Rightarrow> bool" where
  "is_ascii_uppercase b \<longleftrightarrow> 65 \<le> b \<and> b \<le> 90"

definition valid_namespace :: "namespace \<Rightarrow> bool" where
  "valid_namespace ns \<longleftrightarrow>
     length ns = length NAMESPACE_PREFIX + ROOM_HEX_BYTES
     \<and> take (length NAMESPACE_PREFIX) ns = NAMESPACE_PREFIX
     \<and> list_all (\<lambda>b. is_ascii_hexdigit b \<and> \<not> is_ascii_uppercase b)
         (drop (length NAMESPACE_PREFIX) ns)"

definition unusable_v4 :: "u8 \<Rightarrow> u8 \<Rightarrow> u8 \<Rightarrow> u8 \<Rightarrow> bool" where
  "unusable_v4 a b c d \<longleftrightarrow>
     (a = 10 \<or> a = 172 \<and> 16 \<le> b \<and> b \<le> 31 \<or> a = 192 \<and> b = 168)
     \<or> a = 127
     \<or> (a = 169 \<and> b = 254)
     \<or> (a = 0 \<and> b = 0 \<and> c = 0 \<and> d = 0)
     \<or> (224 \<le> a \<and> a \<le> 239)
     \<or> (a = 192 \<and> b = 0 \<and> c = 2 \<or> a = 198 \<and> b = 51 \<and> c = 100 \<or> a = 203 \<and> b = 0 \<and> c = 113)"

definition unusable_v6 :: "u16 \<Rightarrow> u16 \<Rightarrow> u16 \<Rightarrow> u16 \<Rightarrow> u16 \<Rightarrow> u16 \<Rightarrow> u16 \<Rightarrow> u16 \<Rightarrow> bool" where
  "unusable_v6 a b c d e f g h \<longleftrightarrow>
     a AND 0xfe00 = 0xfc00
     \<or> (a = 0 \<and> b = 0 \<and> c = 0 \<and> d = 0 \<and> e = 0 \<and> f = 0 \<and> g = 0 \<and> h = 1)
     \<or> a AND 0xffc0 = 0xfe80
     \<or> (a = 0 \<and> b = 0 \<and> c = 0 \<and> d = 0 \<and> e = 0 \<and> f = 0 \<and> g = 0 \<and> h = 0)
     \<or> a AND 0xff00 = 0xff00"

fun is_transport :: "protocol \<Rightarrow> bool" where
  "is_transport (Tcp _) = True"
| "is_transport Quic = True"
| "is_transport QuicV1 = True"
| "is_transport P2pCircuit = True"
| "is_transport _ = False"

fun unusable_component :: "protocol \<Rightarrow> bool" where
  "unusable_component (Ip4 a b c d) = unusable_v4 a b c d"
| "unusable_component (Ip6 a b c d e f g h) = unusable_v6 a b c d e f g h"
| "unusable_component _ = False"

fun find_p2p :: "protocol list \<Rightarrow> peer_id option" where
  "find_p2p [] = None"
| "find_p2p (P2p p # ps) = Some p"
| "find_p2p (_ # ps) = find_p2p ps"

definition valid_address :: "multiaddr \<Rightarrow> peer_id \<Rightarrow> bool \<Rightarrow> bool" where
  "valid_address address peer allow_private =
     (if \<not> list_ex is_transport address then False
      else if \<not> allow_private \<and> list_ex unusable_component address then False
      else let route =
        (if P2pCircuit \<in> set address
         then tl (dropWhile (\<lambda>p. p \<noteq> P2pCircuit) address)
         else rev address)
      in case find_p2p route of Some route_peer \<Rightarrow> route_peer = peer | None \<Rightarrow> True)"

definition validate_record ::
  "'e record_lib \<Rightarrow> Store \<Rightarrow> peer_id \<Rightarrow> bytes \<Rightarrow> (Status, unit) result" where
  "validate_record L s peer bs =
     (if length bs > lim_record_bytes (limits s) then Err InvalidSignedPeerRecord else
      bind_res (ok_or InvalidSignedPeerRecord (from_protobuf_encoding L bs)) (\<lambda>envelope.
      bind_res (ok_or InvalidSignedPeerRecord (from_signed_envelope L envelope)) (\<lambda>r.
      if record_peer_id r \<noteq> peer then Err NotAuthorized
      else if record_addresses r = []
        \<or> length (record_addresses r) > lim_addresses (limits s)
        \<or> \<not> list_all (\<lambda>a. valid_address a peer (lim_allow_private (limits s)))
             (record_addresses r)
      then Err InvalidSignedPeerRecord
      else Ok ())))"

section \<open>Admission and cookies\<close>

definition rejected :: "peer_id \<Rightarrow> Response option \<Rightarrow> Handled" where
  "rejected peer response = \<lparr>handled_response = response, handled_event = Rejected peer\<rparr>"

fun response_for_rate_limited :: "Operation \<Rightarrow> Response option" where
  "response_for_rate_limited OpRegister = Some (RegisterResponse (Err Unavailable))"
| "response_for_rate_limited OpUnregister = None"
| "response_for_rate_limited OpDiscover = Some (DiscoverResponse (Err Unavailable))"

definition admit :: "Store \<Rightarrow> peer_id \<Rightarrow> Operation \<Rightarrow> instant \<Rightarrow> bool \<times> Store" where
  "admit s peer operation now =
     (let kept = filter (\<lambda>(_, state). now - window_started state < WINDOW) (rates s);
          s = s\<lparr>rates := kept\<rparr>
      in
      if map_of kept peer = None \<and> length kept \<ge> lim_rate_peers (limits s) then (False, s)
      else
        let state = (case map_of kept peer of
              Some state \<Rightarrow> state
            | None \<Rightarrow> \<lparr>window_started = now, rate_registrations = 0, rate_discoveries = 0\<rparr>);
            (admitted, state) =
              (if operation \<noteq> OpDiscover \<and> rate_registrations state < lim_register_rate (limits s)
               then (True, state\<lparr>rate_registrations := rate_registrations state + 1\<rparr>)
               else if operation = OpDiscover
                 \<and> rate_discoveries state < lim_discover_rate (limits s)
               then (True, state\<lparr>rate_discoveries := rate_discoveries state + 1\<rparr>)
               else (False, state))
        in (admitted, s\<lparr>rates := AList.update peer state kept\<rparr>))"

text \<open>The eviction loop of \<^verbatim>\<open>insert_cookie\<close>, from the oldest cookie on.\<close>

fun evict_cookies :: "nat \<Rightarrow> (cookie \<times> CookieState) list \<Rightarrow> cookie list
    \<Rightarrow> (cookie \<times> CookieState) list \<times> cookie list" where
  "evict_cookies limit cs [] = (cs, [])"
| "evict_cookies limit cs (oldest # order) =
     (if length cs \<ge> limit then evict_cookies limit (AList.delete oldest cs) order
      else (cs, oldest # order))"

definition next_id :: "u64 \<Rightarrow> u64" where
  "next_id n = max (n + 1) 1"

definition insert_cookie :: "Store \<Rightarrow> namespace \<Rightarrow> u64 set \<Rightarrow> cookie \<times> Store" where
  "insert_cookie s ns seen =
     (let (cs, order) = evict_cookies (lim_cookies (limits s)) (cookies s) (cookie_order s);
          cookie = be64 (next_cookie s) @ ns
      in (cookie, s\<lparr>next_cookie := next_id (next_cookie s),
            cookies := AList.update cookie \<lparr>ck_namespace = ns, ck_seen = seen\<rparr> cs,
            cookie_order := order @ [cookie]\<rparr>))"

definition remove_from_cookies :: "u64 \<Rightarrow> Store \<Rightarrow> Store" where
  "remove_from_cookies registration_id s =
     (let cs = filter (\<lambda>(_, state). ck_seen state \<noteq> {})
            (map (\<lambda>(c, state). (c, state\<lparr>ck_seen := ck_seen state - {registration_id}\<rparr>))
              (cookies s))
      in s\<lparr>cookies := cs,
           cookie_order := filter (\<lambda>c. map_of cs c \<noteq> None) (cookie_order s)\<rparr>)"

text \<open>Removing a registration with its traces in the cookies, as three callers do.\<close>

definition remove_registration :: "peer_id \<times> namespace \<Rightarrow> Store \<Rightarrow> Store" where
  "remove_registration key s =
     (case map_of (registrations s) key of
        Some r \<Rightarrow> remove_from_cookies (reg_id r)
          (s\<lparr>registrations := AList.delete key (registrations s)\<rparr>)
      | None \<Rightarrow> s)"

section \<open>Requests\<close>

fun of_peer :: "peer_id \<Rightarrow> (peer_id \<times> namespace) \<times> Registration \<Rightarrow> bool" where
  "of_peer peer ((registered_peer, _), _) = (registered_peer = peer)"

fun in_namespace :: "namespace \<Rightarrow> (peer_id \<times> namespace) \<times> Registration \<Rightarrow> bool" where
  "in_namespace ns ((_, registered_namespace), _) = (registered_namespace = ns)"

definition register ::
  "'e record_lib \<Rightarrow> Store \<Rightarrow> peer_id \<Rightarrow> namespace \<Rightarrow> bytes \<Rightarrow> u64 option \<Rightarrow> instant
   \<Rightarrow> (Handled \<times> Store) option" where
  "register L s peer ns signed_record ttl now =
     (if \<not> valid_namespace ns
      then Some (rejected peer (Some (RegisterResponse (Err InvalidNamespace))), s) else
      let ttl = (case ttl of Some t \<Rightarrow> t | None \<Rightarrow> lim_max_ttl (limits s)) in
      if \<not> (lim_min_ttl (limits s) \<le> ttl \<and> ttl \<le> lim_max_ttl (limits s))
      then Some (rejected peer (Some (RegisterResponse (Err InvalidTtl))), s) else
      case validate_record L s peer signed_record of
        Inl status \<Rightarrow> Some (rejected peer (Some (RegisterResponse (Err status))), s)
      | Inr _ \<Rightarrow>
        let key = (peer, ns);
            replacing = (map_of (registrations s) key \<noteq> None)
        in
        if \<not> replacing
          \<and> (length (registrations s) \<ge> lim_total (limits s)
             \<or> length (filter (of_peer peer) (registrations s)) \<ge> lim_per_peer (limits s)
             \<or> length (filter (in_namespace ns) (registrations s)) \<ge> lim_per_namespace (limits s))
        then Some (rejected peer (Some (RegisterResponse (Err Unavailable))), s)
        else
          let s = remove_registration key s;
              id = next_registration s
          in map_option (\<lambda>expires_at.
            (\<lparr>handled_response = Some (RegisterResponse (Ok ttl)), handled_event = Registered peer\<rparr>,
             s\<lparr>next_registration := next_id id,
               registrations := AList.update key
                 \<lparr>reg_id = id, reg_signed_record = signed_record, reg_ttl = ttl,
                  reg_expires_at = expires_at\<rparr> (registrations s)\<rparr>))
            (instant_checked_add now (secs (unat ttl))))"

definition unregister :: "Store \<Rightarrow> peer_id \<Rightarrow> namespace \<Rightarrow> Handled \<times> Store" where
  "unregister s peer ns =
     (if \<not> valid_namespace ns then (rejected peer None, s)
      else
        (\<lparr>handled_response = None, handled_event = Unregistered peer\<rparr>,
         remove_registration (peer, ns) s))"

definition wire_registration :: "namespace \<Rightarrow> Registration \<Rightarrow> WireRegistration" where
  "wire_registration ns r = \<lparr>wr_namespace = ns, wr_signed_record = reg_signed_record r,
     wr_ttl = reg_ttl r\<rparr>"

definition requested_results :: "Store \<Rightarrow> u64 option \<Rightarrow> nat" where
  "requested_results s limit =
     min (case limit of Some l \<Rightarrow> unat l | None \<Rightarrow> lim_results (limits s)) (lim_results (limits s))"

definition discover ::
  "Store \<Rightarrow> peer_id \<Rightarrow> namespace option \<Rightarrow> cookie option \<Rightarrow> u64 option \<Rightarrow> Handled \<times> Store" where
  "discover s peer ns cookie limit =
     (case (case ns of Some n \<Rightarrow> if valid_namespace n then Some n else None | None \<Rightarrow> None) of
        None \<Rightarrow> (rejected peer (Some (DiscoverResponse (Err InvalidNamespace))), s)
      | Some ns \<Rightarrow>
        (case (case cookie of
             Some c \<Rightarrow> (case map_of (cookies s) c of
                 Some state \<Rightarrow> if ck_namespace state = ns then Some (ck_seen state) else None
               | None \<Rightarrow> None)
           | None \<Rightarrow> Some {}) of
           None \<Rightarrow> (rejected peer (Some (DiscoverResponse (Err InvalidCookie))), s)
         | Some seen \<Rightarrow>
           let requested = requested_results s limit;
               found = map (\<lambda>((_, n), r). (reg_id r, wire_registration n r))
                 (filter (\<lambda>((_, n), r). n = ns \<and> reg_id r \<notin> seen) (registrations s));
               found = take requested (sort_key fst found);
               seen = seen \<union> set (map fst found);
               page = map snd found;
               (cookie, s) = insert_cookie s ns seen
           in (\<lparr>handled_response = Some (DiscoverResponse (Ok
                  \<lparr>page_registrations = page, page_cookie = cookie\<rparr>)),
                handled_event = Served peer (length page)\<rparr>, s)))"

fun operation_of :: "Request \<Rightarrow> Operation" where
  "operation_of (Discover _ _ _) = OpDiscover"
| "operation_of (Register _ _ _) = OpRegister"
| "operation_of (Unregister _) = OpUnregister"

definition store_handle ::
  "'e record_lib \<Rightarrow> Store \<Rightarrow> peer_id \<Rightarrow> Request \<Rightarrow> instant \<Rightarrow> (Handled \<times> Store) option" where
  "store_handle L s peer request now =
     (let operation = operation_of request; (admitted, s) = admit s peer operation now in
      if \<not> admitted then Some (rejected peer (response_for_rate_limited operation), s)
      else case request of
        Register ns signed_record ttl \<Rightarrow> register L s peer ns signed_record ttl now
      | Unregister ns \<Rightarrow> Some (unregister s peer ns)
      | Discover ns cookie limit \<Rightarrow> Some (discover s peer ns cookie limit))"

fun expire_loop :: "(peer_id \<times> namespace) list \<Rightarrow> Store \<Rightarrow> peer_id list \<times> Store" where
  "expire_loop [] s = ([], s)"
| "expire_loop (key # keys) s =
     (let found = (map_of (registrations s) key \<noteq> None);
          (peers, s) = expire_loop keys (remove_registration key s)
      in (if found then fst key # peers else peers, s))"

definition expire :: "Store \<Rightarrow> instant \<Rightarrow> peer_id list \<times> Store" where
  "expire s now =
     expire_loop (map fst (filter (\<lambda>(_, r). reg_expires_at r \<le> now) (registrations s))) s"

section \<open>What each operation leaves alone\<close>

lemma insert_cookie_frame [simp]:
  "limits (snd (insert_cookie s ns seen)) = limits s"
  "registrations (snd (insert_cookie s ns seen)) = registrations s"
  "rates (snd (insert_cookie s ns seen)) = rates s"
  "next_registration (snd (insert_cookie s ns seen)) = next_registration s"
  by (simp_all add: insert_cookie_def Let_def split: prod.splits)

lemma remove_from_cookies_frame [simp]:
  "limits (remove_from_cookies i s) = limits s"
  "registrations (remove_from_cookies i s) = registrations s"
  "rates (remove_from_cookies i s) = rates s"
  "next_registration (remove_from_cookies i s) = next_registration s"
  "next_cookie (remove_from_cookies i s) = next_cookie s"
  by (simp_all add: remove_from_cookies_def Let_def)

lemma admit_frame:
  assumes "admit s peer op now = (b, s')"
  shows "\<exists>rs. s' = s\<lparr>rates := rs\<rparr>"
  using assms by (auto simp: admit_def Let_def split: if_splits)

lemma admit_frame_simps:
  assumes "admit s peer op now = (b, s')"
  shows "limits s' = limits s" "registrations s' = registrations s" "cookies s' = cookies s"
    "cookie_order s' = cookie_order s" "next_registration s' = next_registration s"
    "next_cookie s' = next_cookie s"
  using admit_frame [OF assms] by auto

lemma validate_record_limits:
  assumes "limits s' = limits s"
  shows "validate_record L s' = validate_record L s"
  unfolding fun_eq_iff validate_record_def assms by simp

section \<open>Capacity invariant\<close>

definition regs_inv :: "'e record_lib \<Rightarrow> Store \<Rightarrow> bool" where
  "regs_inv L s \<longleftrightarrow>
     distinct (map fst (registrations s))
     \<and> length (registrations s) \<le> lim_total (limits s)
     \<and> (\<forall>peer. length (filter (of_peer peer) (registrations s))
          \<le> lim_per_peer (limits s))
     \<and> (\<forall>ns. length (filter (in_namespace ns) (registrations s))
          \<le> lim_per_namespace (limits s))
     \<and> (\<forall>peer ns r. ((peer, ns), r) \<in> set (registrations s) \<longrightarrow>
          valid_namespace ns \<and> lim_min_ttl (limits s) \<le> reg_ttl r
          \<and> reg_ttl r \<le> lim_max_ttl (limits s)
          \<and> validate_record L s peer (reg_signed_record r) = Ok ())"

definition cookies_inv :: "Store \<Rightarrow> bool" where
  "cookies_inv s \<longleftrightarrow>
     distinct (map fst (cookies s))
     \<and> fst ` set (cookies s) \<subseteq> set (cookie_order s)
     \<and> length (cookies s) \<le> max 1 (lim_cookies (limits s))"

definition rates_inv :: "Store \<Rightarrow> bool" where
  "rates_inv s \<longleftrightarrow>
     distinct (map fst (rates s))
     \<and> length (rates s) \<le> lim_rate_peers (limits s)
     \<and> (\<forall>peer state. (peer, state) \<in> set (rates s) \<longrightarrow>
          rate_registrations state \<le> lim_register_rate (limits s)
          \<and> rate_discoveries state \<le> lim_discover_rate (limits s))"

definition store_inv :: "'e record_lib \<Rightarrow> Store \<Rightarrow> bool" where
  "store_inv L s \<longleftrightarrow> regs_inv L s \<and> cookies_inv s \<and> rates_inv s"

lemma regs_inv_cong:
  "registrations s' = registrations s \<Longrightarrow> limits s' = limits s \<Longrightarrow> regs_inv L s' = regs_inv L s"
  by (simp add: regs_inv_def validate_record_limits [of s' s])

lemma cookies_inv_cong:
  "cookies s' = cookies s \<Longrightarrow> cookie_order s' = cookie_order s \<Longrightarrow> limits s' = limits s \<Longrightarrow>
   cookies_inv s' = cookies_inv s"
  by (simp add: cookies_inv_def)

lemma rates_inv_cong:
  "rates s' = rates s \<Longrightarrow> limits s' = limits s \<Longrightarrow> rates_inv s' = rates_inv s"
  by (simp add: rates_inv_def)

lemma regs_inv_filter:
  assumes "regs_inv L s" and "registrations s' = filter P (registrations s)"
    and "limits s' = limits s"
  shows "regs_inv L s'"
  using assms(1) unfolding regs_inv_def validate_record_limits [OF assms(3)] assms(2,3)
  by (intro conjI allI impI) (auto intro: distinct_keys_filter
      order_trans [OF length_filter_filter] order_trans [OF length_filter_le]
      simp del: filter_filter)

lemma regs_inv_delete:
  assumes "regs_inv L s"
  shows "regs_inv L (s\<lparr>registrations := AList.delete key (registrations s)\<rparr>)"
  by (rule regs_inv_filter [OF assms]) (simp_all add: AList.delete_eq)

lemma regs_inv_update:
  assumes inv: "regs_inv L s" and new: "(peer, ns) \<notin> fst ` set (registrations s)"
    and room: "length (registrations s) < lim_total (limits s)"
      "length (filter (of_peer peer) (registrations s)) < lim_per_peer (limits s)"
      "length (filter (in_namespace ns) (registrations s)) < lim_per_namespace (limits s)"
    and ok: "valid_namespace ns" "lim_min_ttl (limits s) \<le> reg_ttl r"
      "reg_ttl r \<le> lim_max_ttl (limits s)" "validate_record L s peer (reg_signed_record r) = Ok ()"
    and s': "registrations s' = AList.update (peer, ns) r (registrations s)" "limits s' = limits s"
  shows "regs_inv L s'"
proof -
  have "distinct (map fst (registrations s @ [((peer, ns), r)]))"
    using inv new by (auto simp: regs_inv_def)
  then show ?thesis
    using inv room ok unfolding regs_inv_def s' update_new [OF new] validate_record_limits [OF s'(2)]
    by (auto simp: Suc_le_eq)
qed

lemma room_after_delete:
  assumes inv: "regs_inv L s" and old: "map_of (registrations s) (peer, ns) = Some r"
  defines "regs \<equiv> AList.delete (peer, ns) (registrations s)"
  shows "length regs < lim_total (limits s)"
    "length (filter (of_peer peer) regs) < lim_per_peer (limits s)"
    "length (filter (in_namespace ns) regs) < lim_per_namespace (limits s)"
proof -
  have mem: "((peer, ns), r) \<in> set (registrations s)" using old by (rule map_of_SomeD)
  have less: "length (filter Q regs) < length (filter Q (registrations s))"
    if "Q ((peer, ns), r)" for Q
  proof -
    have "filter Q regs = filter (\<lambda>x. fst x \<noteq> (peer, ns)) (filter Q (registrations s))"
      unfolding regs_def AList.delete_eq filter_filter by (rule filter_cong) auto
    moreover have "((peer, ns), r) \<in> set (filter Q (registrations s))" using mem that by simp
    ultimately show ?thesis using length_filter_less [of _ "filter Q (registrations s)"] by fastforce
  qed
  show "length regs < lim_total (limits s)"
    using less [of "\<lambda>_. True"] inv by (simp add: regs_inv_def)
  have "length (filter (of_peer peer) (registrations s)) \<le> lim_per_peer (limits s)"
    "length (filter (in_namespace ns) (registrations s)) \<le> lim_per_namespace (limits s)"
    using inv by (simp_all add: regs_inv_def)
  then show "length (filter (of_peer peer) regs) < lim_per_peer (limits s)"
    "length (filter (in_namespace ns) regs) < lim_per_namespace (limits s)"
    using less [of "of_peer peer"] less [of "in_namespace ns"] by simp_all
qed


lemma remove_registration_frame [simp]:
  "limits (remove_registration key s) = limits s"
  "registrations (remove_registration key s) = AList.delete key (registrations s)"
  "rates (remove_registration key s) = rates s"
  "next_registration (remove_registration key s) = next_registration s"
  "next_cookie (remove_registration key s) = next_cookie s"
  by (simp_all add: remove_registration_def delete_absent split: option.splits)

section \<open>Cookies\<close>

lemma remove_from_cookies_inv:
  assumes "cookies_inv s"
  shows "cookies_inv (remove_from_cookies i s)"
proof -
  define m where "m = map (\<lambda>(c, st). (c, st\<lparr>ck_seen := ck_seen st - {i}\<rparr>)) (cookies s)"
  define cs where "cs = filter (\<lambda>(_, st). ck_seen st \<noteq> {}) m"
  have keys: "map fst m = map fst (cookies s)" by (simp add: m_def comp_def split_def)
  have "distinct (map fst cs)"
    unfolding cs_def by (rule distinct_keys_filter) (use assms in \<open>simp only: keys cookies_inv_def\<close>)
  moreover have "fst ` set cs \<subseteq> fst ` set (cookies s)"
    unfolding set_map [symmetric] keys [symmetric] by (auto simp: cs_def)
  moreover have "length cs \<le> length (cookies s)"
    unfolding cs_def by (rule order_trans [OF length_filter_le]) (simp add: m_def)
  moreover have "remove_from_cookies i s =
      s\<lparr>cookies := cs, cookie_order := filter (\<lambda>c. map_of cs c \<noteq> None) (cookie_order s)\<rparr>"
    by (simp only: remove_from_cookies_def Let_def cs_def m_def)
  ultimately show ?thesis using assms
    by (auto simp: cookies_inv_def map_of_None_keys)
qed

lemma remove_registration_cookies_inv:
  "cookies_inv s \<Longrightarrow> cookies_inv (remove_registration key s)"
  unfolding remove_registration_def
  by (auto intro!: remove_from_cookies_inv elim: cookies_inv_cong [THEN iffD2, rotated -1]
      split: option.splits)

lemma evict_cookies_result:
  assumes "evict_cookies limit cs order = (cs', order')" and "distinct (map fst cs)"
    and "fst ` set cs \<subseteq> set order"
  shows "distinct (map fst cs')" "set cs' \<subseteq> set cs" "fst ` set cs' \<subseteq> set order'"
    "length cs' < limit \<or> cs' = []" "\<exists>old. order = old @ order'"
  using assms
proof (induction limit cs order rule: evict_cookies.induct)
  case (1 limit cs)
  { case 1 then show ?case by simp
  next case 2 then show ?case by simp
  next case 3 then show ?case by simp
  next case 4 then show ?case by simp
  next case 5 then show ?case by simp }
next
  case (2 limit cs oldest order)
  let ?d = "AList.delete oldest cs"
  have d: "distinct (map fst cs) \<Longrightarrow> distinct (map fst ?d)"
    by (simp add: AList.delete_eq distinct_keys_filter)
  have k: "fst ` set cs \<subseteq> set (oldest # order) \<Longrightarrow> fst ` set ?d \<subseteq> set order"
    by (auto simp: AList.delete_eq)
  have sub: "set ?d \<subseteq> set cs" by (auto simp: AList.delete_eq)
  { case 1 then show ?case using 2(1) d k by (auto split: if_splits)
  next case 2 then show ?case using 2(1) "2.IH"(2) d k sub by (auto split: if_splits)
  next case 3 then show ?case using "2.IH"(3) d k by (auto split: if_splits)
  next case 4 then show ?case using "2.IH"(4) d k by (auto split: if_splits)
  next case 5 then show ?case using "2.IH"(5) d k by (auto split: if_splits) }
qed


lemma insert_cookie_inv:
  assumes "cookies_inv s"
  shows "cookies_inv (snd (insert_cookie s ns seen))"
proof -
  let ?c = "be64 (next_cookie s) @ ns"
  obtain cs order where
    e: "evict_cookies (lim_cookies (limits s)) (cookies s) (cookie_order s) = (cs, order)"
    by (cases "evict_cookies (lim_cookies (limits s)) (cookies s) (cookie_order s)")
  have r: "distinct (map fst cs)" "fst ` set cs \<subseteq> set order"
      "length cs < lim_cookies (limits s) \<or> cs = []"
    using evict_cookies_result [OF e] assms by (simp_all add: cookies_inv_def)
  let ?new = "AList.update ?c \<lparr>ck_namespace = ns, ck_seen = seen\<rparr> cs"
  have "length ?new \<le> max 1 (lim_cookies (limits s))"
    by (rule order_trans [OF length_update_le]) (use r(3) in auto)
  moreover have "distinct (map fst ?new)" using r(1) by (rule AList.distinct_update)
  moreover have "fst ` set ?new \<subseteq> set (order @ [?c])"
    using set_update_subset [of ?c _ cs] r(2) by fastforce
  ultimately show ?thesis by (simp add: insert_cookie_def e cookies_inv_def Let_def)
qed

section \<open>Rate limits\<close>

lemma word_inc_le: "(x :: u32) < y \<Longrightarrow> x + 1 \<le> y"
  by (rule inc_le)

lemma admit_rates_inv:
  assumes inv: "rates_inv s" and a: "admit s peer op now = (b, s')"
  shows "rates_inv s'"
proof -
  define kept where "kept = filter (\<lambda>(_, st). now - window_started st < WINDOW) (rates s)"
  have k: "distinct (map fst kept)" "length kept \<le> lim_rate_peers (limits s)"
      "\<And>p st. (p, st) \<in> set kept \<Longrightarrow> rate_registrations st \<le> lim_register_rate (limits s)
         \<and> rate_discoveries st \<le> lim_discover_rate (limits s)"
    using inv unfolding kept_def rates_inv_def
    by (auto intro: distinct_keys_filter order_trans [OF length_filter_le])
  show ?thesis
  proof (cases "map_of kept peer = None \<and> length kept \<ge> lim_rate_peers (limits s)")
    case True
    then have "s' = s\<lparr>rates := kept\<rparr>"
      using a by (simp add: admit_def kept_def [symmetric])
    then show ?thesis using k by (simp add: rates_inv_def)
  next
    case False
    let ?st = "case map_of kept peer of Some st \<Rightarrow> st
      | None \<Rightarrow> \<lparr>window_started = now, rate_registrations = 0, rate_discoveries = 0\<rparr>"
    have st: "rate_registrations ?st \<le> lim_register_rate (limits s)"
      "rate_discoveries ?st \<le> lim_discover_rate (limits s)"
      using k(3) by (auto dest!: map_of_SomeD split: option.split)
    obtain st' where s': "s' = s\<lparr>rates := AList.update peer st' kept\<rparr>"
      and st': "rate_registrations st' \<le> lim_register_rate (limits s)"
      "rate_discoveries st' \<le> lim_discover_rate (limits s)"
      using a False st word_inc_le
      unfolding admit_def kept_def [symmetric] Let_def
      by (auto split: if_splits)
    have "length (AList.update peer st' kept) \<le> lim_rate_peers (limits s)"
      by (rule alist.bounded_insert [OF k(1,2)]) (use False in auto)
    moreover have "distinct (map fst (AList.update peer st' kept))"
      using k(1) by (rule AList.distinct_update)
    ultimately show ?thesis
      using k(3) st' set_update_subset [of peer st' kept] unfolding s' rates_inv_def by fastforce
  qed
qed


section \<open>Registering\<close>

definition registration_room :: "Store \<Rightarrow> peer_id \<Rightarrow> namespace \<Rightarrow> bool" where
  "registration_room s peer ns \<longleftrightarrow>
     length (registrations s) < lim_total (limits s)
     \<and> length (filter (of_peer peer) (registrations s)) < lim_per_peer (limits s)
     \<and> length (filter (in_namespace ns) (registrations s)) < lim_per_namespace (limits s)"

definition effective_ttl :: "Store \<Rightarrow> u64 option \<Rightarrow> u64" where
  "effective_ttl s ttl = (case ttl of Some t \<Rightarrow> t | None \<Rightarrow> lim_max_ttl (limits s))"

definition register_accepts ::
  "'e record_lib \<Rightarrow> Store \<Rightarrow> peer_id \<Rightarrow> namespace \<Rightarrow> bytes \<Rightarrow> u64 option \<Rightarrow> bool" where
  "register_accepts L s peer ns signed_record ttl \<longleftrightarrow>
     valid_namespace ns
     \<and> lim_min_ttl (limits s) \<le> effective_ttl s ttl
     \<and> effective_ttl s ttl \<le> lim_max_ttl (limits s)
     \<and> validate_record L s peer signed_record = Ok ()
     \<and> (map_of (registrations s) (peer, ns) \<noteq> None \<or> registration_room s peer ns)"

lemma register_accepted:
  assumes "register_accepts L s peer ns signed_record ttl"
  shows "register L s peer ns signed_record ttl now =
    map_option (\<lambda>expires_at.
      (\<lparr>handled_response = Some (RegisterResponse (Ok (effective_ttl s ttl))),
         handled_event = Registered peer\<rparr>,
       (remove_registration (peer, ns) s)
         \<lparr>next_registration := next_id (next_registration s),
          registrations := AList.update (peer, ns)
            \<lparr>reg_id = next_registration s, reg_signed_record = signed_record,
             reg_ttl = effective_ttl s ttl, reg_expires_at = expires_at\<rparr>
            (AList.delete (peer, ns) (registrations s))\<rparr>))
      (instant_checked_add now (secs (unat (effective_ttl s ttl))))"
proof -
  have a: "valid_namespace ns" "lim_min_ttl (limits s) \<le> effective_ttl s ttl"
    "effective_ttl s ttl \<le> lim_max_ttl (limits s)" "validate_record L s peer signed_record = Ok ()"
    using assms by (simp_all add: register_accepts_def)
  have room: "\<not> (\<not> map_of (registrations s) (peer, ns) \<noteq> None \<and>
      (lim_total (limits s) \<le> length (registrations s)
       \<or> lim_per_peer (limits s) \<le> length (filter (of_peer peer) (registrations s))
       \<or> lim_per_namespace (limits s) \<le> length (filter (in_namespace ns) (registrations s))))"
    using assms by (auto simp: register_accepts_def registration_room_def)
  show ?thesis
    unfolding register_def Let_def effective_ttl_def [symmetric] if_not_P [OF room]
    by (simp only: a simp_thms if_True if_False sum.case remove_registration_frame)
qed

lemma register_refused:
  assumes "\<not> register_accepts L s peer ns signed_record ttl"
  shows "\<exists>status. register L s peer ns signed_record ttl now =
    Some (rejected peer (Some (RegisterResponse (Err status))), s)"
proof (cases "valid_namespace ns \<and> lim_min_ttl (limits s) \<le> effective_ttl s ttl
    \<and> effective_ttl s ttl \<le> lim_max_ttl (limits s)
    \<and> validate_record L s peer signed_record = Ok ()")
  case True
  then have full: "\<not> map_of (registrations s) (peer, ns) \<noteq> None \<and>
      (lim_total (limits s) \<le> length (registrations s)
       \<or> lim_per_peer (limits s) \<le> length (filter (of_peer peer) (registrations s))
       \<or> lim_per_namespace (limits s) \<le> length (filter (in_namespace ns) (registrations s)))"
    using assms by (auto simp: register_accepts_def registration_room_def)
  show ?thesis
    unfolding register_def Let_def effective_ttl_def [symmetric] if_P [OF full]
    by (simp add: True) blast
next
  case False
  then show ?thesis
    unfolding register_def Let_def effective_ttl_def [symmetric]
    by (cases "validate_record L s peer signed_record") (simp_all, blast+)
qed

lemma register_inv:
  assumes inv: "regs_inv L s" "cookies_inv s"
    and r: "register L s peer ns signed_record ttl now = Some (h, s')"
  shows "regs_inv L s'" "cookies_inv s'"
proof -
  have "regs_inv L s' \<and> cookies_inv s'"
  proof (cases "register_accepts L s peer ns signed_record ttl")
    case False
    then show ?thesis using register_refused [OF False, of now] r inv by auto
  next
    case True
    let ?s = "remove_registration (peer, ns) s"
    have new: "(peer, ns) \<notin> fst ` set (registrations ?s)" by (auto simp: AList.delete_eq)
    have rinv: "regs_inv L ?s"
      by (rule regs_inv_filter [OF inv(1)]) (simp_all add: AList.delete_eq)
    have room: "registration_room ?s peer ns"
    proof (cases "map_of (registrations s) (peer, ns)")
      case None
      then show ?thesis using True
        by (simp add: register_accepts_def registration_room_def delete_absent)
    next
      case (Some old)
      then show ?thesis using room_after_delete [OF inv(1) Some]
        by (simp add: registration_room_def)
    qed
    obtain e where e: "instant_checked_add now (secs (unat (effective_ttl s ttl))) = Some e"
      and s': "s' = ?s\<lparr>next_registration := next_id (next_registration s),
        registrations := AList.update (peer, ns)
            \<lparr>reg_id = next_registration s, reg_signed_record = signed_record,
             reg_ttl = effective_ttl s ttl, reg_expires_at = e\<rparr> (registrations ?s)\<rparr>"
      using r unfolding register_accepted [OF True] by auto
    have "regs_inv L s'"
      by (rule regs_inv_update [OF rinv new])
        (use room True in \<open>simp_all add: s' registration_room_def register_accepts_def
           validate_record_limits [of "remove_registration (peer, ns) s" s]\<close>)
    moreover have "cookies_inv s'"
      unfolding s' by (subst cookies_inv_cong [of _ "?s"])
        (simp_all add: remove_registration_cookies_inv inv(2))
    ultimately show ?thesis ..
  qed
  then show "regs_inv L s'" "cookies_inv s'" by auto
qed

lemma register_frame:
  assumes "register L s peer ns signed_record ttl now = Some (h, s')"
  shows "limits s' = limits s" "rates s' = rates s" "next_cookie s' = next_cookie s"
proof -
  have "limits s' = limits s \<and> rates s' = rates s \<and> next_cookie s' = next_cookie s"
    using assms register_accepted [of L s peer ns signed_record ttl now]
      register_refused [of L s peer ns signed_record ttl now]
    by (cases "register_accepts L s peer ns signed_record ttl") auto
  then show "limits s' = limits s" "rates s' = rates s" "next_cookie s' = next_cookie s" by auto
qed


section \<open>Preservation by every operation\<close>

lemma unregister_inv:
  assumes "regs_inv L s" "cookies_inv s"
  shows "regs_inv L (snd (unregister s peer ns))" "cookies_inv (snd (unregister s peer ns))"
    "limits (snd (unregister s peer ns)) = limits s" "rates (snd (unregister s peer ns)) = rates s"
  using assms regs_inv_filter [OF assms(1), of "remove_registration (peer, ns) s"]
  by (auto simp: unregister_def remove_registration_cookies_inv AList.delete_eq)

lemma discover_cases:
  obtains (refused) status where
    "discover s peer ns cookie limit =
       (rejected peer (Some (DiscoverResponse (Err status))), s)"
  | (served) n seen where "ns = Some n" "valid_namespace n"
    "cookie = None \<and> seen = {} \<or>
     (\<exists>c state. cookie = Some c \<and> map_of (cookies s) c = Some state \<and> ck_namespace state = n
        \<and> seen = ck_seen state)"
    "discover s peer ns cookie limit =
       (let found = take (requested_results s limit) (sort_key fst
              (map (\<lambda>((_, n), r). (reg_id r, wire_registration n r))
                (filter (\<lambda>((_, n'), r). n' = n \<and> reg_id r \<notin> seen) (registrations s))));
            (cookie, s') = insert_cookie s n (seen \<union> set (map fst found))
        in (\<lparr>handled_response = Some (DiscoverResponse (Ok
               \<lparr>page_registrations = map snd found, page_cookie = cookie\<rparr>)),
             handled_event = Served peer (length found)\<rparr>, s'))"
proof (cases "ns")
  case None
  then show ?thesis using refused by (simp add: discover_def)
next
  case (Some n)
  show ?thesis
  proof (cases "valid_namespace n")
    case False
    then show ?thesis using refused Some by (simp add: discover_def)
  next
    case v: True
    show ?thesis
    proof (cases cookie)
      case None
      show ?thesis
        by (rule served [of n "{}"]) (simp_all add: Some v None discover_def Let_def)
    next
      case (Some c)
      show ?thesis
      proof (cases "\<exists>state. map_of (cookies s) c = Some state \<and> ck_namespace state = n")
        case True
        then obtain state where "map_of (cookies s) c = Some state" "ck_namespace state = n"
          by blast
        then show ?thesis
          by (intro served [of n "ck_seen state"]) (simp_all add: \<open>ns = Some n\<close> v Some discover_def Let_def)
      next
        case False
        then have none: "(case map_of (cookies s) c of None \<Rightarrow> None
            | Some state \<Rightarrow> if ck_namespace state = n then Some (ck_seen state) else None) = None"
          by (auto split: option.splits)
        show ?thesis
          by (rule refused [of InvalidCookie])
            (simp add: discover_def \<open>ns = Some n\<close> v Some none)
      qed
    qed
  qed
qed

lemma discover_frame:
  assumes "cookies_inv s"
  shows "limits (snd (discover s peer ns cookie limit)) = limits s"
    "registrations (snd (discover s peer ns cookie limit)) = registrations s"
    "rates (snd (discover s peer ns cookie limit)) = rates s"
    "next_registration (snd (discover s peer ns cookie limit)) = next_registration s"
    "cookies_inv (snd (discover s peer ns cookie limit))"
  using insert_cookie_frame insert_cookie_inv [OF assms] assms
  by (cases rule: discover_cases [of s peer ns cookie limit]; force simp: Let_def split_def)+


definition namespace_ids :: "Store \<Rightarrow> namespace \<Rightarrow> u64 set" where
  "namespace_ids s ns = (\<lambda>(_, r). reg_id r) ` set (filter (in_namespace ns) (registrations s))"

definition seen_inv :: "Store \<Rightarrow> bool" where
  "seen_inv s \<longleftrightarrow> (\<forall>(c, st) \<in> set (cookies s). ck_seen st \<subseteq> namespace_ids s (ck_namespace st))"

lemma remove_registration_seen:
  assumes "seen_inv s" and d: "distinct (map fst (registrations s))"
  shows "seen_inv (remove_registration key s)"
proof (cases "map_of (registrations s) key")
  case None
  then show ?thesis using assms by (simp add: remove_registration_def)
next
  case (Some r)
  let ?s = "s\<lparr>registrations := AList.delete key (registrations s)\<rparr>"
  have less: "namespace_ids s ns - {reg_id r} \<subseteq> namespace_ids ?s ns" for ns
  proof
    fix i
    assume i: "i \<in> namespace_ids s ns - {reg_id r}"
    then obtain k r' where k: "(k, r') \<in> set (registrations s)" "in_namespace ns (k, r')"
      "i = reg_id r'"
      by (auto simp: namespace_ids_def)
    moreover have "k \<noteq> key" using i k(1,3) map_of_is_SomeI [OF d k(1)] Some by auto
    ultimately show "i \<in> namespace_ids ?s ns"
      by (force simp: namespace_ids_def AList.delete_eq)
  qed
  have frame: "namespace_ids (remove_from_cookies i s') = namespace_ids s'" for i s'
    by (simp add: fun_eq_iff namespace_ids_def)
  show ?thesis
    unfolding seen_inv_def remove_registration_def Some option.case frame
  proof clarify
    fix c st i
    assume "(c, st) \<in> set (cookies (remove_from_cookies (reg_id r) ?s))" and i: "i \<in> ck_seen st"
    then obtain st' where "(c, st') \<in> set (cookies s)"
      and st: "st = st'\<lparr>ck_seen := ck_seen st' - {reg_id r}\<rparr>"
      by (auto simp: remove_from_cookies_def Let_def)
    then have "ck_seen st' \<subseteq> namespace_ids s (ck_namespace st')"
      using assms(1) by (auto simp: seen_inv_def)
    then show "i \<in> namespace_ids ?s (ck_namespace st)"
      using i less [of "ck_namespace st"] by (auto simp: st)
  qed
qed

lemma namespace_ids_update:
  assumes "registrations s' = AList.update (peer, ns) r (registrations s)"
    and "(peer, ns) \<notin> fst ` set (registrations s)"
  shows "namespace_ids s n \<subseteq> namespace_ids s' n"
  by (auto simp: namespace_ids_def assms(1) update_new [OF assms(2)])

lemma seen_inv_mono:
  assumes "seen_inv s" and "set (cookies s') \<subseteq> set (cookies s)"
    and "\<And>n. namespace_ids s n \<subseteq> namespace_ids s' n"
  shows "seen_inv s'"
  using assms unfolding seen_inv_def by fast

lemma insert_cookie_seen:
  assumes "seen_inv s" and "seen \<subseteq> namespace_ids s ns" and "cookies_inv s"
  shows "seen_inv (snd (insert_cookie s ns seen))"
proof -
  obtain cs order where
    e: "evict_cookies (lim_cookies (limits s)) (cookies s) (cookie_order s) = (cs, order)"
    by (cases "evict_cookies (lim_cookies (limits s)) (cookies s) (cookie_order s)")
  have sub: "set cs \<subseteq> set (cookies s)"
    using evict_cookies_result(2) [OF e] assms(3) by (simp add: cookies_inv_def)
  have c: "set (cookies (snd (insert_cookie s ns seen))) \<subseteq>
      insert (be64 (next_cookie s) @ ns, \<lparr>ck_namespace = ns, ck_seen = seen\<rparr>) (set (cookies s))"
    using set_update_subset sub by (fastforce simp: insert_cookie_def e Let_def)
  have "namespace_ids (snd (insert_cookie s ns seen)) = namespace_ids s"
    by (simp add: fun_eq_iff namespace_ids_def)
  moreover have "ck_seen st \<subseteq> namespace_ids s (ck_namespace st)"
    if "(k, st) \<in> set (cookies (snd (insert_cookie s ns seen)))" for k st
    using subsetD [OF c that] assms(1,2) by (auto simp: seen_inv_def)
  ultimately show ?thesis by (auto simp: seen_inv_def)
qed


section \<open>Reachable stores\<close>

inductive store_steps :: "'e record_lib \<Rightarrow> NodeConfig \<Rightarrow> nat \<Rightarrow> Store \<Rightarrow> bool"
  for L config where
  steps_new: "store_steps L config 0 (store_new config)"
| steps_request: "store_steps L config n s \<Longrightarrow> store_handle L s peer request now = Some (h, s') \<Longrightarrow>
    store_steps L config (Suc n) s'"
| steps_expire: "store_steps L config n s \<Longrightarrow> expire s now = (peers, s') \<Longrightarrow>
    store_steps L config (Suc n) s'"

definition full_inv :: "'e record_lib \<Rightarrow> Limits \<Rightarrow> Store \<Rightarrow> bool" where
  "full_inv L lim s \<longleftrightarrow>
     limits s = lim \<and> regs_inv L s \<and> cookies_inv s \<and> rates_inv s \<and> seen_inv s"

lemma full_inv_new: "full_inv L (limits_of config) (store_new config)"
  by (simp add: full_inv_def store_new_def regs_inv_def cookies_inv_def rates_inv_def seen_inv_def)

lemma full_inv_rates:
  "full_inv L lim s \<Longrightarrow> rates_inv (s\<lparr>rates := rs\<rparr>) \<Longrightarrow> full_inv L lim (s\<lparr>rates := rs\<rparr>)"
  unfolding full_inv_def
  by (simp add: regs_inv_cong [of "s\<lparr>rates := rs\<rparr>" s] cookies_inv_cong [of "s\<lparr>rates := rs\<rparr>" s])
    (simp add: seen_inv_def namespace_ids_def)

lemma full_inv_remove:
  assumes "full_inv L lim s"
  shows "full_inv L lim (remove_registration key s)"
proof -
  have "regs_inv L (remove_registration key s)"
    by (rule regs_inv_filter [where s = s and P = "\<lambda>(k, _). k \<noteq> key"])
      (use assms in \<open>simp_all add: full_inv_def AList.delete_eq split_def eq_commute\<close>)
  moreover have "rates_inv (remove_registration key s)"
    using assms rates_inv_cong [of "remove_registration key s" s] by (simp add: full_inv_def)
  moreover have "seen_inv (remove_registration key s)"
    using assms by (intro remove_registration_seen) (simp_all add: full_inv_def regs_inv_def)
  ultimately show ?thesis
    using assms by (simp add: full_inv_def remove_registration_cookies_inv)
qed

lemma register_seen:
  assumes inv: "full_inv L lim s" and r: "register L s peer ns signed_record ttl now = Some (h, s')"
  shows "seen_inv s'"
proof (cases "register_accepts L s peer ns signed_record ttl")
  case False
  then show ?thesis using register_refused [OF False, of now] r inv by (auto simp: full_inv_def)
next
  case True
  let ?s = "remove_registration (peer, ns) s"
  obtain e where s': "s' = ?s\<lparr>next_registration := next_id (next_registration s),
      registrations := AList.update (peer, ns)
          \<lparr>reg_id = next_registration s, reg_signed_record = signed_record,
           reg_ttl = effective_ttl s ttl, reg_expires_at = e\<rparr> (registrations ?s)\<rparr>"
    using r unfolding register_accepted [OF True] by auto
  have "(peer, ns) \<notin> fst ` set (registrations ?s)" by (auto simp: AList.delete_eq)
  then have "namespace_ids ?s n \<subseteq> namespace_ids s' n" for n
    by (rule namespace_ids_update [rotated]) (simp add: s')
  moreover have "seen_inv ?s" using full_inv_remove [OF inv] by (simp add: full_inv_def)
  moreover have "cookies s' = cookies ?s" by (simp add: s')
  ultimately show ?thesis using seen_inv_mono [of ?s s'] by simp
qed

lemma discover_seen:
  assumes "full_inv L lim s"
  shows "seen_inv (snd (discover s peer ns cookie limit))"
proof (cases rule: discover_cases [of s peer ns cookie limit])
  case (refused status)
  then show ?thesis using assms by (simp add: full_inv_def)
next
  case (served n seen)
  let ?found = "take (requested_results s limit) (sort_key fst
      (map (\<lambda>((_, n), r). (reg_id r, wire_registration n r))
        (filter (\<lambda>((_, n'), r). n' = n \<and> reg_id r \<notin> seen) (registrations s))))"
  have "seen \<subseteq> namespace_ids s n"
    using served(3) assms by (auto simp: full_inv_def seen_inv_def dest!: map_of_SomeD)
  moreover have "set (map fst ?found) \<subseteq> namespace_ids s n"
    by (auto simp: namespace_ids_def image_iff dest!: in_set_takeD) force
  ultimately have "seen_inv (snd (insert_cookie s n (seen \<union> set (map fst ?found))))"
    using assms by (intro insert_cookie_seen) (auto simp: full_inv_def)
  then show ?thesis using served(4) by (simp add: Let_def split_def)
qed

lemma full_inv_handle:
  assumes inv: "full_inv L lim s" and h: "store_handle L s peer request now = Some (h, s')"
  shows "full_inv L lim s'"
proof -
  obtain b s1 where a: "admit s peer (operation_of request) now = (b, s1)"
    by (cases "admit s peer (operation_of request) now")
  obtain rs where s1: "s1 = s\<lparr>rates := rs\<rparr>" using admit_frame [OF a] by blast
  have i1: "full_inv L lim s1"
    using full_inv_rates [OF inv] admit_rates_inv [OF _ a] inv s1 by (simp add: full_inv_def)
  show ?thesis
  proof (cases b)
    case False
    then show ?thesis using h a i1 by (simp add: store_handle_def)
  next
    case True
    show ?thesis
    proof (cases request)
      case (Register ns signed_record ttl)
      then have r: "register L s1 peer ns signed_record ttl now = Some (h, s')"
        using h a True by (simp add: store_handle_def)
      show ?thesis
        using i1 register_inv [OF _ _ r] register_frame [OF r] register_seen [OF i1 r]
          rates_inv_cong [of s' s1]
        by (simp add: full_inv_def)
    next
      case (Unregister ns)
      then have "s' = snd (unregister s1 peer ns)" using h a True by (simp add: store_handle_def)
      then show ?thesis using i1 full_inv_remove [OF i1] by (auto simp: unregister_def)
    next
      case (Discover ns cookie limit)
      then have s': "s' = snd (discover s1 peer ns cookie limit)"
        using h a True by (simp add: store_handle_def)
      have c: "cookies_inv s1" using i1 by (simp add: full_inv_def)
      show ?thesis
        using i1 discover_frame [OF c, of peer ns cookie limit]
          discover_seen [OF i1, of peer ns cookie limit]
          regs_inv_cong [of s' s1 L] rates_inv_cong [of s' s1]
        unfolding full_inv_def s' by simp
    qed
  qed
qed

lemma full_inv_expire_loop: "full_inv L lim s \<Longrightarrow> full_inv L lim (snd (expire_loop keys s))"
  by (induction keys arbitrary: s) (auto simp: Let_def split_def dest: full_inv_remove)

lemma full_inv_reachable: "store_steps L config n s \<Longrightarrow> full_inv L (limits_of config) s"
proof (induction rule: store_steps.induct)
  case steps_new
  then show ?case by (rule full_inv_new)
next
  case (steps_request n s peer request now h s')
  then show ?case using full_inv_handle by blast
next
  case (steps_expire n s now peers s')
  then show ?case using full_inv_expire_loop unfolding expire_def by (metis snd_conv)
qed

end
