(* ===== verification/Discovery_Properties.thy ===== *)
theory Discovery_Properties
  imports Rendezvous_Store
begin

text \<open>
  What the discovery store promises, over its reachable states: the frame of each request, expiry,
  identifiers before the counter wraps, pagination, rate windows and the properties stated at the
  end.
\<close>

section \<open>What a request can change\<close>

lemma register_lookup:
  assumes "register_accepts L s peer ns signed_record ttl"
    and "register L s peer ns signed_record ttl now = Some (h, s')"
  shows "map_of (registrations s') = (map_of (registrations s))((peer, ns) \<mapsto>
      \<lparr>reg_id = next_registration s, reg_signed_record = signed_record,
       reg_ttl = effective_ttl s ttl, reg_expires_at = now + secs (unat (effective_ttl s ttl))\<rparr>)"
    and "h = \<lparr>handled_response = Some (RegisterResponse (Ok (effective_ttl s ttl))),
         handled_event = Registered peer\<rparr>"
    and "next_registration s' = next_id (next_registration s)"
  using assms(2) unfolding register_accepted [OF assms(1)]
  by (auto simp: instant_checked_add_def AList.update_conv' AList.delete_conv' split: if_splits)

lemma handle_admit:
  assumes "store_handle L s peer request now = Some (h, s')"
  obtains (denied) rs where "s' = s\<lparr>rates := rs\<rparr>"
      "h = rejected peer (response_for_rate_limited (operation_of request))"
      "admit s peer (operation_of request) now = (False, s')"
  | (register) s1 ns signed_record ttl rs where "request = Register ns signed_record ttl"
      "admit s peer OpRegister now = (True, s1)" "s1 = s\<lparr>rates := rs\<rparr>"
      "register L s1 peer ns signed_record ttl now = Some (h, s')"
  | (unregister) s1 ns rs where "request = Unregister ns"
      "admit s peer OpUnregister now = (True, s1)" "s1 = s\<lparr>rates := rs\<rparr>"
      "unregister s1 peer ns = (h, s')"
  | (discover) s1 ns cookie limit rs where "request = Discover ns cookie limit"
      "admit s peer OpDiscover now = (True, s1)" "s1 = s\<lparr>rates := rs\<rparr>"
      "discover s1 peer ns cookie limit = (h, s')"
proof -
  obtain b s1 where a: "admit s peer (operation_of request) now = (b, s1)"
    by (cases "admit s peer (operation_of request) now")
  obtain rs where s1: "s1 = s\<lparr>rates := rs\<rparr>" using admit_frame [OF a] by blast
  show ?thesis
  proof (cases b)
    case False
    then show ?thesis using assms a s1 by (intro denied [of rs]) (auto simp: store_handle_def)
  next
    case True
    note h = assms [unfolded store_handle_def Let_def a True]
    show ?thesis
    proof (cases request)
      case (Register ns signed_record ttl)
      then show ?thesis using h a s1 True by (intro register [of ns signed_record ttl s1 rs]) auto
    next
      case (Unregister ns)
      then show ?thesis using h a s1 True by (intro unregister [of ns s1 rs]) auto
    next
      case (Discover ns cookie limit)
      then show ?thesis using h a s1 True by (intro discover [of ns cookie limit s1 rs]) auto
    qed
  qed
qed

lemma discover_registrations:
  assumes "discover s peer ns cookie limit = (h, s')"
  shows "registrations s' = registrations s" "rates s' = rates s" "limits s' = limits s"
    "next_registration s' = next_registration s"
proof -
  have "registrations s' = registrations s \<and> rates s' = rates s \<and> limits s' = limits s \<and>
    next_registration s' = next_registration s"
    using assms insert_cookie_frame
    by (cases rule: discover_cases [of s peer ns cookie limit]) (force simp: Let_def split_def)+
  then show "registrations s' = registrations s" "rates s' = rates s" "limits s' = limits s"
    "next_registration s' = next_registration s" by auto
qed

lemma unregister_registrations:
  assumes "unregister s peer ns = (h, s')"
  shows "registrations s' = (if valid_namespace ns then AList.delete (peer, ns) (registrations s)
      else registrations s)" "rates s' = rates s" "limits s' = limits s"
    "next_registration s' = next_registration s"
  using assms by (auto simp: unregister_def split: if_splits)

lemma handle_other_peers:
  assumes h: "store_handle L s peer request now = Some (h, s')" and "other \<noteq> peer"
  shows "map_of (registrations s') (other, ns) = map_of (registrations s) (other, ns)"
  using h
proof (cases rule: handle_admit)
  case (register s1 n signed_record ttl rs)
  show ?thesis
  proof (cases "register_accepts L s1 peer n signed_record ttl")
    case True
    then show ?thesis using register_lookup(1) [OF True register(4)] assms(2) register(3) by simp
  next
    case False
    then show ?thesis using register_refused [OF False, of now] register(3,4) by auto
  qed
next
  case (unregister s1 n rs)
  then show ?thesis
    using unregister_registrations(1) [OF unregister(4)] assms(2) by (simp add: map_of_delete_other)
next
  case (discover s1 n cookie limit rs)
  then show ?thesis using discover_registrations(1) [OF discover(4)] by simp
qed simp

section \<open>Expiry\<close>

lemma expire_loop_result:
  assumes "distinct (map fst (registrations s))" and "distinct keys"
    and "set keys \<subseteq> fst ` set (registrations s)"
  shows "registrations (snd (expire_loop keys s)) =
      filter (\<lambda>(k, _). k \<notin> set keys) (registrations s) \<and>
    fst (expire_loop keys s) = map fst keys"
  using assms
proof (induction keys arbitrary: s)
  case Nil
  then show ?case by (simp add: split_def)
next
  case (Cons key keys)
  let ?s = "remove_registration key s"
  have "distinct (map fst (registrations ?s))"
    using Cons.prems(1) by (simp add: AList.delete_eq distinct_keys_filter)
  moreover have "set keys \<subseteq> fst ` set (registrations ?s)"
    using Cons.prems(2,3) by (fastforce simp: AList.delete_eq)
  ultimately have ih: "registrations (snd (expire_loop keys ?s)) =
      filter (\<lambda>(k, _). k \<notin> set keys) (registrations ?s)"
    "fst (expire_loop keys ?s) = map fst keys"
    using Cons.IH [of ?s] Cons.prems(2) by auto
  have found: "map_of (registrations s) key \<noteq> None"
    using Cons.prems(3) unfolding map_of_None_keys by auto
  have "filter (\<lambda>(k, _). k \<notin> set keys) (AList.delete key (registrations s)) =
      filter (\<lambda>(k, _). k \<notin> set (key # keys)) (registrations s)"
    unfolding AList.delete_eq filter_filter by (rule filter_cong) auto
  then show ?case using ih found by (simp add: Let_def split_def)
qed

lemma expire_result:
  assumes "distinct (map fst (registrations s))"
  shows "registrations (snd (expire s now)) =
      filter (\<lambda>(_, r). now < reg_expires_at r) (registrations s)"
    "fst (expire s now) =
      map (fst \<circ> fst) (filter (\<lambda>(_, r). reg_expires_at r \<le> now) (registrations s))"
proof -
  let ?old = "filter (\<lambda>(_, r). reg_expires_at r \<le> now) (registrations s)"
  have d: "distinct (map fst ?old)" using assms by (rule distinct_keys_filter)
  have sub: "set (map fst ?old) \<subseteq> fst ` set (registrations s)" by auto
  note r = expire_loop_result [OF assms d sub, folded expire_def]
  have "(k \<notin> set (map fst ?old)) = (now < reg_expires_at v)"
    if kv: "(k, v) \<in> set (registrations s)" for k v
  proof -
    have "v' = v" if "(k, v') \<in> set (registrations s)" for v'
      using map_of_is_SomeI [OF assms kv] map_of_is_SomeI [OF assms that] by simp
    moreover have "k \<in> set (map fst ?old) \<longleftrightarrow>
        (\<exists>v'. (k, v') \<in> set (registrations s) \<and> reg_expires_at v' \<le> now)"
      by (cases k) (auto simp: image_iff)
    ultimately have "k \<in> set (map fst ?old) \<longleftrightarrow> reg_expires_at v \<le> now"
      using kv by metis
    then show ?thesis by (simp only: not_le)
  qed
  then show "registrations (snd (expire s now)) =
      filter (\<lambda>(_, r). now < reg_expires_at r) (registrations s)"
    unfolding r [THEN conjunct1] by (intro filter_cong) auto
  show "fst (expire s now) = map (fst \<circ> fst) ?old"
    unfolding r [THEN conjunct2] by (rule map_map)
qed

section \<open>Identifiers\<close>

text \<open>Until the 64-bit counter wraps, registrations have distinct identifiers below it.\<close>

definition ids_inv :: "Store \<Rightarrow> bool" where
  "ids_inv s \<longleftrightarrow>
     distinct (map (reg_id \<circ> snd) (registrations s))
     \<and> (\<forall>x \<in> set (registrations s). reg_id (snd x) < next_registration s)"

lemma ids_inv_filter:
  assumes "ids_inv s" and "registrations s' = filter P (registrations s)"
    and "next_registration s' = next_registration s"
  shows "ids_inv s'"
  using assms by (auto simp: ids_inv_def distinct_map_filter)

lemma ids_inv_register:
  assumes inv: "ids_inv s" and r: "register L s peer ns signed_record ttl now = Some (h, s')"
    and m: "unat (next_registration s) < 2 ^ 64 - 1"
  shows "ids_inv s' \<and> unat (next_registration s') \<le> Suc (unat (next_registration s))"
proof (cases "register_accepts L s peer ns signed_record ttl")
  case False
  then show ?thesis using register_refused [OF False, of now] r inv by auto
next
  case True
  let ?s = "remove_registration (peer, ns) s"
  obtain e where s': "s' = ?s\<lparr>next_registration := next_id (next_registration s),
      registrations := AList.update (peer, ns)
          \<lparr>reg_id = next_registration s, reg_signed_record = signed_record,
           reg_ttl = effective_ttl s ttl, reg_expires_at = e\<rparr> (registrations ?s)\<rparr>"
    using r unfolding register_accepted [OF True] by auto
  have new: "(peer, ns) \<notin> fst ` set (registrations ?s)" by (auto simp: AList.delete_eq)
  have i: "ids_inv ?s" by (rule ids_inv_filter [OF inv]) (simp_all add: AList.delete_eq)
  have inc: "unat (next_registration s + 1) = Suc (unat (next_registration s))"
    using m by (simp add: unat_word_ariths)
  have next': "next_id (next_registration s) = next_registration s + 1"
    using inc by (simp add: next_id_def max_def word_le_nat_alt unat_eq_zero)
  have lt: "next_registration s < next_registration s + 1"
    using inc by (simp add: word_less_nat_alt)
  have "\<forall>x \<in> set (registrations ?s). reg_id (snd x) < next_registration s"
    using i by (simp add: ids_inv_def)
  then have "ids_inv s'"
    using i lt unfolding ids_inv_def s' by (simp add: update_new [OF new [simplified]] next')
      (auto intro: less_trans)
  then show ?thesis using inc by (simp add: s' next')
qed

lemma ids_inv_reachable:
  assumes "store_steps L config n s" and "n < 2 ^ 64 - 1"
  shows "ids_inv s \<and> unat (next_registration s) \<le> Suc n"
  using assms
proof (induction rule: store_steps.induct)
  case steps_new
  then show ?case by (simp add: ids_inv_def store_new_def)
next
  case (steps_request n s peer request now h s')
  then have ih: "ids_inv s" "unat (next_registration s) \<le> Suc n" by auto
  show ?case using steps_request(2)
  proof (cases rule: handle_admit)
    case (denied rs)
    then show ?thesis using ih by (simp add: ids_inv_def)
  next
    case (register s1 ns signed_record ttl rs)
    moreover have "ids_inv s1" "next_registration s1 = next_registration s"
      using ih register(3) by (simp_all add: ids_inv_def)
    moreover have "unat (next_registration s) < 2 ^ 64 - 1" using ih(2) steps_request.prems by simp
    ultimately show ?thesis using ids_inv_register [of s1] ih(2) by fastforce
  next
    case (unregister s1 ns rs)
    have "ids_inv s'"
    proof (cases "valid_namespace ns")
      case True
      then show ?thesis
        using unregister_registrations [OF unregister(4)] unregister(3)
        by (intro ids_inv_filter [OF ih(1)]) (simp_all add: AList.delete_eq)
    next
      case False
      then show ?thesis
        using unregister_registrations [OF unregister(4)] ih(1) unregister(3)
        by (simp add: ids_inv_def)
    qed
    then show ?thesis
      using unregister_registrations [OF unregister(4)] ih(2) unregister(3) by simp
  next
    case (discover s1 ns cookie limit rs)
    then show ?thesis using discover_registrations [OF discover(4)] ih by (simp add: ids_inv_def)
  qed
next
  case (steps_expire n s now peers s')
  have "ids_inv (snd (expire_loop keys t)) \<and>
      next_registration (snd (expire_loop keys t)) = next_registration t"
    if "ids_inv t" for keys t
    using that
  proof (induction keys arbitrary: t)
    case (Cons key keys)
    have "ids_inv (remove_registration key t)"
      by (rule ids_inv_filter [OF Cons.prems]) (simp_all add: AList.delete_eq)
    then show ?case using Cons.IH by (simp add: Let_def split_def)
  qed simp
  then show ?case using steps_expire unfolding expire_def by (metis Suc_lessD le_SucI snd_conv)
qed

section \<open>Pages\<close>

abbreviation listing :: "(peer_id \<times> namespace) \<times> Registration \<Rightarrow> u64 \<times> WireRegistration" where
  "listing \<equiv> \<lambda>((_, n), r). (reg_id r, wire_registration n r)"

definition namespace_listing :: "Store \<Rightarrow> namespace \<Rightarrow> (u64 \<times> WireRegistration) list" where
  "namespace_listing s ns = sort_key fst (map listing (filter (in_namespace ns) (registrations s)))"

lemma namespace_listing_ids: "ids_inv s \<Longrightarrow> distinct (map fst (namespace_listing s ns))"
proof -
  assume "ids_inv s"
  then have "distinct (map (reg_id \<circ> snd) (filter (in_namespace ns) (registrations s)))"
    by (simp add: ids_inv_def distinct_map_filter)
  also have "map (reg_id \<circ> snd) (filter (in_namespace ns) (registrations s)) =
      map fst (map listing (filter (in_namespace ns) (registrations s)))"
    by auto
  finally have "distinct (map fst (map listing (filter (in_namespace ns) (registrations s))))" .
  then show ?thesis
    unfolding namespace_listing_def by (simp only: distinct_map distinct_sort set_sort)
qed

lemma filter_drop_taken:
  "distinct (map f xs) \<Longrightarrow> filter (\<lambda>x. f x \<notin> set (map f (take m xs))) xs = drop m xs"
proof (induction xs arbitrary: m)
  case (Cons x xs)
  show ?case
  proof (cases m)
    case 0
    then show ?thesis by simp
  next
    case (Suc k)
    have "filter (\<lambda>y. f y \<notin> set (map f (take m (x # xs)))) (x # xs) =
        filter (\<lambda>y. f y \<notin> set (map f (take k xs))) xs"
      using Cons.prems Suc by (auto intro!: filter_cong simp: image_iff)
    then show ?thesis using Cons Suc by simp
  qed
qed simp

lemma listing_filter:
  "map listing (filter (\<lambda>((_, n'), r). n' = ns \<and> reg_id r \<notin> X) regs) =
   filter (\<lambda>x. fst x \<notin> X) (map listing (filter (in_namespace ns) regs))"
  by (induction regs) auto

lemma unseen_listing:
  assumes "ids_inv s"
  shows "sort_key fst (map listing (filter
      (\<lambda>((_, n'), r). n' = ns \<and> reg_id r \<notin> set (map fst (take m (namespace_listing s ns))))
      (registrations s))) = drop m (namespace_listing s ns)"
proof -
  let ?Q = "\<lambda>x. fst x \<notin> set (map fst (take m (namespace_listing s ns)))"
  have "map listing (filter (\<lambda>((_, n'), r). n' = ns \<and> reg_id r \<notin>
        set (map fst (take m (namespace_listing s ns)))) (registrations s)) =
      filter ?Q (map listing (filter (in_namespace ns) (registrations s)))"
    by (rule listing_filter)
  then have "sort_key fst (map listing (filter (\<lambda>((_, n'), r). n' = ns \<and> reg_id r \<notin>
        set (map fst (take m (namespace_listing s ns)))) (registrations s))) =
      filter ?Q (namespace_listing s ns)"
    by (simp add: namespace_listing_def filter_sort)
  then show ?thesis using filter_drop_taken [OF namespace_listing_ids [OF assms]] by simp
qed

fun discover_pages ::
  "Store \<Rightarrow> peer_id \<Rightarrow> namespace \<Rightarrow> u64 option \<Rightarrow> nat \<Rightarrow> cookie option \<Rightarrow> WireRegistration list" where
  "discover_pages s peer ns limit 0 cookie = []"
| "discover_pages s peer ns limit (Suc k) cookie =
     (case discover s peer (Some ns) cookie limit of (h, s') \<Rightarrow>
      case handled_response h of
        Some (DiscoverResponse (Inr page)) \<Rightarrow>
          page_registrations page @ discover_pages s' peer ns limit k (Some (page_cookie page))
      | _ \<Rightarrow> [])"

definition cookie_at :: "Store \<Rightarrow> namespace \<Rightarrow> cookie option \<Rightarrow> nat \<Rightarrow> bool" where
  "cookie_at s ns cookie m \<longleftrightarrow>
     (case cookie of
        None \<Rightarrow> m = 0
      | Some c \<Rightarrow> map_of (cookies s) c = Some \<lparr>ck_namespace = ns,
          ck_seen = set (map fst (take m (namespace_listing s ns)))\<rparr>)"

lemma insert_cookie_lookup:
  "map_of (cookies (snd (insert_cookie s ns seen))) (fst (insert_cookie s ns seen)) =
     Some \<lparr>ck_namespace = ns, ck_seen = seen\<rparr>"
  by (simp add: insert_cookie_def Let_def split_def AList.update_conv')

lemma discover_page:
  fixes s :: Store and limit :: "u64 option"
  assumes "ids_inv s" and v: "valid_namespace ns" and c: "cookie_at s ns cookie m"
  defines "n \<equiv> requested_results s limit"
  obtains c' s' where
    "discover s peer (Some ns) cookie limit =
       (\<lparr>handled_response = Some (DiscoverResponse (Ok
           \<lparr>page_registrations = map snd (take n (drop m (namespace_listing s ns))),
            page_cookie = c'\<rparr>)),
         handled_event = Served peer (length (take n (drop m (namespace_listing s ns))))\<rparr>, s')"
    "cookie_at s' ns (Some c') (m + n)" "registrations s' = registrations s" "limits s' = limits s"
    "next_registration s' = next_registration s"
proof -
  let ?seen = "set (map fst (take m (namespace_listing s ns)))"
  let ?page = "take n (drop m (namespace_listing s ns))"
  obtain c' s' where i: "insert_cookie s ns (?seen \<union> set (map fst ?page)) = (c', s')"
    by (cases "insert_cookie s ns (?seen \<union> set (map fst ?page))")
  have s': "registrations s' = registrations s" "limits s' = limits s"
      "next_registration s' = next_registration s"
    using insert_cookie_frame [of s ns "?seen \<union> set (map fst ?page)"] unfolding i by simp_all
  have "?seen \<union> set (map fst ?page) = set (map fst (take (m + n) (namespace_listing s ns)))"
    by (simp add: take_add image_Un)
  moreover have "map_of (cookies s') c' =
      Some \<lparr>ck_namespace = ns, ck_seen = ?seen \<union> set (map fst ?page)\<rparr>"
    using insert_cookie_lookup [of s ns "?seen \<union> set (map fst ?page)"] unfolding i by simp
  moreover have "namespace_listing s' ns = namespace_listing s ns"
    by (simp only: namespace_listing_def s')
  ultimately have at: "cookie_at s' ns (Some c') (m + n)" by (simp add: cookie_at_def)
  have seen: "(case cookie of Some c \<Rightarrow> (case map_of (cookies s) c of
        Some state \<Rightarrow> if ck_namespace state = ns then Some (ck_seen state) else None
      | None \<Rightarrow> None) | None \<Rightarrow> Some {}) = Some ?seen"
    using c by (cases cookie) (simp_all add: cookie_at_def)
  have "discover s peer (Some ns) cookie limit =
      (\<lparr>handled_response = Some (DiscoverResponse (Ok
           \<lparr>page_registrations = map snd ?page, page_cookie = c'\<rparr>)),
         handled_event = Served peer (length ?page)\<rparr>, s')"
    unfolding discover_def option.case if_P [OF v] seen Let_def unseen_listing [OF assms(1)]
      n_def [symmetric] i prod.case length_map ..
  then show ?thesis using that at s' by blast
qed

lemma discover_pages_listing:
  assumes "ids_inv s" and "valid_namespace ns" and "cookie_at s ns cookie m"
  shows "discover_pages s peer ns limit k cookie =
    map snd (take (k * requested_results s limit) (drop m (namespace_listing s ns)))"
  using assms
proof (induction k arbitrary: s cookie m)
  case 0
  then show ?case by simp
next
  case (Suc k)
  let ?n = "requested_results s limit" and ?l = "namespace_listing s ns"
  obtain c' s' where d: "discover s peer (Some ns) cookie limit =
       (\<lparr>handled_response = Some (DiscoverResponse (Ok
           \<lparr>page_registrations = map snd (take ?n (drop m ?l)), page_cookie = c'\<rparr>)),
         handled_event = Served peer (length (take ?n (drop m ?l)))\<rparr>, s')"
    and at: "cookie_at s' ns (Some c') (m + ?n)" and s': "registrations s' = registrations s"
    "limits s' = limits s" "next_registration s' = next_registration s"
    using discover_page [OF Suc.prems] by blast
  have eq: "requested_results s' limit = ?n" "namespace_listing s' ns = ?l"
    by (simp_all only: requested_results_def namespace_listing_def s')
  have "ids_inv s'" using Suc.prems(1) s' by (simp add: ids_inv_def)
  then have "discover_pages s' peer ns limit k (Some c') =
      map snd (take (k * ?n) (drop (m + ?n) ?l))"
    using Suc.IH [OF _ Suc.prems(2) at] unfolding eq by simp
  moreover have "take (Suc k * ?n) (drop m ?l) = take ?n (drop m ?l) @ take (k * ?n) (drop (m + ?n) ?l)"
    by (simp add: take_add add.commute)
  ultimately show ?case by (simp add: d)
qed

section \<open>Rate windows\<close>

fun serve :: "'e record_lib \<Rightarrow> Store \<Rightarrow> (peer_id \<times> Request \<times> instant) list
    \<Rightarrow> (Handled list \<times> Store) option" where
  "serve L s [] = Some ([], s)"
| "serve L s ((peer, request, now) # requests) =
     Option.bind (store_handle L s peer request now) (\<lambda>(h, s).
     map_option (\<lambda>(hs, s). (h # hs, s)) (serve L s requests))"

definition window_open :: "Store \<Rightarrow> peer_id \<Rightarrow> instant \<Rightarrow> bool" where
  "window_open s peer t \<longleftrightarrow> (\<forall>st. map_of (rates s) peer = Some st \<longrightarrow> t \<le> window_started st)"

definition used_registers :: "Store \<Rightarrow> peer_id \<Rightarrow> nat" where
  "used_registers s peer = (case map_of (rates s) peer of Some st \<Rightarrow> unat (rate_registrations st) | None \<Rightarrow> 0)"

definition used_discovers :: "Store \<Rightarrow> peer_id \<Rightarrow> nat" where
  "used_discovers s peer = (case map_of (rates s) peer of Some st \<Rightarrow> unat (rate_discoveries st) | None \<Rightarrow> 0)"

lemma unat_inc: "(x :: u32) < y \<Longrightarrow> unat (x + 1) = Suc (unat x)"
  using unsigned_less [of y, where ?'a = nat] by (simp add: word_less_nat_alt unat_word_ariths)

definition live_rates :: "Store \<Rightarrow> instant \<Rightarrow> (peer_id \<times> RateState) list" where
  "live_rates s now = filter (\<lambda>(_, st). now - window_started st < WINDOW) (rates s)"

definition live_rate :: "Store \<Rightarrow> peer_id \<Rightarrow> instant \<Rightarrow> RateState" where
  "live_rate s peer now = (case map_of (live_rates s now) peer of Some st \<Rightarrow> st
     | None \<Rightarrow> \<lparr>window_started = now, rate_registrations = 0, rate_discoveries = 0\<rparr>)"

lemma admit_effect:
  assumes "admit s p op now = (b, s')"
  obtains (full) "\<not> b" "rates s' = live_rates s now" "map_of (live_rates s now) p = None"
  | (denied) "\<not> b" "rates s' = AList.update p (live_rate s p now) (live_rates s now)"
  | (register) st where "b" "op \<noteq> OpDiscover" "st = live_rate s p now"
      "rate_registrations st < lim_register_rate (limits s)"
      "rates s' = AList.update p (st\<lparr>rate_registrations := rate_registrations st + 1\<rparr>)
         (live_rates s now)"
  | (discover) st where "b" "op = OpDiscover" "st = live_rate s p now"
      "rate_discoveries st < lim_discover_rate (limits s)"
      "rates s' = AList.update p (st\<lparr>rate_discoveries := rate_discoveries st + 1\<rparr>)
         (live_rates s now)"
proof -
  have lim: "limits (s\<lparr>rates := x\<rparr>) = limits s" for x by simp
  note a = assms [unfolded admit_def live_rates_def [symmetric] Let_def live_rate_def [symmetric] lim]
  show ?thesis
  proof (cases "map_of (live_rates s now) p = None \<and> lim_rate_peers (limits s) \<le> length (live_rates s now)")
    case True
    then show ?thesis using a full by auto
  next
    case False
    note a = a [unfolded if_not_P [OF False]]
    show ?thesis
      using a denied register [OF _ _ refl] discover [OF _ _ refl] by (auto split: if_splits)
  qed
qed

lemma live_rates_lookup:
  assumes "distinct (map fst (rates s))" and "window_open s peer t" and "now < t + WINDOW"
  shows "map_of (live_rates s now) peer = map_of (rates s) peer"
proof (cases "map_of (rates s) peer")
  case None
  then have "map_of (live_rates s now) peer = None"
    unfolding map_of_None_keys live_rates_def by auto
  then show ?thesis using None by simp
next
  case (Some st)
  then have "now - window_started st < WINDOW" using assms by (auto simp: window_open_def WINDOW_def secs_def)
  then have "(peer, st) \<in> set (live_rates s now)"
    using map_of_SomeD [OF Some] by (simp add: live_rates_def)
  moreover have "distinct (map fst (live_rates s now))"
    unfolding live_rates_def using assms(1) by (rule distinct_keys_filter)
  ultimately show ?thesis using Some by (simp add: map_of_is_SomeI)
qed

lemma admit_window:
  assumes a: "admit s p op now = (b, s')" and d: "distinct (map fst (rates s))"
    and t: "t \<le> now" "now < t + WINDOW" and w: "window_open s peer t"
  shows "window_open s' peer t"
    and "used_registers s' peer = used_registers s peer + of_bool (b \<and> p = peer \<and> op \<noteq> OpDiscover)"
    and "used_discovers s' peer = used_discovers s peer + of_bool (b \<and> p = peer \<and> op = OpDiscover)"
proof -
  have l: "map_of (live_rates s now) peer = map_of (rates s) peer"
    using live_rates_lookup [OF d w t(2)] .
  have cur: "live_rate s peer now = (case map_of (rates s) peer of Some st \<Rightarrow> st
     | None \<Rightarrow> \<lparr>window_started = now, rate_registrations = 0, rate_discoveries = 0\<rparr>)"
    by (simp add: live_rate_def l)
  have "window_open s' peer t \<and>
    used_registers s' peer = used_registers s peer + of_bool (b \<and> p = peer \<and> op \<noteq> OpDiscover) \<and>
    used_discovers s' peer = used_discovers s peer + of_bool (b \<and> p = peer \<and> op = OpDiscover)"
    using a
  proof (cases rule: admit_effect)
    case full
    then show ?thesis using l w by (simp add: window_open_def used_registers_def used_discovers_def)
  next
    case denied
    then show ?thesis using l w t cur
      by (auto simp: window_open_def used_registers_def used_discovers_def AList.update_conv'
          split: option.splits)
  next
    case (register st)
    then show ?thesis using l w t cur unat_inc [OF register(4)]
      by (auto simp: window_open_def used_registers_def used_discovers_def AList.update_conv'
          split: option.splits)
  next
    case (discover st)
    then show ?thesis using l w t cur unat_inc [OF discover(4)]
      by (auto simp: window_open_def used_registers_def used_discovers_def AList.update_conv'
          split: option.splits)
  qed
  then show "window_open s' peer t"
    and "used_registers s' peer = used_registers s peer + of_bool (b \<and> p = peer \<and> op \<noteq> OpDiscover)"
    and "used_discovers s' peer = used_discovers s peer + of_bool (b \<and> p = peer \<and> op = OpDiscover)"
    by auto
qed

fun registers_for :: "peer_id \<Rightarrow> Handled \<Rightarrow> bool" where
  "registers_for peer h = (handled_event h = Registered peer \<or> handled_event h = Unregistered peer)"

fun served_to :: "peer_id \<Rightarrow> Handled \<Rightarrow> bool" where
  "served_to peer h = (case handled_event h of Served p _ \<Rightarrow> p = peer | _ \<Rightarrow> False)"

lemma register_event:
  assumes "register L s peer ns signed_record ttl now = Some (h, s')"
  shows "handled_event h = Registered peer \<or> handled_event h = Rejected peer"
  using assms register_lookup(2) [OF _ assms]
    register_refused [of L s peer ns signed_record ttl now]
  by (cases "register_accepts L s peer ns signed_record ttl") (auto simp: rejected_def)

lemma discover_event:
  assumes "discover s peer ns cookie limit = (h, s')"
  shows "(\<exists>n. handled_event h = Served peer n) \<or> handled_event h = Rejected peer"
  using assms
  by (cases rule: discover_cases [of s peer ns cookie limit])
    (auto simp: rejected_def Let_def split_def)

lemma handle_window:
  assumes h: "store_handle L s p request now = Some (h, s')" and d: "distinct (map fst (rates s))"
    and t: "t \<le> now" "now < t + WINDOW" and w: "window_open s peer t"
  shows "window_open s' peer t \<and>
    used_registers s peer + of_bool (registers_for peer h) \<le> used_registers s' peer \<and>
    used_discovers s peer + of_bool (served_to peer h) \<le> used_discovers s' peer"
  using h
proof (cases rule: handle_admit)
  case (denied rs)
  then show ?thesis using admit_window [OF denied(3) d t w] by (simp add: rejected_def)
next
  case (register s1 ns signed_record ttl rs)
  have "rates s' = rates s1" using register_frame(2) [OF register(4)] .
  then show ?thesis
    using admit_window [OF register(2) d t w] register_event [OF register(4)]
    by (auto simp: window_open_def used_registers_def used_discovers_def)
next
  case (unregister s1 ns rs)
  have "rates s' = rates s1" using unregister_registrations(2) [OF unregister(4)] .
  moreover have "handled_event h = Unregistered p \<or> handled_event h = Rejected p"
    using unregister(4) by (auto simp: unregister_def rejected_def split: if_splits)
  ultimately show ?thesis
    using admit_window [OF unregister(2) d t w]
    by (auto simp: window_open_def used_registers_def used_discovers_def)
next
  case (discover s1 ns cookie limit rs)
  have "rates s' = rates s1" using discover_registrations(2) [OF discover(4)] .
  then show ?thesis
    using admit_window [OF discover(2) d t w] discover_event [OF discover(4)]
    by (auto simp: window_open_def used_registers_def used_discovers_def)
qed

lemma serve_window:
  assumes "serve L s requests = Some (hs, s')" and "full_inv L lim s"
    and "\<forall>(p, request, now) \<in> set requests. t \<le> now \<and> now < t + WINDOW"
    and "window_open s peer t"
  shows "full_inv L lim s' \<and>
    used_registers s peer + length (filter (registers_for peer) hs) \<le> used_registers s' peer \<and>
    used_discovers s peer + length (filter (served_to peer) hs) \<le> used_discovers s' peer"
  using assms
proof (induction requests arbitrary: s hs)
  case Nil
  then show ?case by simp
next
  case (Cons x requests)
  obtain p request now where x: "x = (p, request, now)" by (cases x)
  obtain h s1 hs' where h: "store_handle L s p request now = Some (h, s1)"
    and r: "serve L s1 requests = Some (hs', s')" and hs: "hs = h # hs'"
    using Cons.prems(1) by (auto simp: x Option.bind_eq_Some_conv)
  have i: "full_inv L lim s1" using full_inv_handle [OF Cons.prems(2) h] .
  have w: "window_open s1 peer t"
    "used_registers s peer + of_bool (registers_for peer h) \<le> used_registers s1 peer"
    "used_discovers s peer + of_bool (served_to peer h) \<le> used_discovers s1 peer"
    using handle_window [OF h, of t peer] Cons.prems(2-4)
    by (auto simp: x full_inv_def rates_inv_def)
  show ?case
    using Cons.IH [OF r i _ w(1)] w(2,3) Cons.prems(3) by (auto simp: hs split: if_splits)
qed

lemma used_bounds:
  assumes "full_inv L lim s"
  shows "used_registers s peer \<le> unat (lim_register_rate lim)"
    "used_discovers s peer \<le> unat (lim_discover_rate lim)"
  using assms
  by (auto simp: full_inv_def rates_inv_def used_registers_def used_discovers_def word_le_nat_alt
      dest!: map_of_SomeD split: option.split)

section \<open>Properties\<close>

lemma store_bounds:
  assumes "store_steps L config n s"
  shows "length (registrations s) \<le> discovery_registrations_total config"
    and "length (filter (of_peer peer) (registrations s)) \<le> discovery_registrations_per_peer config"
    and "length (filter (in_namespace ns) (registrations s))
      \<le> discovery_registrations_per_namespace config"
    and "length (cookies s) \<le> max 1 (discovery_cookies config)"
    and "(c, st) \<in> set (cookies s) \<Longrightarrow>
      finite (ck_seen st) \<and> card (ck_seen st) \<le> discovery_registrations_per_namespace config"
    and "length (rates s) \<le> discovery_rate_limit_peers config"
    and "distinct (map fst (registrations s))" and "distinct (map fst (cookies s))"
    and "distinct (map fst (rates s))"
proof -
  have inv: "limits s = limits_of config" "regs_inv L s" "cookies_inv s" "rates_inv s" "seen_inv s"
    using full_inv_reachable [OF assms] by (simp_all add: full_inv_def)
  note i = inv(2,3,4) [unfolded regs_inv_def cookies_inv_def rates_inv_def inv(1)]
  show "length (registrations s) \<le> discovery_registrations_total config"
    and "length (filter (of_peer peer) (registrations s)) \<le> discovery_registrations_per_peer config"
    and "length (filter (in_namespace ns) (registrations s))
      \<le> discovery_registrations_per_namespace config"
    and "length (cookies s) \<le> max 1 (discovery_cookies config)"
    and "length (rates s) \<le> discovery_rate_limit_peers config"
    and "distinct (map fst (registrations s))" and "distinct (map fst (cookies s))"
    and "distinct (map fst (rates s))"
    using i by (simp_all add: limits_of_def)
  assume "(c, st) \<in> set (cookies s)"
  then have sub: "ck_seen st \<subseteq> namespace_ids s (ck_namespace st)"
    using inv(5) by (auto simp: seen_inv_def)
  have "card (namespace_ids s (ck_namespace st)) \<le>
      length (filter (in_namespace (ck_namespace st)) (registrations s))"
    unfolding namespace_ids_def by (rule order_trans [OF card_image_le card_length]) simp
  also have "\<dots> \<le> discovery_registrations_per_namespace config"
    using i(1) by (simp add: limits_of_def)
  finally show "finite (ck_seen st) \<and>
      card (ck_seen st) \<le> discovery_registrations_per_namespace config"
    using sub by (auto simp: namespace_ids_def intro: finite_subset order_trans [OF card_mono])
qed

text \<open>
  C14: The store's memory is bounded by the configuration in every reachable state: the
  registrations in total, per peer and per namespace, the cookies (at least one is kept), the
  registrations a cookie remembers and the peers with a rate window; keys are never duplicated.
\<close>
theorem store_capacity_bounded:
  assumes "store_steps L config n s"
  shows "length (registrations s) \<le> discovery_registrations_total config
    \<and> (\<forall>peer. length (filter (of_peer peer) (registrations s))
         \<le> discovery_registrations_per_peer config)
    \<and> (\<forall>ns. length (filter (in_namespace ns) (registrations s))
         \<le> discovery_registrations_per_namespace config)
    \<and> length (cookies s) \<le> max 1 (discovery_cookies config)
    \<and> (\<forall>(c, st) \<in> set (cookies s). finite (ck_seen st)
         \<and> card (ck_seen st) \<le> discovery_registrations_per_namespace config)
    \<and> length (rates s) \<le> discovery_rate_limit_peers config
    \<and> distinct (map fst (registrations s)) \<and> distinct (map fst (cookies s))
    \<and> distinct (map fst (rates s))"
  using store_bounds [OF assms] by blast


lemma registration_authentic:
  assumes "store_steps L config n s"
    and "map_of (registrations s) (peer, ns) = Some r"
  shows "\<exists>envelope record.
      from_protobuf_encoding L (reg_signed_record r) = Some envelope
      \<and> from_signed_envelope L envelope = Some record
      \<and> record_peer_id record = peer
      \<and> 1 \<le> length (record_addresses record)
      \<and> length (record_addresses record) \<le> discovery_addresses_per_registration config
      \<and> (\<forall>a \<in> set (record_addresses record).
           valid_address a peer (discovery_allow_private_addresses config))"
    and "length (reg_signed_record r) \<le> discovery_record_bytes config"
    and "valid_namespace ns"
    and "discovery_min_ttl_seconds config \<le> reg_ttl r"
    and "reg_ttl r \<le> discovery_max_ttl_seconds config"
proof -
  have inv: "limits s = limits_of config" "regs_inv L s"
    using full_inv_reachable [OF assms(1)] by (simp_all add: full_inv_def)
  have r: "valid_namespace ns" "lim_min_ttl (limits s) \<le> reg_ttl r"
    "reg_ttl r \<le> lim_max_ttl (limits s)" "validate_record L s peer (reg_signed_record r) = Ok ()"
    using inv(2) map_of_SomeD [OF assms(2)] by (auto simp: regs_inv_def)
  then show "valid_namespace ns" "discovery_min_ttl_seconds config \<le> reg_ttl r"
    "reg_ttl r \<le> discovery_max_ttl_seconds config"
    by (simp_all add: inv(1) limits_of_def)
  note v = r(4) [unfolded validate_record_def inv(1) limits_of_def Limits.select_convs]
  show "length (reg_signed_record r) \<le> discovery_record_bytes config"
    using v by (simp split: if_splits)
  show "\<exists>envelope record.
      from_protobuf_encoding L (reg_signed_record r) = Some envelope
      \<and> from_signed_envelope L envelope = Some record
      \<and> record_peer_id record = peer
      \<and> 1 \<le> length (record_addresses record)
      \<and> length (record_addresses record) \<le> discovery_addresses_per_registration config
      \<and> (\<forall>a \<in> set (record_addresses record).
           valid_address a peer (discovery_allow_private_addresses config))"
    using v by (auto simp: result_simps list_all_iff Suc_le_eq split: if_splits)
qed

text \<open>
  C30: Every registration the store holds was signed by its owner: in a reachable state the record
  under the key of a peer and a namespace is within the size limit, verifies as a signed peer
  record of that very peer, has between one and the configured number of addresses, each
  admissible for the peer, and its namespace and lifetime are within the rules.
\<close>
theorem store_registrations_authentic:
  assumes "store_steps L config n s"
    and "map_of (registrations s) (peer, ns) = Some r"
  shows "(\<exists>envelope record.
      from_protobuf_encoding L (reg_signed_record r) = Some envelope
      \<and> from_signed_envelope L envelope = Some record
      \<and> record_peer_id record = peer
      \<and> 1 \<le> length (record_addresses record)
      \<and> length (record_addresses record) \<le> discovery_addresses_per_registration config
      \<and> (\<forall>a \<in> set (record_addresses record).
           valid_address a peer (discovery_allow_private_addresses config)))
    \<and> length (reg_signed_record r) \<le> discovery_record_bytes config
    \<and> valid_namespace ns
    \<and> discovery_min_ttl_seconds config \<le> reg_ttl r
    \<and> reg_ttl r \<le> discovery_max_ttl_seconds config"
  using registration_authentic [OF assms] by blast


lemma namespace_listing_set:
  "set (namespace_listing s ns) =
     (\<lambda>(_, r). (reg_id r, wire_registration ns r)) ` set (filter (in_namespace ns) (registrations s))"
  by (force simp: namespace_listing_def)

text \<open>
  A peer's request changes no other peer's registrations: whatever the request, the entries
  under the keys of every other peer are the same before and after.
\<close>
theorem store_peer_isolation:
  assumes "store_handle L s peer request now = Some (h, s')" and "other \<noteq> peer"
  shows "map_of (registrations s') (other, ns) = map_of (registrations s) (other, ns)"
  using handle_other_peers [OF assms] .

text \<open>
  C31: Pagination is complete and free of repetition. In a reachable store, before the identifier
  counter wraps, asking for \<open>k\<close> pages of a namespace with the cookie of the page before yields
  exactly the first \<open>k * limit\<close> entries of one list: the namespace's registrations, each once, in
  the order in which they were registered.
\<close>
theorem discovery_pages_enumerate:
  assumes "store_steps L config n s" and "n < 2 ^ 64 - 1" and "valid_namespace ns"
  shows "\<exists>listing. sorted (map fst listing) \<and> distinct (map fst listing)
    \<and> set listing = (\<lambda>(_, r). (reg_id r, wire_registration ns r)) `
        set (filter (in_namespace ns) (registrations s))
    \<and> discover_pages s peer ns limit k None =
        map snd (take (k * requested_results s limit) listing)"
proof -
  have i: "ids_inv s" using ids_inv_reachable [OF assms(1,2)] by simp
  show ?thesis
  proof (intro exI conjI)
    show "sorted (map fst (namespace_listing s ns))"
      by (simp add: namespace_listing_def)
    show "discover_pages s peer ns limit k None =
        map snd (take (k * requested_results s limit) (namespace_listing s ns))"
      using discover_pages_listing [OF i assms(3), of None 0] by (simp add: cookie_at_def)
  qed (rule namespace_listing_ids [OF i], rule namespace_listing_set)
qed

lemma rate_limited:
  assumes "store_steps L config n s" and "map_of (rates s) peer = None"
    and "\<forall>(p, request, now) \<in> set requests. t \<le> now \<and> now < t + WINDOW"
    and "serve L s requests = Some (hs, s')"
  shows "length (filter (registers_for peer) hs)
      \<le> unat (discovery_register_requests_per_minute config)"
    and "length (filter (served_to peer) hs)
      \<le> unat (discovery_discover_requests_per_minute config)"
proof -
  have "window_open s peer t" using assms(2) by (simp add: window_open_def)
  then have w: "full_inv L (limits_of config) s'"
    "length (filter (registers_for peer) hs) \<le> used_registers s' peer"
    "length (filter (served_to peer) hs) \<le> used_discovers s' peer"
    using serve_window [OF assms(4) full_inv_reachable [OF assms(1)] assms(3), of peer] by auto
  show "length (filter (registers_for peer) hs)
      \<le> unat (discovery_register_requests_per_minute config)"
    and "length (filter (served_to peer) hs)
      \<le> unat (discovery_discover_requests_per_minute config)"
    using w(2,3) used_bounds [OF w(1), of peer] by (simp_all add: limits_of_def)
qed

text \<open>
  C15: The rate limits hold. From a reachable store without a window for a peer, over any sequence
  of requests by any peers within one window of a minute, at most the configured number of that
  peer's register and unregister requests take effect and at most the configured number of its
  discoveries are served.
\<close>
theorem store_rate_limited:
  assumes "store_steps L config n s" and "map_of (rates s) peer = None"
    and "\<forall>(p, request, now) \<in> set requests. t \<le> now \<and> now < t + WINDOW"
    and "serve L s requests = Some (hs, s')"
  shows "length (filter (registers_for peer) hs)
      \<le> unat (discovery_register_requests_per_minute config)
    \<and> length (filter (served_to peer) hs)
      \<le> unat (discovery_discover_requests_per_minute config)"
  using rate_limited [OF assms] by blast


text \<open>
  A registration lives exactly for its lifetime. When a Register request is answered with a
  lifetime, the store holds the given record under the peer and namespace; the sweep at any later
  time removes it, reporting the peer, exactly from the end of the lifetime on.
\<close>
theorem registration_lifetime:
  assumes "store_steps L config n s"
    and h: "store_handle L s peer (Register ns signed_record ttl) now = Some (h, s')"
    and ok: "handled_response h = Some (RegisterResponse (Ok t))"
  shows "\<exists>r. map_of (registrations s') (peer, ns) = Some r
      \<and> reg_signed_record r = signed_record \<and> reg_ttl r = t
      \<and> (\<forall>later. map_of (registrations (snd (expire s' later))) (peer, ns) =
          (if later < now + secs (unat t) then Some r else None))
      \<and> (\<forall>later. now + secs (unat t) \<le> later \<longrightarrow> peer \<in> set (fst (expire s' later)))"
  using h
proof (cases rule: handle_admit)
  case (denied rs)
  then show ?thesis using ok by (simp add: rejected_def)
next
  case (register s1 ns' signed_record' ttl' rs)
  then have r: "register L s1 peer ns signed_record ttl now = Some (h, s')" by simp
  have a: "register_accepts L s1 peer ns signed_record ttl"
  proof (rule ccontr)
    assume "\<not> register_accepts L s1 peer ns signed_record ttl"
    then show False using register_refused [of L s1 peer ns signed_record ttl now] r ok
      by (auto simp: rejected_def)
  qed
  have t: "t = effective_ttl s1 ttl" using register_lookup(2) [OF a r] ok by simp
  let ?r = "\<lparr>reg_id = next_registration s1, reg_signed_record = signed_record, reg_ttl = t,
     reg_expires_at = now + secs (unat t)\<rparr>"
  have lookup: "map_of (registrations s') (peer, ns) = Some ?r"
    using register_lookup(1) [OF a r] t by simp
  have d: "distinct (map fst (registrations s'))"
    using full_inv_handle [OF full_inv_reachable [OF assms(1)] h]
    by (simp add: full_inv_def regs_inv_def)
  have "map_of (registrations (snd (expire s' later))) (peer, ns) =
      (if later < now + secs (unat t) then Some ?r else None)" for later
    by (simp add: expire_result [OF d] map_of_filter_value [OF d] lookup)
  moreover have "peer \<in> set (fst (expire s' later))" if "now + secs (unat t) \<le> later" for later
    using map_of_SomeD [OF lookup] that unfolding expire_result(2) [OF d] by force
  ultimately show ?thesis using lookup by (intro exI [of _ ?r]) simp
qed auto

text \<open>
  C32: With a validated configuration no request panics: as long as the clock is a day away from
  the largest instant, every request in every reachable state is answered.
\<close>
theorem store_handle_total:
  assumes "store_steps L config n s" and "node_config_validate env_filter_ok config"
    and "now + secs 86400 \<le> INSTANT_MAX"
  shows "\<exists>h s'. store_handle L s peer request now = Some (h, s')"
proof -
  obtain b s1 where a: "admit s peer (operation_of request) now = (b, s1)"
    by (cases "admit s peer (operation_of request) now")
  have lim: "limits s1 = limits_of config"
    using admit_frame_simps(1) [OF a] full_inv_reachable [OF assms(1)] by (simp add: full_inv_def)
  have "\<exists>h s'. register L s1 peer ns signed_record ttl now = Some (h, s')" for ns signed_record ttl
  proof (cases "register_accepts L s1 peer ns signed_record ttl")
    case True
    have "discovery_max_ttl_seconds config \<le> 86400"
      using assms(2) by (simp add: node_config_validate_def)
    then have "effective_ttl s1 ttl \<le> 86400"
      using True by (auto simp: register_accepts_def lim limits_of_def)
    then have "unat (effective_ttl s1 ttl) \<le> 86400" by (simp add: word_le_nat_alt)
    then have "now + secs (unat (effective_ttl s1 ttl)) \<le> INSTANT_MAX"
      using assms(3) by (simp add: secs_def)
    then show ?thesis unfolding register_accepted [OF True] by (simp add: instant_checked_add_def)
  next
    case False
    then show ?thesis using register_refused [OF False] by blast
  qed
  then show ?thesis using a by (simp add: store_handle_def split: Request.split)
qed

text \<open>
  A cookie whose page was empty remembers nothing, and the removal of any registration, also of
  another namespace and by another peer, discards it: the next page is refused.
\<close>
lemma removal_drops_empty_cookies:
  assumes "map_of (registrations s) (peer, ns) = Some r" and "valid_namespace ns"
    and "map_of (cookies s) c = Some st" and "ck_seen st = {}" and "distinct (map fst (cookies s))"
    and "valid_namespace (ck_namespace st)"
  shows "discover (snd (unregister s peer ns)) q (Some (ck_namespace st)) (Some c) limit =
    (rejected q (Some (DiscoverResponse (Err InvalidCookie))), snd (unregister s peer ns))"
proof -
  have "st' = st" if "(c, st') \<in> set (cookies s)" for st'
    using map_of_is_SomeI [OF assms(5) that] assms(3) by simp
  then have "c \<notin> fst ` set (cookies (snd (unregister s peer ns)))"
    using assms(1,2,4)
    by (auto simp: unregister_def remove_registration_def remove_from_cookies_def Let_def)
  then have "map_of (cookies (snd (unregister s peer ns))) c = None"
    by (simp add: map_of_None_keys)
  then show ?thesis using assms(6) by (simp add: discover_def)
qed

end
