(* ===== verification/Sample_Discovery.thy ===== *)
theory Sample_Discovery
  imports Discovery_Properties
begin

text \<open>
  A concrete discovery server: the default configuration, a verifier that reads a record's bytes
  as its peer, and a store after one registration. The properties of \<open>Discovery_Properties\<close> are
  applied to it.
\<close>

definition sample_records :: "bytes record_lib" where
  "sample_records = \<lparr>from_protobuf_encoding = Some,
     from_signed_envelope = (\<lambda>bs. Some \<lparr>record_peer_id = bs,
       record_addresses = [[Ip4 8 8 8 8, Tcp 4001]]\<rparr>)\<rparr>"

definition sample_room :: namespace where
  "sample_room = ascii ''envshare-v1-00112233445566778899aabbccddeeff''"

definition sample_registration :: Registration where
  "sample_registration = \<lparr>reg_id = 1, reg_signed_record = [1], reg_ttl = 300,
     reg_expires_at = 300000000000\<rparr>"

definition sample_limits :: Limits where
  "sample_limits = \<lparr>lim_min_ttl = 30, lim_max_ttl = 300,
     lim_per_peer = 8, lim_total = 256, lim_per_namespace = 32, lim_cookies = 512,
     lim_addresses = 8, lim_record_bytes = 16384, lim_results = 32, lim_register_rate = 12,
     lim_discover_rate = 30, lim_rate_peers = 1024, lim_allow_private = False\<rparr>"

definition sample_discovery :: Store where
  "sample_discovery = \<lparr>limits = sample_limits,
     registrations = [(([1], sample_room), sample_registration)], cookies = [], cookie_order = [],
     rates = [([1], \<lparr>window_started = 0, rate_registrations = 1, rate_discoveries = 0\<rparr>)],
     next_registration = 2, next_cookie = 1\<rparr>"

lemma sample_new:
  "store_new node_config_default = \<lparr>limits = sample_limits, registrations = [], cookies = [],
     cookie_order = [], rates = [], next_registration = 1, next_cookie = 1\<rparr>"
  by (simp add: store_new_def limits_of_def node_config_default_def sample_limits_def)

lemma sample_room_valid: "valid_namespace sample_room"
  by code_simp

lemma sample_address: "valid_address [Ip4 8 8 8 8, Tcp 4001] peer False"
  by (simp add: valid_address_def unusable_v4_def)

lemmas sample_eval = sample_new sample_discovery_def sample_limits_def sample_registration_def
  sample_records_def sample_room_valid sample_address store_handle_def admit_def Let_def

lemma sample_registered:
  "store_handle sample_records (store_new node_config_default) [1] (Register sample_room [1] None) 0 =
     Some (\<lparr>handled_response = Some (RegisterResponse (Ok 300)), handled_event = Registered [1]\<rparr>,
       sample_discovery)"
  by (simp add: sample_eval register_def validate_record_def instant_checked_add_def
      INSTANT_MAX_def secs_def remove_registration_def next_id_def WINDOW_def)

lemma sample_steps: "store_steps sample_records node_config_default 1 sample_discovery"
  using steps_request [OF steps_new sample_registered] by simp

theorem store_capacity_bounded_witness:
  "length (registrations sample_discovery) \<le> discovery_registrations_total node_config_default \<and>
   length (filter (of_peer [1]) (registrations sample_discovery))
     \<le> discovery_registrations_per_peer node_config_default"
  using store_capacity_bounded [OF sample_steps] by blast

theorem store_registrations_authentic_witness:
  "length (reg_signed_record sample_registration) \<le> discovery_record_bytes node_config_default \<and>
   (\<exists>envelope. from_protobuf_encoding sample_records (reg_signed_record sample_registration) =
      Some envelope)"
proof -
  have "map_of (registrations sample_discovery) ([1], sample_room) = Some sample_registration"
    by (simp add: sample_discovery_def)
  from store_registrations_authentic [OF sample_steps this] show ?thesis by blast
qed

theorem store_peer_isolation_witness:
  "map_of (registrations sample_discovery) ([2], sample_room) =
     map_of (registrations (store_new node_config_default)) ([2], sample_room)"
  using store_peer_isolation [OF sample_registered, of "[2]"] by simp

theorem discovery_pages_enumerate_witness:
  "\<exists>listing :: (u64 \<times> WireRegistration) list. sorted (map fst listing) \<and>
     discover_pages sample_discovery [2] sample_room None 2 None =
       map snd (take (2 * requested_results sample_discovery None) listing)"
proof -
  have "(1 :: nat) < 2 ^ 64 - 1" by simp
  from discovery_pages_enumerate [OF sample_steps this sample_room_valid, of "[2]" None 2]
  show ?thesis by blast
qed

theorem store_rate_limited_witness:
  "length (filter (registers_for [1])
     [\<lparr>handled_response = Some (RegisterResponse (Ok 300)), handled_event = Registered [1]\<rparr>])
     \<le> unat (discovery_register_requests_per_minute node_config_default)"
proof -
  have "map_of (rates (store_new node_config_default)) [1] = None" by (simp add: sample_new)
  moreover have "\<forall>(p, request, now) \<in> set [([1], Register sample_room [1] None, 0)].
      0 \<le> now \<and> now < 0 + WINDOW"
    by (simp add: WINDOW_def secs_def)
  moreover have "serve sample_records (store_new node_config_default)
      [([1], Register sample_room [1] None, 0)] =
    Some ([\<lparr>handled_response = Some (RegisterResponse (Ok 300)), handled_event = Registered [1]\<rparr>],
      sample_discovery)"
    by (simp add: sample_registered)
  ultimately show ?thesis by (rule store_rate_limited [OF steps_new, THEN conjunct1])
qed

theorem registration_lifetime_witness:
  "map_of (registrations (snd (expire sample_discovery 299999999999))) ([1], sample_room) \<noteq> None \<and>
   map_of (registrations (snd (expire sample_discovery 300000000000))) ([1], sample_room) = None \<and>
   [1] \<in> set (fst (expire sample_discovery 300000000000))"
proof -
  have ok: "handled_response \<lparr>handled_response = Some (RegisterResponse (Ok 300)),
      handled_event = Registered [1]\<rparr> = Some (RegisterResponse (Ok 300))" by simp
  show ?thesis
    using registration_lifetime [OF steps_new sample_registered ok] by (auto simp: secs_def)
qed

lemma sample_config_valid: "node_config_validate (\<lambda>_. True) node_config_default"
  by (rule default_config_valid) simp

theorem store_handle_total_witness:
  "\<exists>h s'. store_handle sample_records sample_discovery [7] (Unregister sample_room) 5 = Some (h, s')"
  using store_handle_total [OF sample_steps sample_config_valid, of 5]
  by (simp add: secs_def INSTANT_MAX_def)

end
