(* ===== verification/Node_Status.thy ===== *)
theory Node_Status
  imports Node_Config
begin

text \<open>
  The node's health and metric state, \<^verbatim>\<open>node/src/telemetry.rs\<close>. The atomics of \<^verbatim>\<open>Inner\<close> are
  fields of one record, which the node's components share; \<^verbatim>\<open>fetch_add\<close> wraps at 64 bits and
  \<^verbatim>\<open>decrement\<close> saturates at zero. Reading the clock is an argument. The text of \<^verbatim>\<open>metrics\<close>
  is rendered as a string.
\<close>

definition LIVENESS_STALE_AFTER :: duration where "LIVENESS_STALE_AFTER = secs 5"

record NodeStatus =
  st_started :: instant
  st_started_at_seconds :: u64
  st_live :: bool
  st_ready :: bool
  st_draining :: bool
  st_listeners_expected :: u64
  st_listeners_ready :: u64
  st_last_progress_ms :: u64
  st_connections :: u64
  st_max_connections :: u64
  st_reservations :: u64
  st_max_reservations :: u64
  st_circuits :: u64
  st_max_circuits :: u64
  st_discovery_registrations :: u64
  st_max_discovery_registrations :: u64
  st_reservations_accepted :: u64
  st_reservations_denied :: u64
  st_circuits_accepted :: u64
  st_circuits_denied :: u64
  st_discovery_requests :: u64
  st_discovery_rejected :: u64
  st_admission_rejected :: u64
  st_events_dropped :: u64

definition status_default :: "instant \<Rightarrow> u64 \<Rightarrow> NodeStatus" where
  "status_default started started_at_seconds = \<lparr>
     st_started = started, st_started_at_seconds = started_at_seconds,
     st_live = False, st_ready = False, st_draining = False,
     st_listeners_expected = 0, st_listeners_ready = 0, st_last_progress_ms = 0,
     st_connections = 0, st_max_connections = 0, st_reservations = 0, st_max_reservations = 0,
     st_circuits = 0, st_max_circuits = 0, st_discovery_registrations = 0,
     st_max_discovery_registrations = 0, st_reservations_accepted = 0,
     st_reservations_denied = 0, st_circuits_accepted = 0, st_circuits_denied = 0,
     st_discovery_requests = 0, st_discovery_rejected = 0, st_admission_rejected = 0,
     st_events_dropped = 0\<rparr>"

definition u64_saturating :: "nat \<Rightarrow> u64" where
  "u64_saturating n = (if n < 2 ^ 64 then of_nat n else - 1)"

definition elapsed_ms :: "NodeStatus \<Rightarrow> instant \<Rightarrow> u64" where
  "elapsed_ms st now = u64_saturating ((now - st_started st) div 1000000)"

definition touch :: "instant \<Rightarrow> NodeStatus \<Rightarrow> NodeStatus" where
  "touch now st = st\<lparr>st_last_progress_ms := elapsed_ms st now\<rparr>"

definition status_start :: "instant \<Rightarrow> NodeStatus \<Rightarrow> NodeStatus" where
  "status_start now st = touch now (st\<lparr>st_live := True\<rparr>)"

definition expect_listeners :: "nat \<Rightarrow> NodeStatus \<Rightarrow> NodeStatus" where
  "expect_listeners listeners st = st\<lparr>st_listeners_expected := u64_saturating listeners\<rparr>"

definition configure_capacities ::
  "u32 \<Rightarrow> nat \<Rightarrow> nat \<Rightarrow> nat \<Rightarrow> NodeStatus \<Rightarrow> NodeStatus" where
  "configure_capacities connections reservations circuits registrations st =
     st\<lparr>st_max_connections := ucast connections,
        st_max_reservations := u64_saturating reservations,
        st_max_circuits := u64_saturating circuits,
        st_max_discovery_registrations := u64_saturating registrations\<rparr>"

definition listeners_ready :: "nat \<Rightarrow> NodeStatus \<Rightarrow> NodeStatus" where
  "listeners_ready listeners st =
     (let listeners = u64_saturating listeners; expected = st_listeners_expected st in
      st\<lparr>st_listeners_ready := listeners, st_ready := expected > 0 \<and> listeners \<ge> expected\<rparr>)"

definition begin_drain :: "NodeStatus \<Rightarrow> NodeStatus" where
  "begin_drain st = st\<lparr>st_draining := True, st_ready := False\<rparr>"

definition status_stop :: "NodeStatus \<Rightarrow> NodeStatus" where
  "status_stop st = st\<lparr>st_ready := False, st_live := False\<rparr>"

definition is_live_at :: "NodeStatus \<Rightarrow> u64 \<Rightarrow> bool" where
  "is_live_at st elapsed \<longleftrightarrow> st_live st
     \<and> unat elapsed - unat (st_last_progress_ms st) \<le> LIVENESS_STALE_AFTER div 1000000"

definition is_live :: "NodeStatus \<Rightarrow> instant \<Rightarrow> bool" where
  "is_live st now = is_live_at st (elapsed_ms st now)"

definition is_ready :: "NodeStatus \<Rightarrow> bool" where
  "is_ready st \<longleftrightarrow> st_ready st \<and> \<not> st_draining st"

definition decrement :: "u64 \<Rightarrow> u64" where
  "decrement v = (if v = 0 then 0 else v - 1)"

definition connection_opened :: "NodeStatus \<Rightarrow> NodeStatus" where
  "connection_opened st = st\<lparr>st_connections := st_connections st + 1\<rparr>"

definition connection_closed :: "NodeStatus \<Rightarrow> NodeStatus" where
  "connection_closed st = st\<lparr>st_connections := decrement (st_connections st)\<rparr>"

definition reservation_accepted :: "bool \<Rightarrow> NodeStatus \<Rightarrow> NodeStatus" where
  "reservation_accepted renewed st =
     (let st = (if \<not> renewed then st\<lparr>st_reservations := st_reservations st + 1\<rparr> else st)
      in st\<lparr>st_reservations_accepted := st_reservations_accepted st + 1\<rparr>)"

definition reservation_closed :: "NodeStatus \<Rightarrow> NodeStatus" where
  "reservation_closed st = st\<lparr>st_reservations := decrement (st_reservations st)\<rparr>"

definition reservation_denied :: "NodeStatus \<Rightarrow> NodeStatus" where
  "reservation_denied st = st\<lparr>st_reservations_denied := st_reservations_denied st + 1\<rparr>"

definition circuit_accepted :: "NodeStatus \<Rightarrow> NodeStatus" where
  "circuit_accepted st = st\<lparr>st_circuits := st_circuits st + 1,
     st_circuits_accepted := st_circuits_accepted st + 1\<rparr>"

definition circuit_closed :: "NodeStatus \<Rightarrow> NodeStatus" where
  "circuit_closed st = st\<lparr>st_circuits := decrement (st_circuits st)\<rparr>"

definition circuit_denied :: "NodeStatus \<Rightarrow> NodeStatus" where
  "circuit_denied st = st\<lparr>st_circuits_denied := st_circuits_denied st + 1\<rparr>"

definition discovery_request :: "NodeStatus \<Rightarrow> NodeStatus" where
  "discovery_request st = st\<lparr>st_discovery_requests := st_discovery_requests st + 1\<rparr>"

definition discovery_rejected :: "NodeStatus \<Rightarrow> NodeStatus" where
  "discovery_rejected st = st\<lparr>st_discovery_rejected := st_discovery_rejected st + 1\<rparr>"

definition set_discovery_registrations :: "nat \<Rightarrow> NodeStatus \<Rightarrow> NodeStatus" where
  "set_discovery_registrations registrations st =
     st\<lparr>st_discovery_registrations := u64_saturating registrations\<rparr>"

definition admission_rejected :: "NodeStatus \<Rightarrow> NodeStatus" where
  "admission_rejected st = st\<lparr>st_admission_rejected := st_admission_rejected st + 1\<rparr>"

definition event_dropped :: "NodeStatus \<Rightarrow> NodeStatus" where
  "event_dropped st = st\<lparr>st_events_dropped := st_events_dropped st + 1\<rparr>"

text \<open>Decimal digits, as \<^verbatim>\<open>Display\<close> prints an unsigned integer.\<close>

fun decimal :: "nat \<Rightarrow> string" where
  "decimal n = (if n < 10 then [char_of (48 + n)]
     else decimal (n div 10) @ [char_of (48 + n mod 10)])"

declare decimal.simps [simp del]

definition newline :: string where "newline = [char_of (10 :: nat)]"

text \<open>One metric of the exposition: the optional help line, the type line and the value line.\<close>

definition metric :: "string option \<Rightarrow> string \<Rightarrow> string \<Rightarrow> u64 \<Rightarrow> string" where
  "metric help kind name v =
     (case help of Some h \<Rightarrow> ''# HELP '' @ name @ '' '' @ h @ newline | None \<Rightarrow> [])
     @ ''# TYPE '' @ name @ '' '' @ kind @ newline
     @ name @ '' '' @ decimal (unat v) @ newline"

definition metrics :: "NodeStatus \<Rightarrow> instant \<Rightarrow> string" where
  "metrics st now = concat
     [metric (Some ''Whether the node task is alive.'') ''gauge'' ''envshare_node_live''
        (of_bool (is_live st now)),
      metric (Some ''Whether the node accepts new traffic.'') ''gauge'' ''envshare_node_ready''
        (of_bool (is_ready st)),
      metric None ''gauge'' ''envshare_node_start_time_seconds''
        (st_started_at_seconds st),
      metric None ''gauge'' ''envshare_node_listeners''
        (st_listeners_ready st),
      metric None ''gauge'' ''envshare_node_listener_capacity''
        (st_listeners_expected st),
      metric None ''gauge'' ''envshare_node_connections''
        (st_connections st),
      metric None ''gauge'' ''envshare_node_connection_capacity''
        (st_max_connections st),
      metric None ''gauge'' ''envshare_node_reservations''
        (st_reservations st),
      metric None ''gauge'' ''envshare_node_reservation_capacity''
        (st_max_reservations st),
      metric None ''gauge'' ''envshare_node_circuits''
        (st_circuits st),
      metric None ''gauge'' ''envshare_node_circuit_capacity''
        (st_max_circuits st),
      metric None ''gauge'' ''envshare_node_discovery_registrations''
        (st_discovery_registrations st),
      metric None ''gauge'' ''envshare_node_discovery_registration_capacity''
        (st_max_discovery_registrations st),
      metric None ''counter'' ''envshare_node_reservations_accepted_total''
        (st_reservations_accepted st),
      metric None ''counter'' ''envshare_node_reservations_denied_total''
        (st_reservations_denied st),
      metric None ''counter'' ''envshare_node_circuits_accepted_total''
        (st_circuits_accepted st),
      metric None ''counter'' ''envshare_node_circuits_denied_total''
        (st_circuits_denied st),
      metric None ''counter'' ''envshare_node_discovery_requests_total''
        (st_discovery_requests st),
      metric None ''counter'' ''envshare_node_discovery_rejected_total''
        (st_discovery_rejected st),
      metric None ''counter'' ''envshare_node_admission_rejected_total''
        (st_admission_rejected st),
      metric None ''counter'' ''envshare_node_events_dropped_total''
        (st_events_dropped st),
      ''# EOF'' @ newline]"

lemmas status_defs = touch_def status_start_def expect_listeners_def configure_capacities_def
  listeners_ready_def begin_drain_def status_stop_def connection_opened_def connection_closed_def
  reservation_accepted_def reservation_closed_def reservation_denied_def circuit_accepted_def
  circuit_closed_def circuit_denied_def discovery_request_def discovery_rejected_def
  set_discovery_registrations_def admission_rejected_def event_dropped_def

end
