(* ===== verification/Node_Server.thy ===== *)
theory Node_Server
  imports Discovery_Properties Node_Status
begin

text \<open>
  The relay node's event loop, \<^verbatim>\<open>node/src/relay.rs\<close>. The libp2p swarm is outside: its events are
  the inputs (with whether a response could still be sent on its channel), and the external addresses
  and responses the node gives it are recorded in the state. That a draining node asks the swarm to
  remove its listeners shows only in the \<open>ListenerClosed\<close> events that follow. The event channel is its
  bounded buffer. Every reading of the clock is an argument. The swarm's behaviours
  (\<^verbatim>\<open>build_behaviour\<close>) are in \<open>Swarm_Limits\<close>.
\<close>

type_synonym listener_id = nat

datatype NodeEvent =
    NodeListening multiaddr
  | ReservationAccepted peer_id bool
  | CircuitAccepted peer_id peer_id
  | CircuitClosed peer_id peer_id
  | ReservationClosed peer_id
  | ReservationDenied peer_id
  | CircuitDenied peer_id peer_id
  | NodeDiscoveryRegistered peer_id
  | NodeDiscoveryUnregistered peer_id
  | NodeDiscoveryServed peer_id nat
  | NodeDiscoveryRejected peer_id

record NodeServer =
  no_listen_addresses :: "multiaddr list"
  no_event_capacity :: nat
  no_events_closed :: bool
  no_events :: "NodeEvent list"
  no_discovery :: Store
  no_status :: NodeStatus
  no_ready_listeners :: "listener_id set"
  no_external :: "multiaddr list"
  no_responses :: "(peer_id \<times> Response) list"

datatype RelayEvent =
    ReservationReqAccepted peer_id bool
  | ReservationReqDenied peer_id
  | CircuitReqAccepted peer_id peer_id
  | CircuitReqDenied peer_id peer_id
  | RelayCircuitClosed peer_id peer_id
  | RelayReservationClosed peer_id
  | RelayReservationTimedOut peer_id
  | OtherRelayEvent

text \<open>A rendezvous request message with whether its channel still takes a response.\<close>

datatype ProtocolEvent = RequestMessage peer_id Request bool | OtherProtocolEvent

datatype SwarmEvent =
    NewListenAddr listener_id multiaddr
  | SwarmConnectionEstablished
  | SwarmConnectionClosed
  | ListenerClosed listener_id
  | RelayBehaviour RelayEvent
  | RendezvousBehaviour ProtocolEvent
  | OtherEvent

text \<open>The clock as one event sees it: at \<open>touch\<close>, at the sweep and at the request.\<close>

record clock =
  clock_touch :: instant
  clock_expire :: instant
  clock_handle :: instant

definition node_server_new ::
  "(bytes \<Rightarrow> bool) \<Rightarrow> NodeConfig \<Rightarrow> instant \<Rightarrow> u64 \<Rightarrow> (NodeError, NodeServer) result" where
  "node_server_new env_filter_ok config now unix_seconds =
     (if \<not> node_config_validate env_filter_ok config then Err Node_Configuration else
      let status = configure_capacities (max_connections config) (max_reservations config)
            (max_circuits config) (discovery_registrations_total config)
            (expect_listeners (length (listen_addresses config)) (status_default now unix_seconds))
      in Ok \<lparr>no_listen_addresses = listen_addresses config,
          no_event_capacity = event_capacity config, no_events_closed = False, no_events = [],
          no_discovery = store_new config, no_status = status, no_ready_listeners = {},
          no_external = [], no_responses = []\<rparr>)"

fun event_status :: "NodeEvent \<Rightarrow> NodeStatus \<Rightarrow> NodeStatus" where
  "event_status (ReservationAccepted _ renewed) = reservation_accepted renewed"
| "event_status (ReservationClosed _) = reservation_closed"
| "event_status (ReservationDenied _) = reservation_denied"
| "event_status (CircuitAccepted _ _) = circuit_accepted"
| "event_status (CircuitClosed _ _) = circuit_closed"
| "event_status (CircuitDenied _ _) = circuit_denied"
| "event_status (NodeDiscoveryRejected _) = discovery_rejected"
| "event_status (NodeListening _) = id"
| "event_status (NodeDiscoveryRegistered _) = id"
| "event_status (NodeDiscoveryUnregistered _) = id"
| "event_status (NodeDiscoveryServed _ _) = id"

definition node_emit :: "NodeEvent \<Rightarrow> NodeServer \<Rightarrow> NodeServer" where
  "node_emit event n =
     (let status = event_status event (no_status n) in
      if no_events_closed n \<or> length (no_events n) \<ge> no_event_capacity n
      then n\<lparr>no_status := event_dropped status\<rparr>
      else n\<lparr>no_status := status, no_events := no_events n @ [event]\<rparr>)"

definition emit_unregistered :: "peer_id list \<Rightarrow> NodeServer \<Rightarrow> NodeServer" where
  "emit_unregistered peers n = fold (\<lambda>peer. node_emit (NodeDiscoveryUnregistered peer)) peers n"

definition count_registrations :: "NodeServer \<Rightarrow> NodeServer" where
  "count_registrations n = n\<lparr>no_status :=
     set_discovery_registrations (length (registrations (no_discovery n))) (no_status n)\<rparr>"

definition expire_discovery :: "instant \<Rightarrow> instant \<Rightarrow> NodeServer \<Rightarrow> NodeServer" where
  "expire_discovery touched now n =
     (let (peers, store) = expire (no_discovery n) now
      in count_registrations (emit_unregistered peers
           (n\<lparr>no_status := touch touched (no_status n), no_discovery := store\<rparr>)))"

fun discovery_event :: "Event \<Rightarrow> NodeEvent" where
  "discovery_event (Registered peer) = NodeDiscoveryRegistered peer"
| "discovery_event (Unregistered peer) = NodeDiscoveryUnregistered peer"
| "discovery_event (Served peer count) = NodeDiscoveryServed peer count"
| "discovery_event (Rejected peer) = NodeDiscoveryRejected peer"

fun handle_discovery_event ::
  "'e record_lib \<Rightarrow> clock \<Rightarrow> ProtocolEvent \<Rightarrow> NodeServer \<Rightarrow> (NodeEvent option \<times> NodeServer) option" where
  "handle_discovery_event L clk OtherProtocolEvent n = Some (None, n)"
| "handle_discovery_event L clk (RequestMessage peer request can_send) n =
     (let n = n\<lparr>no_status := discovery_request (no_status n)\<rparr>;
          (peers, store) = expire (no_discovery n) (clock_expire clk);
          n = emit_unregistered peers (n\<lparr>no_discovery := store\<rparr>)
      in Option.bind (store_handle L (no_discovery n) peer request (clock_handle clk)) (\<lambda>(h, store).
         let n = n\<lparr>no_discovery := store\<rparr> in
         case handled_response h of
           Some response \<Rightarrow>
             if \<not> can_send then Some (Some (NodeDiscoveryRejected peer), n)
             else Some (Some (discovery_event (handled_event h)),
               count_registrations (n\<lparr>no_responses := no_responses n @ [(peer, response)]\<rparr>))
         | None \<Rightarrow> Some (Some (discovery_event (handled_event h)), count_registrations n)))"

fun relay_node_event :: "RelayEvent \<Rightarrow> NodeEvent option" where
  "relay_node_event (ReservationReqAccepted peer renewed) = Some (ReservationAccepted peer renewed)"
| "relay_node_event (ReservationReqDenied peer) = Some (ReservationDenied peer)"
| "relay_node_event (CircuitReqAccepted src dst) = Some (CircuitAccepted src dst)"
| "relay_node_event (CircuitReqDenied src dst) = Some (CircuitDenied src dst)"
| "relay_node_event (RelayCircuitClosed src dst) = Some (CircuitClosed src dst)"
| "relay_node_event (RelayReservationClosed peer) = Some (ReservationClosed peer)"
| "relay_node_event (RelayReservationTimedOut peer) = Some (ReservationClosed peer)"
| "relay_node_event OtherRelayEvent = None"

fun swarm_event ::
  "'e record_lib \<Rightarrow> clock \<Rightarrow> SwarmEvent \<Rightarrow> NodeServer \<Rightarrow> (NodeEvent option \<times> NodeServer) option" where
  "swarm_event L clk (NewListenAddr listener address) n =
     (let ready = insert listener (no_ready_listeners n)
      in Some (Some (NodeListening address),
           n\<lparr>no_external := no_external n @ [address], no_ready_listeners := ready,
             no_status := listeners_ready (card ready) (no_status n)\<rparr>))"
| "swarm_event L clk SwarmConnectionEstablished n =
     Some (None, n\<lparr>no_status := connection_opened (no_status n)\<rparr>)"
| "swarm_event L clk SwarmConnectionClosed n =
     Some (None, n\<lparr>no_status := connection_closed (no_status n)\<rparr>)"
| "swarm_event L clk (ListenerClosed listener) n =
     (let ready = no_ready_listeners n - {listener}
      in Some (None, n\<lparr>no_ready_listeners := ready,
           no_status := listeners_ready (card ready) (no_status n)\<rparr>))"
| "swarm_event L clk (RelayBehaviour e) n = Some (relay_node_event e, n)"
| "swarm_event L clk (RendezvousBehaviour e) n = handle_discovery_event L clk e n"
| "swarm_event L clk OtherEvent n = Some (None, n)"

definition node_handle_event ::
  "'e record_lib \<Rightarrow> clock \<Rightarrow> SwarmEvent \<Rightarrow> NodeServer \<Rightarrow> NodeServer option" where
  "node_handle_event L clk event n =
     map_option (\<lambda>(e, n). case e of Some e \<Rightarrow> node_emit e n | None \<Rightarrow> n)
       (swarm_event L clk event (n\<lparr>no_status := touch (clock_touch clk) (no_status n)\<rparr>))"

section \<open>The loop\<close>

text \<open>What the select of one iteration picks; \<open>connected\<close> is what the swarm says of its peers.\<close>

datatype LoopInput =
    Cancelled
  | FromTheSwarm clock SwarmEvent
  | ExpiryTick instant instant
  | DrainDeadline

datatype LoopOutcome = Waiting | Finished "(NodeError, unit) result"

fun drain_loop :: "'e record_lib \<Rightarrow> (bool \<times> LoopInput) list \<Rightarrow> NodeServer
    \<Rightarrow> (LoopOutcome \<times> NodeServer) option" where
  "drain_loop L [] n = Some (Waiting, n)"
| "drain_loop L ((connected, input) # inputs) n =
     (if \<not> connected then Some (Finished (Ok ()), n) else
      case input of
        DrainDeadline \<Rightarrow> Some (Finished (Ok ()), n)
      | Cancelled \<Rightarrow> drain_loop L inputs n
      | FromTheSwarm clk event \<Rightarrow> Option.bind (node_handle_event L clk event n) (drain_loop L inputs)
      | ExpiryTick touched now \<Rightarrow> drain_loop L inputs (expire_discovery touched now n))"

definition node_drain :: "'e record_lib \<Rightarrow> (bool \<times> LoopInput) list \<Rightarrow> NodeServer
    \<Rightarrow> (LoopOutcome \<times> NodeServer) option" where
  "node_drain L inputs n = drain_loop L inputs (n\<lparr>no_status := begin_drain (no_status n)\<rparr>)"

fun serve_loop :: "'e record_lib \<Rightarrow> bool \<Rightarrow> (bool \<times> LoopInput) list \<Rightarrow> NodeServer
    \<Rightarrow> (LoopOutcome \<times> NodeServer) option" where
  "serve_loop L graceful [] n = Some (Waiting, n)"
| "serve_loop L graceful ((connected, input) # inputs) n =
     (case input of
        Cancelled \<Rightarrow> if \<not> graceful then Some (Finished (Ok ()), n) else node_drain L inputs n
      | FromTheSwarm clk event \<Rightarrow>
          Option.bind (node_handle_event L clk event n) (serve_loop L graceful inputs)
      | ExpiryTick touched now \<Rightarrow> serve_loop L graceful inputs (expire_discovery touched now n)
      | DrainDeadline \<Rightarrow> serve_loop L graceful inputs n)"

text \<open>
  \<^verbatim>\<open>run_loop\<close> with \<^verbatim>\<open>serve\<close>: \<open>listens\<close> says whether the swarm could listen on each address.
\<close>

definition node_run ::
  "'e record_lib \<Rightarrow> bool \<Rightarrow> instant \<Rightarrow> (multiaddr \<Rightarrow> bool) \<Rightarrow> (bool \<times> LoopInput) list \<Rightarrow> NodeServer
   \<Rightarrow> (LoopOutcome \<times> NodeServer) option" where
  "node_run L graceful started listens inputs n =
     (let addresses = no_listen_addresses n;
          n = n\<lparr>no_status := status_start started (no_status n), no_listen_addresses := []\<rparr>
      in map_option (\<lambda>(outcome, n).
           (outcome, if outcome = Waiting then n else n\<lparr>no_status := status_stop (no_status n)\<rparr>))
         (if \<not> list_all listens addresses then Some (Finished (Err Node_Listen), n)
          else serve_loop L graceful inputs n))"

section \<open>Reachable nodes\<close>

text \<open>
  One step of the node or of what surrounds it: an event, an expiry tick, the start, drain and stop
  of the loop, a rejected connection, and the consumer of the event channel.
\<close>

inductive node_step :: "'e record_lib \<Rightarrow> NodeServer \<Rightarrow> NodeServer \<Rightarrow> bool" for L where
  step_event: "node_handle_event L clk event n = Some n' \<Longrightarrow> node_step L n n'"
| step_tick: "node_step L n (expire_discovery touched now n)"
| step_start: "node_step L n (n\<lparr>no_status := status_start now (no_status n),
    no_listen_addresses := []\<rparr>)"
| step_drain: "node_step L n (n\<lparr>no_status := begin_drain (no_status n)\<rparr>)"
| step_stop: "node_step L n (n\<lparr>no_status := status_stop (no_status n)\<rparr>)"
| step_rejected: "node_step L n (n\<lparr>no_status := admission_rejected (no_status n)\<rparr>)"
| step_consume: "node_step L n (n\<lparr>no_events := drop k (no_events n)\<rparr>)"
| step_close: "node_step L n (n\<lparr>no_events_closed := True\<rparr>)"

lemma event_then:
  "node_handle_event L clk event n = Some n1 \<Longrightarrow> (node_step L)\<^sup>*\<^sup>* n1 n' \<Longrightarrow> (node_step L)\<^sup>*\<^sup>* n n'"
  by (meson converse_rtranclp_into_rtranclp step_event)

lemma tick_then:
  "(node_step L)\<^sup>*\<^sup>* (expire_discovery touched now n) n' \<Longrightarrow> (node_step L)\<^sup>*\<^sup>* n n'"
  by (rule converse_rtranclp_into_rtranclp) (rule step_tick)

lemma drain_then:
  "(node_step L)\<^sup>*\<^sup>* (n\<lparr>no_status := begin_drain (no_status n)\<rparr>) n' \<Longrightarrow> (node_step L)\<^sup>*\<^sup>* n n'"
  by (rule converse_rtranclp_into_rtranclp) (rule step_drain)

lemma drain_loop_steps:
  "drain_loop L inputs n = Some (outcome, n') \<Longrightarrow> (node_step L)\<^sup>*\<^sup>* n n'"
proof (induction inputs arbitrary: n)
  case (Cons x inputs)
  obtain connected input where x: "x = (connected, input)" by (cases x)
  show ?case
  proof (cases connected)
    case False
    then show ?thesis using Cons.prems by (simp add: x)
  next
    case True
    note d = Cons.prems [unfolded x drain_loop.simps(2)]
    show ?thesis
    proof (cases input)
      case (FromTheSwarm clk event)
      then obtain n1 where "node_handle_event L clk event n = Some n1"
        "drain_loop L inputs n1 = Some (outcome, n')"
        using d True by (auto simp: Option.bind_eq_Some_conv)
      then show ?thesis using Cons.IH event_then by blast
    next
      case (ExpiryTick touched now)
      then have "drain_loop L inputs (expire_discovery touched now n) = Some (outcome, n')"
        using d True by simp
      then show ?thesis using Cons.IH tick_then by blast
    qed (use d True Cons.IH in simp_all)
  qed
qed simp

lemma serve_loop_steps:
  "serve_loop L graceful inputs n = Some (outcome, n') \<Longrightarrow> (node_step L)\<^sup>*\<^sup>* n n'"
proof (induction inputs arbitrary: n)
  case (Cons x inputs)
  obtain connected input where x: "x = (connected, input)" by (cases x)
  note d = Cons.prems [unfolded x serve_loop.simps(2)]
  show ?case
  proof (cases input)
    case Cancelled
    show ?thesis
    proof (cases graceful)
      case True
      then have "drain_loop L inputs (n\<lparr>no_status := begin_drain (no_status n)\<rparr>) = Some (outcome, n')"
        using d Cancelled by (simp add: node_drain_def)
      then show ?thesis using drain_loop_steps drain_then by blast
    qed (use d Cancelled in simp)
  next
    case (FromTheSwarm clk event)
    then obtain n1 where "node_handle_event L clk event n = Some n1"
      "serve_loop L graceful inputs n1 = Some (outcome, n')"
      using d by (auto simp: Option.bind_eq_Some_conv)
    then show ?thesis using Cons.IH event_then by blast
  next
    case (ExpiryTick touched now)
    then have "serve_loop L graceful inputs (expire_discovery touched now n) = Some (outcome, n')"
      using d by simp
    then show ?thesis using Cons.IH tick_then by blast
  qed (use d Cons.IH in simp)
qed simp

lemma node_run_steps:
  assumes "node_run L graceful started listens inputs n = Some (outcome, n')"
  shows "(node_step L)\<^sup>*\<^sup>* n n'"
proof -
  let ?n = "n\<lparr>no_status := status_start started (no_status n), no_listen_addresses := []\<rparr>"
  obtain n1 where "(if \<not> list_all listens (no_listen_addresses n)
      then Some (Finished (Err Node_Listen), ?n) else serve_loop L graceful inputs ?n) =
      Some (outcome, n1)"
    and n': "n' = (if outcome = Waiting then n1 else n1\<lparr>no_status := status_stop (no_status n1)\<rparr>)"
    using assms by (auto simp: node_run_def Let_def)
  then have "(node_step L)\<^sup>*\<^sup>* ?n n1" by (auto split: if_splits dest: serve_loop_steps)
  then have "(node_step L)\<^sup>*\<^sup>* n n1" using step_start [of L n started]
    by (rule converse_rtranclp_into_rtranclp [rotated])
  then show ?thesis using step_stop [of L n1] by (auto simp: n')
qed


section \<open>Frames\<close>

text \<open>The parts of the status that only the listener and loop operations write.\<close>

definition phase :: "NodeStatus \<Rightarrow> bool \<times> bool \<times> u64 \<times> u64" where
  "phase st = (st_ready st, st_draining st, st_listeners_expected st, st_listeners_ready st)"

lemma phase_event_status: "phase (event_status e st) = phase st"
  by (cases e) (simp_all add: phase_def status_defs Let_def)

lemma node_emit_frame:
  "no_discovery (node_emit e n) = no_discovery n"
  "no_ready_listeners (node_emit e n) = no_ready_listeners n"
  "no_responses (node_emit e n) = no_responses n"
  "no_event_capacity (node_emit e n) = no_event_capacity n"
  "phase (no_status (node_emit e n)) = phase (no_status n)"
  using phase_event_status [of e "no_status n"]
  by (simp_all add: node_emit_def Let_def phase_def event_dropped_def)

lemma node_emit_bounded:
  "length (no_events n) \<le> no_event_capacity n \<Longrightarrow>
   length (no_events (node_emit e n)) \<le> no_event_capacity n"
  by (simp add: node_emit_def Let_def)

lemma emit_unregistered_frame:
  "no_discovery (emit_unregistered ps n) = no_discovery n
   \<and> no_ready_listeners (emit_unregistered ps n) = no_ready_listeners n
   \<and> no_responses (emit_unregistered ps n) = no_responses n
   \<and> no_event_capacity (emit_unregistered ps n) = no_event_capacity n
   \<and> phase (no_status (emit_unregistered ps n)) = phase (no_status n)
   \<and> (length (no_events n) \<le> no_event_capacity n \<longrightarrow>
       length (no_events (emit_unregistered ps n)) \<le> no_event_capacity n)"
proof (induction ps arbitrary: n)
  case (Cons p ps)
  let ?n = "node_emit (NodeDiscoveryUnregistered p) n"
  have "emit_unregistered (p # ps) n = emit_unregistered ps ?n"
    by (simp add: emit_unregistered_def)
  then show ?case using Cons.IH [of ?n] node_emit_frame node_emit_bounded by simp
qed (simp add: emit_unregistered_def)

lemma count_registrations_frame:
  "no_discovery (count_registrations n) = no_discovery n"
  "no_ready_listeners (count_registrations n) = no_ready_listeners n"
  "no_responses (count_registrations n) = no_responses n"
  "no_events (count_registrations n) = no_events n"
  "no_event_capacity (count_registrations n) = no_event_capacity n"
  "phase (no_status (count_registrations n)) = phase (no_status n)"
  by (simp_all add: count_registrations_def phase_def set_discovery_registrations_def)


definition node_inv :: "'e record_lib \<Rightarrow> NodeConfig \<Rightarrow> NodeServer \<Rightarrow> bool" where
  "node_inv L config n \<longleftrightarrow>
     (\<exists>k. store_steps L config k (no_discovery n))
     \<and> finite (no_ready_listeners n)
     \<and> no_event_capacity n = event_capacity config
     \<and> length (no_events n) \<le> event_capacity config
     \<and> st_listeners_expected (no_status n) = u64_saturating (length (listen_addresses config))
     \<and> (st_ready (no_status n) \<longrightarrow> 0 < st_listeners_expected (no_status n)
          \<and> st_listeners_expected (no_status n) \<le> u64_saturating (card (no_ready_listeners n)))"

lemma node_inv_frame:
  assumes "node_inv L config n" and "\<exists>k. store_steps L config k (no_discovery n')"
    and "no_ready_listeners n' = no_ready_listeners n"
    and "no_event_capacity n' = no_event_capacity n"
    and "length (no_events n') \<le> no_event_capacity n"
    and "phase (no_status n') = phase (no_status n)"
  shows "node_inv L config n'"
  using assms by (auto simp: node_inv_def phase_def)

lemma node_inv_emit:
  assumes "node_inv L config n"
  shows "node_inv L config (node_emit e n)"
  by (rule node_inv_frame [OF assms])
    (use assms node_emit_bounded [of n e] in \<open>auto simp: node_emit_frame node_inv_def\<close>)

lemma discovery_event_effect:
  assumes "handle_discovery_event L clk (RequestMessage peer request can_send) n = Some (ev, n')"
  obtains peers s1 h s2 where "expire (no_discovery n) (clock_expire clk) = (peers, s1)"
    "store_handle L s1 peer request (clock_handle clk) = Some (h, s2)"
    "no_discovery n' = s2"
    "no_responses n' = no_responses n @ (case handled_response h of
       Some response \<Rightarrow> if can_send then [(peer, response)] else [] | None \<Rightarrow> [])"
    "no_ready_listeners n' = no_ready_listeners n" "no_event_capacity n' = no_event_capacity n"
    "length (no_events n) \<le> no_event_capacity n \<Longrightarrow> length (no_events n') \<le> no_event_capacity n"
    "phase (no_status n') = phase (no_status n)"
proof -
  let ?n0 = "n\<lparr>no_status := discovery_request (no_status n)\<rparr>"
  obtain peers s1 where e: "expire (no_discovery n) (clock_expire clk) = (peers, s1)"
    by (cases "expire (no_discovery n) (clock_expire clk)")
  define n1 where "n1 = emit_unregistered peers (?n0\<lparr>no_discovery := s1\<rparr>)"
  have n1: "no_discovery n1 = s1" "no_ready_listeners n1 = no_ready_listeners n"
    "no_responses n1 = no_responses n" "no_event_capacity n1 = no_event_capacity n"
    "phase (no_status n1) = phase (no_status n)"
    "length (no_events n) \<le> no_event_capacity n \<Longrightarrow> length (no_events n1) \<le> no_event_capacity n"
    using emit_unregistered_frame [of peers "?n0\<lparr>no_discovery := s1\<rparr>"]
    by (simp_all add: n1_def phase_def discovery_request_def)
  obtain h s2 where h: "store_handle L s1 peer request (clock_handle clk) = Some (h, s2)"
    using assms n1(1) by (auto simp: e Let_def n1_def [symmetric] Option.bind_eq_Some_conv)
  have n': "n' = (case handled_response h of
      Some response \<Rightarrow> if \<not> can_send then n1\<lparr>no_discovery := s2\<rparr>
        else count_registrations (n1\<lparr>no_discovery := s2, no_responses := no_responses n1 @ [(peer, response)]\<rparr>)
    | None \<Rightarrow> count_registrations (n1\<lparr>no_discovery := s2\<rparr>))"
    using assms n1(1)
    by (auto simp: e Let_def n1_def [symmetric] h split: option.splits if_splits)
  have r: "no_discovery n' = s2"
    "no_responses n' = no_responses n @ (case handled_response h of
       Some response \<Rightarrow> if can_send then [(peer, response)] else [] | None \<Rightarrow> [])"
    "no_ready_listeners n' = no_ready_listeners n" "no_event_capacity n' = no_event_capacity n"
    "no_events n' = no_events n1" "phase (no_status n') = phase (no_status n)"
    using n1(2-5) by (simp_all add: n' count_registrations_frame split: option.split)
  show ?thesis
    by (rule that [OF e h r(1-4)]) (use n1(6) r(5,6) in simp_all)
qed

lemma listeners_inv:
  assumes "node_inv L config n" and "finite ready"
  shows "node_inv L config (n\<lparr>no_external := x, no_ready_listeners := ready,
     no_status := listeners_ready (card ready) (no_status n)\<rparr>)"
  using assms by (auto simp: node_inv_def listeners_ready_def Let_def)

lemma node_inv_touch: "node_inv L config n \<Longrightarrow>
    node_inv L config (n\<lparr>no_status := touch now (no_status n)\<rparr>)"
  by (rule node_inv_frame) (auto simp: node_inv_def phase_def touch_def)

lemma swarm_event_inv:
  assumes inv: "node_inv L config n" and s: "swarm_event L clk event n = Some (e, n')"
  shows "node_inv L config n'"
proof (cases event)
  case (NewListenAddr listener address)
  then show ?thesis
    using s listeners_inv [OF inv, of "insert listener (no_ready_listeners n)"] inv
    by (auto simp: Let_def node_inv_def)
next
  case (ListenerClosed listener)
  have "node_inv L config (n\<lparr>no_external := no_external n,
      no_ready_listeners := no_ready_listeners n - {listener},
      no_status := listeners_ready (card (no_ready_listeners n - {listener})) (no_status n)\<rparr>)"
    by (rule listeners_inv [OF inv]) (use inv in \<open>simp add: node_inv_def\<close>)
  then show ?thesis using s ListenerClosed by (auto simp: Let_def)
next
  case (RendezvousBehaviour pe)
  show ?thesis
  proof (cases pe)
    case OtherProtocolEvent
    then show ?thesis using s RendezvousBehaviour inv by simp
  next
    case (RequestMessage peer request can_send)
    have h: "handle_discovery_event L clk (RequestMessage peer request can_send) n = Some (e, n')"
      using s RendezvousBehaviour RequestMessage by simp
    then obtain peers s1 hd s2 where e: "expire (no_discovery n) (clock_expire clk) = (peers, s1)"
      "store_handle L s1 peer request (clock_handle clk) = Some (hd, s2)" "no_discovery n' = s2"
      and f: "no_ready_listeners n' = no_ready_listeners n"
        "no_event_capacity n' = no_event_capacity n"
        "length (no_events n) \<le> no_event_capacity n \<Longrightarrow> length (no_events n') \<le> no_event_capacity n"
        "phase (no_status n') = phase (no_status n)"
      by (rule discovery_event_effect) blast
    obtain k where "store_steps L config k (no_discovery n)" using inv by (auto simp: node_inv_def)
    then have "store_steps L config (Suc (Suc k)) s2"
      using e steps_expire steps_request by metis
    then show ?thesis
      using inv e(3) f by (intro node_inv_frame [OF inv]) (auto simp: node_inv_def)
  qed
qed (use s inv in \<open>auto simp: node_inv_def connection_opened_def connection_closed_def\<close>)

lemma node_inv_tick:
  assumes inv: "node_inv L config n"
  shows "node_inv L config (expire_discovery touched now n)"
proof -
  obtain peers s1 where e: "expire (no_discovery n) now = (peers, s1)"
    by (cases "expire (no_discovery n) now")
  let ?n = "n\<lparr>no_status := touch touched (no_status n), no_discovery := s1\<rparr>"
  obtain k where "store_steps L config k (no_discovery n)" using inv by (auto simp: node_inv_def)
  then have s1: "store_steps L config (Suc k) s1" using e by (rule steps_expire)
  have x: "expire_discovery touched now n = count_registrations (emit_unregistered peers ?n)"
    by (simp add: expire_discovery_def e)
  have touched: "phase (no_status ?n) = phase (no_status n)"
    by (simp add: phase_def touch_def)
  have cap: "length (no_events n) \<le> no_event_capacity n" using inv by (simp add: node_inv_def)
  note f = emit_unregistered_frame [of peers ?n, unfolded touched]
  show ?thesis unfolding x
    by (rule node_inv_frame [OF inv])
      (use s1 f cap in \<open>auto simp: count_registrations_frame\<close>)
qed

lemma node_inv_step: "node_step L n n' \<Longrightarrow> node_inv L config n \<Longrightarrow> node_inv L config n'"
proof (induction rule: node_step.induct)
  case (step_event clk event n n')
  then obtain e n1 where s: "swarm_event L clk event
      (n\<lparr>no_status := touch (clock_touch clk) (no_status n)\<rparr>) = Some (e, n1)"
    and n': "n' = (case e of Some e \<Rightarrow> node_emit e n1 | None \<Rightarrow> n1)"
    by (auto simp: node_handle_event_def)
  have "node_inv L config n1"
    using swarm_event_inv [OF node_inv_touch [OF step_event.prems] s] .
  then show ?case unfolding n' by (cases e) (simp_all add: node_inv_emit)
next
  case (step_tick n touched now)
  then show ?case by (rule node_inv_tick)
qed (auto simp: node_inv_def status_defs)

lemma node_inv_new:
  assumes "node_server_new env_filter_ok config now unix = Ok n"
  shows "node_inv L config n"
  using assms steps_new [of L config]
  by (auto simp: node_server_new_def node_inv_def Let_def status_default_def status_defs
      split: if_splits)

lemma node_inv_reachable:
  assumes "node_server_new env_filter_ok config now unix = Ok n0" and "(node_step L)\<^sup>*\<^sup>* n0 n"
  shows "node_inv L config n"
  using assms(2) node_inv_new [OF assms(1)] by (induction rule: rtranclp_induct) (auto dest: node_inv_step)


lemma swarm_event_draining:
  assumes "swarm_event L clk event n = Some (e, n')"
  shows "st_draining (no_status n') = st_draining (no_status n)"
proof (cases event)
  case (RendezvousBehaviour pe)
  show ?thesis
  proof (cases pe)
    case OtherProtocolEvent
    then show ?thesis using assms RendezvousBehaviour by simp
  next
    case (RequestMessage peer request can_send)
    then have "handle_discovery_event L clk (RequestMessage peer request can_send) n = Some (e, n')"
      using assms RendezvousBehaviour by simp
    then have "phase (no_status n') = phase (no_status n)" by (rule discovery_event_effect)
    then show ?thesis by (simp add: phase_def)
  qed
qed (use assms in \<open>auto simp: status_defs Let_def\<close>)

lemma node_step_draining:
  "node_step L n n' \<Longrightarrow> st_draining (no_status n) \<Longrightarrow> st_draining (no_status n')"
proof (induction rule: node_step.induct)
  case (step_event clk event n n')
  then obtain e n1 where s: "swarm_event L clk event
      (n\<lparr>no_status := touch (clock_touch clk) (no_status n)\<rparr>) = Some (e, n1)"
    and n': "n' = (case e of Some e \<Rightarrow> node_emit e n1 | None \<Rightarrow> n1)"
    by (auto simp: node_handle_event_def)
  have "st_draining (no_status n1)"
    using swarm_event_draining [OF s] step_event.prems by (simp add: touch_def)
  then show ?case using node_emit_frame(5) [of _ n1]
    unfolding n' by (cases e) (simp_all add: phase_def)
next
  case (step_tick n touched now)
  then show ?case
    using emit_unregistered_frame count_registrations_frame(6)
    by (simp add: expire_discovery_def split_def Let_def phase_def touch_def)
qed (auto simp: status_defs)

lemma u64_saturating_le:
  assumes "u64_saturating a \<le> u64_saturating b" and "a < 2 ^ 64 - 1"
  shows "a \<le> b"
proof (cases "b < 2 ^ 64")
  case True
  then show ?thesis using assms by (simp add: u64_saturating_def word_le_nat_alt unat_of_nat)
next
  case False
  then show ?thesis using assms(2) by simp
qed

lemma ready_means_listening:
  assumes "node_server_new env_filter_ok config now unix = Ok n0" and "(node_step L)\<^sup>*\<^sup>* n0 n"
    and "is_ready (no_status n)"
  shows "length (listen_addresses config) \<le> card (no_ready_listeners n)"
proof -
  have "node_config_validate env_filter_ok config"
    using assms(1) by (simp add: node_server_new_def split: if_splits)
  then have small: "length (listen_addresses config) < 2 ^ 64 - 1"
    by (simp add: node_config_validate_def MAX_LISTENERS_def)
  then show ?thesis
    using node_inv_reachable [OF assms(1,2)] assms(3) u64_saturating_le [OF _ small]
    by (auto simp: is_ready_def node_inv_def)
qed

section \<open>Properties\<close>

text \<open>
  C34: The node's readiness is honest. In every state reachable from a freshly built node, by any
  events and loop transitions, a node that reports ready has all its configured listeners bound;
  once draining has begun it never reports ready again; and the buffer of operational events never
  exceeds its capacity.
\<close>
theorem node_readiness:
  assumes "node_server_new env_filter_ok config now unix = Ok n0" and "(node_step L)\<^sup>*\<^sup>* n0 n"
  shows "(is_ready (no_status n) \<longrightarrow>
      length (listen_addresses config) \<le> card (no_ready_listeners n))
    \<and> (st_draining (no_status n) \<longrightarrow>
      (\<forall>n'. (node_step L)\<^sup>*\<^sup>* n n' \<longrightarrow> \<not> is_ready (no_status n')))
    \<and> length (no_events n) \<le> event_capacity config"
proof -
  have inv: "node_inv L config n" using node_inv_reachable [OF assms] .
  have "st_draining (no_status n')" if "(node_step L)\<^sup>*\<^sup>* m n'" "st_draining (no_status m)" for m n'
    using that by (induction rule: rtranclp_induct) (auto dest: node_step_draining)
  then show ?thesis
    using inv ready_means_listening [OF assms] by (auto simp: is_ready_def node_inv_def)
qed


lemma discover_page_entries:
  assumes d: "discover s peer ns cookie limit = (h, s')"
    and p: "handled_response h = Some (DiscoverResponse (Ok page))"
    and w: "w \<in> set (page_registrations page)"
  obtains q r where "ns = Some (wr_namespace w)" "((q, wr_namespace w), r) \<in> set (registrations s)"
    "w = wire_registration (wr_namespace w) r"
proof (cases rule: discover_cases [of s peer ns cookie limit])
  case (refused status)
  then show ?thesis using d p by (simp add: rejected_def)
next
  case (served n seen)
  let ?found = "take (requested_results s limit) (sort_key fst
      (map (\<lambda>((_, n), r). (reg_id r, wire_registration n r))
        (filter (\<lambda>((_, n'), r). n' = n \<and> reg_id r \<notin> seen) (registrations s))))"
  have "page_registrations page = map snd ?found"
    using d p served(4) by (auto simp: Let_def split_def)
  then obtain i where "(i, w) \<in> set ?found" using w by auto
  then obtain q r where "((q, n), r) \<in> set (registrations s)" "w = wire_registration n r"
    by (auto dest!: in_set_takeD)
  then show ?thesis using that [of q r] served(1) by (simp add: wire_registration_def)
qed

text \<open>
  C33: The node only serves live, authentic registrations. In a reachable node, every registration
  on a discovery page it answers with belongs to the namespace asked for, was stored under the
  peer that signed its record, and had not expired at the sweep the node makes before answering.
\<close>
theorem node_serves_live_registrations:
  assumes new: "node_server_new env_filter_ok config now unix = Ok n0"
    and reach: "(node_step L)\<^sup>*\<^sup>* n0 n"
    and h: "handle_discovery_event L clk (RequestMessage peer (Discover ns cookie limit) True) n =
      Some (e, n')"
    and answer: "no_responses n' = no_responses n @ [(peer, DiscoverResponse (Ok page))]"
    and w: "w \<in> set (page_registrations page)"
  shows "ns = Some (wr_namespace w) \<and> (\<exists>q r envelope record.
      map_of (registrations (no_discovery n)) (q, wr_namespace w) = Some r
      \<and> w = wire_registration (wr_namespace w) r
      \<and> clock_expire clk < reg_expires_at r
      \<and> from_protobuf_encoding L (wr_signed_record w) = Some envelope
      \<and> from_signed_envelope L envelope = Some record
      \<and> record_peer_id record = q)"
proof -
  obtain k where k: "store_steps L config k (no_discovery n)"
    using node_inv_reachable [OF new reach] by (auto simp: node_inv_def)
  obtain peers s1 hd s2 where e: "expire (no_discovery n) (clock_expire clk) = (peers, s1)"
    and hd: "store_handle L s1 peer (Discover ns cookie limit) (clock_handle clk) = Some (hd, s2)"
    and r: "no_responses n' = no_responses n @ (case handled_response hd of
       Some response \<Rightarrow> if True then [(peer, response)] else [] | None \<Rightarrow> [])"
    using h by (rule discovery_event_effect)
  have resp: "handled_response hd = Some (DiscoverResponse (Ok page))"
    using r answer by (cases "handled_response hd") auto
  have d: "distinct (map fst (registrations (no_discovery n)))"
    using full_inv_reachable [OF k] by (simp add: full_inv_def regs_inv_def)
  have s1: "registrations s1 = filter (\<lambda>(_, r). clock_expire clk < reg_expires_at r)
      (registrations (no_discovery n))"
    using expire_result(1) [OF d, of "clock_expire clk"] e by simp
  from hd show ?thesis
  proof (cases rule: handle_admit)
    case (denied rs)
    then show ?thesis using resp by (simp add: rejected_def)
  next
    case (discover s0 ns' cookie' limit' rs)
    obtain q r where q: "ns = Some (wr_namespace w)"
      "((q, wr_namespace w), r) \<in> set (registrations s0)" "w = wire_registration (wr_namespace w) r"
      using discover_page_entries [OF discover(4) resp w] discover(1) by auto
    have "((q, wr_namespace w), r) \<in> set (registrations (no_discovery n))"
      and live: "clock_expire clk < reg_expires_at r"
      using q(2) discover(3) s1 by auto
    then have l: "map_of (registrations (no_discovery n)) (q, wr_namespace w) = Some r"
      using d by simp
    have rec: "wr_signed_record w = reg_signed_record r"
      using arg_cong [OF q(3), of wr_signed_record] by (simp add: wire_registration_def)
    show ?thesis
      using registration_authentic(1) [OF k l] l live q(1,3) rec by auto
  qed auto
qed

end
