(* ===== verification/Sample_Node.thy ===== *)
theory Sample_Node
  imports Sample_Discovery Node_Server
begin

text \<open>
  A node with the default configuration that accepts one registration and serves it; the
  properties of \<open>Node_Server\<close> are applied to it.
\<close>

definition sample_node :: NodeServer where
  "sample_node = \<lparr>no_listen_addresses = listen_addresses node_config_default,
     no_event_capacity = 256, no_events_closed = False, no_events = [],
     no_discovery = store_new node_config_default,
     no_status = configure_capacities 512 128 64 256 (expect_listeners 2 (status_default 0 0)),
     no_ready_listeners = {}, no_external = [], no_responses = []\<rparr>"

lemma sample_node_new: "node_server_new (\<lambda>_. True) node_config_default 0 0 = Ok sample_node"
  by (simp add: node_server_new_def sample_config_valid sample_node_def)
    (simp add: node_config_default_def numeral_2_eq_2)

definition sample_clock :: clock where
  "sample_clock = \<lparr>clock_touch = 0, clock_expire = 0, clock_handle = 0\<rparr>"

definition sample_registered_node :: NodeServer where
  "sample_registered_node = (case node_handle_event sample_records sample_clock
     (RendezvousBehaviour (RequestMessage [1] (Register sample_room [1] None) True)) sample_node of
       Some n \<Rightarrow> n | None \<Rightarrow> sample_node)"

lemma sample_sweep: "expire (store_new node_config_default) 0 = ([], store_new node_config_default)"
  by (simp add: expire_def sample_new)

lemma sample_node_step:
  "node_handle_event sample_records sample_clock
     (RendezvousBehaviour (RequestMessage [1] (Register sample_room [1] None) True)) sample_node =
   Some sample_registered_node"
  by (simp add: sample_registered_node_def node_handle_event_def sample_clock_def sample_node_def
      sample_sweep emit_unregistered_def sample_registered)

lemma sample_registered_discovery: "no_discovery sample_registered_node = sample_discovery"
  by (simp add: sample_registered_node_def node_handle_event_def sample_clock_def sample_node_def
      sample_sweep emit_unregistered_def sample_registered node_emit_frame count_registrations_frame)

lemma sample_node_reachable: "(node_step sample_records)\<^sup>*\<^sup>* sample_node sample_registered_node"
  using step_event [OF sample_node_step] by blast

lemma sample_sweep_registered: "expire sample_discovery 0 = ([], sample_discovery)"
  by (simp add: expire_def sample_discovery_def sample_registration_def)

definition sample_page :: DiscoveryPage where
  "sample_page = \<lparr>page_registrations = [wire_registration sample_room sample_registration],
     page_cookie = be64 1 @ sample_room\<rparr>"

lemma sample_discovered:
  "\<exists>s. store_handle sample_records sample_discovery [2] (Discover (Some sample_room) None None) 0 =
     Some (\<lparr>handled_response = Some (DiscoverResponse (Ok sample_page)), handled_event = Served [2] 1\<rparr>, s)"
  by (simp add: sample_eval discover_def insert_cookie_def requested_results_def sample_page_def
      WINDOW_def secs_def)

lemma sample_served:
  "\<exists>e n. handle_discovery_event sample_records sample_clock
     (RequestMessage [2] (Discover (Some sample_room) None None) True) sample_registered_node =
       Some (e, n)
     \<and> no_responses n = no_responses sample_registered_node @
         [([2], DiscoverResponse (Ok sample_page))]"
proof -
  obtain s where s: "store_handle sample_records sample_discovery [2]
      (Discover (Some sample_room) None None) 0 =
     Some (\<lparr>handled_response = Some (DiscoverResponse (Ok sample_page)),
       handled_event = Served [2] 1\<rparr>, s)"
    using sample_discovered by blast
  show ?thesis
    by (simp add: sample_clock_def sample_registered_discovery sample_sweep_registered
        emit_unregistered_def s count_registrations_frame)
qed

theorem node_readiness_witness:
  "length (no_events sample_registered_node) \<le> event_capacity node_config_default"
  using node_readiness [OF sample_node_new sample_node_reachable] by blast

theorem node_serves_live_registrations_witness:
  "\<exists>q r. map_of (registrations sample_discovery) (q, sample_room) = Some r \<and> 0 < reg_expires_at r"
proof -
  obtain e n where h: "handle_discovery_event sample_records sample_clock
     (RequestMessage [2] (Discover (Some sample_room) None None) True) sample_registered_node =
       Some (e, n)"
    and r: "no_responses n = no_responses sample_registered_node @
         [([2], DiscoverResponse (Ok sample_page))]"
    using sample_served by blast
  have w: "wire_registration sample_room sample_registration \<in> set (page_registrations sample_page)"
    by (simp add: sample_page_def)
  show ?thesis
    using node_serves_live_registrations [OF sample_node_new sample_node_reachable h r w]
    by (auto simp: sample_registered_discovery sample_clock_def wire_registration_def)
qed

end
