(* ===== verification/Admission.thy ===== *)
theory Admission
  imports Hash_Maps Node_Status
begin

text \<open>
  Source-address admission of inbound connections before any cryptography,
  \<^verbatim>\<open>node/src/admission.rs\<close>. The behaviour's three tables are association lists as in \<open>Hash_Maps\<close>;
  the status it shares with the node is passed along. \<^verbatim>\<open>duration_since\<close> saturates at zero.
\<close>

definition RATE_WINDOW :: duration where "RATE_WINDOW = secs 60"

type_synonym connection_id = nat

record RateBucket =
  rb_started :: instant
  rb_attempts :: u32

record Admission =
  ad_max_connections_per_ip :: nat
  ad_attempts_per_minute :: u32
  ad_max_rate_ips :: nat
  ad_pending :: "(connection_id \<times> ip_address) list"
  ad_established :: "(connection_id \<times> ip_address) list"
  ad_rate :: "(ip_address \<times> RateBucket) list"

definition admission_new :: "NodeConfig \<Rightarrow> Admission" where
  "admission_new config = \<lparr>ad_max_connections_per_ip = max_connections_per_ip config,
     ad_attempts_per_minute = connection_attempts_per_ip_per_minute config,
     ad_max_rate_ips = connection_rate_limit_ips config,
     ad_pending = [], ad_established = [], ad_rate = []\<rparr>"

fun source_ip :: "multiaddr \<Rightarrow> ip_address option" where
  "source_ip [] = None"
| "source_ip (Ip4 a b c d # ps) = Some (V4 a b c d)"
| "source_ip (Ip6 a b c d e f g h # ps) = Some (V6 a b c d e f g h)"
| "source_ip (_ # ps) = source_ip ps"

definition admission_admit ::
  "Admission \<Rightarrow> connection_id \<Rightarrow> multiaddr \<Rightarrow> instant \<Rightarrow> bool \<times> Admission" where
  "admission_admit a connection_id remote_addr now =
     (case source_ip remote_addr of None \<Rightarrow> (False, a) | Some ip \<Rightarrow>
      let connections =
        length (filter (\<lambda>candidate. candidate = ip)
          (map snd (ad_pending a) @ map snd (ad_established a))) in
      if connections \<ge> ad_max_connections_per_ip a then (False, a) else
      let full = (map_of (ad_rate a) ip = None \<and> length (ad_rate a) = ad_max_rate_ips a);
          a = (if full then a\<lparr>ad_rate :=
                filter (\<lambda>(_, bucket). now - rb_started bucket < RATE_WINDOW) (ad_rate a)\<rparr> else a)
      in
      if full \<and> length (ad_rate a) = ad_max_rate_ips a then (False, a) else
      let bucket = (case map_of (ad_rate a) ip of
            Some bucket \<Rightarrow> bucket | None \<Rightarrow> \<lparr>rb_started = now, rb_attempts = 0\<rparr>);
          bucket = (if now - rb_started bucket \<ge> RATE_WINDOW
            then \<lparr>rb_started = now, rb_attempts = 0\<rparr> else bucket)
      in
      if rb_attempts bucket \<ge> ad_attempts_per_minute a
      then (False, a\<lparr>ad_rate := AList.update ip bucket (ad_rate a)\<rparr>)
      else (True, a\<lparr>
        ad_rate := AList.update ip (bucket\<lparr>rb_attempts := rb_attempts bucket + 1\<rparr>) (ad_rate a),
        ad_pending := AList.update connection_id ip (ad_pending a)\<rparr>))"

definition admission_release :: "Admission \<Rightarrow> connection_id \<Rightarrow> Admission" where
  "admission_release a connection_id =
     a\<lparr>ad_pending := AList.delete connection_id (ad_pending a),
       ad_established := AList.delete connection_id (ad_established a)\<rparr>"

definition handle_pending_inbound_connection ::
  "Admission \<Rightarrow> NodeStatus \<Rightarrow> connection_id \<Rightarrow> multiaddr \<Rightarrow> instant
   \<Rightarrow> bool \<times> Admission \<times> NodeStatus" where
  "handle_pending_inbound_connection a status connection_id remote_addr now =
     (let (admitted, a) = admission_admit a connection_id remote_addr now in
      (admitted, a, if \<not> admitted then admission_rejected status else status))"

datatype FromSwarm =
    ConnectionEstablished connection_id
  | ConnectionClosed connection_id
  | ListenFailure connection_id
  | OtherSwarmEvent

fun on_swarm_event :: "Admission \<Rightarrow> FromSwarm \<Rightarrow> Admission" where
  "on_swarm_event a (ConnectionEstablished connection_id) =
     (case map_of (ad_pending a) connection_id of
        Some ip \<Rightarrow> a\<lparr>ad_pending := AList.delete connection_id (ad_pending a),
          ad_established := AList.update connection_id ip (ad_established a)\<rparr>
      | None \<Rightarrow> a)"
| "on_swarm_event a (ConnectionClosed connection_id) = admission_release a connection_id"
| "on_swarm_event a (ListenFailure connection_id) = admission_release a connection_id"
| "on_swarm_event a OtherSwarmEvent = a"

section \<open>Invariant\<close>

definition ip_connections :: "Admission \<Rightarrow> ip_address \<Rightarrow> nat" where
  "ip_connections a ip = length (filter (\<lambda>(_, i). i = ip) (ad_pending a))
     + length (filter (\<lambda>(_, i). i = ip) (ad_established a))"

definition admission_inv :: "NodeConfig \<Rightarrow> Admission \<Rightarrow> bool" where
  "admission_inv config a \<longleftrightarrow>
     ad_max_connections_per_ip a = max_connections_per_ip config
     \<and> ad_attempts_per_minute a = connection_attempts_per_ip_per_minute config
     \<and> ad_max_rate_ips a = connection_rate_limit_ips config
     \<and> distinct (map fst (ad_pending a)) \<and> distinct (map fst (ad_established a))
     \<and> distinct (map fst (ad_rate a))
     \<and> (\<forall>ip. ip_connections a ip \<le> max_connections_per_ip config)
     \<and> length (ad_rate a) \<le> connection_rate_limit_ips config
     \<and> (\<forall>(ip, b) \<in> set (ad_rate a).
          rb_attempts b \<le> connection_attempts_per_ip_per_minute config)"

lemma filter_update_le:
  "length (filter (\<lambda>(_, i). i = ip) (AList.update k v al)) \<le>
     length (filter (\<lambda>(_, i). i = ip) al) + of_bool (v = ip)"
  by (induction al) auto

lemma filter_delete_le:
  "length (filter (\<lambda>(_, i). i = ip) (AList.delete k al)) \<le> length (filter (\<lambda>(_, i). i = ip) al)"
  by (induction al) auto

lemma filter_delete_present:
  "map_of al k = Some ip \<Longrightarrow> length (filter (\<lambda>(_, i). i = ip) (AList.delete k al)) <
     length (filter (\<lambda>(_, i). i = ip) al)"
proof (induction al)
  case (Cons x al)
  then show ?case using filter_delete_le [of ip k al]
    by (cases x) (auto simp: less_Suc_eq_le split: if_splits)
qed simp

lemma filter_snd: "length (filter (\<lambda>c. c = ip) (map snd al)) = length (filter (\<lambda>(_, i). i = ip) al)"
  by (induction al) auto

lemma admission_inv_new: "admission_inv config (admission_new config)"
  by (simp add: admission_inv_def admission_new_def ip_connections_def)

lemma admission_inv_release: "admission_inv config a \<Longrightarrow> admission_inv config (admission_release a c)"
proof -
  assume inv: "admission_inv config a"
  have "ip_connections (admission_release a c) ip \<le> ip_connections a ip" for ip
    unfolding ip_connections_def admission_release_def
    using filter_delete_le [of ip c "ad_pending a"] filter_delete_le [of ip c "ad_established a"]
    by simp
  then show ?thesis using inv unfolding admission_inv_def
    by (auto simp: admission_release_def AList.distinct_delete intro: order_trans)
qed

lemma admission_inv_swarm: "admission_inv config a \<Longrightarrow> admission_inv config (on_swarm_event a e)"
proof (cases e)
  case (ConnectionEstablished c)
  assume inv: "admission_inv config a"
  show ?thesis
  proof (cases "map_of (ad_pending a) c")
    case None
    then show ?thesis using inv ConnectionEstablished by simp
  next
    case (Some ip)
    let ?a = "a\<lparr>ad_pending := AList.delete c (ad_pending a),
          ad_established := AList.update c ip (ad_established a)\<rparr>"
    have "ip_connections ?a i \<le> ip_connections a i" for i
      using filter_delete_le [of i c "ad_pending a"] filter_update_le [of i c ip "ad_established a"]
        filter_delete_present [OF Some]
      by (cases "i = ip") (auto simp: ip_connections_def)
    then show ?thesis using inv unfolding ConnectionEstablished on_swarm_event.simps Some option.case
        admission_inv_def
      by (auto simp: AList.distinct_delete AList.distinct_update intro: order_trans)
  qed
qed (simp_all add: admission_inv_release)


definition live_buckets :: "Admission \<Rightarrow> instant \<Rightarrow> (ip_address \<times> RateBucket) list" where
  "live_buckets a now = filter (\<lambda>(_, b). now - rb_started b < RATE_WINDOW) (ad_rate a)"

definition current_bucket :: "(ip_address \<times> RateBucket) list \<Rightarrow> ip_address \<Rightarrow> instant \<Rightarrow> RateBucket" where
  "current_bucket rate ip now =
     (let b = (case map_of rate ip of Some b \<Rightarrow> b | None \<Rightarrow> \<lparr>rb_started = now, rb_attempts = 0\<rparr>)
      in if now - rb_started b \<ge> RATE_WINDOW then \<lparr>rb_started = now, rb_attempts = 0\<rparr> else b)"

lemma admit_cases:
  assumes "admission_admit a c addr now = (b, a')"
  obtains (refused) rate where "\<not> b" "a' = a\<lparr>ad_rate := rate\<rparr>"
      "rate = ad_rate a \<or> rate = live_buckets a now"
  | (counted) ip rate where "source_ip addr = Some ip"
      "rate = ad_rate a \<or> rate = live_buckets a now \<and> length rate \<noteq> ad_max_rate_ips a"
      "map_of rate ip = None \<Longrightarrow> length rate \<noteq> ad_max_rate_ips a"
      "b \<and> ip_connections a ip < ad_max_connections_per_ip a
         \<and> rb_attempts (current_bucket rate ip now) < ad_attempts_per_minute a
         \<and> a' = a\<lparr>ad_rate := AList.update ip (current_bucket rate ip now
               \<lparr>rb_attempts := rb_attempts (current_bucket rate ip now) + 1\<rparr>) rate,
             ad_pending := AList.update c ip (ad_pending a)\<rparr>
       \<or> \<not> b \<and> a' = a\<lparr>ad_rate := AList.update ip (current_bucket rate ip now) rate\<rparr>"
proof (cases "source_ip addr")
  case None
  then show ?thesis using assms by (intro refused [of "ad_rate a"]) (simp_all add: admission_admit_def)
next
  case (Some ip)
  have count: "length (filter (\<lambda>c. c = ip) (map snd (ad_pending a) @ map snd (ad_established a))) =
      ip_connections a ip"
    unfolding ip_connections_def filter_append length_append filter_snd ..
  define full where
    "full \<longleftrightarrow> map_of (ad_rate a) ip = None \<and> length (ad_rate a) = ad_max_rate_ips a"
  define rate where "rate = (if full then live_buckets a now else ad_rate a)"
  have rate: "(if full then a\<lparr>ad_rate := live_buckets a now\<rparr> else a) = a\<lparr>ad_rate := rate\<rparr>"
    by (simp add: rate_def)
  note d = assms [unfolded admission_admit_def Some option.case Let_def count full_def [symmetric]
    live_buckets_def [symmetric] rate]
  show ?thesis
  proof (cases "ip_connections a ip \<ge> ad_max_connections_per_ip a")
    case True
    then show ?thesis using d by (intro refused [of "ad_rate a"]) auto
  next
    case few: False
    show ?thesis
    proof (cases "full \<and> length rate = ad_max_rate_ips a")
      case True
      then show ?thesis using d few by (intro refused [of rate]) (auto simp: rate_def)
    next
      case False
      have cur: "current_bucket rate ip now =
          (if RATE_WINDOW \<le> now - rb_started (case map_of rate ip of
                None \<Rightarrow> \<lparr>rb_started = now, rb_attempts = 0\<rparr> | Some b \<Rightarrow> b)
           then \<lparr>rb_started = now, rb_attempts = 0\<rparr>
           else case map_of rate ip of None \<Rightarrow> \<lparr>rb_started = now, rb_attempts = 0\<rparr> | Some b \<Rightarrow> b)"
        by (simp add: current_bucket_def Let_def)
      have "b \<and> ip_connections a ip < ad_max_connections_per_ip a
         \<and> rb_attempts (current_bucket rate ip now) < ad_attempts_per_minute a
         \<and> a' = a\<lparr>ad_rate := AList.update ip (current_bucket rate ip now
               \<lparr>rb_attempts := rb_attempts (current_bucket rate ip now) + 1\<rparr>) rate,
             ad_pending := AList.update c ip (ad_pending a)\<rparr>
       \<or> \<not> b \<and> a' = a\<lparr>ad_rate := AList.update ip (current_bucket rate ip now) rate\<rparr>"
        using d few False unfolding cur by (auto simp: not_le word_gt_0 split: if_splits)
      then show ?thesis
        using False by (intro counted [OF Some, of rate]) (auto simp: rate_def full_def)
    qed
  qed
qed

lemma admission_inv_admit:
  assumes inv: "admission_inv config a" and a: "admission_admit a c addr now = (b, a')"
  shows "admission_inv config a'"
proof -
  have live: "distinct (map fst (live_buckets a now))" "set (live_buckets a now) \<subseteq> set (ad_rate a)"
      "length (live_buckets a now) \<le> connection_rate_limit_ips config"
    using inv order_trans [OF length_filter_le]
    by (auto simp: live_buckets_def admission_inv_def intro: distinct_keys_filter)
  show ?thesis
    using a
  proof (cases rule: admit_cases)
    case (refused rate)
    then show ?thesis using inv live
      by (auto simp: admission_inv_def ip_connections_def)
  next
    case (counted ip rate)
    have rate: "distinct (map fst rate)" "set rate \<subseteq> set (ad_rate a)"
        "length rate \<le> connection_rate_limit_ips config"
      using counted(2) inv live by (auto simp: admission_inv_def)
    have old: "rb_attempts (current_bucket rate ip now) \<le> connection_attempts_per_ip_per_minute config"
      using inv rate(2) by (auto simp: current_bucket_def Let_def admission_inv_def
          dest!: map_of_SomeD split: option.split)
    define bucket where "bucket = (if b then current_bucket rate ip now
        \<lparr>rb_attempts := rb_attempts (current_bucket rate ip now) + 1\<rparr>
      else current_bucket rate ip now)"
    have bucket: "rb_attempts bucket \<le> connection_attempts_per_ip_per_minute config"
      using old counted(4) inv inc_le by (auto simp: bucket_def admission_inv_def)
    have len: "length (AList.update ip bucket rate) \<le> connection_rate_limit_ips config"
      by (rule alist.bounded_insert [OF rate(1,3)])
        (use counted(3) rate(3) inv in \<open>auto simp: admission_inv_def\<close>)
    have a': "a' = a\<lparr>ad_rate := AList.update ip bucket rate,
        ad_pending := if b then AList.update c ip (ad_pending a) else ad_pending a\<rparr>"
      using counted(4) by (auto simp: bucket_def)
    have conns: "ip_connections a' i \<le> max_connections_per_ip config" for i
      using filter_update_le [of i c ip "ad_pending a"] counted(4) inv
      by (cases "i = ip") (auto simp: a' ip_connections_def admission_inv_def
          dest: spec [of _ i])
    show ?thesis
      using inv conns len bucket rate set_update_subset [of ip bucket rate]
        AList.distinct_update [of rate ip bucket]
        AList.distinct_update [of "ad_pending a" c ip]
      unfolding admission_inv_def by (auto simp: a')
  qed
qed


section \<open>Runs\<close>

datatype AdmissionEvent = Pending connection_id multiaddr instant | Swarm FromSwarm

text \<open>A run of the behaviour, with the source of every connection it admitted.\<close>

fun admission_run :: "Admission \<Rightarrow> AdmissionEvent list \<Rightarrow> ip_address list \<times> Admission" where
  "admission_run a [] = ([], a)"
| "admission_run a (Pending c addr now # events) =
     (let (b, a) = admission_admit a c addr now; (ips, a) = admission_run a events
      in (if b then the (source_ip addr) # ips else ips, a))"
| "admission_run a (Swarm e # events) = admission_run (on_swarm_event a e) events"

lemma admission_inv_run: "admission_inv config a \<Longrightarrow> admission_inv config (snd (admission_run a events))"
proof (induction a events rule: admission_run.induct)
  case (2 a c addr now events)
  obtain b a' where a: "admission_admit a c addr now = (b, a')"
    by (cases "admission_admit a c addr now")
  have "admission_inv config (snd (admission_run a' events))"
    using "2.IH" [OF a [symmetric] refl] admission_inv_admit [OF "2.prems" a] by simp
  then show ?case by (simp add: a split_def Let_def)
qed (simp_all add: admission_inv_swarm)

text \<open>
  How many further attempts of an address the minute from \<open>t\<close> on can admit, given its bucket: the
  rest of a bucket opened in that minute, all of a new bucket when the old one has run out, and the
  rest of the old bucket followed by a new one when the minute starts inside the old bucket's.
\<close>

definition allowance :: "nat \<Rightarrow> instant \<Rightarrow> RateBucket option \<Rightarrow> nat" where
  "allowance limit t bucket =
     (case bucket of None \<Rightarrow> limit
      | Some b \<Rightarrow> if t \<le> rb_started b then limit - unat (rb_attempts b)
          else if rb_started b + RATE_WINDOW \<le> t then limit
          else limit + (limit - unat (rb_attempts b)))"

abbreviation ip_allowance :: "Admission \<Rightarrow> ip_address \<Rightarrow> instant \<Rightarrow> nat" where
  "ip_allowance a ip t \<equiv> allowance (unat (ad_attempts_per_minute a)) t (map_of (ad_rate a) ip)"

lemma allowance_le: "allowance limit t bucket \<le> 2 * limit"
  by (auto simp: allowance_def split: option.split)

lemma allowance_live_buckets:
  assumes "distinct (map fst (ad_rate a))" and "t \<le> now" "now < t + RATE_WINDOW"
    and "rate = ad_rate a \<or> rate = live_buckets a now"
  shows "allowance limit t (map_of rate ip) \<le> allowance limit t (map_of (ad_rate a) ip)"
  using assms
  by (auto simp: live_buckets_def map_of_filter_value allowance_def split: option.splits if_splits)

text \<open>Using one attempt of the current bucket uses one of the allowance.\<close>

lemma allowance_current_bucket:
  assumes "t \<le> now" "now < t + RATE_WINDOW"
  shows "allowance limit t (Some (current_bucket rate ip now)) \<le> allowance limit t (map_of rate ip)"
    and "rb_attempts (current_bucket rate ip now) < cap \<Longrightarrow> unat cap = limit \<Longrightarrow>
      allowance limit t (Some (current_bucket rate ip now
        \<lparr>rb_attempts := rb_attempts (current_bucket rate ip now) + 1\<rparr>)) < allowance limit t (map_of rate ip)"
proof -
  have inc: "unat (x + 1) = Suc (unat x)" if "x < cap" for x :: u32
    using that unsigned_less [of cap, where ?'a = nat] by (simp add: word_less_nat_alt unat_word_ariths)
  show "allowance limit t (Some (current_bucket rate ip now)) \<le> allowance limit t (map_of rate ip)"
    using assms by (auto simp: current_bucket_def allowance_def Let_def split: option.split)
  show "allowance limit t (Some (current_bucket rate ip now
        \<lparr>rb_attempts := rb_attempts (current_bucket rate ip now) + 1\<rparr>)) < allowance limit t (map_of rate ip)"
    if "rb_attempts (current_bucket rate ip now) < cap" "unat cap = limit"
    using assms that inc [OF that(1)]
    by (auto simp: current_bucket_def allowance_def Let_def word_less_nat_alt split: option.split if_splits)
qed

lemma admit_allowance:
  assumes a: "admission_admit a c addr now = (b, a')" and inv: "admission_inv config a"
    and t: "t \<le> now" "now < t + RATE_WINDOW"
  shows "of_bool (b \<and> source_ip addr = Some ip) + ip_allowance a' ip t \<le> ip_allowance a ip t"
proof -
  have distinct: "distinct (map fst (ad_rate a))" using inv by (simp add: admission_inv_def)
  note live = allowance_live_buckets [OF distinct t]
  show ?thesis
    using a
  proof (cases rule: admit_cases)
    case (refused rate)
    then show ?thesis using live [OF refused(3)] by simp
  next
    case (counted i rate)
    have rate: "ip_allowance (a\<lparr>ad_rate := rate\<rparr>) ip t \<le> ip_allowance a ip t"
      using live [of rate] counted(2) by auto
    show ?thesis
    proof (cases "i = ip")
      case True
      define cur where "cur = current_bucket rate ip now"
      have kept: "allowance limit t (Some cur) \<le> allowance limit t (map_of rate ip)" for limit
        unfolding cur_def by (rule allowance_current_bucket(1) [OF t])
      have used: "allowance (unat (ad_attempts_per_minute a)) t (Some (cur\<lparr>rb_attempts := rb_attempts cur + 1\<rparr>))
          < ip_allowance (a\<lparr>ad_rate := rate\<rparr>) ip t" if "rb_attempts cur < ad_attempts_per_minute a"
        using allowance_current_bucket(2) [OF t, of rate ip "ad_attempts_per_minute a"] that
        by (simp add: cur_def)
      show ?thesis
        using counted(1,4) rate True kept [of "unat (ad_attempts_per_minute a)"] used
        unfolding True cur_def [symmetric] by (cases b) (auto simp: AList.update_conv')
    next
      case False
      then show ?thesis using counted(1,4) rate by (auto simp: AList.update_conv')
    qed
  qed
qed

lemma swarm_rate: "ad_rate (on_swarm_event a e) = ad_rate a"
  by (cases e) (auto simp: admission_release_def split: option.split)

lemma swarm_limit: "ad_attempts_per_minute (on_swarm_event a e) = ad_attempts_per_minute a"
  by (cases e) (auto simp: admission_release_def split: option.split)

fun event_within :: "instant \<Rightarrow> instant \<Rightarrow> AdmissionEvent \<Rightarrow> bool" where
  "event_within t t' (Pending c addr now) = (t \<le> now \<and> now < t')"
| "event_within t t' (Swarm e) = True"

lemma run_allowance:
  assumes "admission_inv config a" and "list_all (event_within t (t + RATE_WINDOW)) events"
  shows "count_list (fst (admission_run a events)) ip \<le> ip_allowance a ip t"
  using assms
proof (induction a events rule: admission_run.induct)
  case (2 a c addr now events)
  obtain b a' where a: "admission_admit a c addr now = (b, a')"
    by (cases "admission_admit a c addr now")
  have step: "of_bool (b \<and> source_ip addr = Some ip) + ip_allowance a' ip t \<le> ip_allowance a ip t"
    using admit_allowance [OF a "2.prems"(1)] "2.prems"(2) by simp
  have some: "b \<Longrightarrow> source_ip addr \<noteq> None"
    using a by (cases rule: admit_cases) auto
  have "count_list (fst (admission_run a' events)) ip \<le> ip_allowance a' ip t"
    using "2.IH" [OF a [symmetric] refl] admission_inv_admit [OF "2.prems"(1) a] "2.prems"(2) by simp
  then show ?case using step some
    by (cases "source_ip addr"; cases b) (auto simp: a split_def Let_def)
next
  case (3 a e events)
  then show ?case
    using "3.IH" [OF admission_inv_swarm [OF "3.prems"(1)]] by (simp add: swarm_rate swarm_limit)
qed simp

text \<open>
  C35: Admission of inbound connections is bounded. After any history of connection attempts and
  swarm events, each source address has at most the configured number of pending and established
  connections together, and the table of rate buckets is within its bound. From there, whatever else
  happens within any minute, at most the configured number of attempts of an address are admitted
  when its bucket is absent or has run out at the start of that minute, and at most twice that
  number in every other case, where the minute starts inside a bucket of the address.
\<close>
theorem admission_bounded:
  assumes "admission_run (admission_new config) history = (before, a)"
  shows "(\<forall>ip. ip_connections a ip \<le> max_connections_per_ip config)
    \<and> length (ad_rate a) \<le> connection_rate_limit_ips config
    \<and> (\<forall>ip t events. list_all (event_within t (t + RATE_WINDOW)) events \<longrightarrow>
         count_list (fst (admission_run a events)) ip
           \<le> (if \<forall>b. map_of (ad_rate a) ip = Some b \<longrightarrow> rb_started b + RATE_WINDOW \<le> t then 1 else 2)
               * unat (connection_attempts_per_ip_per_minute config))"
proof -
  have inv: "admission_inv config a"
    using admission_inv_run [OF admission_inv_new, of config history] assms by simp
  then have cap: "ad_attempts_per_minute a = connection_attempts_per_ip_per_minute config"
    by (simp add: admission_inv_def)
  have "allowance limit t bucket \<le> limit" if "\<forall>b. bucket = Some b \<longrightarrow> rb_started b + RATE_WINDOW \<le> t"
    for limit t and bucket :: "RateBucket option"
    using that by (simp add: allowance_def split: option.split)
  note bounds = this allowance_le
  have "count_list (fst (admission_run a events)) ip
      \<le> (if \<forall>b. map_of (ad_rate a) ip = Some b \<longrightarrow> rb_started b + RATE_WINDOW \<le> t then 1 else 2)
          * unat (connection_attempts_per_ip_per_minute config)"
    if "list_all (event_within t (t + RATE_WINDOW)) events" for ip t events
    using run_allowance [OF inv that, of ip] bounds(1) [of "map_of (ad_rate a) ip" t] bounds(2)
    unfolding cap by (auto intro: order_trans)
  then show ?thesis using inv by (simp add: admission_inv_def)
qed

text \<open>A first connection from an address, and two more in the minute that follows.\<close>

definition sample_source :: multiaddr where
  "sample_source = [Ip4 192 0 2 1, Tcp 4001]"

theorem admission_bounded_witness:
  "count_list (fst (admission_run
       (snd (admission_run (admission_new node_config_default) [Pending 1 sample_source 0]))
       [Pending 2 sample_source 1, Pending 3 sample_source 2])) (V4 192 0 2 1)
     \<le> 2 * unat (connection_attempts_per_ip_per_minute node_config_default)"
proof -
  obtain before a where run:
      "admission_run (admission_new node_config_default) [Pending 1 sample_source 0] = (before, a)"
    by fastforce
  have "list_all (event_within 1 (1 + RATE_WINDOW)) [Pending 2 sample_source 1, Pending 3 sample_source 2]"
    by (simp add: RATE_WINDOW_def secs_def)
  then have "count_list (fst (admission_run a [Pending 2 sample_source 1, Pending 3 sample_source 2]))
      (V4 192 0 2 1) \<le> 2 * unat (connection_attempts_per_ip_per_minute node_config_default)"
    using admission_bounded [OF run] by (smt (verit) mult_le_mono1 one_le_numeral order_trans)
  then show ?thesis unfolding run snd_conv .
qed

end
