(* ===== verification/Private_Output.thy ===== *)
theory Private_Output
  imports Core_Types
begin

text \<open>
  Private atomic file output, \<^verbatim>\<open>core/src/local/output.rs\<close> on Unix. The file system is a map from
  canonical paths to entries. What the system does is a parameter: canonical directories, the name
  and the mode of the temporary file, the failure of each call, and what other processes change between the
  check of the destination and the final rename. The function returns the states of the file
  system an observer can see, in order, the last being the state it leaves.
\<close>

datatype path_component = RootDir | CurDir | ParentDir | Normal bytes

type_synonym path = "path_component list"

datatype fs_entry = Regular bytes nat | Directory | Symlink | Special

type_synonym fs = "path \<Rightarrow> fs_entry option"

record PrivateOutputOptions =
  po_replace :: bool
  po_durable :: bool

record output_system =
  os_canonicalize :: "path \<Rightarrow> path option"
  os_inspect :: bool
  os_temporary :: "path \<Rightarrow> path option"
  os_temporary_mode :: nat
  os_set_permissions :: bool
  os_write :: bool
  os_written :: nat
  os_sync :: bool
  os_others :: "fs \<Rightarrow> fs"
  os_rename :: bool
  os_sync_parent :: bool

definition path_file_name :: "path \<Rightarrow> bytes option" where
  "path_file_name path =
     (if path = [] then None else case last path of Normal name \<Rightarrow> Some name | _ \<Rightarrow> None)"

definition path_parent :: "path \<Rightarrow> path option" where
  "path_parent path = (if path = [] \<or> last path = RootDir then None else Some (butlast path))"

definition destination_parent :: "path \<Rightarrow> path" where
  "destination_parent destination =
     (case path_parent destination of
        Some parent \<Rightarrow> if parent = [] then [CurDir] else parent
      | None \<Rightarrow> [CurDir])"

text \<open>\<open>os_inspect\<close> is false when the metadata cannot be read for a reason other than absence.\<close>

definition validate_destination ::
  "output_system \<Rightarrow> fs \<Rightarrow> path \<Rightarrow> bool \<Rightarrow> (CoreError, unit) result" where
  "validate_destination S fs destination replace =
     (if \<not> os_inspect S then Err Core_Output
      else case fs destination of
        None \<Rightarrow> Ok ()
      | Some (Regular _ _) \<Rightarrow> if replace then Ok () else Err Core_Output
      | Some _ \<Rightarrow> Err Core_Output)"

definition PRIVATE_MODE :: nat where "PRIVATE_MODE = 6 * 64"

text \<open>
  Renaming over the destination fails for a directory, renaming without clobbering for any entry.
  A temporary file that is not persisted is removed.
\<close>

definition can_rename :: "output_system \<Rightarrow> fs \<Rightarrow> path \<Rightarrow> bool \<Rightarrow> bool" where
  "can_rename S fs destination replace \<longleftrightarrow> os_rename S \<and>
     (if replace then fs destination \<noteq> Some Directory else fs destination = None)"

definition persist :: "fs \<Rightarrow> path \<Rightarrow> path \<Rightarrow> fs" where
  "persist fs temporary destination = (fs(destination := fs temporary))(temporary := None)"

text \<open>
  The temporary file is created empty, with the mode the library gives it (\<open>os_temporary_mode\<close>);
  \<^verbatim>\<open>make_private\<close> then sets the private mode, and writing keeps the mode the file has.
\<close>

fun with_mode :: "nat \<Rightarrow> fs_entry \<Rightarrow> fs_entry" where
  "with_mode mode (Regular content _) = Regular content mode"
| "with_mode mode entry = entry"

fun with_content :: "bytes \<Rightarrow> fs_entry \<Rightarrow> fs_entry" where
  "with_content content (Regular _ mode) = Regular content mode"
| "with_content content entry = entry"

definition make_private :: "output_system \<Rightarrow> fs \<Rightarrow> path \<Rightarrow> (unit, fs) result" where
  "make_private S fs temporary =
     (if os_set_permissions S
      then Ok (fs(temporary := map_option (with_mode PRIVATE_MODE) (fs temporary))) else Err ())"

definition write_content :: "fs \<Rightarrow> path \<Rightarrow> bytes \<Rightarrow> fs" where
  "write_content fs temporary content =
     fs(temporary := map_option (with_content content) (fs temporary))"

definition write_private_atomic ::
  "output_system \<Rightarrow> fs \<Rightarrow> path \<Rightarrow> bytes \<Rightarrow> PrivateOutputOptions \<Rightarrow>
    (CoreError, unit) result \<times> fs list" where
  "write_private_atomic S fs destination payload options =
     (case path_file_name destination of
        None \<Rightarrow> (Err Core_Output, [fs])
      | Some file_name \<Rightarrow>
      if file_name = [] then (Err Core_Output, [fs]) else
      case os_canonicalize S (destination_parent destination) of
        None \<Rightarrow> (Err Core_Output, [fs])
      | Some canonical_parent \<Rightarrow>
      let safe_destination = canonical_parent @ [Normal file_name] in
      case validate_destination S fs safe_destination (po_replace options) of
        Inl e \<Rightarrow> (Err e, [fs])
      | Inr _ \<Rightarrow>
      case os_temporary S canonical_parent of
        None \<Rightarrow> (Err Core_Output, [fs])
      | Some temporary \<Rightarrow>
      let created = fs(temporary \<mapsto> Regular [] (os_temporary_mode S)) in
      case make_private S created temporary of
        Inl _ \<Rightarrow> (Err Core_Output, [fs, created, created(temporary := None)])
      | Inr private \<Rightarrow>
      if \<not> os_write S then
        let partial = write_content private temporary (take (os_written S) payload) in
        (Err Core_Output, [fs, created, private, partial, partial(temporary := None)]) else
      let written = write_content private temporary payload in
      if po_durable options \<and> \<not> os_sync S then
        (Err Core_Output, [fs, created, private, written, written(temporary := None)]) else
      let changed = os_others S written in
      if \<not> can_rename S changed safe_destination (po_replace options) then
        (Err Core_Output, [fs, created, private, written, changed, changed(temporary := None)]) else
      let persisted = persist changed temporary safe_destination in
      (if po_durable options \<and> \<not> os_sync_parent S then Err Core_Output else Ok (),
       [fs, created, private, written, changed, persisted]))"

lemmas write_private_defs = write_private_atomic_def make_private_def write_content_def

section \<open>Atomicity\<close>

text \<open>
  What is assumed of the system: the temporary file has a new name in the directory, different
  from the destination, and other processes leave it alone.
\<close>

definition well_behaved :: "output_system \<Rightarrow> fs \<Rightarrow> path \<Rightarrow> bool" where
  "well_behaved S fs target \<longleftrightarrow>
     (\<forall>d t. os_temporary S d = Some t \<longrightarrow> t \<noteq> target \<and> fs t = None \<and> (\<forall>s. os_others S s t = s t))"

text \<open>The canonical path of a destination.\<close>

definition canonical_destination :: "output_system \<Rightarrow> path \<Rightarrow> path option" where
  "canonical_destination S destination =
     (case (path_file_name destination, os_canonicalize S (destination_parent destination)) of
        (Some name, Some parent) \<Rightarrow> Some (parent @ [Normal name])
      | _ \<Rightarrow> None)"

text \<open>The possible runs: refused before anything is created, abandoned, or persisted.\<close>

lemma write_private_atomic_runs:
  assumes "write_private_atomic S fs destination payload options = (result, states)"
    and "canonical_destination S destination = Some target"
  obtains (refused) "result = Err Core_Output" "states = [fs]"
  | (abandoned) temporary parent content where "os_temporary S parent = Some temporary"
      "result = Err Core_Output" "fs target = None \<or> po_replace options"
      "states = [fs, fs(temporary \<mapsto> Regular [] (os_temporary_mode S)), fs(temporary := None)] \<or>
       states = [fs, fs(temporary \<mapsto> Regular [] (os_temporary_mode S)),
         fs(temporary \<mapsto> Regular [] PRIVATE_MODE), fs(temporary \<mapsto> Regular content PRIVATE_MODE),
         fs(temporary := None)]"
  | (lost) temporary parent changed where "os_temporary S parent = Some temporary"
      "result = Err Core_Output" "fs target = None \<or> po_replace options"
      "changed = os_others S (fs(temporary \<mapsto> Regular payload PRIVATE_MODE))"
      "states = [fs, fs(temporary \<mapsto> Regular [] (os_temporary_mode S)),
         fs(temporary \<mapsto> Regular [] PRIVATE_MODE), fs(temporary \<mapsto> Regular payload PRIVATE_MODE), changed, changed(temporary := None)]"
  | (persisted) temporary parent changed where "os_temporary S parent = Some temporary"
      "result = (if po_durable options \<and> \<not> os_sync_parent S then Err Core_Output else Ok ())"
      "changed = os_others S (fs(temporary \<mapsto> Regular payload PRIVATE_MODE))"
      "fs target = None \<or> po_replace options" "changed target = None \<or> po_replace options"
      "states = [fs, fs(temporary \<mapsto> Regular [] (os_temporary_mode S)),
         fs(temporary \<mapsto> Regular [] PRIVATE_MODE), fs(temporary \<mapsto> Regular payload PRIVATE_MODE), changed, persist changed temporary target]"
proof -
  obtain name parent where np: "path_file_name destination = Some name"
      "os_canonicalize S (destination_parent destination) = Some parent" "target = parent @ [Normal name]"
    using assms(2) by (auto simp: canonical_destination_def split: option.splits)
  show ?thesis
  proof (cases "name = [] \<or> validate_destination S fs target (po_replace options) \<noteq> Ok () \<or>
      os_temporary S parent = None")
    case True
    then have "result = Err Core_Output" "states = [fs]"
      using assms(1) by (auto simp: write_private_atomic_def np validate_destination_def Let_def
          split: if_splits option.splits fs_entry.splits sum.splits)
    then show ?thesis by (rule refused)
  next
    case False
    then obtain t where t: "os_temporary S parent = Some t" and name: "name \<noteq> []"
      and valid: "validate_destination S fs target (po_replace options) = Ok ()" by auto
    have free: "fs target = None \<or> po_replace options"
      using valid by (auto simp: validate_destination_def split: if_splits option.splits fs_entry.splits)
    note unfold = assms(1) [unfolded write_private_atomic_def np(1) option.case if_not_P [OF name] np(2)
        Let_def np(3) [symmetric] valid sum.case t make_private_def write_content_def]
    show ?thesis
    proof (cases "\<not> os_set_permissions S \<or> \<not> os_write S \<or> po_durable options \<and> \<not> os_sync S")
      case True
      then show ?thesis
        using unfold abandoned [OF t _ free, of "take (os_written S) payload"]
          abandoned [OF t _ free, of payload] by (auto split: if_splits)
    next
      case False
      then show ?thesis
        using unfold lost [OF t _ free refl] persisted [OF t _ refl free]
        by (auto simp: can_rename_def split: if_splits)
    qed
  qed
qed

text \<open>Success leaves the whole payload at the destination.\<close>

lemma write_private_atomic_stored:
  assumes "write_private_atomic S fs destination payload options = (Ok (), states)"
  obtains target where "canonical_destination S destination = Some target"
    "well_behaved S fs target \<Longrightarrow> last states target = Some (Regular payload PRIVATE_MODE)"
proof -
  obtain target where target: "canonical_destination S destination = Some target"
    using assms by (auto simp: write_private_atomic_def canonical_destination_def Let_def
        split: option.splits if_splits)
  have "last states target = Some (Regular payload PRIVATE_MODE)" if "well_behaved S fs target"
    using assms target
    by (cases rule: write_private_atomic_runs)
      (use that in \<open>auto simp: well_behaved_def persist_def fun_upd_def\<close>)
  then show ?thesis using that target by blast
qed

text \<open>What other processes left at a path, starting from a state.\<close>

definition left_by_others :: "output_system \<Rightarrow> fs \<Rightarrow> path \<Rightarrow> fs_entry option \<Rightarrow> bool" where
  "left_by_others S fs path entry \<longleftrightarrow>
     entry = fs path \<or> (\<exists>s. s path = fs path \<and> entry = os_others S s path)"

lemma left_by_others_start: "left_by_others S fs path (fs path)"
  by (simp add: left_by_others_def)

lemma left_by_others_kept: "s path = fs path \<Longrightarrow> left_by_others S fs path (os_others S s path)"
  by (auto simp: left_by_others_def)

lemma well_behavedD:
  assumes "well_behaved S fs target" and "os_temporary S d = Some t"
  shows "t \<noteq> target" "fs t = None" "os_others S s t = s t"
  using assms by (auto simp: well_behaved_def)

text \<open>The moment just before the rename, when other processes may have changed the file system.\<close>

lemma changed_by_others:
  assumes "well_behaved S fs target" and "os_temporary S parent = Some t"
    and "changed = os_others S (fs(t \<mapsto> entry))"
  shows "target \<noteq> t" "fs(t := None) = fs" "left_by_others S fs target (changed target)"
    "os_temporary S d = Some t' \<Longrightarrow> t' \<noteq> target \<and> fs t' = None \<and> changed t' = (if t' = t then Some entry else None)"
    "os_others S = id \<Longrightarrow> changed = fs(t \<mapsto> entry)"
proof -
  note temp = well_behavedD [OF assms(1)]
  show ne: "target \<noteq> t" and "fs(t := None) = fs"
    using temp(1,2) [OF assms(2)] by (simp_all add: fun_upd_idem)
  show "left_by_others S fs target (changed target)"
    using left_by_others_kept [of "fs(t \<mapsto> entry)"] ne by (simp add: assms(3))
  show "t' \<noteq> target \<and> fs t' = None \<and> changed t' = (if t' = t then Some entry else None)"
    if "os_temporary S d = Some t'"
    using temp [OF that] by (simp add: assms(3))
  show "changed = fs(t \<mapsto> entry)" if "os_others S = id" using that by (simp add: assms(3))
qed

lemma persist_lookup:
  assumes "changed t = Some entry" and "target \<noteq> t"
  shows "persist changed t target p = (if p = t then None else if p = target then Some entry else changed p)"
  using assms by (simp add: persist_def)

text \<open>
  C12: Private output is atomic, private and never clobbers by accident. At every moment an observer,
  or a crash, finds at the destination either what other processes left there or the whole payload
  with owner-only permissions, and in the temporary file only owner-readable content (before the
  first byte is written it is empty, with the mode it was created with); without
  \<^verbatim>\<open>replace\<close> an entry once seen at the destination stays, also one that another process creates
  after the check; no temporary file is left behind; when nobody else interferes, success writes
  exactly the destination, and failure changes nothing unless only the final sync of the directory
  failed.
\<close>
theorem private_output_atomic:
  assumes "write_private_atomic S fs destination payload options = (result, states)"
    and "canonical_destination S destination = Some target" and "well_behaved S fs target"
  shows "(\<forall>s \<in> set states. left_by_others S fs target (s target) \<or>
       s target = Some (Regular payload PRIVATE_MODE))
    \<and> (\<forall>d t. \<forall>s \<in> set states. os_temporary S d = Some t \<and> s t \<noteq> None \<longrightarrow>
         (\<exists>content. s t = Some (Regular content PRIVATE_MODE)) \<or> s t = Some (Regular [] (os_temporary_mode S)))
    \<and> (\<not> po_replace options \<longrightarrow> (\<forall>s \<in> set states. s target \<noteq> None \<longrightarrow> last states target = s target))
    \<and> (\<forall>d t. os_temporary S d = Some t \<longrightarrow> last states t = None)
    \<and> (result = Ok () \<longrightarrow> last states target = Some (Regular payload PRIVATE_MODE))
    \<and> (os_others S = id \<longrightarrow> last states =
         (if result = Ok () \<or> last states target \<noteq> fs target \<and> po_durable options \<and> \<not> os_sync_parent S
          then fs(target \<mapsto> Regular payload PRIVATE_MODE) else fs))"
proof -
  note temp = well_behavedD [OF assms(3)] and start = left_by_others_start [of S fs target]
  show ?thesis
    using assms(1,2)
  proof (cases rule: write_private_atomic_runs)
    case refused
    then show ?thesis using start temp by auto
  next
    case (abandoned t parent content)
    have ne: "target \<noteq> t" using temp(1) [OF abandoned(1)] by simp
    have none: "fs t' = None" if "os_temporary S d = Some t'" for d t' using temp(2) [OF that] .
    have undo: "fs(t := None) = fs" using temp(2) [OF abandoned(1)] by (simp add: fun_upd_idem)
    show ?thesis using abandoned(2,4) start ne none unfolding undo by (auto split: if_splits)
  next
    case (lost t parent changed)
    note facts = changed_by_others [OF assms(3) lost(1,4)]
    show ?thesis
      using lost(2,3,5) start facts(1,3) facts(4,5) by (auto simp: facts(2) split: if_splits)
  next
    case (persisted t parent changed)
    note facts = changed_by_others [OF assms(3) persisted(1,3)]
    have after: "persist changed t target p = (if p = t then None else if p = target
        then Some (Regular payload PRIVATE_MODE) else changed p)" for p
      using facts(4) [OF persisted(1)] facts(1) by (simp add: persist_lookup)
    have all: "persist changed t target = fs(target \<mapsto> Regular payload PRIVATE_MODE)" if "os_others S = id"
      using facts(5) [OF that] facts(1) temp(2) [OF persisted(1)] by (auto simp: after fun_eq_iff)
    show ?thesis
      using persisted(2,4,5,6) start facts(1,3) facts(4) all by (auto simp: after split: if_splits)
  qed
qed

definition sample_output_system :: output_system where
  "sample_output_system = \<lparr>os_canonicalize = \<lambda>_. Some [RootDir], os_inspect = True,
     os_temporary = \<lambda>_. Some [RootDir, Normal [1]], os_temporary_mode = PRIVATE_MODE, os_set_permissions = True, os_write = True,
     os_written = 0, os_sync = True, os_others = id, os_rename = True, os_sync_parent = True\<rparr>"

theorem private_output_atomic_witness:
  "last (snd (write_private_atomic sample_output_system Map.empty [Normal [2]] [65]
      \<lparr>po_replace = False, po_durable = True\<rparr>)) = [[RootDir, Normal [2]] \<mapsto> Regular [65] PRIVATE_MODE]"
proof -
  let ?o = "\<lparr>po_replace = False, po_durable = True\<rparr>"
  obtain result states where run:
      "write_private_atomic sample_output_system Map.empty [Normal [2]] [65] ?o = (result, states)" by fastforce
  moreover have "result = Ok ()"
    using run by (simp add: write_private_defs sample_output_system_def path_file_name_def
        validate_destination_def can_rename_def Let_def)
  moreover have "canonical_destination sample_output_system [Normal [2]] = Some [RootDir, Normal [2]]"
    by (simp add: canonical_destination_def path_file_name_def sample_output_system_def)
  moreover have "well_behaved sample_output_system Map.empty [RootDir, Normal [2]]"
    by (simp add: well_behaved_def sample_output_system_def)
  ultimately show ?thesis
    using private_output_atomic [OF run, of "[RootDir, Normal [2]]"] by (simp add: sample_output_system_def)
qed

end
