(* ===== verification/Operations.thy ===== *)
theory Operations
  imports Node_Status
begin

text \<open>
  The loopback operations endpoint, \<^verbatim>\<open>node/src/operations.rs\<close>: binding, the
  accept loop over a bounded set of connections and the answer to one request. The socket is
  outside: a connection is the bytes of its first read (or a failed or timed-out one), and
  \<open>write_all\<close> says whether the response could be written in time.
  Texts are ASCII byte lists.
\<close>

definition MAX_REQUEST_BYTES :: nat where "MAX_REQUEST_BYTES = 8 * 1024"
definition MAX_OPERATIONS_CONNECTIONS :: nat where "MAX_OPERATIONS_CONNECTIONS = 32"

text \<open>\<open>bound\<close> is what binding the socket gives.\<close>

definition operations_bind :: "SocketAddr \<Rightarrow> 'listener option \<Rightarrow> (NodeError, 'listener) result" where
  "operations_bind address bound =
     (if \<not> ip_is_loopback (sa_ip address) then Err Node_Configuration
      else ok_or Node_Operations bound)"

definition operations_local_addr :: "SocketAddr option \<Rightarrow> (NodeError, SocketAddr) result" where
  "operations_local_addr address = ok_or Node_Operations address"

text \<open>\<^verbatim>\<open>str::lines().next()\<close>: up to the first newline, without a carriage return before it.\<close>

definition first_line :: "bytes \<Rightarrow> bytes option" where
  "first_line s =
     (if s = [] then None else
      let line = takeWhile (\<lambda>b. b \<noteq> 10) s in
      if length line < length s \<and> line \<noteq> [] \<and> last line = 13 then Some (butlast line)
      else Some line)"

definition get_requests :: "string list \<Rightarrow> bytes list" where
  "get_requests paths = concat (map (\<lambda>path.
     [ascii (''GET '' @ path @ '' HTTP/1.1''), ascii (''GET '' @ path @ '' HTTP/1.0'')]) paths)"

definition operations_answer :: "NodeStatus \<Rightarrow> instant \<Rightarrow> bytes option \<Rightarrow> string \<times> string \<times> string" where
  "operations_answer status now line =
     (let plain = ''text/plain; charset=utf-8'' in
      case line of
        None \<Rightarrow> (''404 Not Found'', plain, ''not found'' @ newline)
      | Some line \<Rightarrow>
          if line \<in> set (get_requests [''/healthz'', ''/health/live'']) then
            (if is_live status now then (''200 OK'', plain, ''ok'' @ newline)
             else (''503 Service Unavailable'', plain, ''unhealthy'' @ newline))
          else if line \<in> set (get_requests [''/readyz'', ''/health/ready'']) then
            (if is_ready status then (''200 OK'', plain, ''ready'' @ newline)
             else (''503 Service Unavailable'', plain, ''not ready'' @ newline))
          else if line \<in> set (get_requests [''/metrics'']) then
            (''200 OK'', ''application/openmetrics-text; version=1.0.0; charset=utf-8'',
             metrics status now)
          else if take 4 line \<noteq> ascii ''GET '' then
            (''405 Method Not Allowed'', plain, ''method not allowed'' @ newline)
          else (''404 Not Found'', plain, ''not found'' @ newline))"

definition crlf :: string where "crlf = [char_of (13 :: nat), char_of (10 :: nat)]"

definition operations_response :: "string \<times> string \<times> string \<Rightarrow> string" where
  "operations_response answer =
     (case answer of (code, content_type, body) \<Rightarrow>
        ''HTTP/1.1 '' @ code @ crlf @ ''Content-Type: '' @ content_type @ crlf
        @ ''Content-Length: '' @ decimal (length body) @ crlf
        @ ''Connection: close'' @ crlf @ crlf @ body)"

definition serve_connection ::
  "NodeStatus \<Rightarrow> instant \<Rightarrow> bytes option \<Rightarrow> (string \<Rightarrow> bool) \<Rightarrow> (NodeError, string) result" where
  "serve_connection status now input write_all =
     bind_res (ok_or Node_Operations input) (\<lambda>request.
     let request = take MAX_REQUEST_BYTES request;
         line = (if utf8_valid request then first_line request else None);
         response = operations_response (operations_answer status now line)
     in if write_all response then Ok response else Err Node_Operations)"

section \<open>The accept loop\<close>

text \<open>
  \<^verbatim>\<open>OperationsServer::run\<close> with its semaphore and its set of tasks. What happens next is an input:
  the cancellation, a finished task joined, the outcome of \<^verbatim>\<open>accept\<close>, or a spawned task that
  serves its connection (with the node's status and the clock of that moment) and gives its permit
  back. A connection accepted without a permit is dropped. Returning aborts every task.
\<close>

record 'c OperationsRun =
  or_permits :: nat
  or_serving :: "'c list"
  or_ended :: "'c list"
  or_answers :: "('c \<times> (NodeError, string) result) list"

datatype 'c OperationsInput =
    OpsCancelled
  | OpsJoined
  | OpsAccepted "'c option"
  | OpsServed 'c NodeStatus instant "bytes option" "string \<Rightarrow> bool"

definition operations_start :: "'c OperationsRun" where
  "operations_start = \<lparr>or_permits = MAX_OPERATIONS_CONNECTIONS, or_serving = [], or_ended = [],
     or_answers = []\<rparr>"

definition abort_all :: "'c OperationsRun \<Rightarrow> 'c OperationsRun" where
  "abort_all r = r\<lparr>or_permits := or_permits r + length (or_serving r), or_serving := [], or_ended := []\<rparr>"

definition operations_spawn :: "'c \<Rightarrow> 'c OperationsRun \<Rightarrow> 'c OperationsRun" where
  "operations_spawn c r =
     (if or_permits r = 0 then r
      else r\<lparr>or_permits := or_permits r - 1, or_serving := or_serving r @ [c]\<rparr>)"

definition operations_serve ::
  "'c \<Rightarrow> (NodeError, string) result \<Rightarrow> 'c OperationsRun \<Rightarrow> 'c OperationsRun" where
  "operations_serve c answer r =
     (if c \<notin> set (or_serving r) then r
      else r\<lparr>or_permits := or_permits r + 1, or_serving := remove1 c (or_serving r),
        or_ended := or_ended r @ [c], or_answers := or_answers r @ [(c, answer)]\<rparr>)"

text \<open>The result is absent while the loop still runs.\<close>

fun operations_run :: "'c OperationsInput list \<Rightarrow> 'c OperationsRun
    \<Rightarrow> (NodeError, unit) result option \<times> 'c OperationsRun" where
  "operations_run [] r = (None, r)"
| "operations_run (OpsCancelled # inputs) r = (Some (Ok ()), abort_all r)"
| "operations_run (OpsJoined # inputs) r = operations_run inputs (r\<lparr>or_ended := tl (or_ended r)\<rparr>)"
| "operations_run (OpsAccepted None # inputs) r = (Some (Err Node_Operations), abort_all r)"
| "operations_run (OpsAccepted (Some c) # inputs) r = operations_run inputs (operations_spawn c r)"
| "operations_run (OpsServed c status now input write_all # inputs) r =
     operations_run inputs (operations_serve c (serve_connection status now input write_all) r)"

text \<open>
  Every permit is free or held by exactly one connection being served, and only what was accepted
  is served or answered.
\<close>

definition operations_inv :: "'c set \<Rightarrow> 'c OperationsRun \<Rightarrow> bool" where
  "operations_inv accepted r \<longleftrightarrow>
     or_permits r + length (or_serving r) = MAX_OPERATIONS_CONNECTIONS
     \<and> set (or_serving r) \<subseteq> accepted \<and> fst ` set (or_answers r) \<subseteq> accepted"

lemma operations_inv_start: "operations_inv A operations_start"
  by (simp add: operations_inv_def operations_start_def)

lemma operations_inv_abort: "operations_inv A r \<Longrightarrow> operations_inv A (abort_all r)"
  by (simp add: operations_inv_def abort_all_def)

lemma operations_inv_spawn:
  "operations_inv A r \<Longrightarrow> c \<in> A \<Longrightarrow> operations_inv A (operations_spawn c r)"
  by (auto simp: operations_inv_def operations_spawn_def)

lemma operations_inv_serve:
  "operations_inv A r \<Longrightarrow> operations_inv A (operations_serve c answer r)"
  using set_remove1_subset [of c "or_serving r"] length_pos_if_in_set [of c "or_serving r"]
  by (auto simp del: length_greater_0_conv simp: operations_inv_def operations_serve_def length_remove1)

lemma operations_inv_run:
  assumes "operations_inv A r" and "\<And>c. OpsAccepted (Some c) \<in> set inputs \<Longrightarrow> c \<in> A"
  shows "operations_inv A (snd (operations_run inputs r))"
  using assms
proof (induction inputs r rule: operations_run.induct)
  case (3 inputs r)
  then show ?case by (simp add: operations_inv_def)
qed (auto intro: operations_inv_abort operations_inv_spawn operations_inv_serve)

lemma operations_run_returned:
  "fst (operations_run inputs r) \<noteq> None \<Longrightarrow> or_serving (snd (operations_run inputs r)) = []"
  by (induction inputs r rule: operations_run.induct) (auto simp: abort_all_def)

lemma operations_run_cancelled:
  assumes "OpsAccepted None \<notin> set before"
  shows "fst (operations_run (before @ OpsCancelled # after) r) = Some (Ok ())"
  using assms by (induction before r rule: operations_run.induct) auto

lemma operations_run_failed:
  assumes "OpsCancelled \<notin> set before"
  shows "fst (operations_run (before @ OpsAccepted None # after) r) = Some (Err Node_Operations)"
  using assms by (induction before r rule: operations_run.induct) auto

text \<open>
  C36: The operations endpoint bounds its connections and stops. Whatever is accepted, served and
  joined, at most 32 connections are served at a time, each holding one of the 32 permits, and only
  accepted connections are answered; the endpoint returns successfully at the first cancellation
  that no failed accept precedes, and fails at the first failed accept; once it has returned no
  connection is served any more and every permit is free again.
\<close>
theorem operations_connections_bounded:
  assumes "operations_run inputs operations_start = (result, r)"
  shows "or_permits r + length (or_serving r) = MAX_OPERATIONS_CONNECTIONS
    \<and> (\<forall>c. c \<in> set (or_serving r) \<or> c \<in> fst ` set (or_answers r) \<longrightarrow>
         OpsAccepted (Some c) \<in> set inputs)
    \<and> (\<forall>before after. inputs = before @ OpsCancelled # after \<and> OpsAccepted None \<notin> set before \<longrightarrow>
         result = Some (Ok ()))
    \<and> (\<forall>before after. inputs = before @ OpsAccepted None # after \<and> OpsCancelled \<notin> set before \<longrightarrow>
         result = Some (Err Node_Operations))
    \<and> (result \<noteq> None \<longrightarrow> or_serving r = [] \<and> or_permits r = MAX_OPERATIONS_CONNECTIONS)"
proof -
  let ?A = "{c. OpsAccepted (Some c) \<in> set inputs}"
  have inv: "operations_inv ?A r"
    using operations_inv_run [OF operations_inv_start [of ?A], of inputs] assms by simp
  have none: "result \<noteq> None \<Longrightarrow> or_serving r = []"
    using operations_run_returned [of inputs operations_start] assms by simp
  have cancelled: "result = Some (Ok ())"
    if "inputs = before @ OpsCancelled # after" "OpsAccepted None \<notin> set before" for before after
    using operations_run_cancelled [OF that(2)] assms that(1) by (metis fst_conv)
  have failed: "result = Some (Err Node_Operations)"
    if "inputs = before @ OpsAccepted None # after" "OpsCancelled \<notin> set before" for before after
    using operations_run_failed [OF that(2)] assms that(1) by (metis fst_conv)
  show ?thesis
    using inv none cancelled failed by (auto simp: operations_inv_def)
qed

theorem operations_connections_bounded_witness:
  "fst (operations_run [OpsAccepted (Some (1 :: nat)), OpsJoined, OpsCancelled] operations_start) = Some (Ok ())"
proof -
  let ?i = "[OpsAccepted (Some (1 :: nat)), OpsJoined, OpsCancelled]"
  obtain result r where run: "operations_run ?i operations_start = (result, r)" by fastforce
  have "?i = [OpsAccepted (Some 1), OpsJoined] @ OpsCancelled # []
      \<and> OpsAccepted None \<notin> set [OpsAccepted (Some (1 :: nat)), OpsJoined]" by simp
  then show ?thesis using operations_connections_bounded [OF run] run by (metis fst_conv)
qed

end
