(* ===== verification/Socket_Address.thy ===== *)
theory Socket_Address
  imports Node_Status
begin

text \<open>
  Socket addresses in text form, as the standard library's \<^verbatim>\<open>SocketAddr::from_str\<close> reads them for
  \<^verbatim>\<open>parse_healthcheck_url\<close>: recursive descent over the bytes, every parser returning what it read
  and the rest. The zone of an IPv6 address is read and dropped.
\<close>

type_synonym 'a parser = "bytes \<Rightarrow> ('a \<times> bytes) option"

definition read_given :: "byte \<Rightarrow> unit parser" where
  "read_given b s = (case s of [] \<Rightarrow> None | c # r \<Rightarrow> if c = b then Some ((), r) else None)"

definition to_digit :: "nat \<Rightarrow> byte \<Rightarrow> nat option" where
  "to_digit radix b =
     (let v = (if 48 \<le> b \<and> b \<le> 57 then unat b - 48
               else if 97 \<le> b \<and> b \<le> 122 then unat b - 87
               else if 65 \<le> b \<and> b \<le> 90 then unat b - 55 else radix)
      in if v < radix then Some v else None)"

fun read_digits :: "nat \<Rightarrow> bytes \<Rightarrow> nat list \<times> bytes" where
  "read_digits radix [] = ([], [])"
| "read_digits radix (b # s) =
     (case to_digit radix b of
        None \<Rightarrow> ([], b # s)
      | Some d \<Rightarrow> let (ds, r) = read_digits radix s in (d # ds, r))"

definition digits_value :: "nat \<Rightarrow> nat list \<Rightarrow> nat" where
  "digits_value radix ds = foldl (\<lambda>v d. v * radix + d) 0 ds"

text \<open>A number below \<open>bound\<close>, of at most so many digits, where zeros may or may not lead.\<close>

definition read_number :: "nat \<Rightarrow> nat option \<Rightarrow> bool \<Rightarrow> nat \<Rightarrow> nat parser" where
  "read_number radix max_digits allow_zero_prefix bound s =
     (let (ds, r) = read_digits radix s; v = digits_value radix ds
      in if ds = [] \<or> (case max_digits of Some m \<Rightarrow> m < length ds | None \<Rightarrow> False) \<or> v \<ge> bound
           \<or> (\<not> allow_zero_prefix \<and> hd ds = 0 \<and> length ds > 1)
         then None else Some (v, r))"

definition read_separator :: "byte \<Rightarrow> nat \<Rightarrow> 'a parser \<Rightarrow> 'a parser" where
  "read_separator sep index p s =
     (if index = 0 then p s else Option.bind (read_given sep s) (\<lambda>(_, r). p r))"

definition read_octet :: "nat \<Rightarrow> nat parser" where
  "read_octet index = read_separator 46 index (read_number 10 (Some 3) False 256)"

definition read_ipv4 :: "(u8 \<times> u8 \<times> u8 \<times> u8) parser" where
  "read_ipv4 s =
     Option.bind (read_octet 0 s) (\<lambda>(a, s).
     Option.bind (read_octet 1 s) (\<lambda>(b, s).
     Option.bind (read_octet 2 s) (\<lambda>(c, s).
     Option.bind (read_octet 3 s) (\<lambda>(d, s).
     Some ((of_nat a, of_nat b, of_nat c, of_nat d), s)))))"

text \<open>
  The groups of one side of an IPv6 address, from group \<open>i\<close> to \<open>limit\<close>, and whether they end in an
  embedded IPv4 address; \<open>n\<close> is how many are left.
\<close>

fun read_groups :: "nat \<Rightarrow> nat \<Rightarrow> bytes \<Rightarrow> u16 list \<times> bool \<times> bytes" where
  "read_groups 0 i s = ([], False, s)"
| "read_groups (Suc n) i s =
     (case (if n > 0 then read_separator 58 i read_ipv4 s else None) of
        Some ((a, b, c, d), r) \<Rightarrow> ([ucast a * 256 + ucast b, ucast c * 256 + ucast d], True, r)
      | None \<Rightarrow>
          (case read_separator 58 i (read_number 16 (Some 4) True 65536) s of
             None \<Rightarrow> ([], False, s)
           | Some (g, r) \<Rightarrow>
               let (gs, v4, r) = read_groups n (Suc i) r in (of_nat g # gs, v4, r)))"

definition ipv6_of_groups :: "u16 list \<Rightarrow> ip_address" where
  "ipv6_of_groups g = V6 (g ! 0) (g ! 1) (g ! 2) (g ! 3) (g ! 4) (g ! 5) (g ! 6) (g ! 7)"

definition read_ipv6 :: "ip_address parser" where
  "read_ipv6 s =
     (let (head, head_v4, r) = read_groups 8 0 s in
      if length head = 8 then Some (ipv6_of_groups head, r)
      else if head_v4 then None
      else Option.bind (read_given 58 r) (\<lambda>(_, r).
           Option.bind (read_given 58 r) (\<lambda>(_, r).
           let (tail, _, r) = read_groups (8 - (length head + 1)) 0 r
           in Some (ipv6_of_groups (head @ replicate (8 - length head - length tail) 0 @ tail), r))))"

definition read_port :: "u16 parser" where
  "read_port s = Option.bind (read_given 58 s) (\<lambda>(_, r).
     map_option (\<lambda>(v, r). (of_nat v, r)) (read_number 10 None True 65536 r))"

definition read_zone :: "bytes \<Rightarrow> bytes" where
  "read_zone s = (case Option.bind (read_given 37 s) (\<lambda>(_, r). read_number 10 None True (2 ^ 32) r) of
     Some (_, r) \<Rightarrow> r | None \<Rightarrow> s)"

definition read_socket_addr_v4 :: "SocketAddr parser" where
  "read_socket_addr_v4 s =
     Option.bind (read_ipv4 s) (\<lambda>((a, b, c, d), r).
     map_option (\<lambda>(port, r). (\<lparr>sa_ip = V4 a b c d, sa_port = port\<rparr>, r)) (read_port r))"

definition read_socket_addr_v6 :: "SocketAddr parser" where
  "read_socket_addr_v6 s =
     Option.bind (read_given 91 s) (\<lambda>(_, r).
     Option.bind (read_ipv6 r) (\<lambda>(ip, r).
     Option.bind (read_given 93 (read_zone r)) (\<lambda>(_, r).
     map_option (\<lambda>(port, r). (\<lparr>sa_ip = ip, sa_port = port\<rparr>, r)) (read_port r))))"

definition parse_socket_addr :: "bytes \<Rightarrow> SocketAddr option" where
  "parse_socket_addr s =
     (case (case read_socket_addr_v4 s of Some x \<Rightarrow> Some x | None \<Rightarrow> read_socket_addr_v6 s) of
        Some (address, []) \<Rightarrow> Some address
      | _ \<Rightarrow> None)"

lemmas socket_addr_defs = parse_socket_addr_def read_socket_addr_v4_def read_socket_addr_v6_def
  read_zone_def read_port_def read_ipv6_def ipv6_of_groups_def read_ipv4_def read_octet_def
  read_separator_def read_number_def digits_value_def to_digit_def read_given_def ascii_def

lemmas read_groups_numeral = read_groups.simps(2) [of "pred_numeral k" for k, folded numeral_eq_Suc]

section \<open>Printed IPv4 addresses are read back\<close>

definition show_socket_addr_v4 :: "u8 \<Rightarrow> u8 \<Rightarrow> u8 \<Rightarrow> u8 \<Rightarrow> u16 \<Rightarrow> bytes" where
  "show_socket_addr_v4 a b c d port =
     ascii (decimal (unat a) @ ''.'' @ decimal (unat b) @ ''.'' @ decimal (unat c) @ ''.''
       @ decimal (unat d) @ '':'' @ decimal (unat port))"

fun decimal_digits :: "nat \<Rightarrow> nat list" where
  "decimal_digits n = (if n < 10 then [n] else decimal_digits (n div 10) @ [n mod 10])"

declare decimal_digits.simps [simp del]

lemma to_digit_decimal:
  assumes "d < 10"
  shows "to_digit 10 (of_char (char_of (48 + d))) = Some d"
proof -
  have "unat (of_nat (48 + d) :: byte) = 48 + d" 
    using assms by (simp add: unat_of_nat del: of_nat_add)
  moreover from this have "(of_nat (48 + d) :: byte) \<le> 57" "48 \<le> (of_nat (48 + d) :: byte)"
    using assms by (simp_all add: word_le_nat_alt)
  moreover have "(of_char (char_of (48 + d)) :: byte) = of_nat (48 + d)"
    using assms of_nat_of_char [of "char_of (48 + d)", where ?'a = byte] by (simp add: of_char_of)
  ultimately show ?thesis using assms by (simp add: to_digit_def)
qed

lemma read_digits_append:
  assumes "list_all2 (\<lambda>b d. to_digit radix b = Some d) s ds"
  shows "read_digits radix (s @ r) = (ds @ fst (read_digits radix r), snd (read_digits radix r))"
  using assms by (induction rule: list_all2_induct) (auto split: prod.splits)

lemma decimal_digits_spell:
  "list_all2 (\<lambda>b d. to_digit 10 b = Some d) (ascii (decimal n)) (decimal_digits n)"
proof (induction n rule: decimal.induct)
  case (1 n)
  then show ?case
    by (subst decimal.simps, subst decimal_digits.simps)
      (simp add: ascii_def to_digit_decimal list_all2_appendI)
qed

lemma decimal_digits_value: "digits_value 10 (decimal_digits n) = n"
proof (induction n rule: decimal_digits.induct)
  case (1 n)
  then show ?case by (subst decimal_digits.simps) (simp add: digits_value_def)
qed

lemma decimal_digits_nonempty [simp]: "decimal_digits n \<noteq> []"
  by (subst decimal_digits.simps) simp

lemma decimal_digits_head: "hd (decimal_digits n) = 0 \<Longrightarrow> n = 0"
proof (induction n rule: decimal_digits.induct)
  case (1 n)
  then show ?case by (subst (asm) (2) decimal_digits.simps) (auto split: if_splits)
qed

lemma decimal_digits_length: "n < 10 ^ k \<Longrightarrow> 0 < k \<Longrightarrow> length (decimal_digits n) \<le> k"
proof (induction n arbitrary: k rule: decimal_digits.induct)
  case (1 n)
  show ?case
  proof (cases "n < 10")
    case True
    then show ?thesis using 1(3) by (subst decimal_digits.simps) simp
  next
    case False
    then obtain j where k: "k = Suc j" "0 < j" using 1(2,3) by (cases k; cases "k - 1") auto
    then have "n div 10 < 10 ^ j" using 1(2) by (simp add: less_mult_imp_div_less mult.commute)
    then show ?thesis using 1(1) [OF False _ k(2)] False k(1) by (subst decimal_digits.simps) simp
  qed
qed

lemma read_number_decimal:
  assumes "n < bound" and "fst (read_digits 10 r) = []" "snd (read_digits 10 r) = r"
    and "case max_digits of Some m \<Rightarrow> 0 < m \<and> n < 10 ^ m | None \<Rightarrow> True"
  shows "read_number 10 max_digits zeros bound (ascii (decimal n) @ r) = Some (n, r)"
proof -
  have "\<not> (hd (decimal_digits n) = 0 \<and> 1 < length (decimal_digits n))"
    using decimal_digits_head [of n] by (auto simp: decimal_digits.simps [of 0])
  then show ?thesis
    using assms decimal_digits_length [of n "the max_digits"]
    by (auto simp: read_number_def read_digits_append [OF decimal_digits_spell] decimal_digits_value
        split: option.splits)
qed

lemma parse_socket_addr_show:
  "parse_socket_addr (show_socket_addr_v4 a b c d port) = Some \<lparr>sa_ip = V4 a b c d, sa_port = port\<rparr>"
proof -
  have octet: "unat (x :: u8) < 256" for x using unsigned_less [of x] by simp
  have small: "unat (x :: u8) < 1000" for x by (rule less_trans [OF octet]) simp
  have wide: "unat port < 65536" using unsigned_less [of port] by simp
  have stop: "read_digits 10 (46 # r) = ([], 46 # r)" "read_digits 10 (58 # r) = ([], 58 # r)" for r
    by (simp_all add: to_digit_def)
  have number: "read_number 10 (Some 3) False 256 (ascii (decimal (unat x)) @ y # r) = Some (unat x, y # r)"
    if "y = 46 \<or> y = 58" for x :: u8 and y r
    using that octet [of x] small [of x] stop by (intro read_number_decimal) auto
  have first: "read_octet 0 (ascii (decimal (unat x)) @ 46 # r) = Some (unat x, 46 # r)" for x :: u8 and r
    by (simp add: read_octet_def read_separator_def number)
  have more: "read_octet (Suc i) (46 # ascii (decimal (unat x)) @ y # r) = Some (unat x, y # r)"
    if "y = 46 \<or> y = 58" for x :: u8 and y i r
    using that by (simp add: read_octet_def read_separator_def read_given_def number)
  have last: "read_number 10 None True 65536 (ascii (decimal (unat port)) @ []) = Some (unat port, [])"
    using wide by (subst read_number_decimal) auto
  have printed: "show_socket_addr_v4 a b c d port = ascii (decimal (unat a)) @ 46 # ascii (decimal (unat b))
      @ 46 # ascii (decimal (unat c)) @ 46 # ascii (decimal (unat d)) @ 58 # ascii (decimal (unat port)) @ []"
    by (simp add: show_socket_addr_v4_def ascii_def)
  have "read_ipv4 (show_socket_addr_v4 a b c d port) =
      Some ((a, b, c, d), 58 # ascii (decimal (unat port)) @ [])"
    unfolding printed read_ipv4_def
    using more [where i = 0] more [where i = 1] more [where i = 2]
    by (simp add: first numeral_2_eq_2 numeral_3_eq_3)
  then show ?thesis
    using last by (simp add: parse_socket_addr_def read_socket_addr_v4_def read_port_def read_given_def)
qed

end
