(* ===== verification/Node_Process.thy ===== *)
theory Node_Process
  imports Node_Server Private_Output Operations Socket_Address
begin

text \<open>
  The node's process, \<^verbatim>\<open>node/src/main.rs\<close> with \<^verbatim>\<open>identity.rs\<close> and \<^verbatim>\<open>logging.rs\<close> (built without
  the \<^verbatim>\<open>otlp\<close> feature): the commands, the identity file, the supervision of the node and
  operations tasks, and the health check against the operations endpoint. The key type with its
  encoding, multiaddress and TOML parsing, the tracing filter's parser, sockets and the file system
  are outside and collected in \<open>node_world\<close>. Strings are UTF-8 byte lists.
\<close>

section \<open>The identity file\<close>

definition MAX_IDENTITY_BYTES :: nat where "MAX_IDENTITY_BYTES = 4 * 1024"

record 'k key_lib =
  kl_ed25519 :: "'k \<Rightarrow> bool"
  kl_encode :: "'k \<Rightarrow> bytes option"
  kl_decode :: "bytes \<Rightarrow> 'k option"
  kl_peer_id :: "'k \<Rightarrow> peer_id"

definition load_identity :: "'k key_lib \<Rightarrow> reader option \<Rightarrow> (NodeError, 'k) result" where
  "load_identity K opened =
     bind_res (ok_or Node_Identity opened) (\<lambda>reader.
     bind_res (map_err (\<lambda>_. Node_Identity) (read_bounded reader MAX_IDENTITY_BYTES)) (\<lambda>encoded.
     bind_res (ok_or Node_Identity (kl_decode K encoded)) (\<lambda>keypair.
     if \<not> kl_ed25519 K keypair then Err Node_Identity else Ok keypair)))"

definition save_identity ::
  "'k key_lib \<Rightarrow> output_system \<Rightarrow> fs \<Rightarrow> path \<Rightarrow> 'k \<Rightarrow> bool \<Rightarrow> (NodeError, unit) result \<times> fs list" where
  "save_identity K S fs path keypair replace =
     (if \<not> kl_ed25519 K keypair then (Err Node_Identity, [fs]) else
      case kl_encode K keypair of
        None \<Rightarrow> (Err Node_Identity, [fs])
      | Some encoded \<Rightarrow>
          let (result, states) = write_private_atomic S fs path encoded
                \<lparr>po_replace = replace, po_durable = True\<rparr>
          in (map_err (\<lambda>_. Node_Identity) result, states))"

section \<open>Telemetry\<close>

text \<open>
  \<^verbatim>\<open>TelemetryGuard::initialize\<close>; \<open>can_install\<close> is false when a subscriber is already installed. The
  result says whether the log is JSON.
\<close>

definition telemetry_initialize ::
  "(bytes \<Rightarrow> bool) \<Rightarrow> bool \<Rightarrow> TelemetryConfig \<Rightarrow> bool \<Rightarrow> (NodeError, bool) result" where
  "telemetry_initialize env_filter_ok can_install config json_override =
     (if \<not> env_filter_ok (log_filter config) then Err Node_Configuration else
      let json = (json_override \<or> log_format config = LogJson) in
      if (case otlp_endpoint config of Some endpoint \<Rightarrow> endpoint \<noteq> [] | None \<Rightarrow> False)
      then Err Node_Configuration
      else if can_install then Ok json else Err Node_Configuration)"

section \<open>Printed events\<close>

fun event_name :: "NodeEvent \<Rightarrow> string" where
  "event_name (NodeListening _) = ''listening''"
| "event_name (ReservationAccepted _ renewed) =
     (if renewed then ''reservation_renewed'' else ''reservation_accepted'')"
| "event_name (CircuitAccepted _ _) = ''circuit_accepted''"
| "event_name (CircuitClosed _ _) = ''circuit_closed''"
| "event_name (ReservationClosed _) = ''reservation_closed''"
| "event_name (ReservationDenied _) = ''reservation_denied''"
| "event_name (CircuitDenied _ _) = ''circuit_denied''"
| "event_name (NodeDiscoveryRegistered _) = ''discovery_registered''"
| "event_name (NodeDiscoveryUnregistered _) = ''discovery_unregistered''"
| "event_name (NodeDiscoveryServed _ _) = ''discovery_served''"
| "event_name (NodeDiscoveryRejected _) = ''discovery_rejected''"

definition event_json :: "string \<Rightarrow> string" where
  "event_json name = ''{\"event\":\"'' @ name @ ''\"}''"

definition print_event :: "(multiaddr \<Rightarrow> string) \<Rightarrow> bool \<Rightarrow> NodeEvent \<Rightarrow> string list" where
  "print_event show_address json event =
     (if json then [event_json (event_name event)]
      else case event of
        NodeListening address \<Rightarrow> [''Listening: '' @ show_address address]
      | _ \<Rightarrow> [])"

section \<open>Supervision of the tasks\<close>

text \<open>The outcome of a joined task: what it returned, or that it panicked.\<close>

datatype task_result = Joined "(NodeError, unit) result" | JoinError

fun flatten_node_task :: "task_result \<Rightarrow> (NodeError, unit) result" where
  "flatten_node_task (Joined r) = r"
| "flatten_node_task JoinError = Err Node_Configuration"

fun flatten_operations_task :: "task_result \<Rightarrow> (NodeError, unit) result" where
  "flatten_operations_task (Joined r) = r"
| "flatten_operations_task JoinError = Err Node_Operations"

text \<open>
  The states of \<^verbatim>\<open>run_server_config\<close> after both tasks are spawned: in the select loop, awaiting the
  node's task after a shutdown signal or after the operations task ended, awaiting the operations
  task with the loop's result, and returned.
\<close>

datatype SupervisorPhase =
    Supervising
  | AwaitNodeAfterShutdown bool
  | AwaitNodeAfterOperations "(NodeError, unit) result"
  | AwaitOperations "(NodeError, unit) result"
  | Returned "(NodeError, unit) result"

record Supervisor =
  sv_phase :: SupervisorPhase
  sv_json :: bool
  sv_cancelled :: bool
  sv_operations_cancelled :: bool
  sv_operations_enabled :: bool
  sv_operations_finished :: bool
  sv_node_task :: "task_result option"
  sv_operations_task :: "task_result option"
  sv_stdout :: "string list"

text \<open>
  What happens: a task ends, which its handle keeps; the select takes a branch that is ready (the
  shutdown future with whether the signal handler worked, a task, or the event channel, empty once
  its sender is gone); or an awaited handle is polled.
\<close>

datatype SupervisorInput =
    NodeTaskEnds task_result
  | OperationsTaskEnds task_result
  | SelectShutdown bool
  | SelectNode
  | SelectOperations
  | SelectEvent "NodeEvent option"
  | PollAwaited

definition leave_loop :: "(NodeError, unit) result \<Rightarrow> Supervisor \<Rightarrow> Supervisor" where
  "leave_loop result s = s\<lparr>sv_operations_cancelled := True,
     sv_phase := (if sv_operations_finished s then Returned result else AwaitOperations result)\<rparr>"

fun supervisor_step :: "(multiaddr \<Rightarrow> string) \<Rightarrow> SupervisorInput \<Rightarrow> Supervisor \<Rightarrow> Supervisor" where
  "supervisor_step show_address (NodeTaskEnds r) s =
     (if sv_node_task s = None then s\<lparr>sv_node_task := Some r\<rparr> else s)"
| "supervisor_step show_address (OperationsTaskEnds r) s =
     (if sv_operations_task s = None then s\<lparr>sv_operations_task := Some r\<rparr> else s)"
| "supervisor_step show_address (SelectShutdown ok) s =
     (if sv_phase s = Supervising
      then s\<lparr>sv_cancelled := True, sv_phase := AwaitNodeAfterShutdown ok\<rparr> else s)"
| "supervisor_step show_address SelectNode s =
     (case (sv_phase s, sv_node_task s) of
        (Supervising, Some r) \<Rightarrow> leave_loop (flatten_node_task r) s
      | _ \<Rightarrow> s)"
| "supervisor_step show_address SelectOperations s =
     (case (sv_phase s, sv_operations_task s) of
        (Supervising, Some r) \<Rightarrow>
          if sv_operations_enabled s \<and> \<not> sv_operations_finished s
          then s\<lparr>sv_operations_finished := True, sv_cancelled := True,
                sv_phase := AwaitNodeAfterOperations (flatten_operations_task r)\<rparr>
          else s
      | _ \<Rightarrow> s)"
| "supervisor_step show_address (SelectEvent event) s =
     (case (sv_phase s, event) of
        (Supervising, Some e) \<Rightarrow>
          s\<lparr>sv_stdout := sv_stdout s @ print_event show_address (sv_json s) e\<rparr>
      | _ \<Rightarrow> s)"
| "supervisor_step show_address PollAwaited s =
     (case (sv_phase s, sv_node_task s, sv_operations_task s) of
        (AwaitNodeAfterShutdown ok, Some r, _) \<Rightarrow>
          leave_loop (if \<not> ok then Err Node_Configuration else flatten_node_task r) s
      | (AwaitNodeAfterOperations operations_result, Some r, _) \<Rightarrow>
          leave_loop (bind_res operations_result (\<lambda>_. flatten_node_task r)) s
      | (AwaitOperations result, _, Some r) \<Rightarrow>
          s\<lparr>sv_phase := Returned (bind_res (flatten_operations_task r) (\<lambda>_. result))\<rparr>
      | _ \<Rightarrow> s)"

definition supervise :: "(multiaddr \<Rightarrow> string) \<Rightarrow> SupervisorInput list \<Rightarrow> Supervisor \<Rightarrow> Supervisor" where
  "supervise show_address inputs s = fold (supervisor_step show_address) inputs s"

section \<open>The health check\<close>

text \<open>\<^verbatim>\<open>split_once('/')\<close>.\<close>

definition split_once :: "byte \<Rightarrow> bytes \<Rightarrow> (bytes \<times> bytes) option" where
  "split_once sep s =
     (if sep \<in> set s then Some (takeWhile (\<lambda>b. b \<noteq> sep) s, tl (dropWhile (\<lambda>b. b \<noteq> sep) s)) else None)"

definition parse_healthcheck_url :: "bytes \<Rightarrow> (NodeError, SocketAddr \<times> string) result" where
  "parse_healthcheck_url url =
     bind_res (ok_or Node_Configuration (strip_prefix (ascii ''http://'') url)) (\<lambda>value.
     bind_res (ok_or Node_Configuration (split_once 47 value)) (\<lambda>(authority, path).
     bind_res (ok_or Node_Configuration (parse_socket_addr authority)) (\<lambda>address.
     if \<not> ip_is_loopback (sa_ip address) then Err Node_Configuration
     else if path = ascii ''health/live'' then Ok (address, ''/health/live'')
     else if path = ascii ''health/ready'' then Ok (address, ''/health/ready'')
     else Err Node_Configuration)))"

text \<open>
  The connection of the check: connecting, writing the request, and what reading to the end of the
  stream then gives, all before the deadline of three seconds (\<open>hn_in_time\<close>).
\<close>

record health_network =
  hn_connect :: "SocketAddr \<Rightarrow> bool"
  hn_write :: "bytes \<Rightarrow> bool"
  hn_read :: "SocketAddr \<Rightarrow> bytes \<Rightarrow> reader"
  hn_in_time :: bool

definition healthcheck_request :: "string \<Rightarrow> bytes" where
  "healthcheck_request path =
     ascii (''GET '' @ path @ '' HTTP/1.1'' @ crlf @ ''Host: localhost'' @ crlf @ ''Connection: close''
       @ crlf @ crlf)"

definition run_healthcheck :: "health_network \<Rightarrow> bytes \<Rightarrow> (NodeError, unit) result" where
  "run_healthcheck N url =
     bind_res (parse_healthcheck_url url) (\<lambda>(address, path).
     let request = healthcheck_request path in
     if \<not> hn_in_time N then Err Node_Operations
     else if \<not> hn_connect N address then Err Node_Operations
     else if \<not> hn_write N request then Err Node_Operations
     else bind_res (ok_or Node_Operations (hn_read N address request 4096)) (\<lambda>response.
       if take 13 response = ascii ''HTTP/1.1 200 '' then Ok () else Err Node_Operations))"

section \<open>Commands\<close>

record ServeArgs =
  sv_identity :: path
  sv_config :: "path option"
  sv_listen :: "bytes list"
  sv_json_flag :: bool

datatype NodeCommand =
    ConfigCheck path
  | KeyGenerate path bool
  | KeyInspect path
  | Serve ServeArgs
  | Healthcheck bytes

text \<open>
  \<open>nw_open\<close> opens a file for reading, with whether it is a regular file; \<open>nw_generated\<close> is the key
  \<^verbatim>\<open>Keypair::generate_ed25519\<close> gives.
\<close>

record 'k node_world =
  nw_keys :: "'k key_lib"
  nw_generated :: 'k
  nw_output :: output_system
  nw_open :: "fs \<Rightarrow> path \<Rightarrow> (bool \<times> reader) option"
  nw_env_filter_ok :: "bytes \<Rightarrow> bool"
  nw_from_toml :: "bytes \<Rightarrow> NodeConfig option"
  nw_parse_address :: "bytes \<Rightarrow> multiaddr option"
  nw_show_peer :: "peer_id \<Rightarrow> string"
  nw_show_address :: "multiaddr \<Rightarrow> string"
  nw_can_install :: bool
  nw_bind :: "SocketAddr \<Rightarrow> bool"
  nw_now :: instant
  nw_unix_seconds :: u64
  nw_health :: health_network

definition run_config :: "'k node_world \<Rightarrow> fs \<Rightarrow> path \<Rightarrow> (NodeError, string list) result" where
  "run_config W fs config =
     bind_res (node_config_load (nw_env_filter_ok W) (nw_from_toml W) (nw_open W fs config)) (\<lambda>_.
     Ok [''configuration valid''])"

definition run_key_generate ::
  "'k node_world \<Rightarrow> fs \<Rightarrow> path \<Rightarrow> bool \<Rightarrow> (NodeError, string list) result \<times> fs list" where
  "run_key_generate W fs output force =
     (let keypair = nw_generated W;
          (result, states) = save_identity (nw_keys W) (nw_output W) fs output keypair force
      in (bind_res result (\<lambda>_. Ok [nw_show_peer W (kl_peer_id (nw_keys W) keypair)]), states))"

definition run_key_inspect :: "'k node_world \<Rightarrow> fs \<Rightarrow> path \<Rightarrow> (NodeError, string list) result" where
  "run_key_inspect W fs identity =
     bind_res (load_identity (nw_keys W) (map_option snd (nw_open W fs identity))) (\<lambda>keypair.
     Ok [nw_show_peer W (kl_peer_id (nw_keys W) keypair)])"

definition collect_results :: "('e, 'a) result list \<Rightarrow> ('e, 'a list) result" where
  "collect_results rs = foldr (\<lambda>r acc. bind_res r (\<lambda>x. bind_res acc (\<lambda>xs. Ok (x # xs)))) rs (Ok [])"

definition serve_config :: "'k node_world \<Rightarrow> fs \<Rightarrow> ServeArgs \<Rightarrow> (NodeError, NodeConfig) result" where
  "serve_config W fs arguments =
     bind_res (case sv_config arguments of
         None \<Rightarrow> Ok node_config_default
       | Some path \<Rightarrow> node_config_load (nw_env_filter_ok W) (nw_from_toml W) (nw_open W fs path)) (\<lambda>config.
     if sv_listen arguments = [] then Ok config
     else bind_res (collect_results (map (\<lambda>address. ok_or Node_Configuration (nw_parse_address W address))
         (sv_listen arguments))) (\<lambda>addresses.
       Ok (config\<lparr>listen_addresses := addresses\<rparr>)))"

text \<open>\<^verbatim>\<open>run_server_config\<close> up to the spawned tasks: the node to run, and the supervisor.\<close>

definition run_server_config ::
  "'k node_world \<Rightarrow> fs \<Rightarrow> ServeArgs \<Rightarrow> NodeConfig \<Rightarrow> bool
   \<Rightarrow> (NodeError, peer_id \<times> NodeServer \<times> Supervisor) result" where
  "run_server_config W fs arguments config json =
     bind_res (load_identity (nw_keys W) (map_option snd (nw_open W fs (sv_identity arguments)))) (\<lambda>keypair.
     let peer = kl_peer_id (nw_keys W) keypair in
     bind_res (node_server_new (nw_env_filter_ok W) config (nw_now W) (nw_unix_seconds W)) (\<lambda>server.
     bind_res (case operations_address config of
         None \<Rightarrow> Ok ()
       | Some address \<Rightarrow> operations_bind address (if nw_bind W address then Some () else None)) (\<lambda>_.
     Ok (peer, server,
       \<lparr>sv_phase = Supervising, sv_json = json, sv_cancelled = False, sv_operations_cancelled = False,
        sv_operations_enabled = (operations_address config \<noteq> None), sv_operations_finished = False,
        sv_node_task = None, sv_operations_task = None,
        sv_stdout = [if json then event_json ''starting'' else ''Node peer: '' @ nw_show_peer W peer]\<rparr>))))"

definition run_server ::
  "'k node_world \<Rightarrow> fs \<Rightarrow> ServeArgs \<Rightarrow> (NodeError, peer_id \<times> NodeServer \<times> Supervisor) result" where
  "run_server W fs arguments =
     bind_res (serve_config W fs arguments) (\<lambda>config.
     let json = (sv_json_flag arguments \<or> log_format (telemetry config) = LogJson) in
     bind_res (telemetry_initialize (nw_env_filter_ok W) (nw_can_install W) (telemetry config)
       (sv_json_flag arguments)) (\<lambda>_.
     run_server_config W fs arguments config json))"

text \<open>
  \<^verbatim>\<open>run\<close> and \<^verbatim>\<open>main\<close>: the result (absent while the node serves), the lines printed and the states of
  the file system; a failure exits with status 1.
\<close>

record node_outcome =
  nr_result :: "(NodeError, unit) result option"
  nr_stdout :: "string list"
  nr_states :: "fs list"

fun printed :: "(NodeError, string list) result \<Rightarrow> fs list \<Rightarrow> node_outcome" where
  "printed (Inr ls) states = \<lparr>nr_result = Some (Ok ()), nr_stdout = ls, nr_states = states\<rparr>"
| "printed (Inl e) states = \<lparr>nr_result = Some (Err e), nr_stdout = [], nr_states = states\<rparr>"

fun node_process :: "'k node_world \<Rightarrow> fs \<Rightarrow> SupervisorInput list \<Rightarrow> NodeCommand \<Rightarrow> node_outcome" where
  "node_process W fs inputs (ConfigCheck config) = printed (run_config W fs config) [fs]"
| "node_process W fs inputs (KeyGenerate output force) =
     (let (result, states) = run_key_generate W fs output force in printed result states)"
| "node_process W fs inputs (KeyInspect identity) = printed (run_key_inspect W fs identity) [fs]"
| "node_process W fs inputs (Serve arguments) =
     (case run_server W fs arguments of
        Inl e \<Rightarrow> printed (Err e) [fs]
      | Inr (_, _, s) \<Rightarrow>
          let s = supervise (nw_show_address W) inputs s
          in \<lparr>nr_result = (case sv_phase s of Returned r \<Rightarrow> Some r | _ \<Rightarrow> None), nr_stdout = sv_stdout s,
              nr_states = [fs]\<rparr>)"
| "node_process W fs inputs (Healthcheck url) =
     printed (bind_res (run_healthcheck (nw_health W) url) (\<lambda>_. Ok [])) [fs]"

definition node_exit_status :: "node_outcome \<Rightarrow> nat option" where
  "node_exit_status r = map_option (\<lambda>result. if is_ok result then 0 else 1) (nr_result r)"


section \<open>Properties of the supervision\<close>

definition event_names :: "string list" where
  "event_names = [''starting'', ''listening'', ''reservation_accepted'', ''reservation_renewed'',
     ''circuit_accepted'', ''circuit_closed'', ''reservation_closed'', ''reservation_denied'',
     ''circuit_denied'', ''discovery_registered'', ''discovery_unregistered'', ''discovery_served'',
     ''discovery_rejected'']"

lemma event_name_known: "event_name e \<in> set event_names"
  by (cases e) (simp_all add: event_names_def)

text \<open>What holds of the supervisor in each phase.\<close>

fun phase_inv :: "SupervisorPhase \<Rightarrow> Supervisor \<Rightarrow> bool" where
  "phase_inv Supervising s \<longleftrightarrow> \<not> sv_operations_finished s"
| "phase_inv (AwaitNodeAfterShutdown _) s \<longleftrightarrow> sv_cancelled s \<and> \<not> sv_operations_finished s"
| "phase_inv (AwaitNodeAfterOperations r) s \<longleftrightarrow> sv_cancelled s \<and> sv_operations_finished s \<and>
     (\<exists>ro. sv_operations_task s = Some ro \<and> r = flatten_operations_task ro)"
| "phase_inv (AwaitOperations r) s \<longleftrightarrow> sv_operations_cancelled s \<and> \<not> sv_operations_finished s \<and>
     (\<exists>rn. sv_node_task s = Some rn \<and> (r = Ok () \<longrightarrow> flatten_node_task rn = Ok ()))"
| "phase_inv (Returned r) s \<longleftrightarrow> sv_operations_cancelled s \<and>
     (\<exists>rn ro. sv_node_task s = Some rn \<and> sv_operations_task s = Some ro \<and>
        (r = Ok () \<longrightarrow> flatten_node_task rn = Ok () \<and> flatten_operations_task ro = Ok ()))"

definition supervisor_inv :: "Supervisor \<Rightarrow> bool" where
  "supervisor_inv s \<longleftrightarrow> phase_inv (sv_phase s) s \<and>
     (sv_json s \<longrightarrow> set (sv_stdout s) \<subseteq> event_json ` set event_names)"

lemma supervisor_inv_step: "supervisor_inv s \<Longrightarrow> supervisor_inv (supervisor_step show_address input s)"
  by (cases input; cases "sv_phase s")
    (auto simp: supervisor_inv_def leave_loop_def print_event_def event_name_known bind_res_def
      split: option.splits if_splits sum.splits)

lemma supervisor_inv_supervise: "supervisor_inv s \<Longrightarrow> supervisor_inv (supervise show_address inputs s)"
  by (induction inputs arbitrary: s) (simp_all add: supervise_def supervisor_inv_step)

lemma run_server_supervising:
  assumes "run_server W fs arguments = Ok (peer, server, s)"
  shows "supervisor_inv s" and "sv_phase s = Supervising"
  using assms by (auto simp: run_server_def run_server_config_def bind_res_def Let_def supervisor_inv_def
      event_names_def split: sum.splits)

text \<open>When both tasks have ended, taking the node's handle and polling what is awaited returns.\<close>

lemma supervisor_returns:
  assumes "supervisor_inv s" and "sv_node_task s \<noteq> None" "sv_operations_task s \<noteq> None"
  shows "\<exists>r. sv_phase (supervise show_address [SelectNode, PollAwaited, PollAwaited] s) = Returned r"
  using assms by (cases "sv_phase s") (auto simp: supervise_def leave_loop_def)

text \<open>Without JSON output only listening addresses are printed.\<close>

lemma supervisor_step_text:
  "sv_json (supervisor_step show_address input s) = sv_json s"
  "\<not> sv_json s \<Longrightarrow> set (sv_stdout (supervisor_step show_address input s)) \<subseteq>
     set (sv_stdout s) \<union> {''Listening: '' @ show_address address | address. True}"
  by (cases input; cases "sv_phase s";
      auto simp: leave_loop_def print_event_def split: option.splits NodeEvent.splits if_splits)+

lemma supervise_text:
  "sv_json (supervise show_address inputs s) = sv_json s"
  "\<not> sv_json s \<Longrightarrow> set (sv_stdout (supervise show_address inputs s)) \<subseteq>
     set (sv_stdout s) \<union> {''Listening: '' @ show_address address | address. True}"
proof (induction inputs arbitrary: s)
  case (Cons input inputs)
  {
    case 1
    then show ?case using Cons.IH(1) by (simp add: supervise_def supervisor_step_text(1))
  next
    case 2
    then show ?case
      using Cons.IH(2) [of "supervisor_step show_address input s"]
        supervisor_step_text [where s = s and input = input and show_address = show_address]
      by (simp add: supervise_def) blast
  }
qed (simp_all add: supervise_def)

lemma run_server_stdout:
  assumes "run_server W fs arguments = Ok (peer, server, s)" and "\<not> sv_json s"
  shows "sv_stdout s = [''Node peer: '' @ nw_show_peer W peer]"
  using assms by (auto simp: run_server_def run_server_config_def bind_res_def Let_def split: sum.splits)

text \<open>
  C22: The node's process never leaves a task behind. Whatever order its tasks end, signals arrive
  and events are printed in, the process of \<^verbatim>\<open>envshare-node serve\<close> returns only after both the node's
  and the operations task have ended, and reports success only if both succeeded; it awaits the
  node's task only after cancelling it and the operations task only after cancelling that; from every
  state it can reach in which both tasks have ended it returns, as soon as its select takes the
  node's finished task and the tasks it awaits are polled; and what it prints is, with JSON output,
  one of thirteen constant lines, so no address, peer or count, and without it the line with the
  node's peer and lines with listening addresses.
\<close>
theorem supervisor_stops_everything:
  assumes "run_server W fs arguments = Ok (peer, server, s0)"
    and "s = supervise (nw_show_address W) inputs s0"
  shows "(\<forall>r. sv_phase s = Returned r \<longrightarrow>
      (\<exists>rn ro. sv_node_task s = Some rn \<and> sv_operations_task s = Some ro \<and>
         (r = Ok () \<longrightarrow> flatten_node_task rn = Ok () \<and> flatten_operations_task ro = Ok ())))
    \<and> (\<forall>ok. sv_phase s = AwaitNodeAfterShutdown ok \<longrightarrow> sv_cancelled s)
    \<and> (\<forall>r. sv_phase s = AwaitNodeAfterOperations r \<longrightarrow> sv_cancelled s)
    \<and> (\<forall>r. sv_phase s = AwaitOperations r \<longrightarrow> sv_operations_cancelled s)
    \<and> (sv_node_task s \<noteq> None \<and> sv_operations_task s \<noteq> None \<longrightarrow>
         (\<exists>r. sv_phase (supervise (nw_show_address W) [SelectNode, PollAwaited, PollAwaited] s) = Returned r))
    \<and> set (sv_stdout s) \<subseteq>
         (if sv_json s then event_json ` set event_names
          else insert (''Node peer: '' @ nw_show_peer W peer)
            {''Listening: '' @ nw_show_address W address | address. True})"
proof -
  have inv: "supervisor_inv s"
    using supervisor_inv_supervise [OF run_server_supervising(1) [OF assms(1)]] assms(2) by simp
  have "set (sv_stdout s) \<subseteq> insert (''Node peer: '' @ nw_show_peer W peer)
      {''Listening: '' @ nw_show_address W address | address. True}" if "\<not> sv_json s"
    using that supervise_text [where s = s0 and inputs = inputs and show_address = "nw_show_address W"]
      run_server_stdout [OF assms(1)] assms(2) by auto
  then show ?thesis
    using inv supervisor_returns [OF inv] unfolding supervisor_inv_def by auto
qed

section \<open>Properties of the health check\<close>

lemma split_once_Some:
  assumes "split_once sep s = Some (a, b)"
  shows "s = a @ sep # b" and "sep \<notin> set a"
proof -
  have e: "sep \<in> set s" "a = takeWhile (\<lambda>b. b \<noteq> sep) s" "b = tl (dropWhile (\<lambda>b. b \<noteq> sep) s)"
    using assms by (auto simp: split_once_def split: if_splits)
  then have d: "dropWhile (\<lambda>b. b \<noteq> sep) s = sep # b"
    using hd_dropWhile [of "\<lambda>b. b \<noteq> sep" s] by (cases "dropWhile (\<lambda>b. b \<noteq> sep) s") auto
  show "s = a @ sep # b" using takeWhile_dropWhile_id [of "\<lambda>b. b \<noteq> sep" s] d e(2) by simp
  show "sep \<notin> set a" using e(2) by (auto dest: set_takeWhileD)
qed

lemma split_once_append: "sep \<notin> set a \<Longrightarrow> split_once sep (a @ sep # b) = Some (a, b)"
  by (auto simp: split_once_def takeWhile_append dropWhile_append)

lemma parse_healthcheck_url_Ok:
  "parse_healthcheck_url url = Ok (address, path) \<longleftrightarrow>
     (\<exists>authority. url = ascii ''http://'' @ authority @ ascii path \<and> 47 \<notin> set authority
        \<and> parse_socket_addr authority = Some address \<and> ip_is_loopback (sa_ip address)
        \<and> path \<in> {''/health/live'', ''/health/ready''})"
proof
  assume "parse_healthcheck_url url = Ok (address, path)"
  then obtain val authority rest where
      v: "strip_prefix (ascii ''http://'') url = Some val" "split_once 47 val = Some (authority, rest)"
    and a: "parse_socket_addr authority = Some address" "ip_is_loopback (sa_ip address)"
    and p: "rest = ascii ''health/live'' \<and> path = ''/health/live'' \<or>
      rest = ascii ''health/ready'' \<and> path = ''/health/ready''"
    by (auto simp: parse_healthcheck_url_def result_simps split: if_splits)
  have "url = ascii ''http://'' @ val"
    using v(1) by (auto simp: strip_prefix_def split: if_splits) (metis append_take_drop_id)
  moreover have "val = authority @ 47 # rest" "47 \<notin> set authority"
    using split_once_Some [OF v(2)] by auto
  ultimately show "\<exists>authority. url = ascii ''http://'' @ authority @ ascii path \<and> 47 \<notin> set authority
        \<and> parse_socket_addr authority = Some address \<and> ip_is_loopback (sa_ip address)
        \<and> path \<in> {''/health/live'', ''/health/ready''}"
    using a p by (intro exI [of _ authority]) (auto simp: ascii_def)
next
  assume "\<exists>authority. url = ascii ''http://'' @ authority @ ascii path \<and> 47 \<notin> set authority
        \<and> parse_socket_addr authority = Some address \<and> ip_is_loopback (sa_ip address)
        \<and> path \<in> {''/health/live'', ''/health/ready''}"
  then show "parse_healthcheck_url url = Ok (address, path)"
    by (auto simp: parse_healthcheck_url_def strip_prefix_def split_once_append result_simps ascii_def)
qed

lemma crlf_bytes: "(of_char (char_of (13 :: nat)) :: byte) = 13" "(of_char (char_of (10 :: nat)) :: byte) = 10"
  using of_nat_of_char [of "char_of (13 :: nat)", where ?'a = byte]
    of_nat_of_char [of "char_of (10 :: nat)", where ?'a = byte] by (simp_all add: of_char_of)

lemma first_line_request:
  assumes "path \<in> {''/health/live'', ''/health/ready''}"
  shows "first_line (take MAX_REQUEST_BYTES (healthcheck_request path)) =
      Some (ascii (''GET '' @ path @ '' HTTP/1.1''))"
    and "utf8_valid (take MAX_REQUEST_BYTES (healthcheck_request path))"
  using assms
  by (auto simp: first_line_def healthcheck_request_def MAX_REQUEST_BYTES_def crlf_def ascii_def
      utf8_valid_def crlf_bytes Let_def)

lemma operations_answer_health:
  "operations_answer status now (Some (ascii ''GET /health/live HTTP/1.1'')) =
     (if is_live status now then (''200 OK'', ''text/plain; charset=utf-8'', ''ok'' @ newline)
      else (''503 Service Unavailable'', ''text/plain; charset=utf-8'', ''unhealthy'' @ newline))"
  "operations_answer status now (Some (ascii ''GET /health/ready HTTP/1.1'')) =
     (if is_ready status then (''200 OK'', ''text/plain; charset=utf-8'', ''ready'' @ newline)
      else (''503 Service Unavailable'', ''text/plain; charset=utf-8'', ''not ready'' @ newline))"
  by (simp_all add: operations_answer_def get_requests_def ascii_def)

lemma response_success:
  "take 13 (ascii (operations_response (''200 OK'', t, b))) = ascii ''HTTP/1.1 200 ''"
  "take 13 (ascii (operations_response (''503 Service Unavailable'', t, b))) \<noteq> ascii ''HTTP/1.1 200 ''"
  by (simp_all add: operations_response_def ascii_def)

text \<open>The check against an endpoint that reads the whole request at once and writes its response.\<close>

definition endpoint_network :: "NodeStatus \<Rightarrow> instant \<Rightarrow> health_network" where
  "endpoint_network status now =
     \<lparr>hn_connect = \<lambda>_. True, hn_write = \<lambda>_. True,
      hn_read = \<lambda>_ request n. (case serve_connection status now (Some request) (\<lambda>_. True) of
          Inr response \<Rightarrow> Some (take n (ascii response)) | Inl _ \<Rightarrow> None),
      hn_in_time = True\<rparr>"

lemma ascii_decimal_no_slash: "47 \<notin> set (ascii (decimal n))"
proof
  assume "47 \<in> set (ascii (decimal n))"
  then obtain i where "i < length (ascii (decimal n))" "ascii (decimal n) ! i = 47" by (auto simp: in_set_conv_nth)
  then have "to_digit 10 47 = Some (decimal_digits n ! i)"
    using list_all2_nthD [OF decimal_digits_spell] by fastforce
  then show False by (simp add: to_digit_def)
qed

lemma show_socket_addr_no_slash: "47 \<notin> set (show_socket_addr_v4 a b c d port)"
  using ascii_decimal_no_slash
  by (auto simp: show_socket_addr_v4_def ascii_def)

lemma healthcheck_endpoint:
  assumes "parse_healthcheck_url url = Ok (address, path)"
  shows "run_healthcheck (endpoint_network status now) url = Ok () \<longleftrightarrow>
    (if path = ''/health/live'' then is_live status now else is_ready status)"
proof -
  have path: "path \<in> {''/health/live'', ''/health/ready''}"
    using assms by (auto simp: parse_healthcheck_url_Ok)
  have served: "serve_connection status now (Some (healthcheck_request path)) (\<lambda>_. True) =
      Ok (operations_response (operations_answer status now (Some (ascii (''GET '' @ path @ '' HTTP/1.1'')))))"
    using first_line_request [OF path] by (simp add: serve_connection_def Let_def)
  have "run_healthcheck (endpoint_network status now) url = Ok () \<longleftrightarrow>
      take 13 (ascii (operations_response (operations_answer status now
        (Some (ascii (''GET '' @ path @ '' HTTP/1.1'')))))) = ascii ''HTTP/1.1 200 ''"
    by (simp add: run_healthcheck_def assms endpoint_network_def served)
  then show ?thesis
    using path response_success by (auto simp: operations_answer_health split: if_splits)
qed

text \<open>
  C20: The health check tells the truth. Run against the operations endpoint of a node in any
  reachable state, \<^verbatim>\<open>envshare-node healthcheck\<close> succeeds exactly when the URL is the liveness or
  readiness path under \<^verbatim>\<open>http://\<close> of a loopback socket address and the node is live or ready then;
  a successful readiness check means that all configured listeners are bound. An address
  \<^verbatim>\<open>127.x.y.z:port\<close> in its usual form is one the check accepts.
\<close>
theorem healthcheck_truthful:
  assumes "node_server_new env_filter_ok config started unix = Ok n0" and "(node_step L)\<^sup>*\<^sup>* n0 n"
  shows "(run_healthcheck (endpoint_network (no_status n) now) url = Ok () \<longleftrightarrow>
      (\<exists>authority address. 47 \<notin> set authority \<and> parse_socket_addr authority = Some address
         \<and> ip_is_loopback (sa_ip address)
         \<and> (url = ascii ''http://'' @ authority @ ascii ''/health/live'' \<and> is_live (no_status n) now
          \<or> url = ascii ''http://'' @ authority @ ascii ''/health/ready'' \<and> is_ready (no_status n))))
    \<and> (run_healthcheck (endpoint_network (no_status n) now)
          (ascii ''http://'' @ show_socket_addr_v4 127 x y z port @ ascii ''/health/ready'') = Ok () \<longleftrightarrow>
        is_ready (no_status n))
    \<and> (is_ready (no_status n) \<longrightarrow> length (listen_addresses config) \<le> card (no_ready_listeners n))"
proof -
  let ?N = "endpoint_network (no_status n) now"
  have any: "run_healthcheck ?N u = Ok () \<longleftrightarrow>
      (\<exists>authority address. 47 \<notin> set authority \<and> parse_socket_addr authority = Some address
         \<and> ip_is_loopback (sa_ip address)
         \<and> (u = ascii ''http://'' @ authority @ ascii ''/health/live'' \<and> is_live (no_status n) now
          \<or> u = ascii ''http://'' @ authority @ ascii ''/health/ready'' \<and> is_ready (no_status n)))" for u
  proof (cases "parse_healthcheck_url u")
    case (Inl e)
    then show ?thesis
      using parse_healthcheck_url_Ok [of u] by (auto simp: run_healthcheck_def result_simps)
  next
    case (Inr r)
    then obtain address path where r: "parse_healthcheck_url u = Ok (address, path)" by (cases r) auto
    then show ?thesis
      using healthcheck_endpoint [OF r] parse_healthcheck_url_Ok [of u]
      by (cases "path = ''/health/live''") (auto simp: ascii_def)
  qed
  have "parse_healthcheck_url (ascii ''http://'' @ show_socket_addr_v4 127 x y z port @ ascii ''/health/ready'') =
      Ok (\<lparr>sa_ip = V4 127 x y z, sa_port = port\<rparr>, ''/health/ready'')"
    unfolding parse_healthcheck_url_Ok using parse_socket_addr_show show_socket_addr_no_slash
    by (intro exI [of _ "show_socket_addr_v4 127 x y z port"]) simp
  from healthcheck_endpoint [OF this, of "no_status n" now]
  show ?thesis using any [of url] ready_means_listening [OF assms] by simp
qed

section \<open>Properties of the identity\<close>

text \<open>
  What is assumed outside: an encoded key is decoded again and fits the bound (an Ed25519 key takes
  68 bytes), and opening a path reads the regular file at its canonical destination.
\<close>

definition key_lib_ok :: "'k key_lib \<Rightarrow> bool" where
  "key_lib_ok K \<longleftrightarrow>
     (\<forall>k e. kl_encode K k = Some e \<longrightarrow> kl_decode K e = Some k \<and> length e \<le> MAX_IDENTITY_BYTES)"

definition opens_files :: "'k node_world \<Rightarrow> bool" where
  "opens_files W \<longleftrightarrow> (\<forall>fs path target content mode.
     canonical_destination (nw_output W) path = Some target \<longrightarrow>
     fs target = Some (Regular content mode) \<longrightarrow> nw_open W fs path = Some (True, reading_from content))"

lemma load_identity_encoded:
  assumes "key_lib_ok K" "kl_encode K k = Some e" "kl_ed25519 K k"
  shows "load_identity K (Some (reading_from e)) = Ok k"
  using assms by (simp add: load_identity_def key_lib_ok_def read_bounded_content MAX_IDENTITY_BYTES_def
      usize_max_def result_simps map_err_def)

lemma save_identity_Ok:
  assumes "save_identity K S fs path k replace = (Ok (), states)"
    and "canonical_destination S path = Some target" "well_behaved S fs target"
  obtains e where "kl_encode K k = Some e" "kl_ed25519 K k"
    "last states target = Some (Regular e PRIVATE_MODE)"
proof -
  obtain e where e: "kl_encode K k = Some e" "kl_ed25519 K k"
      "write_private_atomic S fs path e \<lparr>po_replace = replace, po_durable = True\<rparr> = (Ok (), states)"
    using assms(1) by (auto simp: save_identity_def map_err_def split: if_splits option.splits prod.splits sum.splits)
  then have "last states target = Some (Regular e PRIVATE_MODE)"
    using write_private_atomic_stored [OF e(3)] assms(2,3) by (metis option.inject)
  then show ?thesis using that e by blast
qed

lemma save_identity_occupied:
  assumes "canonical_destination S path = Some target" "fs target \<noteq> None"
  shows "save_identity K S fs path k False = (Err Node_Identity, [fs])"
proof -
  have "write_private_atomic S fs path e \<lparr>po_replace = False, po_durable = True\<rparr> = (Err Core_Output, [fs])" for e
  proof (cases "write_private_atomic S fs path e \<lparr>po_replace = False, po_durable = True\<rparr>")
    case (Pair result states)
    from Pair assms(1) show ?thesis
      by (cases rule: write_private_atomic_runs) (use Pair assms(2) in auto)
  qed
  then show ?thesis by (auto simp: save_identity_def map_err_def split: option.splits)
qed

text \<open>
  C26: A generated identity is the one the node serves under. When \<^verbatim>\<open>envshare-node key generate\<close>
  succeeds it prints the peer identifier of the new key, the file holds that key with owner-only
  permissions, \<^verbatim>\<open>key inspect\<close> of the same path prints the same identifier, and every node started
  with that file has it; without \<^verbatim>\<open>--force\<close> an existing entry makes it fail with nothing changed.
\<close>
theorem generated_identity_is_served:
  assumes "key_lib_ok (nw_keys W)" "opens_files W"
    and "canonical_destination (nw_output W) path = Some target" "well_behaved (nw_output W) fs target"
  shows "(\<forall>ls states. run_key_generate W fs path force = (Ok ls, states) \<longrightarrow>
      ls = [nw_show_peer W (kl_peer_id (nw_keys W) (nw_generated W))]
      \<and> (\<exists>e. kl_decode (nw_keys W) e = Some (nw_generated W) \<and>
           last states target = Some (Regular e PRIVATE_MODE))
      \<and> run_key_inspect W (last states) path = Ok ls
      \<and> (\<forall>arguments peer server s. sv_identity arguments = path \<and>
           run_server W (last states) arguments = Ok (peer, server, s) \<longrightarrow>
           peer = kl_peer_id (nw_keys W) (nw_generated W)))
    \<and> (\<not> force \<and> fs target \<noteq> None \<longrightarrow> run_key_generate W fs path force = (Err Node_Identity, [fs]))"
proof -
  let ?K = "nw_keys W" and ?k = "nw_generated W"
  have generated: "ls = [nw_show_peer W (kl_peer_id ?K ?k)] \<and>
      save_identity ?K (nw_output W) fs path ?k force = (Ok (), states)"
    if "run_key_generate W fs path force = (Ok ls, states)" for ls states
    using that by (auto simp: run_key_generate_def Let_def result_simps split: prod.splits)
  have stored: "\<exists>e. kl_decode ?K e = Some ?k \<and> last states target = Some (Regular e PRIVATE_MODE)
      \<and> load_identity ?K (map_option snd (nw_open W (last states) path)) = Ok ?k"
    if saved: "save_identity ?K (nw_output W) fs path ?k force = (Ok (), states)" for states
  proof -
    obtain e where e: "kl_encode ?K ?k = Some e" "kl_ed25519 ?K ?k"
        "last states target = Some (Regular e PRIVATE_MODE)"
      using save_identity_Ok [OF saved assms(3,4)] .
    then have "nw_open W (last states) path = Some (True, reading_from e)"
      using assms(2,3) by (auto simp: opens_files_def)
    then show ?thesis
      using e load_identity_encoded [OF assms(1) e(1,2)] assms(1) by (auto simp: key_lib_ok_def)
  qed
  have served: "peer = kl_peer_id ?K ?k"
    if "run_server W fs' arguments = Ok (peer, server, s)"
      "load_identity ?K (map_option snd (nw_open W fs' (sv_identity arguments))) = Ok ?k"
    for fs' arguments peer server s
    using that by (auto simp: run_server_def run_server_config_def result_simps Let_def)
  have occupied: "run_key_generate W fs path False = (Err Node_Identity, [fs])" if "fs target \<noteq> None"
    using save_identity_occupied [where K = "nw_keys W", OF assms(3), of fs] that by (simp add: run_key_generate_def Let_def)
  show ?thesis
    using generated stored served occupied by (fastforce simp: run_key_inspect_def)
qed

section \<open>A sample node\<close>

text \<open>A key is its identifier, encoded as the four-byte header of a protobuf key and the identifier.\<close>

definition sample_key_lib :: "bytes key_lib" where
  "sample_key_lib = \<lparr>kl_ed25519 = \<lambda>_. True,
     kl_encode = \<lambda>k. if length k \<le> 64 then Some ([8, 1, 18, 64] @ k) else None,
     kl_decode = \<lambda>e. Some (drop 4 e), kl_peer_id = id\<rparr>"

definition sample_node_world :: "bytes node_world" where
  "sample_node_world = \<lparr>nw_keys = sample_key_lib, nw_generated = [7], nw_output = sample_output_system,
     nw_open = \<lambda>fs path. (case canonical_destination sample_output_system path of
         Some target \<Rightarrow> (case fs target of
             Some (Regular content _) \<Rightarrow> Some (True, reading_from content) | _ \<Rightarrow> None)
       | None \<Rightarrow> None),
     nw_env_filter_ok = \<lambda>_. True, nw_from_toml = \<lambda>_. None, nw_parse_address = \<lambda>_. None,
     nw_show_peer = \<lambda>_. ''peer'', nw_show_address = \<lambda>_. ''address'', nw_can_install = True,
     nw_bind = \<lambda>_. True, nw_now = 0, nw_unix_seconds = 0,
     nw_health = \<lparr>hn_connect = \<lambda>_. False, hn_write = \<lambda>_. False, hn_read = \<lambda>_ _ _. None,
       hn_in_time = True\<rparr>\<rparr>"

definition sample_identity_path :: path where "sample_identity_path = [Normal [2]]"

definition sample_identity_fs :: fs where
  "sample_identity_fs = [[RootDir, Normal [2]] \<mapsto> Regular [8, 1, 18, 64, 7] PRIVATE_MODE]"

definition sample_serve_args :: ServeArgs where
  "sample_serve_args = \<lparr>sv_identity = sample_identity_path, sv_config = None, sv_listen = [],
     sv_json_flag = True\<rparr>"

lemma sample_key_lib_ok: "key_lib_ok (nw_keys sample_node_world)"
  by (auto simp: key_lib_ok_def sample_node_world_def sample_key_lib_def MAX_IDENTITY_BYTES_def)

lemma sample_opens_files: "opens_files sample_node_world"
  by (auto simp: opens_files_def sample_node_world_def)

lemma sample_canonical:
  "canonical_destination sample_output_system sample_identity_path = Some [RootDir, Normal [2]]"
  by (simp add: canonical_destination_def path_file_name_def sample_output_system_def sample_identity_path_def)

theorem generated_identity_is_served_witness:
  "run_key_inspect sample_node_world
     (last (snd (run_key_generate sample_node_world Map.empty sample_identity_path False)))
     sample_identity_path = Ok [''peer'']"
proof -
  let ?W = sample_node_world
  have out: "nw_output ?W = sample_output_system" by (simp add: sample_node_world_def)
  have "well_behaved (nw_output ?W) Map.empty [RootDir, Normal [2]]"
    by (simp add: well_behaved_def sample_output_system_def out)
  moreover have "canonical_destination (nw_output ?W) sample_identity_path = Some [RootDir, Normal [2]]"
    by (simp add: out sample_canonical)
  ultimately have main: "\<And>ls states. run_key_generate ?W Map.empty sample_identity_path False = (Ok ls, states)
      \<longrightarrow> ls = [nw_show_peer ?W (kl_peer_id (nw_keys ?W) (nw_generated ?W))]
        \<and> run_key_inspect ?W (last states) sample_identity_path = Ok ls"
    using generated_identity_is_served [OF sample_key_lib_ok sample_opens_files,
        of sample_identity_path "[RootDir, Normal [2]]" Map.empty False] by blast
  have "\<exists>states. run_key_generate ?W Map.empty sample_identity_path False = (Ok [''peer''], states)"
    by (simp add: run_key_generate_def save_identity_def sample_node_world_def sample_key_lib_def
        write_private_defs sample_output_system_def sample_identity_path_def path_file_name_def
        validate_destination_def can_rename_def Let_def map_err_def)
  then show ?thesis using main by auto
qed

lemma sample_load_identity:
  "load_identity sample_key_lib (map_option snd (nw_open sample_node_world sample_identity_fs
     sample_identity_path)) = Ok [7]"
  by (simp add: sample_node_world_def sample_canonical sample_identity_fs_def load_identity_def
      sample_key_lib_def read_bounded_content MAX_IDENTITY_BYTES_def usize_max_def map_err_def)

lemma sample_run_server:
  "\<exists>server s0. run_server sample_node_world sample_identity_fs sample_serve_args = Ok ([7], server, s0)
     \<and> sv_json s0 \<and> sv_stdout s0 = [event_json ''starting''] \<and> sv_operations_finished s0 = False
     \<and> sv_phase s0 = Supervising \<and> sv_node_task s0 = None \<and> sv_operations_task s0 = None"
proof -
  have load: "load_identity sample_key_lib (map_option snd (nw_open sample_node_world sample_identity_fs
      (sv_identity sample_serve_args))) = Ok [7]"
    using sample_load_identity by (simp add: sample_serve_args_def)
  have valid: "node_config_validate (\<lambda>_. True) node_config_default" by (simp add: default_config_valid)
  have parts: "nw_keys sample_node_world = sample_key_lib" "nw_env_filter_ok sample_node_world = (\<lambda>_. True)"
      "nw_can_install sample_node_world" "nw_bind sample_node_world = (\<lambda>_. True)"
    by (simp_all add: sample_node_world_def)
  have config: "serve_config sample_node_world sample_identity_fs sample_serve_args = Ok node_config_default"
    by (simp add: serve_config_def sample_serve_args_def)
  have telemetry: "telemetry_initialize (\<lambda>_. True) True (telemetry node_config_default) b = Ok True"
    if "b" for b
    using that by (simp add: telemetry_initialize_def node_config_default_def telemetry_default_def)
  have flags: "sv_json_flag sample_serve_args" by (simp add: sample_serve_args_def)
  have ops: "operations_address node_config_default = Some \<lparr>sa_ip = V4 127 0 0 1, sa_port = 9100\<rparr>"
    by (simp add: node_config_default_def)
  have peer: "kl_peer_id sample_key_lib [7] = [7]" by (simp add: sample_key_lib_def)
  show ?thesis
    using load valid flags
    by (simp add: run_server_def config parts telemetry run_server_config_def node_server_new_def ops
        operations_bind_def Let_def peer)
qed

theorem supervisor_stops_everything_witness:
  "\<exists>server s0. run_server sample_node_world sample_identity_fs sample_serve_args = Ok ([7], server, s0)
     \<and> sv_phase (supervise (nw_show_address sample_node_world) [SelectNode, PollAwaited, PollAwaited]
          (supervise (nw_show_address sample_node_world)
            [SelectShutdown True, NodeTaskEnds (Joined (Ok ())), OperationsTaskEnds (Joined (Ok ()))] s0))
         = Returned (Ok ())"
proof -
  obtain server s0 where run: "run_server sample_node_world sample_identity_fs sample_serve_args = Ok ([7], server, s0)"
    and s0: "sv_operations_finished s0 = False" "sv_phase s0 = Supervising" "sv_node_task s0 = None"
      "sv_operations_task s0 = None"
    using sample_run_server by blast
  let ?i = "[SelectShutdown True, NodeTaskEnds (Joined (Ok ())), OperationsTaskEnds (Joined (Ok ()))]"
  let ?s = "supervise (nw_show_address sample_node_world) ?i s0"
  have s: "sv_node_task ?s = Some (Joined (Ok ()))"
      "sv_operations_task ?s = Some (Joined (Ok ()))"
    using s0 by (simp_all add: supervise_def)
  obtain r where r: "sv_phase (supervise (nw_show_address sample_node_world) [SelectNode, PollAwaited, PollAwaited] ?s) = Returned r"
    using supervisor_stops_everything [OF run refl, of ?i] s by blast
  have "r = Ok ()" using r s0 by (simp add: supervise_def leave_loop_def)
  then show ?thesis using run r by blast
qed

theorem healthcheck_truthful_witness:
  "\<exists>n0. node_server_new (\<lambda>_. True) node_config_default 0 0 = Ok n0 \<and>
     run_healthcheck (endpoint_network (no_status n0) 0)
       (ascii ''http://'' @ show_socket_addr_v4 127 0 0 1 9100 @ ascii ''/health/ready'') \<noteq> Ok ()"
proof -
  have "node_config_validate (\<lambda>_. True) node_config_default" by (simp add: default_config_valid)
  then obtain n0 where n0: "node_server_new (\<lambda>_. True) node_config_default 0 0 = Ok n0"
      "\<not> is_ready (no_status n0)"
    by (auto simp: node_server_new_def Let_def is_ready_def configure_capacities_def expect_listeners_def
        status_default_def)
  then show ?thesis
    using healthcheck_truthful [OF n0(1) rtranclp.rtrancl_refl, of 0 _ 0 0 1 9100] by blast
qed

end
