(* ===== verification/Network_Discovery.thy ===== *)
theory Network_Discovery
  imports Rendezvous_Store "HOL-Library.Multiset" "HOL-Library.List_Lexorder"
    "HOL-Library.Product_Lexorder"
begin

text \<open>
  The client's side of discovery, \<^verbatim>\<open>network/src/discovery.rs\<close> and \<^verbatim>\<open>network/src/dns.rs\<close>: the room's
  namespace, DNS expansion of untrusted routes, the bounded set of candidate routes with its
  ranking, and the federated requests. Parsing and printing of multiaddresses, the platform's
  resolver and the provider that performs a request are parameters. Requests run concurrently:
  results are given in the order of the nodes, of which completion order is a permutation.
\<close>

definition HEX :: bytes where "HEX = ascii ''0123456789abcdef''"

type_synonym discovery_namespace = bytes

definition hex_byte :: "byte \<Rightarrow> bytes" where
  "hex_byte b = [HEX ! unat (drop_bit 4 b), HEX ! unat (b AND 0x0f)]"

definition from_room_id :: "bytes \<Rightarrow> discovery_namespace" where
  "from_room_id room_id = ascii ''envshare-v1-'' @ concat (map hex_byte room_id)"

section \<open>DNS\<close>

definition MAX_RESOLVED_ADDRESSES :: nat where "MAX_RESOLVED_ADDRESSES = 8"

datatype Family = AnyFamily | FamilyV4 | FamilyV6

fun dns_component :: "nat \<Rightarrow> protocol \<Rightarrow> (nat \<times> bytes \<times> Family) option" where
  "dns_component index (Dns host) = Some (index, host, AnyFamily)"
| "dns_component index (Dns4 host) = Some (index, host, FamilyV4)"
| "dns_component index (Dns6 host) = Some (index, host, FamilyV6)"
| "dns_component index (Dnsaddr _) = Some (index, [], AnyFamily)"
| "dns_component index _ = None"

fun family_matches :: "Family \<Rightarrow> ip_address \<Rightarrow> bool" where
  "family_matches AnyFamily _ = True"
| "family_matches FamilyV4 (V4 _ _ _ _) = True"
| "family_matches FamilyV6 (V6 _ _ _ _ _ _ _ _) = True"
| "family_matches _ _ = False"

fun ip_protocol :: "ip_address \<Rightarrow> protocol" where
  "ip_protocol (V4 a b c d) = Ip4 a b c d"
| "ip_protocol (V6 a b c d e f g h) = Ip6 a b c d e f g h"

fun expand_loop :: "multiaddr \<Rightarrow> nat \<Rightarrow> Family \<Rightarrow> ip_address list \<Rightarrow> ip_address set
    \<Rightarrow> multiaddr list \<Rightarrow> multiaddr list" where
  "expand_loop address dns_index family [] seen addresses = addresses"
| "expand_loop address dns_index family (ip # ips) seen addresses =
     (if \<not> family_matches family ip then expand_loop address dns_index family ips seen addresses
      else if ip \<in> seen then expand_loop address dns_index family ips seen addresses
      else let addresses = addresses @ [address[dns_index := ip_protocol ip]] in
        if length addresses = MAX_RESOLVED_ADDRESSES then addresses
        else expand_loop address dns_index family ips (insert ip seen) addresses)"

definition resolve :: "(bytes \<Rightarrow> ip_address list option) \<Rightarrow> multiaddr
    \<Rightarrow> (NetworkError, multiaddr list) result" where
  "resolve lookup_host address =
     (let dns = List.map_filter (\<lambda>(index, protocol). dns_component index protocol)
        (enumerate 0 address) in
      if length dns > 1 then Err Net_Dial else
      case dns of
        [] \<Rightarrow> Ok [address]
      | (dns_index, host, family) # _ \<Rightarrow>
          if host = [] \<or> length host > 253 then Err Net_Dial else
          bind_res (ok_or Net_Dial (lookup_host host)) (\<lambda>resolved.
          let addresses = expand_loop address dns_index family resolved {} [] in
          if addresses = [] then Err Net_Dial else Ok addresses))"

fun resolved_or_nothing :: "('e, 'a list) result \<Rightarrow> 'a list" where
  "resolved_or_nothing (Inl _) = []"
| "resolved_or_nothing (Inr xs) = xs"

definition resolve_discovered_peer ::
  "(bytes \<Rightarrow> ip_address list option) \<Rightarrow> DiscoveredPeer \<Rightarrow> DiscoveredPeer" where
  "resolve_discovered_peer lookup_host discovered =
     \<lparr>dp_peer = dp_peer discovered,
      dp_addresses = take 16 (concat (map (\<lambda>a. resolved_or_nothing (resolve lookup_host a))
        (take 8 (dp_addresses discovered))))\<rparr>"

section \<open>Candidates\<close>

record DiscoveryNode =
  node_peer :: peer_id
  node_address :: multiaddr

definition discovery_node_from_str ::
  "(bytes \<Rightarrow> multiaddr option) \<Rightarrow> bytes \<Rightarrow> (NetworkError, DiscoveryNode) result" where
  "discovery_node_from_str parse input =
     bind_res (ok_or Net_Configuration (parse input)) (\<lambda>address.
     if address = [] then Err Net_Configuration else
     case last address of
       P2p peer \<Rightarrow> if butlast address = [] then Err Net_Configuration
         else Ok \<lparr>node_peer = peer, node_address = butlast address\<rparr>
     | _ \<Rightarrow> Err Net_Configuration)"

datatype PrivacyMode = Standard | RelayOnly

datatype RouteKind = PublicQuic | PublicTcp | Lan | Relay

fun route_rank :: "RouteKind \<Rightarrow> nat" where
  "route_rank PublicQuic = 0"
| "route_rank PublicTcp = 1"
| "route_rank Lan = 2"
| "route_rank Relay = 3"

record RouteCandidate =
  rc_peer :: peer_id
  rc_address :: multiaddr
  rc_kind :: RouteKind

record CandidatePolicy =
  cp_max_peers :: nat
  cp_max_addresses_per_peer :: nat
  cp_allow_lan :: bool
  cp_privacy :: PrivacyMode

definition candidate_policy_default :: CandidatePolicy where
  "candidate_policy_default = \<lparr>cp_max_peers = 32, cp_max_addresses_per_peer = 8,
     cp_allow_lan = False, cp_privacy = Standard\<rparr>"

record CandidateSet =
  cs_policy :: CandidatePolicy
  cs_routes :: "(peer_id \<times> RouteCandidate list) list"
  cs_seen :: "(peer_id \<times> multiaddr) set"

definition candidate_set_new :: "CandidatePolicy \<Rightarrow> (NetworkError, CandidateSet) result" where
  "candidate_set_new policy =
     (if cp_max_peers policy = 0 \<or> cp_max_peers policy > 256
         \<or> cp_max_addresses_per_peer policy = 0 \<or> cp_max_addresses_per_peer policy > 16
      then Err Net_Configuration
      else Ok \<lparr>cs_policy = policy, cs_routes = [], cs_seen = {}\<rparr>)"

fun is_refused_protocol :: "protocol \<Rightarrow> bool" where
  "is_refused_protocol (Dns _) = True"
| "is_refused_protocol (Dns4 _) = True"
| "is_refused_protocol (Dns6 _) = True"
| "is_refused_protocol (Dnsaddr _) = True"
| "is_refused_protocol (Memory _) = True"
| "is_refused_protocol (Unix _) = True"
| "is_refused_protocol (Onion _) = True"
| "is_refused_protocol (Onion3 _) = True"
| "is_refused_protocol _ = False"

fun is_private_component :: "protocol \<Rightarrow> bool" where
  "is_private_component (Ip4 a b c d) \<longleftrightarrow>
     (a = 10 \<or> a = 172 \<and> 16 \<le> b \<and> b \<le> 31 \<or> a = 192 \<and> b = 168)
     \<or> a = 127
     \<or> (a = 169 \<and> b = 254)
     \<or> (a = 0 \<and> b = 0 \<and> c = 0 \<and> d = 0)
     \<or> (224 \<le> a \<and> a \<le> 239)"
| "is_private_component (Ip6 a b c d e f g h) \<longleftrightarrow> unusable_v6 a b c d e f g h"
| "is_private_component _ \<longleftrightarrow> False"

fun is_quic :: "protocol \<Rightarrow> bool" where
  "is_quic QuicV1 = True"
| "is_quic Quic = True"
| "is_quic _ = False"

fun is_tcp :: "protocol \<Rightarrow> bool" where
  "is_tcp (Tcp _) = True"
| "is_tcp _ = False"

definition classify_address :: "multiaddr \<Rightarrow> peer_id \<Rightarrow> CandidatePolicy \<Rightarrow> RouteKind option" where
  "classify_address address expected_peer policy =
     (if address = [] \<or> list_ex is_refused_protocol address then None
      else if P2pCircuit \<in> set address then
        (case find_p2p (tl (dropWhile (\<lambda>p. p \<noteq> P2pCircuit) address)) of
           Some peer \<Rightarrow> if peer \<noteq> expected_peer then None else Some Relay
         | None \<Rightarrow> Some Relay)
      else if (case find_p2p (rev address) of Some peer \<Rightarrow> peer \<noteq> expected_peer | None \<Rightarrow> False)
        then None
      else if cp_privacy policy = RelayOnly then None
      else if list_ex is_private_component address
        then (if cp_allow_lan policy then Some Lan else None)
      else if list_ex is_quic address then Some PublicQuic
      else if list_ex is_tcp address then Some PublicTcp
      else None)"

definition routes_of :: "CandidateSet \<Rightarrow> peer_id \<Rightarrow> RouteCandidate list" where
  "routes_of cs peer = (case map_of (cs_routes cs) peer of Some rs \<Rightarrow> rs | None \<Rightarrow> [])"

fun insert_loop :: "peer_id \<Rightarrow> multiaddr list \<Rightarrow> CandidateSet \<Rightarrow> CandidateSet" where
  "insert_loop peer [] cs = cs"
| "insert_loop peer (address # addresses) cs =
     (if (case map_of (cs_routes cs) peer of
            Some routes \<Rightarrow> length routes = cp_max_addresses_per_peer (cs_policy cs) | None \<Rightarrow> False)
      then cs
      else case classify_address address peer (cs_policy cs) of
        None \<Rightarrow> insert_loop peer addresses cs
      | Some kind \<Rightarrow>
          if (peer, address) \<in> cs_seen cs then insert_loop peer addresses cs
          else insert_loop peer addresses (cs\<lparr>
            cs_seen := insert (peer, address) (cs_seen cs),
            cs_routes := AList.update peer (routes_of cs peer @
              [\<lparr>rc_peer = peer, rc_address = address, rc_kind = kind\<rparr>]) (cs_routes cs)\<rparr>))"

definition candidate_insert :: "CandidateSet \<Rightarrow> DiscoveredPeer \<Rightarrow> CandidateSet" where
  "candidate_insert cs discovered =
     (if map_of (cs_routes cs) (dp_peer discovered) = None
         \<and> length (cs_routes cs) = cp_max_peers (cs_policy cs) then cs
      else insert_loop (dp_peer discovered)
        (take (cp_max_addresses_per_peer (cs_policy cs)) (dp_addresses discovered)) cs)"

definition route_key :: "(multiaddr \<Rightarrow> bytes) \<Rightarrow> RouteCandidate \<Rightarrow> nat \<times> bytes \<times> bytes" where
  "route_key to_string r = (route_rank (rc_kind r), rc_peer r, to_string (rc_address r))"

definition into_ranked :: "(multiaddr \<Rightarrow> bytes) \<Rightarrow> CandidateSet \<Rightarrow> RouteCandidate list" where
  "into_ranked to_string cs = sort_key (route_key to_string) (concat (map snd (cs_routes cs)))"

section \<open>Federated requests\<close>

definition dispatch_registration ::
  "(peer_id \<Rightarrow> multiaddr \<Rightarrow> discovery_namespace \<Rightarrow> u64 \<Rightarrow> (NetworkError, unit) result)
   \<Rightarrow> DiscoveryNode list \<Rightarrow> discovery_namespace \<Rightarrow> u64 \<Rightarrow> nat
   \<Rightarrow> (peer_id \<times> (NetworkError, unit) result) list" where
  "dispatch_registration provider_register nodes ns ttl_seconds max_parallel =
     (if max_parallel = 0 \<or> max_parallel > 8 then []
      else map (\<lambda>node. (node_peer node,
        provider_register (node_peer node) (node_address node) ns ttl_seconds)) (take 8 nodes))"

definition dispatch_discovery ::
  "(peer_id \<Rightarrow> multiaddr \<Rightarrow> discovery_namespace \<Rightarrow> (NetworkError, unit) result)
   \<Rightarrow> DiscoveryNode list \<Rightarrow> discovery_namespace \<Rightarrow> nat
   \<Rightarrow> (peer_id \<times> (NetworkError, unit) result) list" where
  "dispatch_discovery provider_discover nodes ns max_parallel =
     (if max_parallel = 0 \<or> max_parallel > 8 then []
      else map (\<lambda>node. (node_peer node,
        provider_discover (node_peer node) (node_address node) ns)) (take 8 nodes))"

text \<open>The nodes asked to unregister; their answers are ignored.\<close>

definition dispatch_unregistration :: "DiscoveryNode list \<Rightarrow> nat \<Rightarrow> peer_id list" where
  "dispatch_unregistration nodes max_parallel =
     (if max_parallel = 0 \<or> max_parallel > 8 then [] else map node_peer (take 8 nodes))"

definition renewal_delay :: "u64 \<Rightarrow> duration" where
  "renewal_delay ttl_seconds =
     secs (unat (max ((if unat ttl_seconds * 2 < 2 ^ 64 then ttl_seconds * 2 else - 1) div 3) 1))"

datatype provider_call =
    CallRegister peer_id multiaddr discovery_namespace u64
  | CallUnregister peer_id discovery_namespace
  | CallSleep duration

text \<open>
  \<^verbatim>\<open>maintain_registrations\<close> as the calls it makes when the cancellation arrives during the wait
  after \<open>renewals\<close> renewals.
\<close>

definition registration_round ::
  "DiscoveryNode list \<Rightarrow> discovery_namespace \<Rightarrow> u64 \<Rightarrow> nat \<Rightarrow> provider_call list" where
  "registration_round nodes ns ttl_seconds max_parallel =
     (if max_parallel = 0 \<or> max_parallel > 8 then []
      else map (\<lambda>node. CallRegister (node_peer node) (node_address node) ns ttl_seconds)
        (take 8 nodes))"

fun maintain_registrations ::
  "DiscoveryNode list \<Rightarrow> discovery_namespace \<Rightarrow> u64 \<Rightarrow> nat \<Rightarrow> nat \<Rightarrow> provider_call list" where
  "maintain_registrations nodes ns ttl_seconds max_parallel 0 =
     registration_round nodes ns ttl_seconds max_parallel
     @ map (\<lambda>peer. CallUnregister peer ns) (dispatch_unregistration nodes max_parallel)"
| "maintain_registrations nodes ns ttl_seconds max_parallel (Suc renewals) =
     registration_round nodes ns ttl_seconds max_parallel @ [CallSleep (renewal_delay ttl_seconds)]
     @ maintain_registrations nodes ns ttl_seconds max_parallel renewals"


section \<open>Namespaces\<close>

lemma HEX_digits: "length HEX = 16" "distinct HEX"
    "list_all (\<lambda>b. is_ascii_hexdigit b \<and> \<not> is_ascii_uppercase b) HEX"
  by code_simp+

lemma nibbles:
  fixes b :: byte
  shows "unat (drop_bit 4 b) < 16" "unat (b AND 0x0f) < 16"
    "unat b = 16 * unat (drop_bit 4 b) + unat (b AND 0x0f)"
proof -
  have hi: "unat (drop_bit 4 b) = unat b div 16"
    unfolding unat_drop_bit_eq by (simp add: drop_bit_eq_div)
  have low: "b AND 0x0f = take_bit 4 b" by (simp add: take_bit_eq_mask mask_eq_exp_minus_1)
  have lo: "unat (b AND 0x0f) = unat b mod 16"
    unfolding low unsigned_take_bit_eq by (simp only: take_bit_eq_mod) simp
  show "unat (drop_bit 4 b) < 16" using byte_lt_256 [of b] unfolding hi by linarith
  show "unat (b AND 0x0f) < 16" unfolding lo by simp
  show "unat b = 16 * unat (drop_bit 4 b) + unat (b AND 0x0f)" unfolding hi lo by simp
qed

lemma length_hex_byte: "length (hex_byte b) = 2"
  by (simp add: hex_byte_def)

lemma hex_byte_inj:
  assumes "hex_byte a = hex_byte b"
  shows "a = b"
proof -
  have "unat (drop_bit 4 a) = unat (drop_bit 4 b)" "unat (a AND 0x0f) = unat (b AND 0x0f)"
    using assms nibbles(1,2) [of a] nibbles(1,2) [of b]
    by (simp_all add: hex_byte_def nth_eq_iff_index_eq [OF HEX_digits(2)] HEX_digits(1))
  then show ?thesis using nibbles(3) [of a] nibbles(3) [of b] by (simp add: word_unat_eq_iff)
qed

lemma hex_bytes_inj:
  "concat (map hex_byte xs) = concat (map hex_byte ys) \<Longrightarrow> xs = ys"
proof (induction xs arbitrary: ys)
  case Nil
  then show ?case by (cases ys) (auto simp: hex_byte_def)
next
  case (Cons x xs)
  then obtain y ys' where ys: "ys = y # ys'" by (cases ys) (auto simp: hex_byte_def)
  have "hex_byte x = hex_byte y" "concat (map hex_byte xs) = concat (map hex_byte ys')"
    using Cons.prems length_hex_byte unfolding ys by simp_all
  then show ?case using Cons.IH hex_byte_inj ys by blast
qed

lemma from_room_id_hex: "from_room_id r = NAMESPACE_PREFIX @ concat (map hex_byte r)"
  by (simp add: from_room_id_def NAMESPACE_PREFIX_def)

lemma hex_bytes_digits:
  "list_all (\<lambda>b. is_ascii_hexdigit b \<and> \<not> is_ascii_uppercase b) (concat (map hex_byte xs))"
proof (induction xs)
  case (Cons x xs)
  have "HEX ! n \<in> set HEX" if "n < 16" for n using that HEX_digits(1) by simp
  then show ?case using Cons nibbles(1,2) [of x] HEX_digits(3)
    by (simp add: hex_byte_def list_all_iff)
qed simp

lemma hex_bytes_length: "length (concat (map hex_byte xs)) = 2 * length xs"
  by (induction xs) (simp_all add: hex_byte_def)

text \<open>
  Clients and server agree on namespaces: the namespace a client derives from a room
  identifier passes the server's check exactly when the identifier has its 16 bytes, as every
  derived one has, and different rooms have different namespaces.
\<close>
theorem room_namespace_agrees:
  "valid_namespace (from_room_id room) = (length room = 16)
   \<and> (from_room_id room = from_room_id room') = (room = room')"
proof -
  have "length NAMESPACE_PREFIX = 12" by code_simp
  then show ?thesis
    using hex_bytes_digits [of room] hex_bytes_length [of room] hex_bytes_inj [of room room']
    by (auto simp: from_room_id_hex valid_namespace_def ROOM_HEX_BYTES_def)
qed

section \<open>The candidate set\<close>

definition candidates_inv :: "CandidateSet \<Rightarrow> bool" where
  "candidates_inv cs \<longleftrightarrow>
     distinct (map fst (cs_routes cs))
     \<and> length (cs_routes cs) \<le> cp_max_peers (cs_policy cs)
     \<and> (\<forall>(peer, rs) \<in> set (cs_routes cs).
          length rs \<le> cp_max_addresses_per_peer (cs_policy cs)
          \<and> distinct rs
          \<and> (\<forall>r \<in> set rs. rc_peer r = peer \<and> (peer, rc_address r) \<in> cs_seen cs
               \<and> classify_address (rc_address r) peer (cs_policy cs) = Some (rc_kind r)))"

lemma routes_of_inv:
  assumes "candidates_inv cs"
  shows "length (routes_of cs peer) \<le> cp_max_addresses_per_peer (cs_policy cs)"
    "distinct (routes_of cs peer)"
    "r \<in> set (routes_of cs peer) \<Longrightarrow> rc_peer r = peer \<and> (peer, rc_address r) \<in> cs_seen cs
       \<and> classify_address (rc_address r) peer (cs_policy cs) = Some (rc_kind r)"
  using assms
  by (auto simp: candidates_inv_def routes_of_def dest!: map_of_SomeD split: option.splits)

lemma insert_route_inv:
  assumes inv: "candidates_inv cs"
    and room: "map_of (cs_routes cs) peer = None \<Longrightarrow> length (cs_routes cs) < cp_max_peers (cs_policy cs)"
    and few: "length (routes_of cs peer) < cp_max_addresses_per_peer (cs_policy cs)"
    and kind: "classify_address address peer (cs_policy cs) = Some kind"
    and new: "(peer, address) \<notin> cs_seen cs"
  shows "candidates_inv (cs\<lparr>cs_seen := insert (peer, address) (cs_seen cs),
      cs_routes := AList.update peer (routes_of cs peer @
        [\<lparr>rc_peer = peer, rc_address = address, rc_kind = kind\<rparr>]) (cs_routes cs)\<rparr>)"
proof -
  let ?r = "\<lparr>rc_peer = peer, rc_address = address, rc_kind = kind\<rparr>"
  let ?rs = "routes_of cs peer @ [?r]"
  have d: "distinct (map fst (cs_routes cs))" using inv by (simp add: candidates_inv_def)
  have len: "length (AList.update peer ?rs (cs_routes cs)) \<le> cp_max_peers (cs_policy cs)"
    by (rule alist.bounded_insert [OF d]) (use inv room in \<open>auto simp: candidates_inv_def\<close>)
  have dr: "distinct ?rs"
    using routes_of_inv(2) [OF inv, of peer] routes_of_inv(3) [OF inv, of ?r peer] new by auto
  have member: "rc_peer r = peer \<and> (peer, rc_address r) \<in> insert (peer, address) (cs_seen cs)
      \<and> classify_address (rc_address r) peer (cs_policy cs) = Some (rc_kind r)"
    if "r \<in> set ?rs" for r
    using that routes_of_inv(3) [OF inv, of r peer] kind by auto
  have "length rs \<le> cp_max_addresses_per_peer (cs_policy cs) \<and> distinct rs
      \<and> (\<forall>r \<in> set rs. rc_peer r = p \<and> (p, rc_address r) \<in> insert (peer, address) (cs_seen cs)
           \<and> classify_address (rc_address r) p (cs_policy cs) = Some (rc_kind r))"
    if "(p, rs) \<in> set (AList.update peer ?rs (cs_routes cs))" for p rs
  proof (cases "(p, rs) = (peer, ?rs)")
    case True
    then show ?thesis using few dr member by auto
  next
    case False
    then have "(p, rs) \<in> set (cs_routes cs)" using that set_update_subset by fastforce
    then show ?thesis using inv by (auto simp: candidates_inv_def)
  qed
  then show ?thesis
    using len AList.distinct_update [OF d, of peer ?rs] unfolding candidates_inv_def by auto
qed


lemma insert_loop_inv:
  assumes "candidates_inv cs"
    and "map_of (cs_routes cs) peer = None \<Longrightarrow> length (cs_routes cs) < cp_max_peers (cs_policy cs)"
    and "0 < cp_max_addresses_per_peer (cs_policy cs)"
  shows "candidates_inv (insert_loop peer addresses cs) \<and>
    cs_policy (insert_loop peer addresses cs) = cs_policy cs"
  using assms
proof (induction addresses arbitrary: cs)
  case (Cons address addresses)
  let ?full = "case map_of (cs_routes cs) peer of
      Some routes \<Rightarrow> length routes = cp_max_addresses_per_peer (cs_policy cs) | None \<Rightarrow> False"
  show ?case
  proof (cases "?full \<or> classify_address address peer (cs_policy cs) = None \<or> (peer, address) \<in> cs_seen cs")
    case True
    then have "insert_loop peer (address # addresses) cs \<in> {cs, insert_loop peer addresses cs}"
      by (auto split: option.split)
    then show ?thesis using Cons.IH [OF Cons.prems] Cons.prems(1) by (elim insertE emptyE) simp_all
  next
    case False
    then obtain kind where kind: "classify_address address peer (cs_policy cs) = Some kind"
      and new: "(peer, address) \<notin> cs_seen cs" and nf: "\<not> ?full" by auto
    have few: "length (routes_of cs peer) < cp_max_addresses_per_peer (cs_policy cs)"
      using nf routes_of_inv(1) [OF Cons.prems(1), of peer] Cons.prems(3)
      by (auto simp: routes_of_def split: option.splits)
    let ?cs = "cs\<lparr>cs_seen := insert (peer, address) (cs_seen cs),
      cs_routes := AList.update peer (routes_of cs peer @
        [\<lparr>rc_peer = peer, rc_address = address, rc_kind = kind\<rparr>]) (cs_routes cs)\<rparr>"
    have "candidates_inv ?cs" by (rule insert_route_inv [OF Cons.prems(1,2) few kind new])
    moreover have "map_of (cs_routes ?cs) peer \<noteq> None" by (simp add: update_conv')
    moreover have "cs_policy ?cs = cs_policy cs" by simp
    ultimately have "candidates_inv (insert_loop peer addresses ?cs) \<and>
        cs_policy (insert_loop peer addresses ?cs) = cs_policy cs"
      using Cons.IH [of ?cs] Cons.prems(3) by metis
    then show ?thesis using nf kind new by simp
  qed
qed simp

lemma candidate_insert_inv:
  assumes "candidates_inv cs" and "0 < cp_max_addresses_per_peer (cs_policy cs)"
  shows "candidates_inv (candidate_insert cs d) \<and> cs_policy (candidate_insert cs d) = cs_policy cs"
proof (cases "map_of (cs_routes cs) (dp_peer d) = None \<and>
    length (cs_routes cs) = cp_max_peers (cs_policy cs)")
  case True
  then show ?thesis using assms by (simp add: candidate_insert_def)
next
  case False
  have "map_of (cs_routes cs) (dp_peer d) = None \<Longrightarrow>
      length (cs_routes cs) < cp_max_peers (cs_policy cs)"
    using False assms(1) by (auto simp: candidates_inv_def)
  then show ?thesis
    unfolding candidate_insert_def if_not_P [OF False] by (rule insert_loop_inv [OF assms(1) _ assms(2)])
qed

lemma candidate_inserts_inv:
  assumes "candidates_inv cs" and "0 < cp_max_addresses_per_peer (cs_policy cs)"
  shows "candidates_inv (foldl candidate_insert cs ds) \<and>
    cs_policy (foldl candidate_insert cs ds) = cs_policy cs"
  using assms
proof (induction ds arbitrary: cs)
  case (Cons d ds)
  then show ?case using candidate_insert_inv [OF Cons.prems, of d] by simp
qed simp

lemma total_length_bound:
  "(\<forall>xs \<in> set xss. length xs \<le> k) \<Longrightarrow> length (concat xss) \<le> length xss * k"
  by (induction xss) auto

lemma find_p2p_Some: "find_p2p ps = Some p \<Longrightarrow> P2p p \<in> set ps"
  by (induction ps rule: find_p2p.induct) auto

lemma classify_direct:
  assumes "classify_address a peer policy = Some kind" and "kind \<noteq> Relay"
  shows "cp_privacy policy = Standard \<and> P2pCircuit \<notin> set a
    \<and> (cp_allow_lan policy \<or> \<not> list_ex is_private_component a)"
  using assms unfolding classify_address_def
  by (cases "cp_privacy policy") (auto split: if_splits option.splits)

lemma classify_refused:
  "classify_address a peer policy = Some kind \<Longrightarrow> a \<noteq> [] \<and> \<not> list_ex is_refused_protocol a"
  by (auto simp: classify_address_def split: if_splits)

text \<open>
  The candidate set keeps its bounds and its policy whatever records untrusted nodes return.
  After any sequence of insertions there are at most the configured peers and routes per peer, and
  every ranked route is one classified for its peer, without DNS or other refused components; in
  relay-only mode all routes are relay routes, and without LAN access no direct route has a
  private address.
\<close>
theorem candidate_set_policy:
  assumes "candidate_set_new policy = Ok cs0" and "cs = foldl candidate_insert cs0 discovered"
  shows "length (cs_routes cs) \<le> cp_max_peers policy
    \<and> length (into_ranked to_string cs) \<le> cp_max_peers policy * cp_max_addresses_per_peer policy
    \<and> (\<forall>r \<in> set (into_ranked to_string cs).
         classify_address (rc_address r) (rc_peer r) policy = Some (rc_kind r)
         \<and> \<not> list_ex is_refused_protocol (rc_address r)
         \<and> (cp_privacy policy = RelayOnly \<longrightarrow> rc_kind r = Relay)
         \<and> (\<not> cp_allow_lan policy \<and> rc_kind r \<noteq> Relay \<longrightarrow>
              \<not> list_ex is_private_component (rc_address r)))"
proof -
  have cs0: "candidates_inv cs0" "cs_policy cs0 = policy"
      "0 < cp_max_addresses_per_peer (cs_policy cs0)"
    using assms(1) by (auto simp: candidate_set_new_def candidates_inv_def split: if_splits)
  have inv: "candidates_inv cs" "cs_policy cs = policy"
    using candidate_inserts_inv [OF cs0(1,3)] cs0(2) by (simp_all add: assms(2))
  have n: "length (cs_routes cs) \<le> cp_max_peers policy"
    using inv by (simp add: candidates_inv_def)
  have "length (concat (map snd (cs_routes cs))) \<le>
      length (map snd (cs_routes cs)) * cp_max_addresses_per_peer policy"
    using inv by (intro total_length_bound) (auto simp: candidates_inv_def)
  also have "\<dots> \<le> cp_max_peers policy * cp_max_addresses_per_peer policy"
    using n by (simp add: mult_le_mono1)
  finally have len: "length (into_ranked to_string cs) \<le>
      cp_max_peers policy * cp_max_addresses_per_peer policy"
    by (simp add: into_ranked_def)
  have c: "classify_address (rc_address r) (rc_peer r) policy = Some (rc_kind r)"
    if "r \<in> set (into_ranked to_string cs)" for r
    using that inv by (auto simp: into_ranked_def candidates_inv_def)
  show ?thesis
    using n len c classify_direct [OF c] classify_refused [OF c] by fastforce
qed


text \<open>
  A relay route is accepted whatever the policy says of private addresses: the address of the
  relay itself is not looked at.
\<close>
lemma relay_route_skips_lan_policy:
  "classify_address [Ip4 127 0 0 1, Tcp 4001, P2p relay, P2pCircuit, P2p peer] peer
     (candidate_policy_default\<lparr>cp_allow_lan := False\<rparr>) = Some Relay"
  by (simp add: classify_address_def)

definition sample_discovered :: DiscoveredPeer where
  "sample_discovered = \<lparr>dp_peer = [2], dp_addresses = [[Ip4 8 8 8 8, Tcp 4001], [Ip4 10 0 0 1, Tcp 1]]\<rparr>"

theorem candidate_set_policy_witness:
  "length (cs_routes (candidate_insert \<lparr>cs_policy = candidate_policy_default, cs_routes = [],
     cs_seen = {}\<rparr> sample_discovered)) \<le> 32"
proof -
  have "candidate_set_new candidate_policy_default =
      Ok \<lparr>cs_policy = candidate_policy_default, cs_routes = [], cs_seen = {}\<rparr>"
    by (simp add: candidate_set_new_def candidate_policy_default_def)
  from candidate_set_policy [OF this, of _ "[sample_discovered]" "\<lambda>_. []"] show ?thesis
    by (simp add: candidate_policy_default_def)
qed


end
