(* ===== verification/Lan_Discovery.thy ===== *)
theory Lan_Discovery
  imports Network_Discovery
begin

text \<open>
  Discovery on the local network, \<^verbatim>\<open>network/src/lan.rs\<close>. The multicast daemon is a parameter:
  what creating and registering a service record gives, and the list of service events it delivers.
  A resolved service carries the value of its \<^verbatim>\<open>peer\<close> property, its addresses in the daemon's
  order and its port; the text form of peer identifiers is a parameter too.
\<close>

definition SERVICE_TYPE :: bytes where "SERVICE_TYPE = ascii ''_envshare._tcp.local.''"

datatype LanEvent = LanPeerDiscovered DiscoveredPeer | LanPeerExpired peer_id

record LanDiscovery =
  lan_local_peer :: peer_id
  lan_max_results :: nat

text \<open>\<open>started\<close> and \<open>browsing\<close> tell whether the daemon starts and accepts the browse request.\<close>

definition lan_new :: "bool \<Rightarrow> bool \<Rightarrow> peer_id \<Rightarrow> nat \<Rightarrow> (NetworkError, LanDiscovery) result" where
  "lan_new started browsing local_peer max_results =
     (if \<not> started then Err Net_Configuration
      else if \<not> browsing then Err Net_Configuration
      else Ok \<lparr>lan_local_peer = local_peer, lan_max_results = max_results\<rparr>)"

fun endpoint_step :: "ip_address option \<times> u16 option \<Rightarrow> protocol \<Rightarrow> ip_address option \<times> u16 option" where
  "endpoint_step (ip, port) (Ip4 a b c d) = (Some (V4 a b c d), port)"
| "endpoint_step (ip, port) (Ip6 a b c d e f g h) = (Some (V6 a b c d e f g h), port)"
| "endpoint_step (ip, port) (Tcp value) = (ip, Some value)"
| "endpoint_step (ip, port) _ = (ip, port)"

definition tcp_endpoint :: "multiaddr \<Rightarrow> (ip_address \<times> u16) option" where
  "tcp_endpoint address =
     (case foldl endpoint_step (None, None) address of
        (Some ip, Some port) \<Rightarrow> if port \<noteq> 0 then Some (ip, port) else None
      | _ \<Rightarrow> None)"

text \<open>Every formatted address parses.\<close>

definition socket_multiaddr :: "ip_address \<Rightarrow> u16 \<Rightarrow> multiaddr option" where
  "socket_multiaddr ip port = Some [ip_protocol ip, Tcp port]"

record ServiceInfo =
  si_type :: bytes
  si_instance :: bytes
  si_host :: bytes
  si_ip :: ip_address
  si_port :: u16
  si_properties :: "(bytes \<times> bytes) list"
  si_addr_auto :: bool

fun ip_unspecified :: "ip_address \<Rightarrow> bool" where
  "ip_unspecified (V4 a b c d) \<longleftrightarrow> a = 0 \<and> b = 0 \<and> c = 0 \<and> d = 0"
| "ip_unspecified (V6 a b c d e f g h) \<longleftrightarrow>
     a = 0 \<and> b = 0 \<and> c = 0 \<and> d = 0 \<and> e = 0 \<and> f = 0 \<and> g = 0 \<and> h = 0"

definition advertised_service :: "(peer_id \<Rightarrow> bytes) \<Rightarrow> LanDiscovery \<Rightarrow> ip_address \<Rightarrow> u16 \<Rightarrow> ServiceInfo" where
  "advertised_service to_string lan ip port =
     (let peer = to_string (lan_local_peer lan) in
      \<lparr>si_type = SERVICE_TYPE, si_instance = peer, si_host = peer @ ascii ''.local.'', si_ip = ip,
       si_port = port, si_properties = [(ascii ''peer'', peer)], si_addr_auto = ip_unspecified ip\<rparr>)"

text \<open>The record registered with the daemon, if one is.\<close>

definition lan_advertise ::
  "(peer_id \<Rightarrow> bytes) \<Rightarrow> (ServiceInfo \<Rightarrow> bool) \<Rightarrow> (ServiceInfo \<Rightarrow> bool) \<Rightarrow> LanDiscovery \<Rightarrow> multiaddr
    \<Rightarrow> (NetworkError, ServiceInfo option) result" where
  "lan_advertise to_string service_new register_service lan address =
     (case tcp_endpoint address of
        None \<Rightarrow> Ok None
      | Some (ip, port) \<Rightarrow>
          let info = advertised_service to_string lan ip port in
          if \<not> service_new info then Err Net_Configuration
          else if register_service info then Ok (Some info) else Err Net_Configuration)"

record ResolvedService =
  rs_peer_property :: "bytes option"
  rs_addresses :: "ip_address list"
  rs_port :: u16

datatype ServiceEvent =
    ServiceResolved ResolvedService
  | ServiceRemoved bytes bytes
  | ServiceOther

fun lan_next :: "(bytes \<Rightarrow> peer_id option) \<Rightarrow> LanDiscovery \<Rightarrow> ServiceEvent list
    \<Rightarrow> (LanEvent \<times> ServiceEvent list) option" where
  "lan_next peer_from_str lan [] = None"
| "lan_next peer_from_str lan (ServiceResolved service # events) =
     (case Option.bind (rs_peer_property service) peer_from_str of
        None \<Rightarrow> lan_next peer_from_str lan events
      | Some peer \<Rightarrow>
          if peer = lan_local_peer lan then lan_next peer_from_str lan events else
          let addresses = List.map_filter (\<lambda>ip. socket_multiaddr ip (rs_port service))
                (take (lan_max_results lan) (rs_addresses service)) in
          if addresses = [] then lan_next peer_from_str lan events
          else Some (LanPeerDiscovered \<lparr>dp_peer = peer, dp_addresses = addresses\<rparr>, events))"
| "lan_next peer_from_str lan (ServiceRemoved _ fullname # events) =
     (case peer_from_str (takeWhile (\<lambda>b. b \<noteq> 46) fullname) of
        None \<Rightarrow> lan_next peer_from_str lan events
      | Some peer \<Rightarrow>
          if peer = lan_local_peer lan then lan_next peer_from_str lan events
          else Some (LanPeerExpired peer, events))"
| "lan_next peer_from_str lan (ServiceOther # events) = lan_next peer_from_str lan events"

section \<open>What the local network can inject\<close>

text \<open>The peer a local event is about.\<close>

fun lan_event_peer :: "LanEvent \<Rightarrow> peer_id" where
  "lan_event_peer (LanPeerDiscovered d) = dp_peer d"
| "lan_event_peer (LanPeerExpired p) = p"

lemma tcp_endpoint_socket_multiaddr:
  "port \<noteq> 0 \<Longrightarrow> Option.bind (socket_multiaddr ip port) tcp_endpoint = Some (ip, port)"
  by (cases ip) (simp_all add: socket_multiaddr_def tcp_endpoint_def)

lemma map_filter_socket: "List.map_filter (\<lambda>ip. socket_multiaddr ip port) ips =
    map (\<lambda>ip. [ip_protocol ip, Tcp port]) ips"
  by (induction ips) (simp_all add: List.map_filter_simps socket_multiaddr_def)

lemma lan_next_event:
  "lan_next peer_from_str lan events = Some (e, rest) \<Longrightarrow>
     lan_event_peer e \<noteq> lan_local_peer lan \<and> length rest < length events \<and>
     (case e of LanPeerDiscovered d \<Rightarrow>
        dp_addresses d \<noteq> [] \<and> length (dp_addresses d) \<le> lan_max_results lan
      | LanPeerExpired _ \<Rightarrow> True)"
proof (induction events)
  case (Cons event events)
  then show ?case
    by (cases event) (fastforce simp: map_filter_socket Let_def split: option.splits if_splits)+
qed simp

text \<open>
  A peer that advertises a concrete address is found by every other peer under that address: the
  browser's route names the advertised address and port.
\<close>

lemma lan_advertise_discover:
  assumes "lan_advertise to_string service_new register_service lan address = Ok (Some info)"
    and "peer_from_str (to_string (lan_local_peer lan)) = Some (lan_local_peer lan)"
    and "lan_local_peer other \<noteq> lan_local_peer lan" and "0 < lan_max_results other"
  shows "\<exists>ip port. tcp_endpoint address = Some (ip, port) \<and>
    lan_next peer_from_str other [ServiceResolved \<lparr>rs_peer_property =
        map_of (si_properties info) (ascii ''peer''), rs_addresses = [si_ip info],
        rs_port = si_port info\<rparr>] =
      Some (LanPeerDiscovered \<lparr>dp_peer = lan_local_peer lan,
        dp_addresses = [[ip_protocol ip, Tcp port]]\<rparr>, [])"
proof -
  obtain ip port where "tcp_endpoint address = Some (ip, port)"
      "info = advertised_service to_string lan ip port"
    using assms(1) by (auto simp: lan_advertise_def Let_def split: option.splits if_splits)
  moreover obtain m where "lan_max_results other = Suc m" using assms(4) not0_implies_Suc by auto
  ultimately show ?thesis
    using assms(2,3) by (simp add: advertised_service_def Let_def map_filter_socket)
qed

end
