(* ===== verification/Network_Driver.thy ===== *)
theory Network_Driver
  imports Lan_Discovery "HOL-Library.Multiset"
begin

text \<open>
  The network client and the task that owns the swarm, \<^verbatim>\<open>network/src/driver.rs\<close>, with its
  configuration \<^verbatim>\<open>network/src/config.rs\<close>. The libp2p swarm is the parameter \<open>swarm_ops\<close> over an
  opaque state. A oneshot sender is a token; a handler returns the driver and its effects: replies
  sent on tokens, responses handed to libp2p, requests opened, application events queued and local
  advertisements. The \<^verbatim>\<open>select!\<close> of the loop is resolved by the list of inputs it takes.
\<close>

section \<open>Configuration\<close>

record NetworkConfig =
  nc_command_capacity :: nat
  nc_event_capacity :: nat
  nc_request_timeout :: duration
  nc_max_concurrent_streams :: nat
  nc_max_established_connections :: u32
  nc_max_connections_per_peer :: u32
  nc_max_process_memory_bytes :: nat
  nc_max_discovery_results :: nat
  nc_enable_mdns :: bool
  nc_privacy_mode :: PrivacyMode

definition network_config_default :: NetworkConfig where
  "network_config_default = \<lparr>nc_command_capacity = 32, nc_event_capacity = 32,
     nc_request_timeout = secs 15, nc_max_concurrent_streams = 16,
     nc_max_established_connections = 64, nc_max_connections_per_peer = 4,
     nc_max_process_memory_bytes = 512 * 1024 * 1024, nc_max_discovery_results = 32,
     nc_enable_mdns = False, nc_privacy_mode = Standard\<rparr>"

definition network_config_validate :: "NetworkConfig \<Rightarrow> bool" where
  "network_config_validate c \<longleftrightarrow>
     nc_command_capacity c > 0
     \<and> nc_event_capacity c > 0
     \<and> nc_request_timeout c \<noteq> 0
     \<and> nc_max_concurrent_streams c > 0
     \<and> nc_max_established_connections c > 0
     \<and> nc_max_connections_per_peer c > 0
     \<and> nc_max_connections_per_peer c \<le> nc_max_established_connections c
     \<and> nc_max_process_memory_bytes c \<ge> 16 * 1024 * 1024
     \<and> nc_max_discovery_results c > 0
     \<and> nc_max_discovery_results c \<le> 256"

section \<open>Commands and events\<close>

type_synonym reply = nat
type_synonym channel = nat
type_synonym outbound_id = nat
type_synonym protocol_request_id = nat

datatype DiscoveryCommand =
    AddAddress multiaddr reply
  | RemoveAddress multiaddr reply
  | RegisterAt peer_id "multiaddr list" discovery_namespace u64 reply
  | DiscoverAt peer_id "multiaddr list" discovery_namespace reply
  | UnregisterAt peer_id discovery_namespace reply

datatype Command =
    Listen "multiaddr list" reply
  | Dial peer_id "multiaddr list" reply
  | Request peer_id "multiaddr list" TransferRequest reply
  | Respond inbound_request_id TransferResponse reply
  | Discovery DiscoveryCommand

datatype reply_value =
    UnitReply "(NetworkError, unit) result"
  | ResponseReply "(NetworkError, TransferResponse) result"

datatype driver_effect =
    Replied reply reply_value
  | Requested outbound_id peer_id TransferRequest reply
  | Responded channel TransferResponse
  | Emitted NetworkEvent
  | Advertised multiaddr

datatype transfer_event =
    RequestMessage peer_id protocol_request_id TransferRequest channel
  | ResponseMessage outbound_id TransferResponse
  | OutboundFailure outbound_id
  | InboundFailure protocol_request_id
  | ResponseSent protocol_request_id

datatype relay_client_event =
    ReservationReqAccepted peer_id bool
  | OutboundCircuitEstablished peer_id
  | InboundCircuitEstablished peer_id

datatype rendezvous_client_event =
    RvRegistered peer_id u64
  | RvDiscovered peer_id "(peer_id \<times> multiaddr list) list"
  | RvDiscoverFailed peer_id
  | RvRegisterFailed peer_id
  | RvExpired peer_id

datatype client_swarm_event =
    TransferEvent transfer_event
  | RelayClientEvent relay_client_event
  | RendezvousClientEvent rendezvous_client_event
  | NewListenAddress multiaddr
  | PeerConnected peer_id
  | PeerDisconnected peer_id
  | OtherClientEvent

text \<open>\<open>sw_poll\<close> is the swarm's own progress up to the event it yields.\<close>

record 's swarm_ops =
  sw_poll :: "client_swarm_event \<Rightarrow> 's \<Rightarrow> 's"
  sw_listen_on :: "multiaddr \<Rightarrow> 's \<Rightarrow> bool \<times> 's"
  sw_dial :: "peer_id \<Rightarrow> multiaddr list \<Rightarrow> 's \<Rightarrow> bool \<times> 's"
  sw_add_peer_address :: "peer_id \<Rightarrow> multiaddr \<Rightarrow> 's \<Rightarrow> 's"
  sw_send_request :: "peer_id \<Rightarrow> TransferRequest \<Rightarrow> 's \<Rightarrow> outbound_id \<times> 's"
  sw_send_response :: "channel \<Rightarrow> TransferResponse \<Rightarrow> 's \<Rightarrow> bool \<times> 's"
  sw_add_external_address :: "multiaddr \<Rightarrow> 's \<Rightarrow> 's"
  sw_remove_external_address :: "multiaddr \<Rightarrow> 's \<Rightarrow> 's"
  sw_namespace_new :: "discovery_namespace \<Rightarrow> bool"
  sw_register :: "discovery_namespace \<Rightarrow> peer_id \<Rightarrow> u64 \<Rightarrow> 's \<Rightarrow> bool \<times> 's"
  sw_discover :: "discovery_namespace \<Rightarrow> u64 \<Rightarrow> peer_id \<Rightarrow> 's \<Rightarrow> 's"
  sw_unregister :: "discovery_namespace \<Rightarrow> peer_id \<Rightarrow> 's \<Rightarrow> 's"

section \<open>The driver\<close>

record 's NetworkDriver =
  nd_swarm :: 's
  nd_events :: "NetworkEvent list"
  nd_event_capacity :: nat
  nd_events_open :: bool
  nd_outbound :: "(outbound_id \<times> reply) list"
  nd_inbound :: "(inbound_request_id \<times> channel) list"
  nd_inbound_protocol_ids :: "(protocol_request_id \<times> inbound_request_id) list"
  nd_inbound_confirmations :: "(protocol_request_id \<times> reply) list"
  nd_next_inbound_id :: u64
  nd_max_discovery_results :: nat
  nd_lan :: "LanDiscovery option"

text \<open>
  \<open>built\<close> is the swarm the builder gives for a configuration with its local identity; \<open>lan\<close> is
  what starting local discovery gives.
\<close>

definition driver_new ::
  "(NetworkConfig \<Rightarrow> (peer_id \<times> 's) option) \<Rightarrow> (peer_id \<Rightarrow> nat \<Rightarrow> (NetworkError, LanDiscovery) result)
    \<Rightarrow> NetworkConfig \<Rightarrow> (NetworkError, 's NetworkDriver) result" where
  "driver_new built start_lan config =
     (if \<not> network_config_validate config then Err Net_Configuration else
      bind_res (ok_or Net_Configuration (built config)) (\<lambda>(local_peer_id, swarm).
      bind_res (if nc_enable_mdns config \<and> nc_privacy_mode config \<noteq> RelayOnly
                then (case start_lan local_peer_id (nc_max_discovery_results config) of
                        Inl e \<Rightarrow> Err e | Inr lan \<Rightarrow> Ok (Some lan))
                else Ok None) (\<lambda>lan.
      Ok \<lparr>nd_swarm = swarm, nd_events = [], nd_event_capacity = nc_event_capacity config,
          nd_events_open = True, nd_outbound = [], nd_inbound = [], nd_inbound_protocol_ids = [],
          nd_inbound_confirmations = [], nd_next_inbound_id = 1,
          nd_max_discovery_results = nc_max_discovery_results config, nd_lan = lan\<rparr>)))"

definition try_send :: "NetworkEvent \<Rightarrow> 's NetworkDriver \<Rightarrow> 's NetworkDriver option" where
  "try_send event d =
     (if nd_events_open d \<and> length (nd_events d) < nd_event_capacity d
      then Some (d\<lparr>nd_events := nd_events d @ [event]\<rparr>) else None)"

definition emit_event :: "NetworkEvent \<Rightarrow> 's NetworkDriver \<Rightarrow> 's NetworkDriver \<times> driver_effect list" where
  "emit_event event d =
     (case try_send event d of None \<Rightarrow> (d, []) | Some d' \<Rightarrow> (d', [Emitted event]))"

fun listen_all :: "'s swarm_ops \<Rightarrow> multiaddr list \<Rightarrow> 's \<Rightarrow> nat \<times> 's" where
  "listen_all S [] s = (0, s)"
| "listen_all S (address # addresses) s =
     (let (ok, s) = sw_listen_on S address s; (listening, s) = listen_all S addresses s in
      (if ok then listening + 1 else listening, s))"

definition add_peer_addresses :: "'s swarm_ops \<Rightarrow> peer_id \<Rightarrow> multiaddr list \<Rightarrow> 's \<Rightarrow> 's" where
  "add_peer_addresses S peer addresses s =
     foldl (\<lambda>s address. sw_add_peer_address S peer address s) s addresses"

definition unit_reply :: "reply \<Rightarrow> NetworkError option \<Rightarrow> driver_effect" where
  "unit_reply result failure =
     Replied result (UnitReply (case failure of None \<Rightarrow> Ok () | Some e \<Rightarrow> Err e))"

fun handle_discovery_command ::
  "'s swarm_ops \<Rightarrow> 's NetworkDriver \<Rightarrow> DiscoveryCommand \<Rightarrow> 's NetworkDriver \<times> driver_effect list" where
  "handle_discovery_command S d (AddAddress address result) =
     (d\<lparr>nd_swarm := sw_add_external_address S address (nd_swarm d)\<rparr>, [unit_reply result None])"
| "handle_discovery_command S d (RemoveAddress address result) =
     (d\<lparr>nd_swarm := sw_remove_external_address S address (nd_swarm d)\<rparr>, [unit_reply result None])"
| "handle_discovery_command S d (RegisterAt node node_addresses ns ttl_seconds result) =
     (let s = add_peer_addresses S node node_addresses (nd_swarm d) in
      if ttl_seconds = 0 \<or> ttl_seconds > 86400 \<or> \<not> sw_namespace_new S ns
      then (d\<lparr>nd_swarm := s\<rparr>, [unit_reply result (Some Net_Configuration)])
      else let (ok, s) = sw_register S ns node ttl_seconds s in
        (d\<lparr>nd_swarm := s\<rparr>, [unit_reply result (if ok then None else Some Net_Configuration)]))"
| "handle_discovery_command S d (DiscoverAt node node_addresses ns result) =
     (let s = add_peer_addresses S node node_addresses (nd_swarm d) in
      if \<not> sw_namespace_new S ns
      then (d\<lparr>nd_swarm := s\<rparr>, [unit_reply result (Some Net_Configuration)])
      else (d\<lparr>nd_swarm := sw_discover S ns (of_nat (nd_max_discovery_results d)) node s\<rparr>,
            [unit_reply result None]))"
| "handle_discovery_command S d (UnregisterAt node ns result) =
     (if \<not> sw_namespace_new S ns then (d, [unit_reply result (Some Net_Configuration)])
      else (d\<lparr>nd_swarm := sw_unregister S ns node (nd_swarm d)\<rparr>, [unit_reply result None]))"

text \<open>The protocol's identifier of the request an application identifier stands for.\<close>

definition protocol_id_of :: "'s NetworkDriver \<Rightarrow> inbound_request_id \<Rightarrow> protocol_request_id option" where
  "protocol_id_of d request_id =
     map_option fst (List.find (\<lambda>(_, application_id). application_id = request_id)
       (nd_inbound_protocol_ids d))"

definition handle_respond ::
  "'s swarm_ops \<Rightarrow> 's NetworkDriver \<Rightarrow> inbound_request_id \<Rightarrow> TransferResponse \<Rightarrow> reply
    \<Rightarrow> 's NetworkDriver \<times> driver_effect list" where
  "handle_respond S d request_id response result =
     (let protocol_id = protocol_id_of d request_id;
          removed = map_of (nd_inbound d) request_id;
          d = d\<lparr>nd_inbound := AList.delete request_id (nd_inbound d)\<rparr>;
          refused = (\<lambda>d. d\<lparr>nd_inbound_protocol_ids :=
            filter (\<lambda>(_, application_id). application_id \<noteq> request_id) (nd_inbound_protocol_ids d)\<rparr>) in
      case (protocol_id, removed) of
        (Some protocol_id, Some channel) \<Rightarrow>
          (let (ok, s) = sw_send_response S channel response (nd_swarm d);
               d = d\<lparr>nd_swarm := s\<rparr> in
           if ok then (d\<lparr>nd_inbound_confirmations :=
               AList.update protocol_id result (nd_inbound_confirmations d)\<rparr>,
             [Responded channel response])
           else (refused d, [Responded channel response, unit_reply result (Some Net_Response)]))
      | _ \<Rightarrow> (refused d, [unit_reply result (Some Net_Response)]))"

fun handle_command ::
  "'s swarm_ops \<Rightarrow> 's NetworkDriver \<Rightarrow> Command \<Rightarrow> 's NetworkDriver \<times> driver_effect list" where
  "handle_command S d (Listen addresses result) =
     (let (listening, s) = listen_all S addresses (nd_swarm d) in
      (d\<lparr>nd_swarm := s\<rparr>, [unit_reply result (if listening > 0 then None else Some Net_Listen)]))"
| "handle_command S d (Dial peer addresses result) =
     (let (ok, s) = sw_dial S peer addresses (nd_swarm d) in
      (d\<lparr>nd_swarm := s\<rparr>, [unit_reply result (if ok then None else Some Net_Dial)]))"
| "handle_command S d (Request peer addresses request result) =
     (let s = add_peer_addresses S peer addresses (nd_swarm d);
          (request_id, s) = sw_send_request S peer request s in
      (d\<lparr>nd_swarm := s, nd_outbound := AList.update request_id result (nd_outbound d)\<rparr>,
       [Requested request_id peer request result]))"
| "handle_command S d (Respond request_id response result) =
     handle_respond S d request_id response result"
| "handle_command S d (Discovery command) = handle_discovery_command S d command"

definition inbound_refusal :: TransferResponse where
  "inbound_refusal = RError \<lparr>error_protocol_version = PROTOCOL_VERSION,
     error_code = TemporarilyUnavailable\<rparr>"

definition handle_inbound_request ::
  "'s swarm_ops \<Rightarrow> 's NetworkDriver \<Rightarrow> peer_id \<Rightarrow> protocol_request_id \<Rightarrow> TransferRequest \<Rightarrow> channel
    \<Rightarrow> 's NetworkDriver \<times> driver_effect list" where
  "handle_inbound_request S d peer protocol_id request channel =
     (let request_id = nd_next_inbound_id d;
          d = d\<lparr>nd_next_inbound_id := max (nd_next_inbound_id d + 1) 1,
                nd_inbound := AList.update request_id channel (nd_inbound d),
                nd_inbound_protocol_ids :=
                  AList.update protocol_id request_id (nd_inbound_protocol_ids d)\<rparr>;
          event = InboundRequest peer request_id request in
      case try_send event d of
        Some d \<Rightarrow> (d, [Emitted event])
      | None \<Rightarrow>
          let d = d\<lparr>nd_inbound := AList.delete request_id (nd_inbound d),
                nd_inbound_protocol_ids := AList.delete protocol_id (nd_inbound_protocol_ids d)\<rparr> in
          (d\<lparr>nd_swarm := snd (sw_send_response S channel inbound_refusal (nd_swarm d))\<rparr>,
           [Responded channel inbound_refusal]))"

definition outbound_result ::
  "'s NetworkDriver \<Rightarrow> outbound_id \<Rightarrow> (NetworkError, TransferResponse) result
    \<Rightarrow> 's NetworkDriver \<times> driver_effect list" where
  "outbound_result d request_id value =
     (case map_of (nd_outbound d) request_id of
        None \<Rightarrow> (d, [])
      | Some result \<Rightarrow> (d\<lparr>nd_outbound := AList.delete request_id (nd_outbound d)\<rparr>,
          [Replied result (ResponseReply value)]))"

definition inbound_finished ::
  "'s NetworkDriver \<Rightarrow> protocol_request_id \<Rightarrow> NetworkError option
    \<Rightarrow> 's NetworkDriver \<times> driver_effect list" where
  "inbound_finished d request_id failure =
     (let effects = (case map_of (nd_inbound_confirmations d) request_id of
            None \<Rightarrow> [] | Some confirmation \<Rightarrow> [unit_reply confirmation failure]);
          d = d\<lparr>nd_inbound_confirmations := AList.delete request_id (nd_inbound_confirmations d)\<rparr> in
      (case map_of (nd_inbound_protocol_ids d) request_id of
         None \<Rightarrow> d
       | Some application_id \<Rightarrow>
           d\<lparr>nd_inbound_protocol_ids := AList.delete request_id (nd_inbound_protocol_ids d),
             nd_inbound := AList.delete application_id (nd_inbound d)\<rparr>, effects))"

fun handle_transfer_event ::
  "'s swarm_ops \<Rightarrow> 's NetworkDriver \<Rightarrow> transfer_event \<Rightarrow> 's NetworkDriver \<times> driver_effect list" where
  "handle_transfer_event S d (RequestMessage peer request_id request channel) =
     handle_inbound_request S d peer request_id request channel"
| "handle_transfer_event S d (ResponseMessage request_id response) =
     outbound_result d request_id (Ok response)"
| "handle_transfer_event S d (OutboundFailure request_id) =
     outbound_result d request_id (Err Net_Request)"
| "handle_transfer_event S d (InboundFailure request_id) =
     inbound_finished d request_id (Some Net_Response)"
| "handle_transfer_event S d (ResponseSent request_id) = inbound_finished d request_id None"

fun relay_network_event :: "relay_client_event \<Rightarrow> NetworkEvent" where
  "relay_network_event (ReservationReqAccepted relay_peer renewal) = RelayReservation relay_peer renewal"
| "relay_network_event (OutboundCircuitEstablished relay_peer) = OutboundRelayCircuit relay_peer"
| "relay_network_event (InboundCircuitEstablished source_peer) = InboundRelayCircuit source_peer"

fun rendezvous_network_event :: "nat \<Rightarrow> rendezvous_client_event \<Rightarrow> NetworkEvent" where
  "rendezvous_network_event max_results (RvRegistered node ttl) = DiscoveryRegistered node ttl"
| "rendezvous_network_event max_results (RvDiscovered node found) =
     DiscoveryResults node (map (\<lambda>(peer, addresses). \<lparr>dp_peer = peer, dp_addresses = addresses\<rparr>)
       (take max_results found))"
| "rendezvous_network_event max_results (RvDiscoverFailed node) = DiscoveryFailed node"
| "rendezvous_network_event max_results (RvRegisterFailed node) = DiscoveryFailed node"
| "rendezvous_network_event max_results (RvExpired peer) = DiscoveryExpired peer"

fun lan_network_event :: "LanEvent \<Rightarrow> NetworkEvent" where
  "lan_network_event (LanPeerDiscovered peer) = LanDiscovered [peer]"
| "lan_network_event (LanPeerExpired peer) = LanExpired peer"

fun handle_swarm_event ::
  "'s swarm_ops \<Rightarrow> 's NetworkDriver \<Rightarrow> client_swarm_event \<Rightarrow> 's NetworkDriver \<times> driver_effect list" where
  "handle_swarm_event S d (TransferEvent event) = handle_transfer_event S d event"
| "handle_swarm_event S d (RelayClientEvent event) = emit_event (relay_network_event event) d"
| "handle_swarm_event S d (RendezvousClientEvent event) =
     emit_event (rendezvous_network_event (nd_max_discovery_results d) event) d"
| "handle_swarm_event S d (NewListenAddress address) =
     (let (d', effects) = emit_event (Listening address) d in
      (d', (case nd_lan d of None \<Rightarrow> [] | Some _ \<Rightarrow> [Advertised address]) @ effects))"
| "handle_swarm_event S d (PeerConnected peer) = emit_event (Connected peer) d"
| "handle_swarm_event S d (PeerDisconnected peer) = emit_event (Disconnected peer) d"
| "handle_swarm_event S d OtherClientEvent = (d, [])"

text \<open>
  One turn of the loop. A local event only arrives when local discovery runs; the application's
  side of the event queue takes one event or goes away.
\<close>

datatype driver_input =
    TakeCommand Command
  | TakeSwarmEvent client_swarm_event
  | TakeLanEvent LanEvent
  | ApplicationReceives
  | ApplicationLeaves

fun driver_step ::
  "'s swarm_ops \<Rightarrow> 's NetworkDriver \<Rightarrow> driver_input \<Rightarrow> 's NetworkDriver \<times> driver_effect list" where
  "driver_step S d (TakeCommand command) = handle_command S d command"
| "driver_step S d (TakeSwarmEvent event) =
     handle_swarm_event S (d\<lparr>nd_swarm := sw_poll S event (nd_swarm d)\<rparr>) event"
| "driver_step S d (TakeLanEvent event) =
     (if nd_lan d = None then (d, []) else emit_event (lan_network_event event) d)"
| "driver_step S d ApplicationReceives = (d\<lparr>nd_events := tl (nd_events d)\<rparr>, [])"
| "driver_step S d ApplicationLeaves = (d\<lparr>nd_events_open := False\<rparr>, [])"

fun driver_loop ::
  "'s swarm_ops \<Rightarrow> 's NetworkDriver \<Rightarrow> driver_input list \<Rightarrow> 's NetworkDriver \<times> driver_effect list" where
  "driver_loop S d [] = (d, [])"
| "driver_loop S d (input # inputs) =
     (let (d, effects) = driver_step S d input; (d, effects') = driver_loop S d inputs in
      (d, effects @ effects'))"

text \<open>\<^verbatim>\<open>run\<close>: the loop until cancellation or the last client goes away, then every token is dropped.\<close>

definition driver_run ::
  "'s swarm_ops \<Rightarrow> 's NetworkDriver \<Rightarrow> driver_input list \<Rightarrow> 's NetworkDriver \<times> driver_effect list" where
  "driver_run S d inputs =
     (let (d, effects) = driver_loop S d inputs in
      (d\<lparr>nd_outbound := [], nd_inbound := [], nd_inbound_protocol_ids := [],
         nd_inbound_confirmations := []\<rparr>, effects))"

section \<open>The client\<close>

text \<open>
  A client call resolves its address, queues a command with a fresh token and waits on the token;
  a token that is dropped unanswered, like a closed queue, is a stopped task.
\<close>

definition client_listen ::
  "(bytes \<Rightarrow> ip_address list option) \<Rightarrow> multiaddr \<Rightarrow> reply \<Rightarrow> (NetworkError, Command) result" where
  "client_listen lookup_host address result =
     bind_res (map_err (\<lambda>_. Net_Listen) (resolve lookup_host address)) (\<lambda>addresses.
     Ok (Listen addresses result))"

definition client_dial ::
  "(bytes \<Rightarrow> ip_address list option) \<Rightarrow> peer_id \<Rightarrow> multiaddr \<Rightarrow> reply \<Rightarrow> (NetworkError, Command) result" where
  "client_dial lookup_host peer address result =
     bind_res (resolve lookup_host address) (\<lambda>addresses. Ok (Dial peer addresses result))"

definition client_request ::
  "(bytes \<Rightarrow> ip_address list option) \<Rightarrow> peer_id \<Rightarrow> multiaddr \<Rightarrow> TransferRequest \<Rightarrow> reply
    \<Rightarrow> (NetworkError, Command) result" where
  "client_request lookup_host peer address request result =
     bind_res (resolve lookup_host address) (\<lambda>addresses. Ok (Request peer addresses request result))"

definition client_respond :: "inbound_request_id \<Rightarrow> TransferResponse \<Rightarrow> reply \<Rightarrow> Command" where
  "client_respond request_id response result = Respond request_id response result"

definition client_register ::
  "(bytes \<Rightarrow> ip_address list option) \<Rightarrow> peer_id \<Rightarrow> multiaddr \<Rightarrow> discovery_namespace \<Rightarrow> u64 \<Rightarrow> reply
    \<Rightarrow> (NetworkError, Command) result" where
  "client_register lookup_host node address ns ttl_seconds result =
     bind_res (resolve lookup_host address) (\<lambda>node_addresses.
     Ok (Discovery (RegisterAt node node_addresses ns ttl_seconds result)))"

definition client_discover ::
  "(bytes \<Rightarrow> ip_address list option) \<Rightarrow> peer_id \<Rightarrow> multiaddr \<Rightarrow> discovery_namespace \<Rightarrow> reply
    \<Rightarrow> (NetworkError, Command) result" where
  "client_discover lookup_host node address ns result =
     bind_res (resolve lookup_host address) (\<lambda>node_addresses.
     Ok (Discovery (DiscoverAt node node_addresses ns result)))"

definition client_unregister :: "peer_id \<Rightarrow> discovery_namespace \<Rightarrow> reply \<Rightarrow> Command" where
  "client_unregister node ns result = Discovery (UnregisterAt node ns result)"

definition client_add_address :: "multiaddr \<Rightarrow> reply \<Rightarrow> Command" where
  "client_add_address address result = Discovery (AddAddress address result)"

definition client_remove_address :: "multiaddr \<Rightarrow> reply \<Rightarrow> Command" where
  "client_remove_address address result = Discovery (RemoveAddress address result)"

text \<open>What a call returns once the driver has stopped, from the effects of its run.\<close>

fun await_reply :: "driver_effect list \<Rightarrow> reply \<Rightarrow> reply_value option" where
  "await_reply [] result = None"
| "await_reply (Replied result' value # effects) result =
     (if result' = result then Some value else await_reply effects result)"
| "await_reply (_ # effects) result = await_reply effects result"

definition unit_call :: "driver_effect list \<Rightarrow> reply \<Rightarrow> (NetworkError, unit) result" where
  "unit_call effects result =
     (case await_reply effects result of Some (UnitReply r) \<Rightarrow> r | _ \<Rightarrow> Err Net_TaskStopped)"

definition request_call :: "driver_effect list \<Rightarrow> reply \<Rightarrow> (NetworkError, TransferResponse) result" where
  "request_call effects result =
     (case await_reply effects result of Some (ResponseReply r) \<Rightarrow> r | _ \<Rightarrow> Err Net_TaskStopped)"

end
