(* ===== verification/Driver_Properties.thy ===== *)
theory Driver_Properties
  imports Network_Driver
begin

text \<open>
  What the network driver guarantees its callers and the remote peers: every command is answered at
  most once and, with libp2p's identifiers fresh, none is lost; every response goes to the channel
  of the request it answers; the queue of application events stays within its capacity; in
  relay-only mode nothing is advertised or learnt on the local network.
\<close>

section \<open>The values of an association list\<close>

definition vals :: "('k \<times> 'v) list \<Rightarrow> 'v multiset" where
  "vals al = mset (map snd al)"

lemma vals_Nil [simp]: "vals [] = {#}"
  by (simp add: vals_def)

lemma vals_update: "vals (AList.update k v al) \<subseteq># add_mset v (vals al)"
  by (induction al) (auto simp: vals_def subset_mset.add_increasing2 add_mset_commute)

lemma vals_update_fresh: "k \<notin> fst ` set al \<Longrightarrow> vals (AList.update k v al) = add_mset v (vals al)"
  by (induction al) (auto simp: vals_def)

lemma vals_delete: "vals (AList.delete k al) \<subseteq># vals al"
  by (simp add: vals_def AList.delete_eq image_mset_subseteq_mono)

lemma vals_delete_Some:
  "map_of al k = Some v \<Longrightarrow> add_mset v (vals (AList.delete k al)) \<subseteq># vals al"
proof (induction al)
  case (Cons kv al)
  then show ?case using vals_delete [of k al] by (cases kv) (auto simp: vals_def)
qed simp

lemma vals_delete_distinct:
  "distinct (map fst al) \<Longrightarrow> map_of al k = Some v \<Longrightarrow>
     add_mset v (vals (AList.delete k al)) = vals al"
  by (induction al) (auto simp: vals_def)

lemma update_fresh: "k \<notin> fst ` set al \<Longrightarrow> AList.update k v al = al @ [(k, v)]"
  by (induction al) auto

lemma set_delete_subset: "set (AList.delete k al) \<subseteq> set al"
  by (auto simp: AList.delete_eq)

lemma vals_delete_None: "map_of al k = None \<Longrightarrow> AList.delete k al = al"
  by (simp add: map_of_eq_None_iff)

section \<open>Balances\<close>

fun discovery_reply :: "DiscoveryCommand \<Rightarrow> reply" where
  "discovery_reply (AddAddress _ result) = result"
| "discovery_reply (RemoveAddress _ result) = result"
| "discovery_reply (RegisterAt _ _ _ _ result) = result"
| "discovery_reply (DiscoverAt _ _ _ result) = result"
| "discovery_reply (UnregisterAt _ _ result) = result"

fun command_reply :: "Command \<Rightarrow> reply" where
  "command_reply (Listen _ result) = result"
| "command_reply (Dial _ _ result) = result"
| "command_reply (Request _ _ _ result) = result"
| "command_reply (Respond _ _ result) = result"
| "command_reply (Discovery command) = discovery_reply command"

text \<open>The reply an input asks for, and the channel it opens.\<close>

fun asked :: "driver_input \<Rightarrow> reply multiset" where
  "asked (TakeCommand command) = {#command_reply command#}"
| "asked _ = {#}"

fun arrived :: "driver_input \<Rightarrow> channel multiset" where
  "arrived (TakeSwarmEvent (TransferEvent (RequestMessage _ _ _ channel))) = {#channel#}"
| "arrived _ = {#}"

fun reply_of :: "driver_effect \<Rightarrow> reply multiset" where
  "reply_of (Replied result _) = {#result#}"
| "reply_of _ = {#}"

fun channel_of :: "driver_effect \<Rightarrow> channel multiset" where
  "channel_of (Responded channel _) = {#channel#}"
| "channel_of _ = {#}"

definition total :: "('a \<Rightarrow> 'b multiset) \<Rightarrow> 'a list \<Rightarrow> 'b multiset" where
  "total f xs = sum_list (map f xs)"

lemma total_simps [simp]:
  "total f [] = {#}" "total f (x # xs) = f x + total f xs" "total f (xs @ ys) = total f xs + total f ys"
  by (simp_all add: total_def)

text \<open>The tokens the driver still has to answer.\<close>

definition owed :: "'s NetworkDriver \<Rightarrow> reply multiset" where
  "owed d = vals (nd_outbound d) + vals (nd_inbound_confirmations d)"

lemma emit_event_effects [simp]:
  "total reply_of (snd (emit_event e d)) = {#}" "total channel_of (snd (emit_event e d)) = {#}"
  by (simp_all add: emit_event_def split: option.split)

lemma emit_event_keeps [simp]:
  "nd_outbound (fst (emit_event e d)) = nd_outbound d"
  "nd_inbound (fst (emit_event e d)) = nd_inbound d"
  "nd_inbound_protocol_ids (fst (emit_event e d)) = nd_inbound_protocol_ids d"
  "nd_inbound_confirmations (fst (emit_event e d)) = nd_inbound_confirmations d"
  "nd_next_inbound_id (fst (emit_event e d)) = nd_next_inbound_id d"
  "nd_swarm (fst (emit_event e d)) = nd_swarm d"
  "nd_lan (fst (emit_event e d)) = nd_lan d"
  "nd_max_discovery_results (fst (emit_event e d)) = nd_max_discovery_results d"
  "nd_event_capacity (fst (emit_event e d)) = nd_event_capacity d"
  by (simp_all add: emit_event_def try_send_def split: option.split)

lemma reply_of_unit_reply [simp]:
  "reply_of (unit_reply r f) = {#r#}" "channel_of (unit_reply r f) = {#}"
  by (simp_all add: unit_reply_def)

text \<open>
  One turn of the loop neither forges nor duplicates: what is answered and still owed was owed or
  asked for, and what is responded and still open was open or arrived.
\<close>

definition balanced ::
  "'s NetworkDriver \<Rightarrow> reply multiset \<Rightarrow> channel multiset \<Rightarrow> 's NetworkDriver \<times> driver_effect list \<Rightarrow> bool" where
  "balanced d asks arrives r \<longleftrightarrow>
     owed (fst r) + total reply_of (snd r) \<subseteq># owed d + asks \<and>
     vals (nd_inbound (fst r)) + total channel_of (snd r) \<subseteq># vals (nd_inbound d) + arrives"

lemma balanced_emit: "balanced d {#} {#} (emit_event e d)"
  by (simp add: balanced_def owed_def)

lemma balanced_discovery_command:
  "balanced d {#discovery_reply c#} {#} (handle_discovery_command S d c)"
  by (cases c) (simp_all add: balanced_def owed_def Let_def split: prod.split)

lemma balanced_respond: "balanced d {#result#} {#} (handle_respond S d rid response result)"
proof (cases "protocol_id_of d rid = None \<or> map_of (nd_inbound d) rid = None")
  case True
  then show ?thesis
    using vals_delete [of rid "nd_inbound d"]
    by (auto simp: balanced_def handle_respond_def owed_def Let_def split: option.split)
next
  case False
  then obtain p c where pc: "protocol_id_of d rid = Some p" "map_of (nd_inbound d) rid = Some c" by auto
  obtain ok s where s: "sw_send_response S c response (nd_swarm d) = (ok, s)" by fastforce
  have conf: "vals (nd_outbound d) + vals (AList.update p result (nd_inbound_confirmations d)) \<subseteq>#
      add_mset result (vals (nd_outbound d) + vals (nd_inbound_confirmations d))"
    using vals_update [of p result "nd_inbound_confirmations d"]
    by (metis subset_mset.add_left_mono union_mset_add_mset_right)
  show ?thesis
    using vals_delete_Some [OF pc(2)] conf
    by (simp add: balanced_def handle_respond_def owed_def Let_def pc s)
qed

lemma balanced_command: "balanced d {#command_reply c#} {#} (handle_command S d c)"
proof (cases c)
  case (Request peer addresses request result)
  obtain rid s where s: "sw_send_request S peer request
      (add_peer_addresses S peer addresses (nd_swarm d)) = (rid, s)" by fastforce
  have "vals (AList.update rid result (nd_outbound d)) + vals (nd_inbound_confirmations d) \<subseteq>#
      add_mset result (vals (nd_outbound d) + vals (nd_inbound_confirmations d))"
    using vals_update [of rid result "nd_outbound d"]
    by (metis subset_mset.add_right_mono union_mset_add_mset_left)
  then show ?thesis using s by (simp add: Request balanced_def owed_def Let_def)
next
  case (Respond rid response result)
  then show ?thesis using balanced_respond by simp
next
  case (Discovery command)
  then show ?thesis using balanced_discovery_command by simp
qed (simp_all add: balanced_def owed_def Let_def split: prod.split)

lemma balanced_inbound_request:
  "balanced d {#} {#channel#} (handle_inbound_request S d peer p request channel)"
proof -
  have "vals (AList.delete k (AList.update k channel al)) \<subseteq># vals al" for k and al :: "(u64 \<times> channel) list"
    using vals_delete [of k al] by (simp add: delete_update_same)
  then show ?thesis
    using vals_update [of "nd_next_inbound_id d" channel "nd_inbound d"]
    by (simp add: balanced_def handle_inbound_request_def owed_def Let_def try_send_def)
qed

lemma balanced_outbound_result: "balanced d {#} {#} (outbound_result d rid value)"
  using vals_delete_Some [of "nd_outbound d" rid]
  by (auto simp: balanced_def outbound_result_def owed_def split: option.split
      dest: subset_mset.add_right_mono)

lemma balanced_inbound_finished: "balanced d {#} {#} (inbound_finished d rid failure)"
proof -
  have "vals (AList.delete rid (nd_inbound_confirmations d)) +
      total reply_of (case map_of (nd_inbound_confirmations d) rid of None \<Rightarrow> []
        | Some confirmation \<Rightarrow> [unit_reply confirmation failure]) \<subseteq># vals (nd_inbound_confirmations d)"
    using vals_delete_Some [of "nd_inbound_confirmations d" rid] vals_delete
    by (auto split: option.split)
  moreover have "total channel_of (case map_of (nd_inbound_confirmations d) rid of None \<Rightarrow> []
      | Some confirmation \<Rightarrow> [unit_reply confirmation failure]) = {#}"
    by (simp split: option.split)
  moreover have "\<forall>k. vals (AList.delete k (nd_inbound d)) \<subseteq># vals (nd_inbound d)"
    by (simp add: vals_delete)
  ultimately show ?thesis
    by (simp add: balanced_def inbound_finished_def owed_def Let_def add.assoc split: option.split)
qed

lemma balanced_swarm: "balanced (d\<lparr>nd_swarm := s\<rparr>) asks arrives r = balanced d asks arrives r"
  by (simp add: balanced_def owed_def)

lemma balanced_swarm_event:
  "balanced d {#} (arrived (TakeSwarmEvent event)) (handle_swarm_event S d event)"
proof (cases event)
  case (TransferEvent t)
  show ?thesis
    using balanced_inbound_request balanced_outbound_result balanced_inbound_finished
    by (cases t) (simp_all add: TransferEvent)
next
  case (NewListenAddress address)
  show ?thesis
    by (cases "emit_event (Listening address) d")
      (use balanced_emit [of d "Listening address"] in
        \<open>auto simp: NewListenAddress balanced_def split: option.split\<close>)
qed (use balanced_emit in \<open>auto simp: balanced_def owed_def\<close>)

lemma balanced_step: "balanced d (asked i) (arrived i) (driver_step S d i)"
proof (cases i)
  case (TakeSwarmEvent event)
  then show ?thesis
    using balanced_swarm_event [of "d\<lparr>nd_swarm := sw_poll S event (nd_swarm d)\<rparr>" event S]
    by (simp add: balanced_swarm)
next
  case (TakeLanEvent event)
  then show ?thesis using balanced_emit [of d "lan_network_event event"] by (simp add: balanced_def)
qed (use balanced_command in \<open>simp_all add: balanced_def owed_def\<close>)

lemma balanced_loop: "balanced d (total asked inputs) (total arrived inputs) (driver_loop S d inputs)"
proof (induction inputs arbitrary: d)
  case (Cons i inputs)
  obtain d1 e1 where s: "driver_step S d i = (d1, e1)" by fastforce
  obtain d2 e2 where l: "driver_loop S d1 inputs = (d2, e2)" by fastforce
  have step: "owed d1 + total reply_of e1 \<subseteq># owed d + asked i"
      "vals (nd_inbound d1) + total channel_of e1 \<subseteq># vals (nd_inbound d) + arrived i"
    using balanced_step [of d i S] by (simp_all add: s balanced_def)
  have loop: "owed d2 + total reply_of e2 \<subseteq># owed d1 + total asked inputs"
      "vals (nd_inbound d2) + total channel_of e2 \<subseteq># vals (nd_inbound d1) + total arrived inputs"
    using Cons.IH [of d1] by (simp_all add: l balanced_def)
  have sum: "a2 + (x + y) \<subseteq># a + (m + n)"
    if "a1 + x \<subseteq># a + m" "a2 + y \<subseteq># a1 + n" for a a1 a2 x y m n :: "nat multiset"
    using subset_mset.add_mono [OF that]
    by (metis (no_types, lifting) add.assoc add.commute add.left_commute subset_mset.add_le_cancel_left)
  show ?case using sum [OF step(1) loop(1)] sum [OF step(2) loop(2)]
    by (simp add: s l balanced_def)
qed (simp add: balanced_def)

section \<open>No reply is lost\<close>

text \<open>
  What the driver relies on: libp2p numbers the outbound requests of a swarm consecutively, and
  nothing else the driver calls issues an identifier. \<open>issued\<close> counts them.
\<close>

definition numbers_requests :: "'s swarm_ops \<Rightarrow> ('s \<Rightarrow> nat) \<Rightarrow> bool" where
  "numbers_requests S issued \<longleftrightarrow>
     (\<forall>peer request s. fst (sw_send_request S peer request s) = issued s \<and>
        issued (snd (sw_send_request S peer request s)) = Suc (issued s)) \<and>
     (\<forall>event s. issued (sw_poll S event s) = issued s) \<and>
     (\<forall>address s. issued (snd (sw_listen_on S address s)) = issued s) \<and>
     (\<forall>peer addresses s. issued (snd (sw_dial S peer addresses s)) = issued s) \<and>
     (\<forall>peer address s. issued (sw_add_peer_address S peer address s) = issued s) \<and>
     (\<forall>channel response s. issued (snd (sw_send_response S channel response s)) = issued s) \<and>
     (\<forall>address s. issued (sw_add_external_address S address s) = issued s) \<and>
     (\<forall>address s. issued (sw_remove_external_address S address s) = issued s) \<and>
     (\<forall>ns peer ttl s. issued (snd (sw_register S ns peer ttl s)) = issued s) \<and>
     (\<forall>ns limit peer s. issued (sw_discover S ns limit peer s) = issued s) \<and>
     (\<forall>ns peer s. issued (sw_unregister S ns peer s) = issued s)"

fun request_ids :: "driver_input \<Rightarrow> protocol_request_id list" where
  "request_ids (TakeSwarmEvent (TransferEvent (RequestMessage _ request_id _ _))) = [request_id]"
| "request_ids _ = []"

text \<open>
  The invariant of the identifiers after \<open>n\<close> inbound requests with the protocol identifiers \<open>A\<close>:
  keys are distinct, outbound keys were issued, application identifiers are at most \<open>n\<close>, and a
  request that can still be answered has no confirmation pending.
\<close>

definition ids_wf :: "('s \<Rightarrow> nat) \<Rightarrow> protocol_request_id set \<Rightarrow> nat \<Rightarrow> 's NetworkDriver \<Rightarrow> bool" where
  "ids_wf issued A n d \<longleftrightarrow>
     distinct (map fst (nd_outbound d)) \<and> (\<forall>k \<in> fst ` set (nd_outbound d). k < issued (nd_swarm d)) \<and>
     distinct (map fst (nd_inbound_confirmations d)) \<and> distinct (map fst (nd_inbound_protocol_ids d)) \<and>
     unat (nd_next_inbound_id d) = Suc n \<and>
     (\<forall>r \<in> fst ` set (nd_inbound d) \<union> snd ` set (nd_inbound_protocol_ids d). unat r \<le> n) \<and>
     fst ` set (nd_inbound_protocol_ids d) \<union> fst ` set (nd_inbound_confirmations d) \<subseteq> A \<and>
     (\<forall>p r. (p, r) \<in> set (nd_inbound_protocol_ids d) \<longrightarrow>
        r \<in> fst ` set (nd_inbound d) \<longrightarrow> p \<notin> fst ` set (nd_inbound_confirmations d))"

lemma ids_wfD:
  assumes "ids_wf issued A n d"
  shows "distinct (map fst (nd_outbound d))"
    "k \<in> fst ` set (nd_outbound d) \<Longrightarrow> k < issued (nd_swarm d)"
    "distinct (map fst (nd_inbound_confirmations d))"
    "distinct (map fst (nd_inbound_protocol_ids d))"
    "unat (nd_next_inbound_id d) = Suc n"
    "r \<in> fst ` set (nd_inbound d) \<Longrightarrow> unat r \<le> n"
    "r \<in> snd ` set (nd_inbound_protocol_ids d) \<Longrightarrow> unat r \<le> n"
    "fst ` set (nd_inbound_protocol_ids d) \<subseteq> A"
    "fst ` set (nd_inbound_confirmations d) \<subseteq> A"
    "(p, r) \<in> set (nd_inbound_protocol_ids d) \<Longrightarrow> r \<in> fst ` set (nd_inbound d) \<Longrightarrow>
       p \<notin> fst ` set (nd_inbound_confirmations d)"
  using assms by (auto simp: ids_wf_def)

lemma ids_wfI:
  assumes "distinct (map fst (nd_outbound d))"
    and "\<And>k. k \<in> fst ` set (nd_outbound d) \<Longrightarrow> k < issued (nd_swarm d)"
    and "distinct (map fst (nd_inbound_confirmations d))"
    and "distinct (map fst (nd_inbound_protocol_ids d))"
    and "unat (nd_next_inbound_id d) = Suc n"
    and "\<And>r. r \<in> fst ` set (nd_inbound d) \<Longrightarrow> unat r \<le> n"
    and "\<And>r. r \<in> snd ` set (nd_inbound_protocol_ids d) \<Longrightarrow> unat r \<le> n"
    and "fst ` set (nd_inbound_protocol_ids d) \<subseteq> A"
    and "fst ` set (nd_inbound_confirmations d) \<subseteq> A"
    and "\<And>p r. (p, r) \<in> set (nd_inbound_protocol_ids d) \<Longrightarrow> r \<in> fst ` set (nd_inbound d) \<Longrightarrow>
       p \<notin> fst ` set (nd_inbound_confirmations d)"
  shows "ids_wf issued A n d"
  unfolding ids_wf_def using assms by (intro conjI ballI allI impI; (elim UnE)?; simp)

text \<open>The part of the invariant about inbound requests, with the tables as arguments.\<close>

lemma ids_wf_inbound:
  assumes "ids_wf issued A n d"
    and "issued (nd_swarm d') = issued (nd_swarm d)" "nd_outbound d' = nd_outbound d"
      "nd_next_inbound_id d' = nd_next_inbound_id d"
    and "fst ` set (nd_inbound d') \<subseteq> fst ` set (nd_inbound d)"
    and "set (nd_inbound_protocol_ids d') \<subseteq> set (nd_inbound_protocol_ids d)"
      "distinct (map fst (nd_inbound_protocol_ids d'))"
    and "distinct (map fst (nd_inbound_confirmations d'))"
      "fst ` set (nd_inbound_confirmations d') \<subseteq> A"
    and "\<And>p r. (p, r) \<in> set (nd_inbound_protocol_ids d) \<Longrightarrow> r \<in> fst ` set (nd_inbound d') \<Longrightarrow>
      p \<notin> fst ` set (nd_inbound_confirmations d) \<Longrightarrow> p \<notin> fst ` set (nd_inbound_confirmations d')"
  shows "ids_wf issued A n d'"
proof (rule ids_wfI)
  note old = ids_wfD [OF assms(1)]
  show "p \<notin> fst ` set (nd_inbound_confirmations d')"
    if "(p, r) \<in> set (nd_inbound_protocol_ids d')" "r \<in> fst ` set (nd_inbound d')" for p r
    using assms(10) [OF subsetD [OF assms(6) that(1)] that(2)]
      old(10) [OF subsetD [OF assms(6) that(1)] subsetD [OF assms(5) that(2)]] .
  show "fst ` set (nd_inbound_protocol_ids d') \<subseteq> A" using old(8) image_mono [OF assms(6)] by (rule order_trans [rotated])
  show "unat r \<le> n" if "r \<in> snd ` set (nd_inbound_protocol_ids d')" for r
    using old(7) that image_mono [OF assms(6), of snd] by (simp add: subsetD)
  show "unat r \<le> n" if "r \<in> fst ` set (nd_inbound d')" for r
    using old(6) that assms(5) by (simp add: subsetD)
qed (use assms(2-4,7-9) ids_wfD [OF assms(1)] in simp_all)

lemma ids_wf_swarm:
  "issued s = issued (nd_swarm d) \<Longrightarrow> ids_wf issued A n (d\<lparr>nd_swarm := s\<rparr>) = ids_wf issued A n d"
  by (simp add: ids_wf_def)

lemma numbers_requestsD:
  assumes "numbers_requests S issued"
  shows "fst (sw_send_request S peer request s) = issued s"
    "issued (snd (sw_send_request S peer request s)) = Suc (issued s)"
    "issued (sw_poll S event s) = issued s"
    "issued (snd (sw_listen_on S address s)) = issued s"
    "issued (snd (sw_dial S peer addresses s)) = issued s"
    "issued (sw_add_peer_address S peer address s) = issued s"
    "issued (snd (sw_send_response S channel response s)) = issued s"
    "issued (sw_add_external_address S address s) = issued s"
    "issued (sw_remove_external_address S address s) = issued s"
    "issued (snd (sw_register S ns peer ttl s)) = issued s"
    "issued (sw_discover S ns limit peer s) = issued s"
    "issued (sw_unregister S ns peer s) = issued s"
  using assms by (simp_all add: numbers_requests_def)

lemma listen_all_issued:
  "numbers_requests S issued \<Longrightarrow> issued (snd (listen_all S addresses s)) = issued s"
  by (induction addresses arbitrary: s) (simp_all add: numbers_requestsD split_def Let_def)

lemma add_peer_addresses_issued:
  "numbers_requests S issued \<Longrightarrow> issued (add_peer_addresses S peer addresses s) = issued s"
  by (induction addresses arbitrary: s) (simp_all add: add_peer_addresses_def numbers_requestsD)

text \<open>A turn that keeps the invariant and balances exactly.\<close>

definition settled ::
  "('s \<Rightarrow> nat) \<Rightarrow> protocol_request_id set \<Rightarrow> nat \<Rightarrow> 's NetworkDriver \<Rightarrow> reply multiset \<Rightarrow>
    's NetworkDriver \<times> driver_effect list \<Rightarrow> bool" where
  "settled issued A n d asks r \<longleftrightarrow> ids_wf issued A n (fst r) \<and>
     owed (fst r) + total reply_of (snd r) = owed d + asks"

lemma settled_emit: "ids_wf issued A n d \<Longrightarrow> settled issued A n d {#} (emit_event e d)"
  by (simp add: settled_def owed_def ids_wf_def)

lemma settled_discovery_command:
  assumes "numbers_requests S issued" and "ids_wf issued A n d"
  shows "settled issued A n d {#discovery_reply c#} (handle_discovery_command S d c)"
  using numbers_requestsD [OF assms(1)] add_peer_addresses_issued [OF assms(1)] assms(2)
  by (cases c) (simp_all add: settled_def owed_def ids_wf_swarm Let_def split_def)

lemma settled_request:
  assumes "numbers_requests S issued" and "ids_wf issued A n d"
  shows "settled issued A n d {#result#} (handle_command S d (Request peer addresses request result))"
proof -
  let ?s = "add_peer_addresses S peer addresses (nd_swarm d)"
  obtain k s where s: "sw_send_request S peer request ?s = (k, s)" by fastforce
  have k: "k = issued (nd_swarm d)" "issued s = Suc (issued (nd_swarm d))"
    using numbers_requestsD(1,2) [OF assms(1), of peer request ?s] s
      add_peer_addresses_issued [OF assms(1), of peer addresses "nd_swarm d"] by simp_all
  have new: "k \<notin> fst ` set (nd_outbound d)" using assms(2) unfolding k(1) by (auto simp: ids_wf_def)
  have "ids_wf issued A n (d\<lparr>nd_swarm := s, nd_outbound := AList.update k result (nd_outbound d)\<rparr>)"
    using assms(2) unfolding ids_wf_def k(1)
    by (simp add: distinct_update dom_update k(2) less_Suc_eq)
  then show ?thesis using vals_update_fresh [OF new] by (simp add: settled_def owed_def s)
qed

lemma protocol_id_of_Some:
  "protocol_id_of d r = Some p \<Longrightarrow> (p, r) \<in> set (nd_inbound_protocol_ids d)"
  by (auto simp: protocol_id_of_def find_Some_iff in_set_conv_nth)

lemma settled_respond:
  assumes "numbers_requests S issued" and wf: "ids_wf issued A n d"
  shows "settled issued A n d {#result#} (handle_respond S d r response result)"
proof -
  let ?refused = "\<lambda>s. d\<lparr>nd_inbound := AList.delete r (nd_inbound d), nd_swarm := s,
    nd_inbound_protocol_ids := filter (\<lambda>(_, a). a \<noteq> r) (nd_inbound_protocol_ids d)\<rparr>"
  have del: "fst ` set (AList.delete r (nd_inbound d)) \<subseteq> fst ` set (nd_inbound d)"
    by (rule dom_delete_subset)
  have refused: "ids_wf issued A n (?refused s)" if "issued s = issued (nd_swarm d)" for s
    by (rule ids_wf_inbound [OF wf])
      (use that wf del in \<open>auto simp: ids_wf_def distinct_map_filter\<close>)
  show ?thesis
  proof (cases "protocol_id_of d r = None \<or> map_of (nd_inbound d) r = None")
    case True
    moreover have "ids_wf issued A n (d\<lparr>nd_inbound := AList.delete r (nd_inbound d),
        nd_inbound_protocol_ids := filter (\<lambda>(_, a). a \<noteq> r) (nd_inbound_protocol_ids d)\<rparr>)"
      using refused [of "nd_swarm d"] by simp
    ultimately show ?thesis
      by (auto simp: settled_def handle_respond_def owed_def Let_def split: option.split)
  next
    case False
    then obtain p c where pc: "protocol_id_of d r = Some p" "map_of (nd_inbound d) r = Some c" by auto
    obtain ok s where s: "sw_send_response S c response (nd_swarm d) = (ok, s)" by fastforce
    have issued: "issued s = issued (nd_swarm d)"
      using numbers_requestsD(7) [OF assms(1), of c response "nd_swarm d"] s by simp
    have p: "(p, r) \<in> set (nd_inbound_protocol_ids d)" using protocol_id_of_Some [OF pc(1)] .
    have "r \<in> fst ` set (nd_inbound d)" using map_of_SomeD [OF pc(2)] by force
    then have new: "p \<notin> fst ` set (nd_inbound_confirmations d)" "p \<in> A"
      using wf p by (auto simp: ids_wf_def)
    have only: "r' = r" if "(p, r') \<in> set (nd_inbound_protocol_ids d)" for r'
      using wf p that by (auto simp: ids_wf_def dest: eq_key_imp_eq_value)
    have "ids_wf issued A n (d\<lparr>nd_inbound := AList.delete r (nd_inbound d), nd_swarm := s,
        nd_inbound_confirmations := AList.update p result (nd_inbound_confirmations d)\<rparr>)"
    proof (rule ids_wf_inbound [OF wf])
      fix p' r' assume "(p', r') \<in> set (nd_inbound_protocol_ids d)"
        "r' \<in> fst ` set (nd_inbound (d\<lparr>nd_inbound := AList.delete r (nd_inbound d), nd_swarm := s,
          nd_inbound_confirmations := AList.update p result (nd_inbound_confirmations d)\<rparr>))"
        "p' \<notin> fst ` set (nd_inbound_confirmations d)"
      then show "p' \<notin> fst ` set (nd_inbound_confirmations (d\<lparr>nd_inbound := AList.delete r (nd_inbound d),
          nd_swarm := s,
          nd_inbound_confirmations := AList.update p result (nd_inbound_confirmations d)\<rparr>))"
        using only delete_notin_dom [of r "nd_inbound d"] by (auto simp: dom_update)
    qed (use wf del new issued in \<open>auto simp: ids_wf_def dom_update distinct_update\<close>)
    then show ?thesis
      using refused [OF issued] vals_update_fresh [OF new(1)]
      by (simp add: settled_def handle_respond_def owed_def Let_def pc s)
  qed
qed

lemma settled_finished:
  assumes wf: "ids_wf issued A n d"
  shows "settled issued A n d {#} (inbound_finished d p failure)"
proof -
  let ?confs = "AList.delete p (nd_inbound_confirmations d)"
  let ?effects = "case map_of (nd_inbound_confirmations d) p of
      None \<Rightarrow> [] | Some confirmation \<Rightarrow> [unit_reply confirmation failure]"
  have dist: "distinct (map fst (nd_inbound_confirmations d))"
      "distinct (map fst (nd_inbound_protocol_ids d))"
    using wf by (simp_all add: ids_wf_def)
  have sub: "fst ` set ?confs \<subseteq> fst ` set (nd_inbound_confirmations d)"
      "set (AList.delete p (nd_inbound_protocol_ids d)) \<subseteq> set (nd_inbound_protocol_ids d)"
    by (auto simp: AList.delete_eq)
  have old: "fst ` set (nd_inbound_confirmations d) \<subseteq> A" using wf by (simp add: ids_wf_def)
  have all: "ids_wf issued A n (d\<lparr>nd_inbound_confirmations := ?confs\<rparr>)"
      "ids_wf issued A n (d\<lparr>nd_inbound_confirmations := ?confs,
        nd_inbound_protocol_ids := AList.delete p (nd_inbound_protocol_ids d),
        nd_inbound := AList.delete r (nd_inbound d)\<rparr>)" for r
    by (rule ids_wf_inbound [OF wf]; use sub dist old in
        \<open>simp add: distinct_delete dom_delete_subset; blast?\<close>)+
  have bal: "vals ?confs + total reply_of ?effects = vals (nd_inbound_confirmations d)"
    using vals_delete_distinct [OF dist(1), of p] by (auto simp: vals_delete_None split: option.split)
  show ?thesis
    using all bal
    by (simp add: settled_def inbound_finished_def owed_def Let_def add.assoc split: option.split)
qed

lemma settled_outbound_result:
  assumes wf: "ids_wf issued A n d"
  shows "settled issued A n d {#} (outbound_result d k value)"
proof (cases "map_of (nd_outbound d) k")
  case (Some result)
  have "ids_wf issued A n (d\<lparr>nd_outbound := AList.delete k (nd_outbound d)\<rparr>)"
    using wf set_delete_subset [of k "nd_outbound d"]
    by (auto simp: ids_wf_def distinct_delete dest: subsetD)
  then show ?thesis
    using vals_delete_distinct [OF _ Some] wf
    by (simp add: settled_def outbound_result_def owed_def Some ids_wf_def)
qed (use wf in \<open>simp add: settled_def outbound_result_def\<close>)

lemma settled_inbound_request:
  assumes "numbers_requests S issued" and wf: "ids_wf issued A n d" and "p \<notin> A" and "Suc (Suc n) < 2 ^ 64"
  shows "settled issued (insert p A) (Suc n) d {#} (handle_inbound_request S d peer p request channel)"
proof -
  let ?r = "nd_next_inbound_id d"
  have next_id: "unat (max (?r + 1) 1) = Suc (Suc n)"
  proof -
    have "unat (?r + 1) = Suc (Suc n)"
      using wf assms(4) by (simp add: ids_wf_def unat_word_ariths)
    then show ?thesis by (simp add: max_def word_le_nat_alt)
  qed
  have fresh: "p \<notin> fst ` set (nd_inbound_protocol_ids d)" "p \<notin> fst ` set (nd_inbound_confirmations d)"
    using ids_wfD(8,9) [OF wf] assms(3) by blast+
  have r: "?r \<notin> fst ` set (nd_inbound d)" "?r \<notin> snd ` set (nd_inbound_protocol_ids d)"
    using ids_wfD(5,6,7) [OF wf] by force+
  let ?d = "d\<lparr>nd_next_inbound_id := max (?r + 1) 1, nd_inbound := AList.update ?r channel (nd_inbound d),
      nd_inbound_protocol_ids := AList.update p ?r (nd_inbound_protocol_ids d)\<rparr>"
  have grown: "ids_wf issued (insert p A) (Suc n) ?d"
  proof (rule ids_wfI)
    show "q \<notin> fst ` set (nd_inbound_confirmations ?d)"
      if "(q, a) \<in> set (nd_inbound_protocol_ids ?d)" "a \<in> fst ` set (nd_inbound ?d)" for q a
    proof (cases "q = p")
      case False
      then have "(q, a) \<in> set (nd_inbound_protocol_ids d)" "a \<noteq> ?r"
        using that(1) r(2) by (auto simp: update_fresh [OF fresh(1)]) force
      then show ?thesis using that(2) ids_wfD(10) [OF wf] by (simp add: update_fresh [OF r(1)])
    qed (use fresh in simp)
    show "unat a \<le> Suc n" if "a \<in> fst ` set (nd_inbound ?d)" for a
      using that ids_wfD(5) [OF wf] le_SucI [OF ids_wfD(6) [OF wf, of a]]
      by (auto simp del: image_iff simp: update_fresh [OF r(1)] image_Un)
    show "unat a \<le> Suc n" if "a \<in> snd ` set (nd_inbound_protocol_ids ?d)" for a
      using that ids_wfD(5) [OF wf] le_SucI [OF ids_wfD(7) [OF wf, of a]]
      by (auto simp del: image_iff simp: update_fresh [OF fresh(1)] image_Un)
  qed (use ids_wfD(1-4,8,9) [OF wf] fresh next_id in \<open>auto simp: update_fresh [OF fresh(1)] update_fresh [OF r(1)]\<close>)
  have shrunk: "ids_wf issued (insert p A) (Suc n) (d\<lparr>nd_next_inbound_id := max (?r + 1) 1, nd_swarm := s\<rparr>)"
    if "issued s = issued (nd_swarm d)" for s
    by (rule ids_wfI) (use that ids_wfD(1-4,8-10) [OF wf] next_id in
      \<open>auto intro: le_SucI ids_wfD(6) [OF wf] ids_wfD(7) [OF wf]\<close>)
  have undo: "AList.delete p (AList.update p ?r (nd_inbound_protocol_ids d)) = nd_inbound_protocol_ids d"
      "AList.delete ?r (AList.update ?r channel (nd_inbound d)) = nd_inbound d"
    using fresh r by (simp_all add: delete_update_same)
  show ?thesis
  proof (cases "nd_events_open d \<and> length (nd_events d) < nd_event_capacity d")
    case True
    have "ids_wf issued (insert p A) (Suc n) (?d\<lparr>nd_events := es\<rparr>)" for es
      using grown by (simp add: ids_wf_def)
    then show ?thesis using True
      by (simp add: settled_def handle_inbound_request_def try_send_def Let_def owed_def)
  next
    case False
    then show ?thesis
      using shrunk [OF numbers_requestsD(7) [OF assms(1), of channel inbound_refusal "nd_swarm d"]]
      by (auto simp: settled_def handle_inbound_request_def try_send_def Let_def owed_def undo)
  qed
qed

lemma settled_command:
  assumes "numbers_requests S issued" and "ids_wf issued A n d"
  shows "settled issued A n d {#command_reply c#} (handle_command S d c)"
proof (cases c)
  case (Listen addresses result)
  then show ?thesis using listen_all_issued [OF assms(1), of addresses "nd_swarm d"] assms(2)
    by (simp add: settled_def owed_def ids_wf_swarm split_def Let_def)
next
  case (Dial peer addresses result)
  then show ?thesis using numbers_requestsD(5) [OF assms(1), of peer addresses "nd_swarm d"] assms(2)
    by (simp add: settled_def owed_def ids_wf_swarm split_def Let_def)
qed (use settled_request [OF assms] settled_respond [OF assms] settled_discovery_command [OF assms]
    in simp_all)

lemma settled_swarm_event:
  assumes "numbers_requests S issued" and "ids_wf issued A n d"
    and "set (request_ids (TakeSwarmEvent event)) \<inter> A = {}"
    and "Suc (n + length (request_ids (TakeSwarmEvent event))) < 2 ^ 64"
  shows "settled issued (set (request_ids (TakeSwarmEvent event)) \<union> A)
    (n + length (request_ids (TakeSwarmEvent event))) d {#} (handle_swarm_event S d event)"
proof (cases event)
  case (TransferEvent t)
  then show ?thesis
    using assms settled_inbound_request settled_outbound_result [OF assms(2)]
      settled_finished [OF assms(2)] by (cases t) simp_all
next
  case (NewListenAddress address)
  then show ?thesis
    using settled_emit [OF assms(2), of "Listening address"]
    by (cases "emit_event (Listening address) d") (auto simp: settled_def split: option.split)
qed (use assms(2) settled_emit [OF assms(2)] in \<open>simp_all add: settled_def\<close>)

lemma settled_step:
  assumes "numbers_requests S issued" and "ids_wf issued A n d"
    and "set (request_ids i) \<inter> A = {}" and "Suc (n + length (request_ids i)) < 2 ^ 64"
  shows "settled issued (set (request_ids i) \<union> A) (n + length (request_ids i)) d (asked i) (driver_step S d i)"
proof (cases i)
  case (TakeSwarmEvent event)
  let ?d = "d\<lparr>nd_swarm := sw_poll S event (nd_swarm d)\<rparr>"
  have "ids_wf issued A n ?d"
    using assms(2) numbers_requestsD(3) [OF assms(1), of event "nd_swarm d"] by (simp add: ids_wf_swarm)
  then show ?thesis
    using settled_swarm_event [OF assms(1), of A n ?d event] assms(3,4)
    by (simp add: TakeSwarmEvent settled_def owed_def)
next
  case (TakeLanEvent event)
  then show ?thesis using assms(2) settled_emit [OF assms(2), of "lan_network_event event"]
    by (simp add: settled_def)
next
  case (TakeCommand c)
  then show ?thesis using settled_command [OF assms(1,2), of c] by simp
qed (use assms(2) in \<open>simp_all add: settled_def owed_def ids_wf_def\<close>)

lemma settled_loop:
  assumes "numbers_requests S issued" and "ids_wf issued A n d"
    and "distinct (concat (map request_ids inputs))" and "set (concat (map request_ids inputs)) \<inter> A = {}"
    and "Suc (n + length (concat (map request_ids inputs))) < 2 ^ 64"
  shows "owed (fst (driver_loop S d inputs)) + total reply_of (snd (driver_loop S d inputs)) =
    owed d + total asked inputs"
  using assms(2-)
proof (induction inputs arbitrary: A n d)
  case (Cons i inputs)
  obtain d1 e1 where s: "driver_step S d i = (d1, e1)" by fastforce
  obtain d2 e2 where l: "driver_loop S d1 inputs = (d2, e2)" by fastforce
  have step: "settled issued (set (request_ids i) \<union> A) (n + length (request_ids i)) d (asked i) (d1, e1)"
    using settled_step [OF assms(1) Cons.prems(1), of i] Cons.prems(3,4) by (auto simp: s)
  have "owed d2 + total reply_of e2 = owed d1 + total asked inputs"
    using Cons.IH [of "set (request_ids i) \<union> A" "n + length (request_ids i)" d1] step Cons.prems(2-4)
    by (auto simp: settled_def l add.assoc)
  then show ?case using step by (simp add: settled_def s l add.assoc add.left_commute add.commute)
      (metis (no_types, lifting) add.assoc add.commute)
qed simp

section \<open>Routing\<close>

text \<open>
  \<open>surfaced inputs effects r c\<close>: the application was told of the request on channel \<open>c\<close> under
  the identifier \<open>r\<close>.
\<close>

definition surfaced :: "driver_input list \<Rightarrow> driver_effect list \<Rightarrow> inbound_request_id \<Rightarrow> channel \<Rightarrow> bool" where
  "surfaced inputs effects r c \<longleftrightarrow> (\<exists>peer p request.
     TakeSwarmEvent (TransferEvent (RequestMessage peer p request c)) \<in> set inputs \<and>
     Emitted (InboundRequest peer r request) \<in> set effects)"

fun routed :: "driver_input list \<Rightarrow> driver_effect list \<Rightarrow> driver_effect \<Rightarrow> bool" where
  "routed inputs effects (Responded c response) \<longleftrightarrow>
     (\<exists>r result. TakeCommand (Respond r response result) \<in> set inputs \<and> surfaced inputs effects r c) \<or>
     (response = inbound_refusal \<and> (\<exists>peer p request.
        TakeSwarmEvent (TransferEvent (RequestMessage peer p request c)) \<in> set inputs))"
| "routed inputs effects (Replied result (ResponseReply (Inr response))) \<longleftrightarrow>
     (\<exists>k peer addresses request. TakeCommand (Request peer addresses request result) \<in> set inputs \<and>
        Requested k peer request result \<in> set effects \<and>
        TakeSwarmEvent (TransferEvent (ResponseMessage k response)) \<in> set inputs)"
| "routed inputs effects _ \<longleftrightarrow> True"

text \<open>The tables agree with the history.\<close>

definition traced :: "driver_input list \<Rightarrow> driver_effect list \<Rightarrow> 's NetworkDriver \<Rightarrow> bool" where
  "traced inputs effects d \<longleftrightarrow>
     (\<forall>(r, c) \<in> set (nd_inbound d). surfaced inputs effects r c) \<and>
     (\<forall>(k, result) \<in> set (nd_outbound d). \<exists>peer addresses request.
        TakeCommand (Request peer addresses request result) \<in> set inputs \<and>
        Requested k peer request result \<in> set effects) \<and>
     list_all (routed inputs effects) effects"

lemma surfaced_mono:
  "surfaced inputs effects r c \<Longrightarrow> surfaced (inputs @ inputs') (effects @ effects') r c"
  unfolding surfaced_def by auto

lemma routed_mono: "routed inputs effects e \<Longrightarrow> routed (inputs @ inputs') (effects @ effects') e"
  by (induction inputs effects e rule: routed.induct) (auto dest: surfaced_mono; meson surfaced_mono)+

lemma set_update_cases: "set (AList.update k v al) \<subseteq> insert (k, v) (set al)"
  by (induction al) auto

definition asked_for :: "driver_input list \<Rightarrow> driver_effect list \<Rightarrow> outbound_id \<Rightarrow> reply \<Rightarrow> bool" where
  "asked_for inputs effects k result \<longleftrightarrow> (\<exists>peer addresses request.
     TakeCommand (Request peer addresses request result) \<in> set inputs \<and>
     Requested k peer request result \<in> set effects)"

lemma traced_extend:
  assumes "traced inputs effects d"
    and "\<And>r c. (r, c) \<in> set (nd_inbound d') \<Longrightarrow> (r, c) \<in> set (nd_inbound d) \<or>
      surfaced (inputs @ [i]) (effects @ new) r c"
    and "\<And>k result. (k, result) \<in> set (nd_outbound d') \<Longrightarrow> (k, result) \<in> set (nd_outbound d) \<or>
      asked_for (inputs @ [i]) (effects @ new) k result"
    and "list_all (routed (inputs @ [i]) (effects @ new)) new"
  shows "traced (inputs @ [i]) (effects @ new) d'"
proof -
  have "surfaced (inputs @ [i]) (effects @ new) r c" if "(r, c) \<in> set (nd_inbound d')" for r c
    using assms(1) assms(2) [OF that] surfaced_mono by (fastforce simp: traced_def)
  moreover have "asked_for (inputs @ [i]) (effects @ new) k result"
    if "(k, result) \<in> set (nd_outbound d')" for k result
    using assms(1) assms(3) [OF that] by (fastforce simp: traced_def asked_for_def)
  moreover have "list_all (routed (inputs @ [i]) (effects @ new)) effects"
    using assms(1) routed_mono by (fastforce simp: traced_def list_all_iff)
  ultimately show ?thesis using assms(4) by (auto simp: traced_def asked_for_def)
qed

text \<open>A turn that leaves both tables and only queues events, advertises or answers unit calls.\<close>

lemma traced_quiet:
  assumes "traced inputs effects d" and "nd_inbound d' = nd_inbound d" and "nd_outbound d' = nd_outbound d"
    and "\<And>inputs effects. list_all (routed inputs effects) new"
  shows "traced (inputs @ [i]) (effects @ new) d'"
  by (rule traced_extend [OF assms(1)]) (use assms in auto)

lemma routed_unit_reply [simp]: "routed inputs effects (unit_reply result failure)"
  by (simp add: unit_reply_def)

lemma routed_emit_event: "list_all (routed inputs effects) (snd (emit_event e d))"
  by (simp add: emit_event_def split: option.split)

lemma traced_emit:
  "traced inputs effects d \<Longrightarrow>
     traced (inputs @ [i]) (effects @ snd (emit_event e d)) (fst (emit_event e d))"
  by (rule traced_quiet) (simp_all add: routed_emit_event)

lemma traced_respond:
  assumes "traced inputs effects d" and "handle_respond S d r response result = (d', new)"
  shows "traced (inputs @ [TakeCommand (Respond r response result)]) (effects @ new) d'"
proof (rule traced_extend [OF assms(1)])
  show "(r', c) \<in> set (nd_inbound d) \<or> surfaced
      (inputs @ [TakeCommand (Respond r response result)]) (effects @ new) r' c"
    if "(r', c) \<in> set (nd_inbound d')" for r' c
    using that assms(2) subsetD [OF set_delete_subset]
    by (auto simp: handle_respond_def Let_def split: option.splits prod.splits if_splits)
  show "(k, result') \<in> set (nd_outbound d) \<or> asked_for
      (inputs @ [TakeCommand (Respond r response result)]) (effects @ new) k result'"
    if "(k, result') \<in> set (nd_outbound d')" for k result'
    using that assms(2)
    by (auto simp: handle_respond_def Let_def split: option.splits prod.splits if_splits)
  have "routed (inputs @ [TakeCommand (Respond r response result)]) (effects @ new) (Responded c response)"
    if "map_of (nd_inbound d) r = Some c" for c
  proof -
    have "surfaced (inputs @ [TakeCommand (Respond r response result)]) (effects @ new) r c"
      using assms(1) map_of_SomeD [OF that] surfaced_mono by (fastforce simp: traced_def)
    then show ?thesis by auto
  qed
  then show "list_all (routed (inputs @ [TakeCommand (Respond r response result)]) (effects @ new)) new"
    using assms(2)
    by (auto simp: handle_respond_def Let_def simp del: routed.simps
        split: option.splits prod.splits if_splits)
qed

lemma traced_request:
  assumes "traced inputs effects d"
    and "handle_command S d (Request peer addresses request result) = (d', new)"
  shows "traced (inputs @ [TakeCommand (Request peer addresses request result)]) (effects @ new) d'"
proof -
  let ?i = "TakeCommand (Request peer addresses request result)"
  obtain k s where s: "sw_send_request S peer request
      (add_peer_addresses S peer addresses (nd_swarm d)) = (k, s)" by fastforce
  then have d': "d' = d\<lparr>nd_swarm := s, nd_outbound := AList.update k result (nd_outbound d)\<rparr>"
    and new: "new = [Requested k peer request result]" using assms(2) by (auto simp: Let_def)
  have "asked_for (inputs @ [?i]) (effects @ new) k result"
    unfolding asked_for_def new by (intro exI [of _ peer] exI [of _ addresses] exI [of _ request]) simp
  then show ?thesis
    using set_update_cases [of k result "nd_outbound d"]
    by (intro traced_extend [OF assms(1)]) (auto simp: d' new)
qed

lemma traced_inbound_request:
  assumes "traced inputs effects d" and "handle_inbound_request S d peer p request c = (d', new)"
  shows "traced (inputs @ [TakeSwarmEvent (TransferEvent (RequestMessage peer p request c))])
    (effects @ new) d'"
proof (rule traced_extend [OF assms(1)])
  let ?i = "TakeSwarmEvent (TransferEvent (RequestMessage peer p request c))"
  show "(r, c') \<in> set (nd_inbound d) \<or> surfaced (inputs @ [?i]) (effects @ new) r c'"
    if "(r, c') \<in> set (nd_inbound d')" for r c'
  proof (cases "nd_events_open d \<and> length (nd_events d) < nd_event_capacity d")
    case True
    then have "(r, c') \<in> insert (nd_next_inbound_id d, c) (set (nd_inbound d))"
        "new = [Emitted (InboundRequest peer (nd_next_inbound_id d) request)]"
      using that assms(2) set_update_cases [of "nd_next_inbound_id d" c "nd_inbound d"]
      by (auto simp: handle_inbound_request_def try_send_def Let_def)
    then show ?thesis by (auto simp: surfaced_def)
  next
    case False
    then show ?thesis
      using that assms(2) subsetD [OF set_delete_subset]
      by (auto simp: handle_inbound_request_def try_send_def Let_def delete_update_same)
  qed
  have "?i \<in> set (inputs @ [?i])" by simp
  then have "routed (inputs @ [?i]) (effects @ new) (Responded c inbound_refusal)"
    unfolding routed.simps by blast
  then show "list_all (routed (inputs @ [?i]) (effects @ new)) new"
    using assms(2) by (auto simp: handle_inbound_request_def try_send_def Let_def
        simp del: routed.simps(1) split: if_splits)
qed (use assms(2) in \<open>auto simp: handle_inbound_request_def try_send_def Let_def split: if_splits\<close>)

lemma traced_outbound_result:
  assumes "traced inputs effects d" and "outbound_result d k value = (d', new)"
    and "\<And>response. value = Ok response \<Longrightarrow> i = TakeSwarmEvent (TransferEvent (ResponseMessage k response))"
  shows "traced (inputs @ [i]) (effects @ new) d'"
proof (rule traced_extend [OF assms(1)])
  show "list_all (routed (inputs @ [i]) (effects @ new)) new"
  proof (cases "map_of (nd_outbound d) k")
    case (Some result)
    then have "asked_for inputs effects k result"
      using assms(1) map_of_SomeD [OF Some] by (fastforce simp: traced_def asked_for_def)
    then show ?thesis using assms(2,3) Some
      by (cases "value") (auto simp: outbound_result_def asked_for_def, blast+)
  qed (use assms(2) in \<open>simp add: outbound_result_def\<close>)
qed (use assms(2) subsetD [OF set_delete_subset] in \<open>auto simp: outbound_result_def split: option.splits\<close>)

lemma traced_finished:
  assumes "traced inputs effects d" and "inbound_finished d p failure = (d', new)"
  shows "traced (inputs @ [i]) (effects @ new) d'"
  by (rule traced_extend [OF assms(1)])
    (use assms(2) subsetD [OF set_delete_subset] in
      \<open>auto simp: inbound_finished_def Let_def split: option.splits\<close>)

lemma traced_swarm: "traced inputs effects (d\<lparr>nd_swarm := s\<rparr>) = traced inputs effects d"
  by (simp add: traced_def)

lemma traced_emitE:
  "traced inputs effects d \<Longrightarrow> emit_event e d = (d', new) \<Longrightarrow> traced (inputs @ [i]) (effects @ new) d'"
  using traced_emit by (metis fst_conv snd_conv)

lemma traced_nothing: "traced inputs effects d \<Longrightarrow> traced (inputs @ [i]) effects d"
  using traced_quiet [of inputs effects d d "[]"] by simp

lemma traced_command:
  assumes "traced inputs effects d" and "handle_command S d c = (d', new)"
  shows "traced (inputs @ [TakeCommand c]) (effects @ new) d'"
proof (cases c)
  case (Listen addresses result)
  then show ?thesis using assms(2)
    by (intro traced_quiet [OF assms(1)]) (auto simp: Let_def split: prod.splits)
next
  case (Dial peer addresses result)
  then show ?thesis using assms(2)
    by (intro traced_quiet [OF assms(1)]) (auto simp: Let_def split: prod.splits)
next
  case (Request peer addresses request result)
  then show ?thesis using assms(2) traced_request [OF assms(1)] by (simp only:)
next
  case (Respond r response result)
  then show ?thesis using assms(2) traced_respond [OF assms(1)] by simp
next
  case (Discovery dc)
  then show ?thesis using assms
    by (intro traced_quiet [OF assms(1)]; cases dc) (auto simp: Let_def split: prod.splits if_splits)
qed

lemma traced_swarm_event:
  assumes "traced inputs effects d" and "handle_swarm_event S d event = (d', new)"
  shows "traced (inputs @ [TakeSwarmEvent event]) (effects @ new) d'"
proof (cases event)
  case (TransferEvent t)
  show ?thesis
  proof (cases t)
    case (OutboundFailure k)
    show ?thesis by (rule traced_outbound_result [OF assms(1), of k "Err Net_Request"])
      (use assms(2) TransferEvent OutboundFailure in simp_all)
  next
    case (ResponseMessage k response)
    show ?thesis by (rule traced_outbound_result [OF assms(1), of k "Ok response"])
      (use assms(2) TransferEvent ResponseMessage in simp_all)
  qed (use assms TransferEvent traced_inbound_request traced_finished in simp_all)
next
  case (NewListenAddress address)
  then show ?thesis using assms(2)
    by (intro traced_quiet [OF assms(1)])
      (auto simp: emit_event_def try_send_def split: option.splits if_splits)
qed (use assms traced_emitE [OF assms(1)] traced_nothing [OF assms(1)] in auto)

lemma traced_step:
  assumes "traced inputs effects d" and "driver_step S d i = (d', new)"
  shows "traced (inputs @ [i]) (effects @ new) d'"
proof (cases i)
  case (TakeSwarmEvent event)
  then show ?thesis
    using assms traced_swarm_event [of inputs effects "d\<lparr>nd_swarm := sw_poll S event (nd_swarm d)\<rparr>" S event]
    by (simp add: traced_swarm)
next
  case (TakeCommand c)
  then show ?thesis using assms traced_command by simp
next
  case (TakeLanEvent event)
  then show ?thesis using assms traced_emitE [OF assms(1)] traced_nothing [OF assms(1)]
    by (auto split: if_splits)
qed (use assms(2) traced_quiet [OF assms(1), of d' "[]" i] in auto)

lemma driver_loop_snoc:
  "driver_loop S d (inputs @ [i]) =
     (let (d1, effects) = driver_loop S d inputs; (d2, new) = driver_step S d1 i in (d2, effects @ new))"
  by (induction inputs arbitrary: d) (simp_all add: split_def Let_def)

lemma traced_loop:
  assumes "traced [] [] d"
  shows "traced inputs (snd (driver_loop S d inputs)) (fst (driver_loop S d inputs))"
proof (induction inputs rule: rev_induct)
  case (snoc i inputs)
  then show ?case
    using traced_step [OF snoc] by (auto simp: driver_loop_snoc split_def Let_def)
qed (use assms in simp)

section \<open>Exposure\<close>

text \<open>Effects that the local configuration allows.\<close>

fun permitted :: "bool \<Rightarrow> nat \<Rightarrow> driver_effect \<Rightarrow> bool" where
  "permitted lan limit (Advertised _) \<longleftrightarrow> lan"
| "permitted lan limit (Emitted (LanDiscovered _)) \<longleftrightarrow> lan"
| "permitted lan limit (Emitted (LanExpired _)) \<longleftrightarrow> lan"
| "permitted lan limit (Emitted (DiscoveryResults _ peers)) \<longleftrightarrow> length peers \<le> limit"
| "permitted lan limit _ \<longleftrightarrow> True"

definition confined :: "'s NetworkDriver \<Rightarrow> 's NetworkDriver \<times> driver_effect list \<Rightarrow> bool" where
  "confined d r \<longleftrightarrow>
     nd_lan (fst r) = nd_lan d \<and> nd_max_discovery_results (fst r) = nd_max_discovery_results d \<and>
     nd_event_capacity (fst r) = nd_event_capacity d \<and>
     length (nd_events (fst r)) \<le> max (length (nd_events d)) (nd_event_capacity d) \<and>
     list_all (permitted (nd_lan d \<noteq> None) (nd_max_discovery_results d)) (snd r)"

lemma permitted_unit_reply [simp]: "permitted lan limit (unit_reply result failure)"
  by (simp add: unit_reply_def)

lemma confined_emit:
  "permitted (nd_lan d \<noteq> None) (nd_max_discovery_results d) (Emitted e) \<Longrightarrow> confined d (emit_event e d)"
  by (auto simp: confined_def emit_event_def try_send_def)

lemma confined_command: "confined d (handle_command S d c)"
proof (cases c)
  case (Discovery dc)
  then show ?thesis by (cases dc) (simp_all add: confined_def Let_def split_def)
next
  case (Respond r response result)
  then show ?thesis
    by (simp add: confined_def handle_respond_def Let_def split_def split: option.split)
qed (simp_all add: confined_def Let_def split_def)

lemma confined_swarm_event: "confined d (handle_swarm_event S d event)"
proof (cases event)
  case (TransferEvent t)
  then show ?thesis
    by (cases t) (simp_all add: confined_def handle_inbound_request_def outbound_result_def
        inbound_finished_def try_send_def Let_def split: option.split)
next
  case (RelayClientEvent e)
  then show ?thesis by (cases e) (simp_all add: confined_emit)
next
  case (RendezvousClientEvent e)
  then show ?thesis by (cases e) (simp_all add: confined_emit)
next
  case (NewListenAddress address)
  then show ?thesis
    using confined_emit [of d "Listening address"]
    by (cases "emit_event (Listening address) d") (auto simp: confined_def split: option.split)
qed (simp_all add: confined_emit, simp add: confined_def)

lemma confined_step: "confined d (driver_step S d i)"
proof (cases i)
  case (TakeSwarmEvent event)
  then show ?thesis
    using confined_swarm_event [of "d\<lparr>nd_swarm := sw_poll S event (nd_swarm d)\<rparr>" S event]
    by (simp add: confined_def)
next
  case (TakeLanEvent event)
  then show ?thesis
    using confined_emit [of d "lan_network_event event"] by (cases event) (auto simp: confined_def)
qed (use confined_command in \<open>auto simp: confined_def\<close>)

lemma confined_loop: "confined d (driver_loop S d inputs)"
proof (induction inputs rule: rev_induct)
  case (snoc i inputs)
  obtain d1 e1 where l: "driver_loop S d inputs = (d1, e1)" by fastforce
  obtain d2 e2 where s: "driver_step S d1 i = (d2, e2)" by fastforce
  show ?case
    using snoc confined_step [of d1 S i] by (auto simp: driver_loop_snoc l s confined_def)
qed (simp add: confined_def)

section \<open>Properties\<close>

text \<open>A new driver has empty tables.\<close>

lemma driver_new_tables:
  assumes "driver_new built start_lan config = Ok d"
  shows "owed d = {#}" "nd_inbound d = []" "nd_outbound d = []" "nd_events d = []"
    "ids_wf issued {} 0 d" "nd_event_capacity d = nc_event_capacity config"
    "nd_max_discovery_results d = nc_max_discovery_results config"
    "nc_max_discovery_results config \<le> 256" "nc_privacy_mode config = RelayOnly \<Longrightarrow> nd_lan d = None"
  using assms
  by (auto simp: driver_new_def result_simps network_config_validate_def owed_def ids_wf_def
      split: if_splits)

text \<open>
  C11: No caller and no remote peer is answered twice. Whatever commands, swarm events and local
  events a new driver takes in whatever order, the replies it sends are answers to commands, each
  token at most as often as it was handed in, and the responses it hands to libp2p use each
  inbound channel at most once.
\<close>
theorem driver_answers_once:
  assumes "driver_new built start_lan config = Ok d" and "driver_run S d inputs = (d', effects)"
  shows "total reply_of effects \<subseteq># total asked inputs \<and> total channel_of effects \<subseteq># total arrived inputs"
proof -
  have "effects = snd (driver_loop S d inputs)"
    using assms(2) by (auto simp: driver_run_def split_def Let_def)
  then show ?thesis
    using balanced_loop [of d inputs S] driver_new_tables(1,2) [OF assms(1)]
    by (auto simp: balanced_def intro: subset_mset.order_trans [OF mset_subset_eq_add_right])
qed

text \<open>
  C23: No reply is lost while the driver runs. With libp2p's request identifiers fresh and fewer
  inbound requests than application identifiers, every token handed in has been answered or is
  held, exactly once, in the table of open requests or of pending confirmations.
\<close>
theorem driver_loses_no_reply:
  assumes "driver_new built start_lan config = Ok d" and "driver_loop S d inputs = (d', effects)"
    and "numbers_requests S issued" and "distinct (concat (map request_ids inputs))"
    and "length (concat (map request_ids inputs)) < 2 ^ 64 - 1"
  shows "vals (nd_outbound d') + vals (nd_inbound_confirmations d') + total reply_of effects =
    total asked inputs"
  using settled_loop [OF assms(3) driver_new_tables(5) [OF assms(1)] assms(4)] assms(2,5)
    driver_new_tables(1) [OF assms(1)]
  by (simp add: owed_def)

text \<open>
  Responses reach the request they answer. A response handed to libp2p is either the
  application's answer to the request it was told of under that identifier, on that request's
  channel, or the refusal of a request that the full event queue could not take; and a request of
  a local caller is only answered with a response libp2p delivered for the outbound request opened
  for it.
\<close>
theorem driver_routes_responses:
  assumes "driver_new built start_lan config = Ok d" and "driver_run S d inputs = (d', effects)"
  shows "list_all (routed inputs effects) effects"
proof -
  have "effects = snd (driver_loop S d inputs)"
    using assms(2) by (auto simp: driver_run_def split_def Let_def)
  then show ?thesis
    using traced_loop [of d inputs S] driver_new_tables(2,3) [OF assms(1)] by (simp add: traced_def)
qed

text \<open>
  The driver's exposure is bounded by its configuration: the event queue never exceeds its
  capacity, a page of discovery results never exceeds 256 peers, and in relay-only mode nothing is
  advertised to or learnt from the local network.
\<close>
theorem driver_exposure_bounded:
  assumes "driver_new built start_lan config = Ok d" and "driver_loop S d inputs = (d', effects)"
  shows "length (nd_events d') \<le> nc_event_capacity config \<and>
    list_all (permitted (nc_privacy_mode config \<noteq> RelayOnly) 256) effects"
proof -
  have mono: "permitted lan limit e \<Longrightarrow> (lan \<Longrightarrow> lan') \<Longrightarrow> limit \<le> limit' \<Longrightarrow> permitted lan' limit' e"
    for lan lan' limit limit' e
    by (induction lan limit e rule: permitted.induct) auto
  have "confined d (d', effects)" using confined_loop [of d S inputs] assms(2) by simp
  then have "length (nd_events d') \<le> nc_event_capacity config"
      "list_all (permitted (nd_lan d \<noteq> None) (nc_max_discovery_results config)) effects"
    using driver_new_tables(4,6,7) [OF assms(1)] by (simp_all add: confined_def)
  moreover have "nd_lan d \<noteq> None \<Longrightarrow> nc_privacy_mode config \<noteq> RelayOnly"
    using driver_new_tables(9) [OF assms(1)] by auto
  ultimately show ?thesis
    using mono [OF _ _ driver_new_tables(8) [OF assms(1)]] unfolding list_all_iff by blast
qed

end
