(* ===== verification/Sample_Driver.thy ===== *)
theory Sample_Driver
  imports Driver_Properties
begin

text \<open>
  A swarm that counts its requests, and a run in which one inbound request is answered and
  confirmed and one outbound request is answered.
\<close>

definition sample_swarm :: "nat swarm_ops" where
  "sample_swarm = \<lparr>sw_poll = \<lambda>_ s. s, sw_listen_on = \<lambda>_ s. (True, s), sw_dial = \<lambda>_ _ s. (True, s),
     sw_add_peer_address = \<lambda>_ _ s. s, sw_send_request = \<lambda>_ _ s. (s, Suc s),
     sw_send_response = \<lambda>_ _ s. (True, s), sw_add_external_address = \<lambda>_ s. s,
     sw_remove_external_address = \<lambda>_ s. s, sw_namespace_new = \<lambda>_. True,
     sw_register = \<lambda>_ _ _ s. (True, s), sw_discover = \<lambda>_ _ _ s. s, sw_unregister = \<lambda>_ _ s. s\<rparr>"

definition sample_driver :: "nat NetworkDriver" where
  "sample_driver = \<lparr>nd_swarm = 0, nd_events = [], nd_event_capacity = 32, nd_events_open = True,
     nd_outbound = [], nd_inbound = [], nd_inbound_protocol_ids = [], nd_inbound_confirmations = [],
     nd_next_inbound_id = 1, nd_max_discovery_results = 32, nd_lan = None\<rparr>"

lemma sample_driver_new:
  "driver_new (\<lambda>_. Some ([1], 0)) (\<lambda>_ _. Err Net_Configuration) network_config_default = Ok sample_driver"
  by (simp add: driver_new_def network_config_validate_def network_config_default_def secs_def
      sample_driver_def)

definition sample_inputs :: "driver_input list" where
  "sample_inputs = [TakeSwarmEvent (TransferEvent (RequestMessage [2] 7 (ROpen sample_open) 3)),
     TakeCommand (Request [2] [] (ROpen sample_open) 10), TakeCommand (Respond 1 inbound_refusal 11),
     TakeSwarmEvent (TransferEvent (ResponseSent 7)),
     TakeSwarmEvent (TransferEvent (ResponseMessage 0 inbound_refusal))]"

definition sample_effects :: "driver_effect list" where
  "sample_effects = [Emitted (InboundRequest [2] 1 (ROpen sample_open)),
     Requested 0 [2] (ROpen sample_open) 10, Responded 3 inbound_refusal,
     Replied 11 (UnitReply (Ok ())), Replied 10 (ResponseReply (Ok inbound_refusal))]"

lemma sample_loop_eval:
  "snd (driver_loop sample_swarm sample_driver sample_inputs) = sample_effects"
  "nd_outbound (fst (driver_loop sample_swarm sample_driver sample_inputs)) = []"
  "nd_inbound_confirmations (fst (driver_loop sample_swarm sample_driver sample_inputs)) = []"
  by code_simp+

lemma driver_sample_loop:
  "\<exists>d. driver_loop sample_swarm sample_driver sample_inputs = (d, sample_effects) \<and>
     nd_outbound d = [] \<and> nd_inbound_confirmations d = []"
  using sample_loop_eval by (metis prod.collapse)

lemma driver_sample_run: "\<exists>d. driver_run sample_swarm sample_driver sample_inputs = (d, sample_effects)"
  using driver_sample_loop by (auto simp: driver_run_def)

theorem driver_answers_once_witness: "total reply_of sample_effects \<subseteq># {#10, 11#}"
proof -
  obtain d where "driver_run sample_swarm sample_driver sample_inputs = (d, sample_effects)"
    using driver_sample_run by blast
  from driver_answers_once [OF sample_driver_new this] show ?thesis
    by (simp add: sample_inputs_def add_mset_commute)
qed

theorem driver_loses_no_reply_witness: "total reply_of sample_effects = {#10, 11#}"
proof -
  obtain d where d: "driver_loop sample_swarm sample_driver sample_inputs = (d, sample_effects)"
      "nd_outbound d = []" "nd_inbound_confirmations d = []"
    using driver_sample_loop by blast
  have "numbers_requests sample_swarm (\<lambda>s. s)" by (simp add: numbers_requests_def sample_swarm_def)
  from driver_loses_no_reply [OF sample_driver_new d(1) this] show ?thesis
    by (simp add: d sample_inputs_def add_mset_commute)
qed

theorem driver_routes_responses_witness: "list_all (routed sample_inputs sample_effects) sample_effects"
proof -
  obtain d where "driver_run sample_swarm sample_driver sample_inputs = (d, sample_effects)"
    using driver_sample_run by blast
  from driver_routes_responses [OF sample_driver_new this] show ?thesis .
qed

theorem driver_exposure_bounded_witness: "list_all (permitted True 256) sample_effects"
proof -
  obtain d where "driver_loop sample_swarm sample_driver sample_inputs = (d, sample_effects)"
    using driver_sample_loop by blast
  from driver_exposure_bounded [OF sample_driver_new this] show ?thesis
    by (simp add: network_config_default_def)
qed

end
