(* ===== verification/Dotenv.thy ===== *)
theory Dotenv
  imports Core_Types Cbor Wire "HOL-Library.List_Lexorder"
begin

text \<open>
  Selection and merging of dotenv documents, \<^verbatim>\<open>core/src/local/dotenv.rs\<close>. The dotenv parser is a
  parameter: for a document it gives the entries of its iterator in order, \<open>None\<close> where an entry is
  an error. A \<^verbatim>\<open>BTreeMap\<close> is the list of its entries in the order of the keys, which for Rust strings
  is the lexicographic order of their bytes. Texts are UTF-8 byte lists: the escaped characters are
  ASCII, and white space is removed by its encodings.
\<close>

type_synonym dotenv_parser = "bytes \<Rightarrow> (bytes \<times> bytes) option list"
type_synonym 'v btree = "(bytes \<times> 'v) list"

abbreviation dquote :: byte where "dquote \<equiv> 0x22"
abbreviation hash_sign :: byte where "hash_sign \<equiv> 0x23"
abbreviation dollar :: byte where "dollar \<equiv> 0x24"
abbreviation equals_sign :: byte where "equals_sign \<equiv> 0x3D"
abbreviation backslash :: byte where "backslash \<equiv> 0x5C"
abbreviation letter_n :: byte where "letter_n \<equiv> 0x6E"
abbreviation letter_r :: byte where "letter_r \<equiv> 0x72"
abbreviation letter_t :: byte where "letter_t \<equiv> 0x74"

section \<open>Ordered maps\<close>

fun btree_insert :: "bytes \<Rightarrow> 'v \<Rightarrow> 'v btree \<Rightarrow> 'v btree" where
  "btree_insert k v [] = [(k, v)]"
| "btree_insert k v ((k', v') # m) =
     (if k < k' then (k, v) # (k', v') # m
      else if k = k' then (k, v) # m
      else (k', v') # btree_insert k v m)"

section \<open>Parsed environments\<close>

fun parse_entries :: "(bytes \<times> bytes) option list \<Rightarrow> bytes btree \<Rightarrow> (CoreError, bytes btree) result" where
  "parse_entries [] variables = Ok variables"
| "parse_entries (None # entries) variables = Err Core_Transfer"
| "parse_entries (Some (key, value) # entries) variables =
     (if 0 \<in> set key \<or> 0 \<in> set value then Err Core_Transfer
      else parse_entries entries (btree_insert key value variables))"

definition parse_environment :: "dotenv_parser \<Rightarrow> bytes \<Rightarrow> (CoreError, bytes btree) result" where
  "parse_environment dotenv payload =
     (if length payload > MAX_PAYLOAD_BYTES then Err Core_Transfer
      else parse_entries (dotenv payload) [])"

definition conflicts_with_inherited :: "(bytes \<Rightarrow> bytes option) \<Rightarrow> bytes btree \<Rightarrow> bool" where
  "conflicts_with_inherited var_os variables = list_ex (\<lambda>(key, _). var_os key \<noteq> None) variables"

section \<open>Selection\<close>

definition escape_byte :: "byte \<Rightarrow> bytes" where
  "escape_byte b =
     (if b = backslash then [backslash, backslash]
      else if b = dquote then [backslash, dquote]
      else if b = 10 then [backslash, letter_n]
      else if b = 13 then [backslash, letter_r]
      else if b = 9 then [backslash, letter_t]
      else if b = dollar then [backslash, dollar]
      else [b])"

definition escape_value :: "bytes \<Rightarrow> bytes" where
  "escape_value v = concat (map escape_byte v)"

definition normalized_declaration :: "bytes \<Rightarrow> bytes \<Rightarrow> bytes \<Rightarrow> bytes" where
  "normalized_declaration key value line_end =
     key @ [equals_sign, dquote] @ escape_value value @ [dquote] @ line_end"

fun select_keys :: "bytes btree \<Rightarrow> bool \<Rightarrow> bytes list \<Rightarrow> bytes btree \<Rightarrow> (CoreError, bytes btree) result" where
  "select_keys variables allow_missing [] selected = Ok selected"
| "select_keys variables allow_missing (key # keys) selected =
     (if map_of selected key \<noteq> None then Err Core_Configuration
      else case map_of variables key of
        Some value \<Rightarrow> select_keys variables allow_missing keys (btree_insert key value selected)
      | None \<Rightarrow> if \<not> allow_missing then Err Core_Transfer
          else select_keys variables allow_missing keys selected)"

definition select_dotenv ::
  "dotenv_parser \<Rightarrow> bytes \<Rightarrow> bytes list \<Rightarrow> bool \<Rightarrow> (CoreError, bytes) result" where
  "select_dotenv dotenv payload requested_keys allow_missing =
     (if requested_keys = [] then Err Core_Configuration else
      bind_res (parse_environment dotenv payload) (\<lambda>variables.
      bind_res (select_keys variables allow_missing requested_keys []) (\<lambda>selected.
      let normalized = concat (map (\<lambda>(key, value). normalized_declaration key value [10]) selected) in
      if length normalized > MAX_PAYLOAD_BYTES then Err Core_Transfer else Ok normalized)))"

section \<open>Merging\<close>

datatype DotenvMergeMode = ReplaceExisting | KeepExisting

record DotenvMergeSummary =
  ms_added :: nat
  ms_updated :: nat
  ms_kept :: nat

text \<open>The UTF-8 encodings of the characters \<^verbatim>\<open>char::is_whitespace\<close> accepts.\<close>

definition whitespace :: "bytes list" where
  "whitespace = [[9], [10], [11], [12], [13], [32], [0xC2, 0x85], [0xC2, 0xA0], [0xE1, 0x9A, 0x80],
     [0xE2, 0x80, 0x80], [0xE2, 0x80, 0x81], [0xE2, 0x80, 0x82], [0xE2, 0x80, 0x83],
     [0xE2, 0x80, 0x84], [0xE2, 0x80, 0x85], [0xE2, 0x80, 0x86], [0xE2, 0x80, 0x87],
     [0xE2, 0x80, 0x88], [0xE2, 0x80, 0x89], [0xE2, 0x80, 0x8A], [0xE2, 0x80, 0xA8],
     [0xE2, 0x80, 0xA9], [0xE2, 0x80, 0xAF], [0xE2, 0x81, 0x9F], [0xE3, 0x80, 0x80]]"

function strip_prefixes :: "bytes list \<Rightarrow> bytes \<Rightarrow> bytes" where
  "strip_prefixes ws s =
     (case List.find (\<lambda>w. w \<noteq> [] \<and> take (length w) s = w) ws of
        None \<Rightarrow> s
      | Some w \<Rightarrow> strip_prefixes ws (drop (length w) s))"
  by pat_completeness auto
termination
proof (relation "measure (\<lambda>(ws, s). length s)")
  fix ws s w
  assume "List.find (\<lambda>w. w \<noteq> [] \<and> take (length w) s = w) ws = Some w"
  then have "w \<noteq> []" "take (length w) s = w" by (auto simp: find_Some_iff)
  then have "0 < length w" "length w \<le> length s" by (auto dest: arg_cong [of _ _ length])
  then have "length s - length w < length s" by linarith
  then show "((ws, drop (length w) s), ws, s) \<in> measure (\<lambda>(ws, s). length s)" by simp
qed simp

declare strip_prefixes.simps [simp del]

definition trim_start :: "bytes \<Rightarrow> bytes" where
  "trim_start = strip_prefixes whitespace"

definition trim_end :: "bytes \<Rightarrow> bytes" where
  "trim_end s = rev (strip_prefixes (map rev whitespace) (rev s))"

definition trim :: "bytes \<Rightarrow> bytes" where
  "trim s = trim_end (trim_start s)"

definition strip_export :: "bytes \<Rightarrow> bytes" where
  "strip_export s =
     (if take 7 s = ascii ''export '' then trim_start (drop 7 s) else s)"

definition declaration_key :: "bytes \<Rightarrow> bytes option" where
  "declaration_key line =
     (let trimmed = trim_start line in
      if trimmed = [] \<or> hd trimmed = hash_sign then None else
      let declaration = strip_export trimmed in
      if equals_sign \<notin> set declaration then None else
      let key = trim (takeWhile (\<lambda>b. b \<noteq> equals_sign) declaration) in
      if key = [] then None else Some key)"

text \<open>\<^verbatim>\<open>split_inclusive('\n')\<close>.\<close>

fun split_inclusive :: "bytes \<Rightarrow> bytes list" where
  "split_inclusive [] = []"
| "split_inclusive (b # s) =
     (if b = 10 then [b] # split_inclusive s
      else case split_inclusive s of [] \<Rightarrow> [[b]] | line # lines \<Rightarrow> (b # line) # lines)"

fun final_declarations :: "nat \<Rightarrow> bytes list \<Rightarrow> nat btree \<Rightarrow> nat btree" where
  "final_declarations index [] declarations = declarations"
| "final_declarations index (line # lines) declarations =
     final_declarations (index + 1) lines
       (case declaration_key line of None \<Rightarrow> declarations
        | Some key \<Rightarrow> btree_insert key index declarations)"

fun contains_crlf :: "bytes \<Rightarrow> bool" where
  "contains_crlf (a # b # s) \<longleftrightarrow> (a = 13 \<and> b = 10) \<or> contains_crlf (b # s)"
| "contains_crlf _ \<longleftrightarrow> False"

fun merge_loop ::
  "bytes btree \<Rightarrow> nat btree \<Rightarrow> DotenvMergeMode \<Rightarrow> bytes \<Rightarrow> bytes btree \<Rightarrow>
    bytes list \<times> bytes list \<times> DotenvMergeSummary \<Rightarrow>
    (CoreError, bytes list \<times> bytes list \<times> DotenvMergeSummary) result" where
  "merge_loop existing declarations mode line_end [] state = Ok state"
| "merge_loop existing declarations mode line_end ((key, value) # received) (lines, additions, summary) =
     (if map_of existing key \<noteq> None then
        (case mode of
           ReplaceExisting \<Rightarrow>
             bind_res (ok_or Core_Transfer (map_of declarations key)) (\<lambda>index.
             merge_loop existing declarations mode line_end received
               (lines[index := normalized_declaration key value line_end], additions,
                summary\<lparr>ms_updated := ms_updated summary + 1\<rparr>))
         | KeepExisting \<Rightarrow>
             merge_loop existing declarations mode line_end received
               (lines, additions, summary\<lparr>ms_kept := ms_kept summary + 1\<rparr>))
      else merge_loop existing declarations mode line_end received
             (lines, additions @ [normalized_declaration key value line_end],
              summary\<lparr>ms_added := ms_added summary + 1\<rparr>))"

definition document_lines :: "bytes \<Rightarrow> bytes list" where
  "document_lines text =
     (let lines = split_inclusive text in
      if text \<noteq> [] \<and> last text \<noteq> 10 \<and> lines = [] then [text] else lines)"

definition append_additions :: "bytes \<Rightarrow> bytes list \<Rightarrow> bytes \<Rightarrow> bytes" where
  "append_additions merged additions line_end =
     (if additions = [] then merged
      else (if merged \<noteq> [] \<and> last merged \<noteq> 10 then merged @ line_end else merged) @ concat additions)"

definition merge_dotenv ::
  "dotenv_parser \<Rightarrow> bytes \<Rightarrow> bytes \<Rightarrow> DotenvMergeMode \<Rightarrow>
    (CoreError, bytes \<times> DotenvMergeSummary) result" where
  "merge_dotenv dotenv existing received mode =
     bind_res (parse_environment dotenv existing) (\<lambda>existing_environment.
     bind_res (parse_environment dotenv received) (\<lambda>received_environment.
     let line_end = (if contains_crlf existing then [13, 10] else [10]) in
     if \<not> utf8_valid existing then Err Core_Transfer else
     let lines = document_lines existing in
     bind_res (merge_loop existing_environment (final_declarations 0 lines []) mode line_end
         received_environment (lines, [], \<lparr>ms_added = 0, ms_updated = 0, ms_kept = 0\<rparr>))
       (\<lambda>(lines, additions, summary).
     let merged = append_additions (concat lines) additions line_end in
     if length merged > MAX_PAYLOAD_BYTES then Err Core_Transfer else Ok (merged, summary))))"

section \<open>Ordered maps: lookups and order\<close>

definition btree_sorted :: "'v btree \<Rightarrow> bool" where
  "btree_sorted m \<longleftrightarrow> sorted_wrt (<) (map fst m)"

lemma btree_insert_keys: "set (map fst (btree_insert k v m)) = insert k (set (map fst m))"
  by (induction k v m rule: btree_insert.induct) auto

lemma btree_insert_sorted: "btree_sorted m \<Longrightarrow> btree_sorted (btree_insert k v m)"
proof (induction k v m rule: btree_insert.induct)
  case (2 k v k' v' m)
  have "k' < x" if "x \<in> fst ` set (btree_insert k v m)" "k' < k" for x
    using that "2.prems" btree_insert_keys [of k v m] by (auto simp: btree_sorted_def)
  then show ?case using 2 by (fastforce simp: btree_sorted_def)
qed (simp add: btree_sorted_def)

lemma btree_insert_lookup:
  "btree_sorted m \<Longrightarrow> map_of (btree_insert k v m) = (map_of m)(k \<mapsto> v)"
proof (induction k v m rule: btree_insert.induct)
  case (2 k v k' v' m)
  have "map_of m k' = None" using "2.prems" by (auto simp: btree_sorted_def map_of_eq_None_iff)
  then show ?case using 2 by (auto simp: btree_sorted_def fun_eq_iff)
qed simp

lemma btree_distinct: "btree_sorted m \<Longrightarrow> distinct (map fst m)"
  by (simp add: btree_sorted_def strict_sorted_iff)

lemma parse_entries_sorted:
  "parse_entries es m = Ok m' \<Longrightarrow> btree_sorted m \<Longrightarrow> btree_sorted m'"
  by (induction es m rule: parse_entries.induct) (auto simp: btree_insert_sorted split: if_splits)

lemma parse_environment_sorted: "parse_environment dotenv payload = Ok m \<Longrightarrow> btree_sorted m"
  by (auto simp: parse_environment_def btree_sorted_def split: if_splits
      dest: parse_entries_sorted [where m = "[]"])

text \<open>The last declaration of a key wins.\<close>

lemma parse_entries_lookup:
  "parse_entries es m = Ok m' \<Longrightarrow> btree_sorted m \<Longrightarrow>
     map_of m' = map_of m ++ map_of (rev (map the es)) \<and> None \<notin> set es"
  by (induction es m rule: parse_entries.induct)
    (auto simp: btree_insert_sorted btree_insert_lookup map_add_def fun_eq_iff split: if_splits option.split)

text \<open>Two maps with the same lookups are the same list.\<close>

lemma btree_eq:
  assumes "btree_sorted m" and "btree_sorted m'" and "map_of m = map_of m'"
  shows "m = m'"
proof -
  have "set m = set m'" using assms btree_distinct map_of_eq_Some_iff by (metis subrelI subset_antisym)
  moreover have "map fst m = map fst m'"
    using assms(1,2) calculation by (auto simp: btree_sorted_def intro!: strict_sorted_equal)
  moreover have "inj_on fst (set m \<union> set m')"
    using btree_distinct [OF assms(1)] calculation(1) by (simp add: distinct_map)
  ultimately show ?thesis by (metis map_inj_on)
qed

section \<open>Normalized declarations are unambiguous\<close>

text \<open>
  A text that can stand between double quotes on one line: every double quote and every dollar sign is
  escaped, a backslash always escapes the next byte, and there is no line break or tab.
\<close>

fun quoted_safely :: "bytes \<Rightarrow> bool" where
  "quoted_safely [] \<longleftrightarrow> True"
| "quoted_safely [b] \<longleftrightarrow> b \<notin> {backslash, dquote, dollar, 9, 10, 13}"
| "quoted_safely (b # c # s) \<longleftrightarrow>
     (if b = backslash then c \<notin> {9, 10, 13} \<and> quoted_safely s
      else b \<notin> {dquote, dollar, 9, 10, 13} \<and> quoted_safely (c # s))"

lemma escape_byte_prefix:
  "escape_byte b @ s = escape_byte c @ t \<longleftrightarrow> b = c \<and> s = t" "escape_byte b @ s \<noteq> dquote # t"
  by (auto simp: escape_byte_def split: if_splits)

lemma quoted_safely_escape_byte: "quoted_safely (escape_byte b @ s) \<longleftrightarrow> quoted_safely s"
  by (cases s) (auto simp: escape_byte_def)

lemma quoted_safely_escape: "quoted_safely (escape_value v)"
  by (induction v) (simp_all add: escape_value_def quoted_safely_escape_byte)

lemma escape_value_prefix:
  "escape_value v @ dquote # s = escape_value w @ dquote # t \<Longrightarrow> v = w \<and> s = t"
proof (induction v arbitrary: w)
  case Nil
  then show ?case by (cases w) (auto simp: escape_value_def escape_byte_prefix(2) [symmetric])
next
  case (Cons b v)
  then show ?case
    using escape_byte_prefix(2) [of b "escape_value v @ dquote # s" t]
    by (cases w) (auto simp: escape_value_def escape_byte_prefix(1))
qed

lemma escape_value_one_line: "10 \<notin> set (escape_value v)"
  by (auto simp: escape_value_def escape_byte_def split: if_splits)

text \<open>The key and the value of a declaration can be told from the text that starts with it.\<close>

lemma normalized_declaration_prefix:
  assumes "normalized_declaration k v [10] @ s = normalized_declaration k' v' [10] @ t"
    and "equals_sign \<notin> set k" "equals_sign \<notin> set k'"
  shows "k = k' \<and> v = v' \<and> s = t"
proof -
  have eq: "k @ equals_sign # dquote # escape_value v @ dquote # 10 # s =
      k' @ equals_sign # dquote # escape_value v' @ dquote # 10 # t"
    using assms(1) by (simp add: normalized_declaration_def)
  have "k = k'"
    using arg_cong [OF eq, of "takeWhile (\<lambda>b. b \<noteq> equals_sign)"] assms(2,3)
    by (simp add: takeWhile_append1 takeWhile_append) (auto split: if_splits)
  then show ?thesis using eq escape_value_prefix [of v "10 # s" v' "10 # t"] by simp
qed

lemma normalized_document_inj:
  assumes "concat (map (\<lambda>(k, v). normalized_declaration k v [10]) m) =
      concat (map (\<lambda>(k, v). normalized_declaration k v [10]) m')"
    and "\<forall>(k, v) \<in> set m. equals_sign \<notin> set k" "\<forall>(k, v) \<in> set m'. equals_sign \<notin> set k"
  shows "m = m'"
  using assms
proof (induction m arbitrary: m')
  case Nil
  then show ?case by (cases m') (auto simp: normalized_declaration_def)
next
  case (Cons kv m)
  obtain k v where kv: "kv = (k, v)" by fastforce
  obtain k' v' n where m': "m' = (k', v') # n"
    using Cons.prems(1) by (cases m') (auto simp: kv normalized_declaration_def)
  have "k = k' \<and> v = v' \<and> concat (map (\<lambda>(k, v). normalized_declaration k v [10]) m) =
      concat (map (\<lambda>(k, v). normalized_declaration k v [10]) n)"
    by (rule normalized_declaration_prefix) (use Cons.prems in \<open>simp_all add: kv m'\<close>)
  then show ?case using Cons.IH [of n] Cons.prems by (simp add: kv m')
qed

lemma split_inclusive_line: "10 \<notin> set l \<Longrightarrow> split_inclusive (l @ 10 # s) = (l @ [10]) # split_inclusive s"
  by (induction l) auto

lemma split_normalized:
  assumes "\<forall>(k, v) \<in> set m. 10 \<notin> set k"
  shows "split_inclusive (concat (map (\<lambda>(k, v). normalized_declaration k v [10]) m)) =
    map (\<lambda>(k, v). normalized_declaration k v [10]) m"
  using assms
proof (induction m)
  case (Cons kv m)
  obtain k v where kv: "kv = (k, v)" by fastforce
  have "10 \<notin> set (k @ [equals_sign, dquote] @ escape_value v @ [dquote])"
    using Cons.prems escape_value_one_line by (simp add: kv)
  from split_inclusive_line [OF this] show ?case
    using Cons by (simp add: kv normalized_declaration_def)
qed simp

section \<open>Selection is exact\<close>

lemma btree_filter: "btree_sorted m \<Longrightarrow> btree_sorted (filter P m)"
  by (induction m) (auto simp: btree_sorted_def)

lemma map_of_filter_keys:
  "map_of (filter (\<lambda>(k, _). k \<in> K) m) k = (if k \<in> K then map_of m k else None)"
  by (induction m) auto

lemma select_keys_result:
  assumes "select_keys variables allow keys selected = Ok r" and "btree_sorted selected"
  shows "btree_sorted r \<and>
    map_of r = (\<lambda>k. if k \<in> set keys \<and> map_of variables k \<noteq> None then map_of variables k
       else map_of selected k) \<and>
    (allow \<or> (\<forall>k \<in> set keys. map_of variables k \<noteq> None))"
  using assms
proof (induction variables allow keys selected rule: select_keys.induct)
  case (2 variables allow key keys selected)
  show ?case
  proof (cases "map_of variables key")
    case (Some v)
    then have "select_keys variables allow keys (btree_insert key v selected) = Ok r"
      using "2.prems"(1) by (auto split: if_splits)
    then show ?thesis
      using 2 Some btree_insert_sorted [OF "2.prems"(2)] btree_insert_lookup [OF "2.prems"(2)]
      by (auto simp: fun_eq_iff split: if_splits)
  next
    case None
    then show ?thesis using 2 by (auto simp: fun_eq_iff split: if_splits)
  qed
qed (simp add: fun_eq_iff)

lemma select_keys_filter:
  assumes "select_keys variables allow keys [] = Ok r" and "btree_sorted variables"
  shows "r = filter (\<lambda>(k, _). k \<in> set keys) variables"
proof (rule btree_eq)
  have res: "btree_sorted r" "map_of r = (\<lambda>k. if k \<in> set keys \<and> map_of variables k \<noteq> None
      then map_of variables k else None)"
    using select_keys_result [OF assms(1)] by (simp_all add: btree_sorted_def cong: if_cong)
  then show "btree_sorted r" by simp
  show "btree_sorted (filter (\<lambda>(k, _). k \<in> set keys) variables)" using assms(2) by (rule btree_filter)
  show "map_of r = map_of (filter (\<lambda>(k, _). k \<in> set keys) variables)"
    using res by (auto simp: fun_eq_iff map_of_filter_keys)
qed

text \<open>
  C39: Selecting keys from a dotenv document yields exactly the requested variables, with the values
  of their last declarations, in the order of the keys and within the payload limit, each on a line of
  its own. No value can end its quotes, start a substitution or add a line, so no other list of
  variables is written as the same document. Without \<^verbatim>\<open>allow_missing\<close> every requested key is there. The
  requested names have neither an equals sign nor a line break.
\<close>
theorem selection_unambiguous:
  assumes "select_dotenv dotenv payload keys allow_missing = Ok out"
    and "\<forall>k \<in> set keys. equals_sign \<notin> set k \<and> 10 \<notin> set k"
  shows "\<exists>variables selected. parse_environment dotenv payload = Ok variables \<and>
    map_of variables = map_of (rev (map the (dotenv payload))) \<and>
    selected = filter (\<lambda>(k, _). k \<in> set keys) variables \<and> sorted_wrt (<) (map fst selected) \<and>
    (allow_missing \<or> set keys = fst ` set selected) \<and>
    split_inclusive out = map (\<lambda>(k, v). normalized_declaration k v [10]) selected \<and>
    length out \<le> MAX_PAYLOAD_BYTES \<and>
    (\<forall>(k, v) \<in> set selected. quoted_safely (escape_value v)) \<and>
    (\<forall>other. (\<forall>(k, v) \<in> set other. equals_sign \<notin> set k) \<and>
       concat (map (\<lambda>(k, v). normalized_declaration k v [10]) other) = out \<longrightarrow> other = selected)"
proof -
  obtain variables selected where p: "parse_environment dotenv payload = Ok variables"
    and sel: "select_keys variables allow_missing keys [] = Ok selected"
    and out: "out = concat (map (\<lambda>(k, v). normalized_declaration k v [10]) selected)"
    and len: "length out \<le> MAX_PAYLOAD_BYTES"
    using assms(1) by (auto simp: select_dotenv_def result_simps Let_def split: if_splits)
  have sorted: "btree_sorted variables" using p by (rule parse_environment_sorted)
  have selected: "selected = filter (\<lambda>(k, _). k \<in> set keys) variables"
    using sel sorted by (rule select_keys_filter)
  then have plain: "\<forall>(k, v) \<in> set selected. equals_sign \<notin> set k" "\<forall>(k, v) \<in> set selected. 10 \<notin> set k"
    using assms(2) by auto
  have last: "map_of variables = map_of (rev (map the (dotenv payload)))"
    using p parse_entries_lookup [of "dotenv payload" "[]" variables]
    by (auto simp: parse_environment_def btree_sorted_def split: if_splits)
  have all: "allow_missing \<or> set keys = fst ` set selected"
    using select_keys_result [OF sel] unfolding selected
    by (fastforce simp: btree_sorted_def map_of_eq_None_iff)
  have ordered: "sorted_wrt (<) (map fst selected)"
    using btree_filter [OF sorted] by (simp add: selected btree_sorted_def)
  have inj: "other = selected" if "\<forall>(k, v) \<in> set other. equals_sign \<notin> set k"
      "concat (map (\<lambda>(k, v). normalized_declaration k v [10]) other) = out" for other
    by (rule normalized_document_inj [OF _ that(1) plain(1)]) (simp add: that(2) out)
  show ?thesis
    by (intro exI [of _ variables] exI [of _ selected] conjI p last selected ordered all len)
      (use inj quoted_safely_escape split_normalized [OF plain(2)] in \<open>auto simp: out\<close>)
qed

section \<open>Merging keeps the document\<close>



lemma split_inclusive_nonempty: "s \<noteq> [] \<Longrightarrow> split_inclusive s \<noteq> []"
  by (cases s) (auto split: list.split)

lemma document_lines_split: "document_lines s = split_inclusive s"
  by (auto simp: document_lines_def Let_def dest: split_inclusive_nonempty)






















section \<open>Samples\<close>

text \<open>What the dotenv parser gives for four documents.\<close>

definition sample_document :: bytes where
  "sample_document = ascii ''B=old'' @ [10] @ ascii ''A=1'' @ [10] @ ascii ''B=2$'' @ [10]"

definition sample_update :: bytes where
  "sample_update = ascii ''B=3'' @ [10] @ ascii ''C=4'' @ [10]"

definition sample_multiline :: bytes where
  "sample_multiline = ascii ''B='' @ [dquote] @ ascii ''x'' @ [10] @ ascii ''y'' @ [dquote, 10]"

definition sample_dotenv :: dotenv_parser where
  "sample_dotenv s =
     (if s = sample_document then [Some (ascii ''B'', ascii ''old''), Some (ascii ''A'', ascii ''1''),
        Some (ascii ''B'', ascii ''2$'')]
      else if s = sample_update then [Some (ascii ''B'', ascii ''3''), Some (ascii ''C'', ascii ''4'')]
      else if s = sample_multiline then [Some (ascii ''B'', ascii ''x'' @ [10] @ ascii ''y'')]
      else [])"

definition sample_selected :: bytes where
  "sample_selected = ascii ''B='' @ [dquote] @ ascii ''2'' @ [backslash] @ ascii ''$'' @ [dquote, 10]"

lemma sample_entries:
  "sample_dotenv sample_document = [Some (ascii ''B'', ascii ''old''), Some (ascii ''A'', ascii ''1''),
     Some (ascii ''B'', ascii ''2$'')]"
  "sample_dotenv sample_update = [Some (ascii ''B'', ascii ''3''), Some (ascii ''C'', ascii ''4'')]"
  "sample_dotenv sample_multiline = [Some (ascii ''B'', ascii ''x'' @ [10] @ ascii ''y'')]"
  by (simp_all add: sample_dotenv_def sample_document_def sample_update_def sample_multiline_def ascii_def)

lemma sample_lengths:
  "length sample_document < 100" "length sample_update < 100" "length sample_multiline < 100"
  "length sample_selected < 100"
  by (simp_all add: sample_document_def sample_update_def sample_multiline_def sample_selected_def ascii_def)

lemma sample_environments:
  "parse_environment sample_dotenv sample_document =
     Ok [(ascii ''A'', ascii ''1''), (ascii ''B'', ascii ''2$'')]"
  "parse_environment sample_dotenv sample_update = Ok [(ascii ''B'', ascii ''3''), (ascii ''C'', ascii ''4'')]"
  "parse_environment sample_dotenv sample_multiline = Ok [(ascii ''B'', ascii ''x'' @ [10] @ ascii ''y'')]"
  using sample_lengths
  by (simp_all add: parse_environment_def sample_entries MAX_PAYLOAD_BYTES_def ascii_def)

lemma sample_select: "select_dotenv sample_dotenv sample_document [ascii ''B''] False = Ok sample_selected"
  by (simp add: select_dotenv_def sample_environments MAX_PAYLOAD_BYTES_def sample_selected_def
      normalized_declaration_def escape_value_def escape_byte_def ascii_def)

lemma sample_lines:
  "split_inclusive sample_document =
     [ascii ''B=old'' @ [10], ascii ''A=1'' @ [10], ascii ''B=2$'' @ [10]]"
  "split_inclusive sample_multiline =
     [ascii ''B='' @ [dquote] @ ascii ''x'' @ [10], ascii ''y'' @ [dquote, 10]]"
  by (simp_all add: sample_document_def sample_multiline_def ascii_def)

lemma sample_declarations:
  "final_declarations 0 (split_inclusive sample_document) [] = [(ascii ''A'', 1), (ascii ''B'', 2)]"
  "final_declarations 0 (split_inclusive sample_multiline) [] = [(ascii ''B'', 0)]"
  unfolding sample_lines by code_simp+

lemma sample_texts:
  "utf8_valid sample_document" "utf8_valid sample_multiline"
  "\<not> contains_crlf sample_document" "\<not> contains_crlf sample_multiline"
  by code_simp+


text \<open>
  A value that spans lines is one entry of the parser but several lines of the document: replacing
  it rewrites its first line only, and the rest of the old value remains in the document.
\<close>

lemma merge_leaves_continuation_lines:
  "merge_dotenv sample_dotenv sample_multiline sample_update ReplaceExisting =
     Ok (ascii ''B='' @ [dquote] @ ascii ''3'' @ [dquote, 10] @ ascii ''y'' @ [dquote, 10]
       @ ascii ''C='' @ [dquote] @ ascii ''4'' @ [dquote, 10],
       \<lparr>ms_added = 1, ms_updated = 1, ms_kept = 0\<rparr>)"
  by (simp add: merge_dotenv_def sample_environments sample_texts document_lines_split
      sample_declarations MAX_PAYLOAD_BYTES_def append_additions_def normalized_declaration_def
      escape_value_def escape_byte_def)
    (simp add: sample_lines ascii_def Let_def escape_byte_def)

theorem selection_unambiguous_witness:
  "\<exists>selected. split_inclusive sample_selected = map (\<lambda>(k, v). normalized_declaration k v [10]) selected \<and>
     fst ` set selected = {ascii ''B''}"
proof -
  have "\<forall>k \<in> set [ascii ''B'']. equals_sign \<notin> set k \<and> 10 \<notin> set k" by code_simp
  from selection_unambiguous [OF sample_select this] obtain selected where
    "split_inclusive sample_selected = map (\<lambda>(k, v). normalized_declaration k v [10]) selected"
    "set [ascii ''B''] = fst ` set selected" by blast
  then show ?thesis by auto
qed


end
