(* ===== verification/Client_Config.thy ===== *)
theory Client_Config
  imports Crypto Network_Discovery Local_Input Dotenv Private_Output
begin

text \<open>
  The command line's failures and exit codes, \<^verbatim>\<open>cli/src/lib.rs\<close> and \<^verbatim>\<open>cli/src/failure.rs\<close>, its
  arguments, \<^verbatim>\<open>cli/src/args.rs\<close>, and the client configuration with its precedence,
  \<^verbatim>\<open>cli/src/config.rs\<close>, with the profile commands of \<^verbatim>\<open>cli/src/commands/network.rs\<close>. The TOML and
  duration parsers, the parser of multiaddresses, the environment and the opened files are
  parameters.
\<close>

section \<open>Failures\<close>

datatype ExitCode =
    Success | Usage | InvalidCode | ExitNotFound | ExitShareUnavailable | Network | Transfer | Output
  | ChildStart | Configuration | Internal | Interrupted

fun exit_code_i32 :: "ExitCode \<Rightarrow> int" where
  "exit_code_i32 Success = 0"
| "exit_code_i32 Usage = 2"
| "exit_code_i32 InvalidCode = 10"
| "exit_code_i32 ExitNotFound = 11"
| "exit_code_i32 ExitShareUnavailable = 12"
| "exit_code_i32 Network = 13"
| "exit_code_i32 Transfer = 14"
| "exit_code_i32 Output = 15"
| "exit_code_i32 ChildStart = 16"
| "exit_code_i32 Configuration = 20"
| "exit_code_i32 Internal = 70"
| "exit_code_i32 Interrupted = 130"

record CliFailure =
  cf_exit_code :: ExitCode
  cf_message :: string

abbreviation cli_failure :: "ExitCode \<Rightarrow> string \<Rightarrow> CliFailure" where
  "cli_failure code message \<equiv> \<lparr>cf_exit_code = code, cf_message = message\<rparr>"

fun failure_of_core :: "CoreError \<Rightarrow> CliFailure" where
  "failure_of_core Core_InvalidCode = cli_failure InvalidCode ''invalid share code''"
| "failure_of_core Core_NotFoundOrUnauthorized = cli_failure ExitNotFound ''share not found or unauthorized''"
| "failure_of_core Core_ShareUnavailable = cli_failure ExitShareUnavailable ''share is unavailable''"
| "failure_of_core Core_Network = cli_failure Network ''network operation failed''"
| "failure_of_core Core_Transfer = cli_failure Transfer ''secure transfer failed''"
| "failure_of_core Core_Output = cli_failure Output ''private output failed''"
| "failure_of_core Core_ChildProcess = cli_failure ChildStart ''child process operation failed''"
| "failure_of_core Core_Configuration = cli_failure Configuration ''configuration is invalid''"
| "failure_of_core Core_Internal = cli_failure Internal ''internal software error''"

definition invalid_config :: CliFailure where
  "invalid_config = cli_failure Configuration ''configuration is invalid''"

definition invalid_profile :: CliFailure where
  "invalid_profile = cli_failure Configuration ''network profile is invalid''"

definition invalid_resolved_config :: CliFailure where
  "invalid_resolved_config = cli_failure Internal ''resolved configuration is incomplete''"

section \<open>Arguments\<close>

record SenderDiscoveryArgs =
  sd_nodes :: "DiscoveryNode list"
  sd_relays :: "DiscoveryNode list"
  sd_mdns :: bool
  sd_relay_only :: bool
  sd_require_relay :: bool

record SendArgs =
  send_input :: "path option"
  send_expires :: "duration option"
  send_keys :: "bytes list"
  send_allow_missing_keys :: bool
  send_network :: "bytes option"
  send_listen :: bytes
  send_discovery :: SenderDiscoveryArgs
  send_code_only :: bool
  send_json :: bool
  send_verbose :: bool

record ReceiverDiscoveryArgs =
  rd_nodes :: "DiscoveryNode list"
  rd_mdns :: bool
  rd_lan :: bool
  rd_relay_only :: bool

record ConnectionArgs =
  ca_code :: "bytes option"
  ca_code_stdin :: bool
  ca_peer :: "bytes option"
  ca_address :: "bytes option"
  ca_discovery :: ReceiverDiscoveryArgs
  ca_network :: "bytes option"

section \<open>Configuration\<close>

definition CONFIG_VERSION :: u8 where "CONFIG_VERSION = 1"
definition MAX_NETWORKS :: nat where "MAX_NETWORKS = 32"
definition MAX_NODES :: nat where "MAX_NODES = 8"
definition PUBLIC_NETWORK :: bytes where "PUBLIC_NETWORK = ascii ''public''"
definition PUBLIC_NODE_PEER :: bytes where
  "PUBLIC_NODE_PEER = ascii ''12D3KooWQEMf5hojnFEucAQuUxDfcgrCRtSwpTLobzsT239vQeau''"

record NetworkProfile =
  np_network_id :: bytes
  np_require_relay :: bool
  np_relay_only :: bool
  np_rendezvous :: "bytes list"
  np_relays :: "bytes list"

record ClientDefaults =
  cd_share_ttl :: bytes
  cd_relay_only :: bool
  cd_mdns :: bool

record ClientConfig =
  cc_version :: u8
  cc_default_network :: bytes
  cc_defaults :: ClientDefaults
  cc_networks :: "NetworkProfile btree"

record DiagnosticProfile =
  dg_rendezvous :: "DiscoveryNode list"
  dg_relays :: "DiscoveryNode list"
  dg_require_relay :: bool

definition public_network_profile :: NetworkProfile where
  "public_network_profile = \<lparr>np_network_id = PUBLIC_NETWORK, np_require_relay = True,
     np_relay_only = True,
     np_rendezvous = [ascii ''/dns4/node.envshare.xyz/udp/4001/quic-v1/p2p/'' @ PUBLIC_NODE_PEER],
     np_relays = [ascii ''/dns4/node.envshare.xyz/tcp/4001/p2p/'' @ PUBLIC_NODE_PEER]\<rparr>"

definition client_defaults_default :: ClientDefaults where
  "client_defaults_default = \<lparr>cd_share_ttl = ascii ''10m'', cd_relay_only = False, cd_mdns = False\<rparr>"

definition client_config_default :: ClientConfig where
  "client_config_default = \<lparr>cc_version = CONFIG_VERSION, cc_default_network = PUBLIC_NETWORK,
     cc_defaults = client_defaults_default, cc_networks = [(PUBLIC_NETWORK, public_network_profile)]\<rparr>"

text \<open>The outside: parsers of durations and multiaddresses, and the environment variables.\<close>

record config_world =
  cw_duration :: "bytes \<Rightarrow> duration option"
  cw_multiaddr :: "bytes \<Rightarrow> multiaddr option"
  cw_env :: "bytes \<Rightarrow> bytes option"

definition is_ascii_alphanumeric :: "byte \<Rightarrow> bool" where
  "is_ascii_alphanumeric b \<longleftrightarrow> (0x30 \<le> b \<and> b \<le> 0x39) \<or> (0x41 \<le> b \<and> b \<le> 0x5A) \<or> (0x61 \<le> b \<and> b \<le> 0x7A)"

definition valid_network_name :: "bytes \<Rightarrow> bool" where
  "valid_network_name value \<longleftrightarrow> value \<noteq> [] \<and> length value \<le> 64 \<and>
     list_all (\<lambda>b. is_ascii_alphanumeric b \<or> b = 0x2D \<or> b = 0x5F \<or> b = 0x2E) value"

definition parse_bool :: "bytes \<Rightarrow> (CliFailure, bool) result" where
  "parse_bool value =
     (if value \<in> {ascii ''1'', ascii ''true'', ascii ''yes''} then Ok True
      else if value \<in> {ascii ''0'', ascii ''false'', ascii ''no''} then Ok False
      else Err invalid_config)"

fun parse_nodes :: "config_world \<Rightarrow> bytes list \<Rightarrow> (CliFailure, DiscoveryNode list) result" where
  "parse_nodes W [] = Ok []"
| "parse_nodes W (address # addresses) =
     bind_res (map_err (\<lambda>_. invalid_config) (discovery_node_from_str (cw_multiaddr W) address)) (\<lambda>node.
     bind_res (parse_nodes W addresses) (\<lambda>nodes. Ok (node # nodes)))"

definition ensure_public_network :: "ClientConfig \<Rightarrow> ClientConfig" where
  "ensure_public_network c =
     (if map_of (cc_networks c) PUBLIC_NETWORK = None
      then c\<lparr>cc_networks := btree_insert PUBLIC_NETWORK public_network_profile (cc_networks c)\<rparr> else c)"

definition env_network :: "config_world \<Rightarrow> ClientConfig \<Rightarrow> ClientConfig" where
  "env_network W c = (case cw_env W (ascii ''ENVSHARE_NETWORK'') of
     Some network \<Rightarrow> c\<lparr>cc_default_network := network\<rparr> | None \<Rightarrow> c)"

definition env_ttl :: "config_world \<Rightarrow> ClientConfig \<Rightarrow> (CliFailure, ClientConfig) result" where
  "env_ttl W c = (case cw_env W (ascii ''ENVSHARE_SHARE_TTL'') of
     Some ttl \<Rightarrow> bind_res (ok_or invalid_config (cw_duration W ttl)) (\<lambda>_.
       Ok (c\<lparr>cc_defaults := (cc_defaults c)\<lparr>cd_share_ttl := ttl\<rparr>\<rparr>))
   | None \<Rightarrow> Ok c)"

definition env_mdns :: "config_world \<Rightarrow> ClientConfig \<Rightarrow> (CliFailure, ClientConfig) result" where
  "env_mdns W c = (case cw_env W (ascii ''ENVSHARE_MDNS'') of
     Some value \<Rightarrow> bind_res (parse_bool value) (\<lambda>b.
       Ok (c\<lparr>cc_defaults := (cc_defaults c)\<lparr>cd_mdns := b\<rparr>\<rparr>))
   | None \<Rightarrow> Ok c)"

definition env_relay_only :: "config_world \<Rightarrow> ClientConfig \<Rightarrow> (CliFailure, ClientConfig) result" where
  "env_relay_only W c = (case cw_env W (ascii ''ENVSHARE_RELAY_ONLY'') of
     Some value \<Rightarrow> bind_res (parse_bool value) (\<lambda>b.
       Ok (c\<lparr>cc_defaults := (cc_defaults c)\<lparr>cd_relay_only := b\<rparr>\<rparr>))
   | None \<Rightarrow> Ok c)"

definition apply_environment :: "config_world \<Rightarrow> ClientConfig \<Rightarrow> (CliFailure, ClientConfig) result" where
  "apply_environment W c =
     bind_res (env_ttl W (env_network W c)) (\<lambda>c. bind_res (env_mdns W c) (env_relay_only W))"

definition distinct_nodes :: "config_world \<Rightarrow> bytes list \<Rightarrow> bool" where
  "distinct_nodes W addresses \<longleftrightarrow>
     (case parse_nodes W addresses of Inl _ \<Rightarrow> False | Inr nodes \<Rightarrow> distinct (map node_peer nodes))"

definition valid_profile :: "config_world \<Rightarrow> bytes \<times> NetworkProfile \<Rightarrow> bool" where
  "valid_profile W entry \<longleftrightarrow> (case entry of (name, profile) \<Rightarrow>
     valid_network_name name \<and> valid_network_name (np_network_id profile) \<and>
     length (np_rendezvous profile) \<le> MAX_NODES \<and> length (np_relays profile) \<le> MAX_NODES \<and>
     \<not> (np_require_relay profile \<and> np_relays profile = []) \<and>
     distinct_nodes W (np_rendezvous profile) \<and> distinct_nodes W (np_relays profile))"

text \<open>Every failing check gives the one configuration failure, so their order is not observable.\<close>

definition client_config_validate :: "config_world \<Rightarrow> ClientConfig \<Rightarrow> (CliFailure, unit) result" where
  "client_config_validate W c =
     (if cc_version c \<noteq> CONFIG_VERSION \<or> length (cc_networks c) > MAX_NETWORKS
         \<or> \<not> valid_network_name (cc_default_network c)
         \<or> cw_duration W (cd_share_ttl (cc_defaults c)) = None
         \<or> \<not> list_all (valid_profile W) (cc_networks c)
      then Err invalid_config else Ok ())"

section \<open>Loading and saving\<close>

datatype io_error = NotFound | OtherIoError

definition read_config_text :: "(io_error, bool \<times> reader) result \<Rightarrow> (io_error, bytes) result" where
  "read_config_text opened =
     bind_res opened (\<lambda>(is_file, reader).
     if \<not> is_file then Err OtherIoError else
     bind_res (map_err (\<lambda>_. OtherIoError) (read_bounded reader (256 * 1024))) (\<lambda>content.
     if utf8_valid content then Ok content else Err OtherIoError))"

definition platform_config_root :: "(bytes \<Rightarrow> path option) \<Rightarrow> path option" where
  "platform_config_root var_os =
     (case var_os (ascii ''XDG_CONFIG_HOME'') of
        Some root \<Rightarrow> Some root
      | None \<Rightarrow> map_option (\<lambda>home. home @ [Normal (ascii ''.config'')]) (var_os (ascii ''HOME'')))"

definition default_config_path :: "(bytes \<Rightarrow> path option) \<Rightarrow> path" where
  "default_config_path var_os =
     (case platform_config_root var_os of Some root \<Rightarrow> root | None \<Rightarrow> [CurDir])
     @ [Normal (ascii ''envshare''), Normal (ascii ''config.toml'')]"

definition load_with_missing ::
  "config_world \<Rightarrow> (bytes \<Rightarrow> path option) \<Rightarrow> (path \<Rightarrow> (io_error, bool \<times> reader) result) \<Rightarrow>
    (bytes \<Rightarrow> ClientConfig option) \<Rightarrow> path option \<Rightarrow> bool \<Rightarrow> (CliFailure, path \<times> ClientConfig) result" where
  "load_with_missing W var_os open_file from_toml explicit_path allow_explicit_missing =
     (let explicit = (explicit_path \<noteq> None \<or> var_os (ascii ''ENVSHARE_CONFIG'') \<noteq> None);
          path = (case explicit_path of Some p \<Rightarrow> p | None \<Rightarrow>
            (case var_os (ascii ''ENVSHARE_CONFIG'') of Some p \<Rightarrow> p | None \<Rightarrow> default_config_path var_os)) in
      bind_res (case read_config_text (open_file path) of
          Inr text \<Rightarrow> ok_or invalid_config (from_toml text)
        | Inl e \<Rightarrow> if e = NotFound \<and> (\<not> explicit \<or> allow_explicit_missing)
            then Ok client_config_default else Err invalid_config) (\<lambda>c.
      bind_res (apply_environment W (ensure_public_network c)) (\<lambda>c.
      bind_res (client_config_validate W c) (\<lambda>_. Ok (path, c)))))"

section \<open>Applying the configuration to arguments\<close>

definition apply_discovery ::
  "config_world \<Rightarrow> ClientConfig \<Rightarrow> bytes \<Rightarrow> DiscoveryNode list \<Rightarrow> bool \<Rightarrow> bool \<Rightarrow>
    (CliFailure, DiscoveryNode list \<times> bool \<times> bool) result" where
  "apply_discovery W c network nodes mdns relay_only =
     (let mdns = (mdns \<or> cd_mdns (cc_defaults c)); relay_only = (relay_only \<or> cd_relay_only (cc_defaults c)) in
      case (nodes, map_of (cc_networks c) network) of
        ([], Some profile) \<Rightarrow>
          bind_res (parse_nodes W (np_rendezvous profile)) (\<lambda>nodes. Ok (nodes, mdns, relay_only))
      | _ \<Rightarrow> Ok (nodes, mdns, relay_only))"

definition apply_send :: "config_world \<Rightarrow> ClientConfig \<Rightarrow> SendArgs \<Rightarrow> (CliFailure, SendArgs) result" where
  "apply_send W c a =
     (let network = (case send_network a of Some n \<Rightarrow> n | None \<Rightarrow> cc_default_network c);
          a = a\<lparr>send_network := Some network\<rparr> in
      bind_res (case send_expires a of
          Some _ \<Rightarrow> Ok a
        | None \<Rightarrow> bind_res (ok_or invalid_config (cw_duration W (cd_share_ttl (cc_defaults c)))) (\<lambda>ttl.
            Ok (a\<lparr>send_expires := Some ttl\<rparr>))) (\<lambda>a.
      let d = send_discovery a in
      bind_res (apply_discovery W c network (sd_nodes d) (sd_mdns d) (sd_relay_only d))
        (\<lambda>(nodes, mdns, relay_only).
      let d = d\<lparr>sd_nodes := nodes, sd_mdns := mdns, sd_relay_only := relay_only\<rparr> in
      bind_res (case map_of (cc_networks c) network of
          None \<Rightarrow> Ok (a\<lparr>send_discovery := d\<rparr>)
        | Some profile \<Rightarrow>
            bind_res (if sd_relays d = [] then parse_nodes W (np_relays profile) else Ok (sd_relays d))
              (\<lambda>relays. Ok (a\<lparr>send_discovery := d\<lparr>sd_relays := relays,
                 sd_require_relay := sd_require_relay d \<or> np_require_relay profile,
                 sd_relay_only := sd_relay_only d \<or> np_relay_only profile\<rparr>,
                 send_network := Some (np_network_id profile)\<rparr>))) (\<lambda>a.
      let d = send_discovery a in
      Ok (a\<lparr>send_discovery := d\<lparr>sd_require_relay := sd_require_relay d \<or> sd_relay_only d\<rparr>\<rparr>)))))"

definition apply_connection ::
  "config_world \<Rightarrow> ClientConfig \<Rightarrow> ConnectionArgs \<Rightarrow> (CliFailure, ConnectionArgs) result" where
  "apply_connection W c a =
     (let network = (case ca_network a of Some n \<Rightarrow> n | None \<Rightarrow> cc_default_network c);
          a = a\<lparr>ca_network := Some network\<rparr>; d = ca_discovery a in
      bind_res (apply_discovery W c network (rd_nodes d) (rd_mdns d) (rd_relay_only d))
        (\<lambda>(nodes, mdns, relay_only).
      let d = d\<lparr>rd_nodes := nodes, rd_mdns := mdns, rd_relay_only := relay_only\<rparr> in
      Ok (case map_of (cc_networks c) network of
          None \<Rightarrow> a\<lparr>ca_discovery := d\<rparr>
        | Some profile \<Rightarrow> a\<lparr>ca_discovery := d\<lparr>rd_relay_only := rd_relay_only d \<or> np_relay_only profile\<rparr>,
            ca_network := Some (np_network_id profile)\<rparr>)))"

section \<open>Profiles\<close>

definition diagnostic_profile ::
  "config_world \<Rightarrow> ClientConfig \<Rightarrow> bytes option \<Rightarrow> (CliFailure, DiagnosticProfile) result" where
  "diagnostic_profile W c selected =
     (let name = (case selected of Some n \<Rightarrow> n | None \<Rightarrow> cc_default_network c) in
      if \<not> valid_network_name name then Err invalid_config else
      bind_res (ok_or invalid_config (map_of (cc_networks c) name)) (\<lambda>profile.
      bind_res (parse_nodes W (np_rendezvous profile)) (\<lambda>rendezvous.
      bind_res (parse_nodes W (np_relays profile)) (\<lambda>relays.
      Ok \<lparr>dg_rendezvous = rendezvous, dg_relays = relays, dg_require_relay = np_require_relay profile\<rparr>))))"

definition add_profile ::
  "config_world \<Rightarrow> ClientConfig \<Rightarrow> bytes \<Rightarrow> NetworkProfile \<Rightarrow> (CliFailure, ClientConfig) result" where
  "add_profile W c name profile =
     (if \<not> valid_network_name name then Err invalid_config else
      let profile = (if np_network_id profile = [] then profile\<lparr>np_network_id := name\<rparr> else profile);
          c = c\<lparr>cc_networks := btree_insert name profile (cc_networks c)\<rparr> in
      bind_res (client_config_validate W c) (\<lambda>_. Ok c))"

definition remove_profile :: "ClientConfig \<Rightarrow> bytes \<Rightarrow> (CliFailure, ClientConfig) result" where
  "remove_profile c name =
     (if map_of (cc_networks c) name = None \<or> cc_default_network c = name then Err invalid_config
      else Ok (c\<lparr>cc_networks := AList.delete name (cc_networks c)\<rparr>))"

definition use_profile :: "ClientConfig \<Rightarrow> bytes \<Rightarrow> (CliFailure, ClientConfig) result" where
  "use_profile c name =
     (if map_of (cc_networks c) name = None then Err invalid_config
      else Ok (c\<lparr>cc_default_network := name\<rparr>))"

datatype NetworkCommand =
    ListProfiles
  | ShowProfile bytes
  | AddProfile bytes path
  | RemoveProfile bytes
  | UseProfile bytes

definition profile_from_file ::
  "(path \<Rightarrow> (io_error, bool \<times> reader) result) \<Rightarrow> (bytes \<Rightarrow> NetworkProfile option) \<Rightarrow> path \<Rightarrow>
    (CliFailure, NetworkProfile) result" where
  "profile_from_file open_file profile_toml path =
     bind_res (map_err (\<lambda>_. invalid_config) (read_config_text (open_file path))) (\<lambda>text.
     ok_or invalid_config (profile_toml text))"

text \<open>
  The profile commands: the lines printed and the configuration to save, if any. Saving is the
  private output of \<open>to_toml\<close> at the configuration's path.
\<close>

definition network_execute ::
  "config_world \<Rightarrow> (path \<Rightarrow> (io_error, bool \<times> reader) result) \<Rightarrow> (bytes \<Rightarrow> NetworkProfile option) \<Rightarrow>
    (NetworkProfile \<Rightarrow> bytes option) \<Rightarrow> ClientConfig \<Rightarrow> NetworkCommand \<Rightarrow>
    (CliFailure, bytes list \<times> ClientConfig option) result" where
  "network_execute W open_file profile_toml show_toml c command =
     (case command of
        ListProfiles \<Rightarrow> Ok (map fst (cc_networks c), None)
      | ShowProfile name \<Rightarrow>
          bind_res (ok_or invalid_profile (map_of (cc_networks c) name)) (\<lambda>profile.
          bind_res (ok_or invalid_profile (show_toml profile)) (\<lambda>text. Ok ([text], None)))
      | AddProfile name file_path \<Rightarrow>
          bind_res (profile_from_file open_file profile_toml file_path) (\<lambda>profile.
          bind_res (add_profile W c name profile) (\<lambda>c. Ok ([], Some c)))
      | RemoveProfile name \<Rightarrow> bind_res (remove_profile c name) (\<lambda>c. Ok ([], Some c))
      | UseProfile name \<Rightarrow> bind_res (use_profile c name) (\<lambda>c. Ok ([], Some c)))"

definition config_save ::
  "(ClientConfig \<Rightarrow> bytes option) \<Rightarrow> (path \<Rightarrow> bool) \<Rightarrow> output_system \<Rightarrow> fs \<Rightarrow> (path \<Rightarrow> bool) \<Rightarrow> path \<Rightarrow>
    ClientConfig \<Rightarrow> (CliFailure, unit) result \<times> fs list" where
  "config_save to_toml create_dir_all S fs exists path c =
     (if (case path_parent path of Some parent \<Rightarrow> \<not> create_dir_all parent | None \<Rightarrow> False)
      then (Err invalid_config, [fs])
      else case to_toml c of
        None \<Rightarrow> (Err invalid_config, [fs])
      | Some text \<Rightarrow>
          let (result, states) = write_private_atomic S fs path text
            \<lparr>po_replace = exists path, po_durable = True\<rparr> in
          (map_err failure_of_core result, states))"

section \<open>A loaded configuration resolves\<close>

text \<open>What the configuration guarantees once it is validated.\<close>

lemma validated:
  assumes "client_config_validate W c = Ok ()"
  shows "valid_network_name (cc_default_network c)"
    "\<exists>ttl. cw_duration W (cd_share_ttl (cc_defaults c)) = Some ttl"
    "map_of (cc_networks c) name = Some profile \<Longrightarrow> valid_profile W (name, profile)"
  using assms
  by (auto simp: client_config_validate_def list_all_iff split: if_splits dest: map_of_SomeD)

lemma valid_profile_nodes:
  assumes "valid_profile W (name, profile)"
  obtains rendezvous relays where "parse_nodes W (np_rendezvous profile) = Ok rendezvous"
    "parse_nodes W (np_relays profile) = Ok relays" "np_require_relay profile \<longrightarrow> relays \<noteq> []"
proof -
  have len: "length nodes = length addresses" if "parse_nodes W addresses = Ok nodes" for nodes addresses
    using that by (induction addresses arbitrary: nodes) (auto simp: result_simps)
  have ok: "\<exists>nodes. parse_nodes W addresses = Ok nodes" if "distinct_nodes W addresses" for addresses
    using that by (cases "parse_nodes W addresses") (simp_all add: distinct_nodes_def)
  have "distinct_nodes W (np_rendezvous profile)" "distinct_nodes W (np_relays profile)"
    using assms by (simp_all add: valid_profile_def)
  then obtain rendezvous relays where "parse_nodes W (np_rendezvous profile) = Ok rendezvous"
    and relays: "parse_nodes W (np_relays profile) = Ok relays" using ok by metis
  moreover have "np_require_relay profile \<longrightarrow> relays \<noteq> []"
    using assms len [OF relays] by (auto simp: valid_profile_def)
  ultimately show ?thesis by (rule that)
qed

lemma valid_name_is_network_id: "valid_network_name n \<Longrightarrow> validate_network_id n = Ok n"
proof -
  assume n: "valid_network_name n"
  have "is_ascii_graphic b" if "b \<in> set n" for b
    using n that
    by (auto simp: valid_network_name_def list_all_iff is_ascii_alphanumeric_def is_ascii_graphic_def
        word_le_nat_alt)
  then show ?thesis
    using n by (auto simp: validate_network_id_def valid_network_name_def MAX_NETWORK_ID_BYTES_def list_all_iff)
qed

lemma load_validated:
  assumes "load_with_missing W var_os open_file from_toml explicit missing = Ok (path, c)"
  shows "client_config_validate W c = Ok ()"
  using assms by (auto simp: load_with_missing_def result_simps Let_def)

lemma apply_discovery_resolves:
  assumes "client_config_validate W c = Ok ()"
  shows "\<exists>nodes'. apply_discovery W c network nodes mdns relay_only =
      Ok (nodes', mdns \<or> cd_mdns (cc_defaults c), relay_only \<or> cd_relay_only (cc_defaults c)) \<and>
    (nodes \<noteq> [] \<longrightarrow> nodes' = nodes)"
proof (cases "map_of (cc_networks c) network")
  case (Some profile)
  obtain rendezvous where "parse_nodes W (np_rendezvous profile) = Ok rendezvous"
    using valid_profile_nodes [OF validated(3) [OF assms Some]] by metis
  then show ?thesis using Some by (cases nodes) (simp_all add: apply_discovery_def)
qed (cases nodes; simp add: apply_discovery_def Let_def)

text \<open>Whether relay-only mode is asked for by the defaults or the selected profile.\<close>

definition configured_relay_only :: "ClientConfig \<Rightarrow> bytes option \<Rightarrow> bool" where
  "configured_relay_only c selected \<longleftrightarrow> cd_relay_only (cc_defaults c) \<or>
     (case map_of (cc_networks c) (case selected of Some n \<Rightarrow> n | None \<Rightarrow> cc_default_network c) of
        Some profile \<Rightarrow> np_relay_only profile | None \<Rightarrow> False)"

lemma apply_send_resolves:
  assumes valid: "client_config_validate W c = Ok ()"
  shows "\<exists>a'. apply_send W c a = Ok a' \<and> send_network a' \<noteq> None \<and> send_expires a' \<noteq> None \<and>
    sd_relay_only (send_discovery a') =
      (sd_relay_only (send_discovery a) \<or> configured_relay_only c (send_network a)) \<and>
    (sd_relay_only (send_discovery a') \<longrightarrow> sd_require_relay (send_discovery a')) \<and>
    (send_expires a \<noteq> None \<longrightarrow> send_expires a' = send_expires a) \<and>
    (sd_nodes (send_discovery a) \<noteq> [] \<longrightarrow> sd_nodes (send_discovery a') = sd_nodes (send_discovery a)) \<and>
    (sd_relays (send_discovery a) \<noteq> [] \<longrightarrow> sd_relays (send_discovery a') = sd_relays (send_discovery a)) \<and>
    (send_network a = None \<or> map_of (cc_networks c) (the (send_network a)) \<noteq> None \<longrightarrow>
       validate_network_id (the (send_network a')) = Ok (the (send_network a')))"
proof -
  let ?n = "case send_network a of Some n \<Rightarrow> n | None \<Rightarrow> cc_default_network c"
  let ?d = "send_discovery a"
  obtain ttl where ttl: "cw_duration W (cd_share_ttl (cc_defaults c)) = Some ttl"
    using validated(2) [OF valid] by blast
  obtain nodes where nodes: "apply_discovery W c ?n (sd_nodes ?d) (sd_mdns ?d) (sd_relay_only ?d) =
      Ok (nodes, sd_mdns ?d \<or> cd_mdns (cc_defaults c), sd_relay_only ?d \<or> cd_relay_only (cc_defaults c))"
    "sd_nodes ?d \<noteq> [] \<longrightarrow> nodes = sd_nodes ?d"
    using apply_discovery_resolves [OF valid] by blast
  have default: "validate_network_id (cc_default_network c) = Ok (cc_default_network c)"
    using validated(1) [OF valid] by (rule valid_name_is_network_id)
  show ?thesis
  proof (cases "map_of (cc_networks c) ?n")
    case None
    then show ?thesis
      using ttl nodes default
      by (cases "send_expires a"; cases "send_network a")
        (auto simp: apply_send_def configured_relay_only_def Let_def)
  next
    case (Some profile)
    obtain relays where "parse_nodes W (np_relays profile) = Ok relays"
      using valid_profile_nodes [OF validated(3) [OF valid Some]] by metis
    moreover have "validate_network_id (np_network_id profile) = Ok (np_network_id profile)"
      using validated(3) [OF valid Some] by (simp add: valid_profile_def valid_name_is_network_id)
    ultimately show ?thesis
      using ttl nodes Some
      by (cases "send_expires a"; cases "send_network a")
        (auto simp: apply_send_def configured_relay_only_def Let_def)
  qed
qed

lemma apply_connection_resolves:
  assumes valid: "client_config_validate W c = Ok ()"
  shows "\<exists>a'. apply_connection W c a = Ok a' \<and> ca_network a' \<noteq> None \<and>
    rd_relay_only (ca_discovery a') =
      (rd_relay_only (ca_discovery a) \<or> configured_relay_only c (ca_network a)) \<and>
    (rd_nodes (ca_discovery a) \<noteq> [] \<longrightarrow> rd_nodes (ca_discovery a') = rd_nodes (ca_discovery a)) \<and>
    (ca_network a = None \<or> map_of (cc_networks c) (the (ca_network a)) \<noteq> None \<longrightarrow>
       validate_network_id (the (ca_network a')) = Ok (the (ca_network a')))"
proof -
  let ?n = "case ca_network a of Some n \<Rightarrow> n | None \<Rightarrow> cc_default_network c"
  let ?d = "ca_discovery a"
  obtain nodes where nodes: "apply_discovery W c ?n (rd_nodes ?d) (rd_mdns ?d) (rd_relay_only ?d) =
      Ok (nodes, rd_mdns ?d \<or> cd_mdns (cc_defaults c), rd_relay_only ?d \<or> cd_relay_only (cc_defaults c))"
    "rd_nodes ?d \<noteq> [] \<longrightarrow> nodes = rd_nodes ?d"
    using apply_discovery_resolves [OF valid] by blast
  have default: "validate_network_id (cc_default_network c) = Ok (cc_default_network c)"
    using validated(1) [OF valid] by (rule valid_name_is_network_id)
  show ?thesis
  proof (cases "map_of (cc_networks c) ?n")
    case None
    then show ?thesis
      using nodes default
      by (cases "ca_network a") (auto simp: apply_connection_def configured_relay_only_def Let_def)
  next
    case (Some profile)
    moreover have "validate_network_id (np_network_id profile) = Ok (np_network_id profile)"
      using validated(3) [OF valid Some] by (simp add: valid_profile_def valid_name_is_network_id)
    ultimately show ?thesis
      using nodes
      by (cases "ca_network a") (auto simp: apply_connection_def configured_relay_only_def Let_def)
  qed
qed

text \<open>
  A configuration that loads resolves every command. Applying it to the arguments of a send or
  a receive never fails, leaves no network or expiry open, keeps what the command line sets, and
  selects a network identifier that key derivation accepts unless the command line names an unknown
  network. Relay-only mode is on exactly when the command line, the defaults or the selected
  profile ask for it, and then a relay is required of a sender.
\<close>
theorem client_config_resolves:
  assumes "load_with_missing W var_os open_file from_toml explicit missing = Ok (path, c)"
  shows "(\<exists>s'. apply_send W c s = Ok s' \<and> send_network s' \<noteq> None \<and> send_expires s' \<noteq> None \<and>
       sd_relay_only (send_discovery s') =
         (sd_relay_only (send_discovery s) \<or> configured_relay_only c (send_network s)) \<and>
       (sd_relay_only (send_discovery s') \<longrightarrow> sd_require_relay (send_discovery s')) \<and>
       (send_expires s \<noteq> None \<longrightarrow> send_expires s' = send_expires s) \<and>
       (sd_nodes (send_discovery s) \<noteq> [] \<longrightarrow> sd_nodes (send_discovery s') = sd_nodes (send_discovery s)) \<and>
       (sd_relays (send_discovery s) \<noteq> [] \<longrightarrow> sd_relays (send_discovery s') = sd_relays (send_discovery s)) \<and>
       (send_network s = None \<or> map_of (cc_networks c) (the (send_network s)) \<noteq> None \<longrightarrow>
          validate_network_id (the (send_network s')) = Ok (the (send_network s'))))
    \<and> (\<exists>r'. apply_connection W c r = Ok r' \<and> ca_network r' \<noteq> None \<and>
       rd_relay_only (ca_discovery r') =
         (rd_relay_only (ca_discovery r) \<or> configured_relay_only c (ca_network r)) \<and>
       (rd_nodes (ca_discovery r) \<noteq> [] \<longrightarrow> rd_nodes (ca_discovery r') = rd_nodes (ca_discovery r)) \<and>
       (ca_network r = None \<or> map_of (cc_networks c) (the (ca_network r)) \<noteq> None \<longrightarrow>
          validate_network_id (the (ca_network r')) = Ok (the (ca_network r'))))"
  using apply_send_resolves [OF load_validated [OF assms], of s]
    apply_connection_resolves [OF load_validated [OF assms], of r] by (rule conjI)

text \<open>The profile commands only ever save a configuration that loads again.\<close>

lemma valid_after_profile_command:
  assumes "client_config_validate W c = Ok ()"
    and "network_execute W open_file profile_toml show_toml c command = Ok (printed, Some c')"
  shows "client_config_validate W c' = Ok ()"
proof (cases command)
  case (RemoveProfile name)
  have "length (AList.delete name (cc_networks c)) \<le> MAX_NETWORKS"
    using assms(1) length_delete_le [of name "cc_networks c"]
    by (auto simp: client_config_validate_def not_less split: if_splits)
  moreover have "set (AList.delete name (cc_networks c)) \<subseteq> set (cc_networks c)"
    by (auto simp: AList.delete_eq)
  ultimately show ?thesis
    using RemoveProfile assms
    by (auto simp: network_execute_def remove_profile_def client_config_validate_def result_simps
        list_all_iff split: if_splits)
next
  case (UseProfile name)
  then obtain profile where p: "map_of (cc_networks c) name = Some profile"
    and c': "c' = c\<lparr>cc_default_network := name\<rparr>"
    using assms(2) by (auto simp: network_execute_def use_profile_def result_simps split: if_splits)
  have "valid_network_name name" using validated(3) [OF assms(1) p] by (simp add: valid_profile_def)
  then show ?thesis using assms(1) by (auto simp: c' client_config_validate_def split: if_splits)
qed (use assms in \<open>auto simp: network_execute_def add_profile_def result_simps Let_def split: if_splits\<close>)

section \<open>The built-in configuration\<close>

text \<open>Parsers that accept every text, and no configuration file or environment variable.\<close>

text \<open>
  The loaded configuration holds the overrides of the environment, so a profile command that saves
  it makes an override for one command permanent.
\<close>

lemma environment_is_saved:
  assumes "load_with_missing W var_os open_file from_toml explicit missing = Ok (path, c)"
    and "cw_env W (ascii ''ENVSHARE_NETWORK'') = Some network"
    and "network_execute W open_file profile_toml show_toml c (AddProfile name file_path) = Ok (printed, Some c')"
  shows "cc_default_network c' = network"
proof -
  have "cc_default_network c = network"
    using assms(1,2)
    by (auto simp: load_with_missing_def Let_def result_simps apply_environment_def env_network_def env_ttl_def
        env_mdns_def env_relay_only_def split: option.splits)
  then show ?thesis
    using assms(3) by (auto simp: network_execute_def result_simps add_profile_def Let_def split: if_splits)
qed

definition sample_world :: config_world where
  "sample_world = \<lparr>cw_duration = \<lambda>_. Some (secs 600),
     cw_multiaddr = \<lambda>_. Some [Dns4 (ascii ''node''), Tcp 4001, P2p [1]], cw_env = \<lambda>_. None\<rparr>"

definition sample_send_args :: SendArgs where
  "sample_send_args = \<lparr>send_input = None, send_expires = None, send_keys = [], send_allow_missing_keys = False,
     send_network = None, send_listen = [], send_discovery = \<lparr>sd_nodes = [], sd_relays = [],
     sd_mdns = False, sd_relay_only = False, sd_require_relay = False\<rparr>, send_code_only = False,
     send_json = False, send_verbose = False\<rparr>"

lemma default_config_loads:
  "load_with_missing sample_world (\<lambda>_. None) (\<lambda>_. Err NotFound) (\<lambda>_. None) None False =
     Ok (default_config_path (\<lambda>_. None), client_config_default)"
proof -
  have "valid_network_name PUBLIC_NETWORK" by code_simp
  then show ?thesis
    by (simp add: load_with_missing_def read_config_text_def apply_environment_def env_network_def
        env_ttl_def env_mdns_def env_relay_only_def ensure_public_network_def client_config_default_def
        client_config_validate_def valid_profile_def distinct_nodes_def public_network_profile_def
        discovery_node_from_str_def sample_world_def MAX_NODES_def MAX_NETWORKS_def)
qed

theorem client_config_resolves_witness:
  "\<exists>s'. apply_send sample_world client_config_default sample_send_args = Ok s' \<and>
     sd_require_relay (send_discovery s')"
proof -
  have "configured_relay_only client_config_default None"
    by (simp add: configured_relay_only_def client_config_default_def public_network_profile_def)
  moreover have "send_network sample_send_args = None" by (simp add: sample_send_args_def)
  ultimately show ?thesis
    using client_config_resolves [OF default_config_loads, of sample_send_args, THEN conjunct1] by auto
qed

end
