(* ===== verification/Child_Process.thy ===== *)
theory Child_Process
  imports Dotenv
begin

text \<open>
  Child processes, \<^verbatim>\<open>core/src/local/process.rs\<close> on Unix. Creating the process is a parameter of its
  program, arguments and environment; the interrupt race is resolved by an argument.
\<close>

datatype EnvironmentMode = Overlay | Override | Clean

type_synonym environment = "bytes \<Rightarrow> bytes option"

fun command_envs :: "environment \<Rightarrow> bytes btree \<Rightarrow> environment" where
  "command_envs env [] = env"
| "command_envs env ((key, value) # variables) = command_envs (env(key \<mapsto> value)) variables"

fun overlay_envs :: "environment \<Rightarrow> environment \<Rightarrow> bytes btree \<Rightarrow> environment" where
  "overlay_envs inherited env [] = env"
| "overlay_envs inherited env ((key, value) # variables) =
     overlay_envs inherited (if inherited key = None then env(key \<mapsto> value) else env) variables"

definition child_environment :: "environment \<Rightarrow> bytes btree \<Rightarrow> EnvironmentMode \<Rightarrow> environment" where
  "child_environment inherited variables mode =
     (case mode of
        Overlay \<Rightarrow> overlay_envs inherited inherited variables
      | Override \<Rightarrow> command_envs inherited variables
      | Clean \<Rightarrow> command_envs Map.empty variables)"

definition spawn_child ::
  "(bytes \<Rightarrow> bytes list \<Rightarrow> environment \<Rightarrow> 'child option) \<Rightarrow> environment \<Rightarrow> bytes \<Rightarrow> bytes list \<Rightarrow>
    bytes btree \<Rightarrow> EnvironmentMode \<Rightarrow> (CoreError, 'child) result" where
  "spawn_child spawn inherited program arguments variables mode =
     (if program = [] then Err Core_Configuration
      else ok_or Core_ChildProcess
        (spawn program arguments (child_environment inherited variables mode)))"

datatype kill_result = Killed | NoSuchProcess | KillFailed

text \<open>
  \<open>exited\<close> is what waiting gives, \<open>interrupt\<close> whether the interrupt comes first and could be
  received, \<open>signalled\<close> and \<open>killed\<close> what the two signals to the process group give.
\<close>

definition interrupt_child_tree :: "bool \<Rightarrow> kill_result \<Rightarrow> (CoreError, unit) result" where
  "interrupt_child_tree signalled killed =
     (if \<not> signalled then Err Core_ChildProcess
      else case killed of Killed \<Rightarrow> Ok () | NoSuchProcess \<Rightarrow> Ok () | KillFailed \<Rightarrow> Err Core_ChildProcess)"

definition wait_child_forwarding_interrupt ::
  "'status option \<Rightarrow> bool option \<Rightarrow> bool \<Rightarrow> kill_result \<Rightarrow> (CoreError, 'status) result" where
  "wait_child_forwarding_interrupt exited interrupt signalled killed =
     (case interrupt of
        None \<Rightarrow> ok_or Core_ChildProcess exited
      | Some received \<Rightarrow>
          if \<not> received then Err Core_ChildProcess
          else bind_res (interrupt_child_tree signalled killed) (\<lambda>_. ok_or Core_ChildProcess exited))"

section \<open>The child's environment\<close>

lemma command_envs_lookup:
  "distinct (map fst m) \<Longrightarrow> command_envs env m k = (case map_of m k of Some v \<Rightarrow> Some v | None \<Rightarrow> env k)"
proof (induction m arbitrary: env)
  case (Cons kv m)
  obtain key v where kv: "kv = (key, v)" by fastforce
  have "map_of m key = None" using Cons.prems by (simp add: kv map_of_eq_None_iff)
  moreover have "command_envs (env(key \<mapsto> v)) m k =
      (case map_of m k of Some v \<Rightarrow> Some v | None \<Rightarrow> (env(key \<mapsto> v)) k)"
    by (rule Cons.IH) (use Cons.prems in simp)
  ultimately show ?case by (cases "k = key"; cases "map_of m k") (simp_all add: kv)
qed simp

lemma overlay_envs_lookup:
  "distinct (map fst m) \<Longrightarrow> overlay_envs inherited env m k =
     (case map_of m k of Some v \<Rightarrow> if inherited k = None then Some v else env k | None \<Rightarrow> env k)"
proof (induction inherited env m rule: overlay_envs.induct)
  case (2 inherited env key v m)
  then have "map_of m key = None" by (simp add: map_of_eq_None_iff)
  then show ?case using 2 by (auto split: option.split)
qed simp

text \<open>
  The three modes: inherited variables win, received variables win, only received variables.
\<close>

lemma child_environment_modes:
  assumes "parse_environment dotenv payload = Ok m"
  shows "child_environment inherited m Overlay = map_of m ++ inherited"
    "child_environment inherited m Override = inherited ++ map_of m"
    "child_environment inherited m Clean = map_of m"
  using btree_distinct [OF parse_environment_sorted [OF assms]]
  by (auto simp: child_environment_def fun_eq_iff command_envs_lookup overlay_envs_lookup map_add_def
      split: option.split)

text \<open>Without conflicts overlay and override agree.\<close>

lemma strict_environment:
  assumes "parse_environment dotenv payload = Ok m" and "\<not> conflicts_with_inherited inherited m"
  shows "child_environment inherited m Overlay = child_environment inherited m Override"
proof -
  have "dom (map_of m) \<inter> dom inherited = {}"
    using assms(2) by (auto simp: conflicts_with_inherited_def list_ex_iff dest!: map_of_SomeD)
  then show ?thesis
    unfolding child_environment_modes(1,2) [OF assms(1)] by (rule map_add_comm)
qed

end
