(* ===== verification/Receive_Command.thy ===== *)
theory Receive_Command
  imports Client_Config Child_Process Share_Code Direct
begin

text \<open>
  The receiving commands: \<^verbatim>\<open>cli/src/commands/shared.rs\<close>, \<^verbatim>\<open>receive.rs\<close> and \<^verbatim>\<open>run.rs\<close>. The
  terminal, the network task and the operating system are parameters: the world record gives the
  receiver's identity, the answers to transfer requests by peer and address, the events of the
  discovery window in the order they arrive after the queries, and the nonces drawn one per session.
\<close>

record receive_world =
  rw_peer :: peer_id
  rw_peer_from_str :: "bytes \<Rightarrow> peer_id option"
  rw_multiaddr :: "bytes \<Rightarrow> multiaddr option"
  rw_lookup_host :: "bytes \<Rightarrow> ip_address list option"
  rw_to_string :: "multiaddr \<Rightarrow> bytes"
  rw_driver_started :: bool
  rw_request :: "peer_id \<Rightarrow> multiaddr \<Rightarrow> TransferRequest \<Rightarrow> (NetworkError, TransferResponse) result"
  rw_discover :: "peer_id \<Rightarrow> multiaddr \<Rightarrow> discovery_namespace \<Rightarrow> (NetworkError, unit) result"
  rw_events :: "(peer_id \<times> (NetworkError, unit) result) list \<Rightarrow> NetworkEvent list"
  rw_nonce :: "nat \<Rightarrow> bytes option"
  rw_stopped :: bool

section \<open>Reading the code\<close>

definition invalid_code :: CliFailure where
  "invalid_code = cli_failure InvalidCode ''invalid share code''"

definition read_code ::
  "reader \<Rightarrow> bool \<Rightarrow> (CliFailure, bytes) result \<Rightarrow> ConnectionArgs \<Rightarrow> (CliFailure, bytes) result" where
  "read_code stdin is_terminal prompt arguments =
     (case ca_code arguments of
        Some code \<Rightarrow> Ok code
      | None \<Rightarrow>
          if ca_code_stdin arguments then
            bind_res (map_err failure_of_core (read_bounded stdin 128)) (\<lambda>content.
            if utf8_valid content then Ok content else Err invalid_code)
          else if \<not> is_terminal then Err (cli_failure Usage
            ''interactive code prompt requires a terminal; use --code-stdin'')
          else prompt)"

section \<open>Discovery of routes\<close>

definition insert_resolved :: "receive_world \<Rightarrow> CandidateSet \<Rightarrow> DiscoveredPeer list \<Rightarrow> CandidateSet" where
  "insert_resolved W cs peers =
     foldl candidate_insert cs (map (resolve_discovered_peer (rw_lookup_host W)) peers)"

fun collect_candidates ::
  "receive_world \<Rightarrow> bool \<Rightarrow> peer_id set \<Rightarrow> NetworkEvent list \<Rightarrow> CandidateSet \<Rightarrow> CandidateSet" where
  "collect_candidates W mdns pending [] cs = cs"
| "collect_candidates W mdns pending (event # events) cs =
     (let (pending, cs) = (case event of
          DiscoveryResults node peers \<Rightarrow> (pending - {node}, insert_resolved W cs peers)
        | DiscoveryFailed node \<Rightarrow> (pending - {node}, cs)
        | LanDiscovered peers \<Rightarrow> (pending, insert_resolved W cs peers)
        | _ \<Rightarrow> (pending, cs)) in
      if pending = {} \<and> \<not> mdns then cs else collect_candidates W mdns pending events cs)"

definition receive_privacy :: "ConnectionArgs \<Rightarrow> PrivacyMode" where
  "receive_privacy a = (if rd_relay_only (ca_discovery a) then RelayOnly else Standard)"

definition discover_routes ::
  "receive_world \<Rightarrow> ConnectionArgs \<Rightarrow> discovery_namespace \<Rightarrow> PrivacyMode \<Rightarrow>
    (CliFailure, RouteCandidate list) result" where
  "discover_routes W arguments ns privacy =
     (let d = ca_discovery arguments;
          events = rw_events W (dispatch_discovery (rw_discover W) (rd_nodes d) ns 4) in
      if rd_nodes d = [] \<and> \<not> rd_mdns d then Err (cli_failure Configuration
        ''provide a direct peer/address, discovery node, or --mdns'')
      else bind_res (map_err (\<lambda>_. failure_of_core Core_Configuration)
          (candidate_set_new (candidate_policy_default\<lparr>cp_allow_lan := rd_lan d, cp_privacy := privacy\<rparr>)))
        (\<lambda>candidates. Ok (into_ranked (rw_to_string W)
          (collect_candidates W (rd_mdns d) (node_peer ` set (rd_nodes d)) events candidates))))"

section \<open>Receiving\<close>

definition receiver_session ::
  "receive_world \<Rightarrow> DerivedRoot \<Rightarrow> bytes \<Rightarrow> peer_id \<Rightarrow> nat \<Rightarrow> (CliFailure, ReceiverSession) result" where
  "receiver_session W root network_id sender_peer draw =
     bind_res (ok_or (cli_failure Internal ''secure randomness unavailable'') (rw_nonce W draw)) (\<lambda>nonce.
     map_err failure_of_core (receiver_new root network_id sender_peer (rw_peer W) nonce))"

record PendingDirectOffer =
  pd_peer :: peer_id
  pd_address :: multiaddr
  pd_verified :: VerifiedOffer

fun try_routes ::
  "cbor \<Rightarrow> primitives \<Rightarrow> receive_world \<Rightarrow> bytes \<Rightarrow> bytes \<Rightarrow> nat \<Rightarrow> RouteCandidate list \<Rightarrow>
    (CliFailure, PendingDirectOffer) result" where
  "try_routes C P W secret_bytes network_id draw [] =
     (if \<not> rw_stopped W then Err (cli_failure Internal ''network task failed'')
      else Err (cli_failure ExitNotFound ''share not found or capability was not authorized''))"
| "try_routes C P W secret_bytes network_id draw (route # routes) =
     (if rc_peer route = rw_peer W then try_routes C P W secret_bytes network_id draw routes
      else bind_res (map_err (\<lambda>_. failure_of_core Core_InvalidCode) (derive_root P secret_bytes network_id))
        (\<lambda>root.
      bind_res (receiver_session W root network_id (rc_peer route) draw) (\<lambda>session.
      case receive C P (rw_request W (rc_peer route) (rc_address route)) session of
        Inr verified \<Rightarrow> Ok \<lparr>pd_peer = rc_peer route, pd_address = rc_address route, pd_verified = verified\<rparr>
      | Inl _ \<Rightarrow> try_routes C P W secret_bytes network_id (draw + 1) routes)))"

definition receive_explicit ::
  "cbor \<Rightarrow> primitives \<Rightarrow> receive_world \<Rightarrow> DerivedRoot \<Rightarrow> bytes \<Rightarrow> bytes \<Rightarrow> bytes \<Rightarrow>
    (CliFailure, PendingDirectOffer) result" where
  "receive_explicit C P W root network_id peer address =
     bind_res (ok_or (cli_failure Configuration ''invalid sender Peer ID'') (rw_peer_from_str W peer))
       (\<lambda>sender_peer.
     bind_res (ok_or (cli_failure Configuration ''invalid sender address'') (rw_multiaddr W address))
       (\<lambda>sender_address.
     bind_res (receiver_session W root network_id sender_peer 0) (\<lambda>session.
     bind_res (map_err failure_of_core (receive C P (rw_request W sender_peer sender_address) session))
       (\<lambda>verified. Ok \<lparr>pd_peer = sender_peer, pd_address = sender_address, pd_verified = verified\<rparr>))))"

definition receive_direct_with_code ::
  "cbor \<Rightarrow> primitives \<Rightarrow> receive_world \<Rightarrow> ConnectionArgs \<Rightarrow> bytes \<Rightarrow> (CliFailure, PendingDirectOffer) result" where
  "receive_direct_with_code C P W arguments code_text =
     bind_res (ok_or invalid_resolved_config (ca_network arguments)) (\<lambda>network_id.
     bind_res (map_err (\<lambda>_. invalid_code) (from_str (sha256 P) (trim code_text))) (\<lambda>code.
     bind_res (map_err (\<lambda>_. failure_of_core Core_InvalidCode) (derive_root P (secret code) network_id)) (\<lambda>root.
     if \<not> rw_driver_started W then Err (failure_of_core Core_Network) else
     case (ca_peer arguments, ca_address arguments) of
       (Some peer, Some address) \<Rightarrow> receive_explicit C P W root network_id peer address
     | _ \<Rightarrow> bind_res (discover_routes W arguments (from_room_id (root_room_id root)) (receive_privacy arguments)) (\<lambda>routes.
         try_routes C P W (secret code) network_id 0 routes))))"

definition acknowledge_pending :: "receive_world \<Rightarrow> PendingDirectOffer \<Rightarrow> (CoreError, SecretEnvelope) result" where
  "acknowledge_pending W pending =
     acknowledge (rw_request W (pd_peer pending) (pd_address pending)) (pd_verified pending)"

section \<open>The output plan\<close>

datatype ReceiveMode = CreateMode | ReplaceMode | MergeMode | AppendMissingMode

record ReceiveArgs =
  ra_connection :: ConnectionArgs
  ra_output :: "path option"
  ra_mode :: "ReceiveMode option"
  ra_force :: bool
  ra_durable :: bool
  ra_json :: bool

datatype OutputAction = CreateOutput | ReplaceOutput | MergeOutput DotenvMergeMode

record OutputPlan =
  op_destination :: path
  op_action :: OutputAction

datatype ExistingDestinationChoice =
  ChooseMerge | ChooseAppendMissing | ChooseReplace | ChooseElsewhere "(CliFailure, path) result" | ChooseCancel

text \<open>What the system says of a destination: whether it exists, and its kind without following links.\<close>

record destination_view =
  dv_exists :: "path \<Rightarrow> bool option"
  dv_kind :: "path \<Rightarrow> fs_entry option"

definition destination_exists_failure :: CliFailure where
  "destination_exists_failure = cli_failure Output
     ''destination already exists; choose --mode merge, --mode append-missing, or --mode replace''"

definition validate_existing_destination :: "destination_view \<Rightarrow> path \<Rightarrow> (CliFailure, unit) result" where
  "validate_existing_destination V destination =
     (case dv_kind V destination of
        None \<Rightarrow> Err (cli_failure Output ''could not inspect output destination'')
      | Some (Regular _ _) \<Rightarrow> Ok ()
      | Some _ \<Rightarrow> Err (cli_failure Output
          ''output destination must be a regular file, not a symlink or special file''))"

fun mode_action :: "ReceiveMode \<Rightarrow> (CliFailure, OutputAction) result" where
  "mode_action CreateMode = Err destination_exists_failure"
| "mode_action ReplaceMode = Ok ReplaceOutput"
| "mode_action MergeMode = Ok (MergeOutput ReplaceExisting)"
| "mode_action AppendMissingMode = Ok (MergeOutput KeepExisting)"

text \<open>The answers to the prompts, in order; a prompt without an answer fails.\<close>

fun resolve_destination ::
  "destination_view \<Rightarrow> ReceiveMode option \<Rightarrow> bool \<Rightarrow> ExistingDestinationChoice list \<Rightarrow> path \<Rightarrow>
    (CliFailure, OutputPlan) result" where
  "resolve_destination V requested_mode interactive answers destination =
     bind_res (ok_or (cli_failure Output ''could not inspect output destination'') (dv_exists V destination))
       (\<lambda>exists.
     if \<not> exists then Ok \<lparr>op_destination = destination, op_action = CreateOutput\<rparr> else
     bind_res (validate_existing_destination V destination) (\<lambda>_.
     case requested_mode of
       Some mode \<Rightarrow> bind_res (mode_action mode) (\<lambda>action.
         Ok \<lparr>op_destination = destination, op_action = action\<rparr>)
     | None \<Rightarrow>
         if \<not> interactive then Err destination_exists_failure else
         case answers of
           [] \<Rightarrow> Err (cli_failure Usage ''interactive prompt failed'')
         | answer # answers \<Rightarrow>
             (case answer of
                ChooseMerge \<Rightarrow> Ok \<lparr>op_destination = destination, op_action = MergeOutput ReplaceExisting\<rparr>
              | ChooseAppendMissing \<Rightarrow> Ok \<lparr>op_destination = destination, op_action = MergeOutput KeepExisting\<rparr>
              | ChooseReplace \<Rightarrow> Ok \<lparr>op_destination = destination, op_action = ReplaceOutput\<rparr>
              | ChooseElsewhere next_destination \<Rightarrow>
                  (case next_destination of
                     Inl e \<Rightarrow> Err e
                   | Inr destination \<Rightarrow>
                       resolve_destination V requested_mode interactive answers destination)
              | ChooseCancel \<Rightarrow> Err (cli_failure Interrupted ''cancelled''))))"

declare resolve_destination.simps [simp del]

definition resolve_output_plan ::
  "destination_view \<Rightarrow> bool \<Rightarrow> ExistingDestinationChoice list \<Rightarrow> ReceiveArgs \<Rightarrow>
    (CliFailure, OutputPlan) result" where
  "resolve_output_plan V is_tty answers arguments =
     (let interactive = (is_tty \<and> \<not> ra_json arguments);
          destination = (case ra_output arguments of Some p \<Rightarrow> p | None \<Rightarrow>
            if interactive then [Normal (ascii ''.env'')] else [Normal (ascii ''.env.shared'')]);
          requested_mode = (if ra_force arguments then Some ReplaceMode else ra_mode arguments) in
      resolve_destination V requested_mode interactive answers destination)"

section \<open>Persisting and acknowledging\<close>

definition received_contents ::
  "dotenv_parser \<Rightarrow> (path \<Rightarrow> reader option) \<Rightarrow> OutputPlan \<Rightarrow> bytes \<Rightarrow>
    (CliFailure, bytes \<times> bool \<times> DotenvMergeSummary option) result" where
  "received_contents dotenv open_file plan payload =
     (case op_action plan of
        CreateOutput \<Rightarrow> Ok (payload, False, None)
      | ReplaceOutput \<Rightarrow> Ok (payload, True, None)
      | MergeOutput mode \<Rightarrow>
          bind_res (ok_or (cli_failure Output ''could not read output destination'')
            (open_file (op_destination plan))) (\<lambda>reader.
          bind_res (map_err failure_of_core (read_bounded reader MAX_PAYLOAD_BYTES)) (\<lambda>existing.
          bind_res (map_err failure_of_core (merge_dotenv dotenv existing payload mode))
            (\<lambda>(merged, summary). Ok (merged, True, Some summary)))))"

definition persist_received ::
  "dotenv_parser \<Rightarrow> (path \<Rightarrow> reader option) \<Rightarrow> output_system \<Rightarrow> fs \<Rightarrow> OutputPlan \<Rightarrow> bytes \<Rightarrow> bool \<Rightarrow>
    (CliFailure, DotenvMergeSummary option) result \<times> fs list" where
  "persist_received dotenv open_file S fs plan payload durable =
     (case received_contents dotenv open_file plan payload of
        Inl e \<Rightarrow> (Err e, [fs])
      | Inr (contents, replace, summary) \<Rightarrow>
          let (result, states) = write_private_atomic S fs (op_destination plan) contents
            \<lparr>po_replace = replace, po_durable = durable\<rparr> in
          (map_err failure_of_core (bind_res result (\<lambda>_. Ok summary)), states))"

definition unconfirmed_output :: CliFailure where
  "unconfirmed_output = cli_failure Transfer
     ''output succeeded, but sender acknowledgement was not confirmed; do not retry elsewhere''"

text \<open>
  The command, as its exit status and what it does to the outside in order: the states the file
  system goes through and the acknowledgement sent. \<open>code\<close> is what reading the code gives, \<open>shown\<close>
  whether the final message could be written.
\<close>

datatype receive_action =
    FileState fs
  | Spawned bytes "bytes list" environment
  | Acknowledged AcknowledgeRequest

definition receive_execute ::
  "cbor \<Rightarrow> primitives \<Rightarrow> receive_world \<Rightarrow> dotenv_parser \<Rightarrow> (path \<Rightarrow> reader option) \<Rightarrow> output_system \<Rightarrow>
    fs \<Rightarrow> destination_view \<Rightarrow> bool \<Rightarrow> ExistingDestinationChoice list \<Rightarrow> bool \<Rightarrow> (CliFailure, bytes) result \<Rightarrow>
    ReceiveArgs \<Rightarrow> (CliFailure, int) result \<times> receive_action list" where
  "receive_execute C P W dotenv open_file S fs V is_tty answers shown code arguments =
     (case bind_res code (\<lambda>code.
          bind_res (map_err (\<lambda>_. invalid_code) (from_str (sha256 P) (trim code))) (\<lambda>_.
          bind_res (resolve_output_plan V is_tty answers arguments) (\<lambda>plan.
          bind_res (receive_direct_with_code C P W (ra_connection arguments) code) (\<lambda>pending.
          Ok (plan, pending))))) of
        Inl e \<Rightarrow> (Err e, [])
      | Inr (plan, pending) \<Rightarrow>
          case persist_received dotenv open_file S fs plan
              (env_payload (vo_envelope (pd_verified pending))) (ra_durable arguments) of
            (Inl e, states) \<Rightarrow> (Err e, map FileState states)
          | (Inr summary, states) \<Rightarrow>
              let trace = map FileState states @ [Acknowledged (vo_acknowledgement (pd_verified pending))];
                  acknowledgement = acknowledge_pending W pending in
              if \<not> rw_stopped W then (Err (cli_failure Internal ''network task failed''), trace)
              else case acknowledgement of
                Inl _ \<Rightarrow> (Err unconfirmed_output, trace)
              | Inr _ \<Rightarrow>
                  if \<not> shown \<and> \<not> ra_json arguments
                  then (Err (cli_failure Output ''terminal output failed''), trace)
                  else (Ok (exit_code_i32 Success), trace))"

section \<open>Running a child\<close>

record RunArgs =
  run_connection :: ConnectionArgs
  run_override :: bool
  run_clean_env :: bool
  run_strict :: bool
  run_command :: "bytes list"

datatype exit_status = Exited int | Signalled int | UnknownStatus

fun exit_status_i32 :: "exit_status \<Rightarrow> int" where
  "exit_status_i32 (Exited code) = code"
| "exit_status_i32 (Signalled signal) = 128 + signal"
| "exit_status_i32 UnknownStatus = 1"

definition run_mode :: "RunArgs \<Rightarrow> EnvironmentMode" where
  "run_mode a = (if run_clean_env a then Clean else if run_override a then Override else Overlay)"

text \<open>
  Both content types an envelope can have are dotenv documents, so the check of the type never
  refuses. \<open>spawn\<close> gives the child's eventual status, or \<open>None\<close> when it cannot start.
\<close>

definition run_execute ::
  "cbor \<Rightarrow> primitives \<Rightarrow> receive_world \<Rightarrow> dotenv_parser \<Rightarrow>
    (bytes \<Rightarrow> bytes list \<Rightarrow> environment \<Rightarrow> (CoreError, exit_status) result option) \<Rightarrow> environment \<Rightarrow>
    (CliFailure, bytes) result \<Rightarrow> RunArgs \<Rightarrow> (CliFailure, int) result \<times> receive_action list" where
  "run_execute C P W dotenv spawn inherited code arguments =
     (case run_command arguments of
        [] \<Rightarrow> (Err (cli_failure Usage ''a child program is required''), [])
      | program # child_arguments \<Rightarrow>
      case bind_res code (receive_direct_with_code C P W (run_connection arguments)) of
        Inl e \<Rightarrow> (Err e, [])
      | Inr pending \<Rightarrow>
      case map_err failure_of_core (parse_environment dotenv (env_payload (vo_envelope (pd_verified pending)))) of
        Inl e \<Rightarrow> (Err e, [])
      | Inr variables \<Rightarrow>
      if run_strict arguments \<and> conflicts_with_inherited inherited variables then
        (Err (cli_failure Configuration ''received environment conflicts with inherited variables''), [])
      else case spawn_child spawn inherited program child_arguments variables (run_mode arguments) of
        Inl e \<Rightarrow> (Err (failure_of_core e), [])
      | Inr waited \<Rightarrow>
          let trace = [Spawned program child_arguments
                 (child_environment inherited variables (run_mode arguments)),
               Acknowledged (vo_acknowledgement (pd_verified pending))] in
          case acknowledge_pending W pending of
            Inl _ \<Rightarrow> (Err (cli_failure Transfer
              ''child started, but sender acknowledgement was not confirmed; do not retry elsewhere''), trace)
          | Inr _ \<Rightarrow>
              (case waited of
                 Inl e \<Rightarrow> (Err (failure_of_core e), trace)
               | Inr status \<Rightarrow>
                   if \<not> rw_stopped W then (Err (cli_failure Internal ''network task failed''), trace)
                   else (Ok (exit_status_i32 status), trace)))"

section \<open>Which routes are dialled\<close>

lemma collect_candidates_inserts:
  "\<exists>ds. collect_candidates W mdns pending events cs = foldl candidate_insert cs ds"
proof (induction W mdns pending events cs rule: collect_candidates.induct)
  case (1 W mdns pending cs)
  have "collect_candidates W mdns pending [] cs = foldl candidate_insert cs []" by simp
  then show ?case by blast
next
  case (2 W mdns pending event events cs)
  obtain pending' ds where step: "(case event of
          DiscoveryResults node peers \<Rightarrow> (pending - {node}, insert_resolved W cs peers)
        | DiscoveryFailed node \<Rightarrow> (pending - {node}, cs)
        | LanDiscovered peers \<Rightarrow> (pending, insert_resolved W cs peers)
        | _ \<Rightarrow> (pending, cs)) = (pending', foldl candidate_insert cs ds)"
  proof (cases event)
    case (DiscoveryResults node peers)
    then show ?thesis by (intro that) (simp add: insert_resolved_def)
  next
    case (LanDiscovered peers)
    then show ?thesis by (intro that) (simp add: insert_resolved_def)
  qed (rule that [of _ "[]"], simp)+
  show ?case
  proof (cases "pending' = {} \<and> \<not> mdns")
    case True
    then show ?thesis using step by (auto simp: Let_def)
  next
    case False
    then obtain ds' where "collect_candidates W mdns pending' events (foldl candidate_insert cs ds) =
        foldl candidate_insert (foldl candidate_insert cs ds) ds'"
      using 2 [OF step [symmetric] refl] by auto
    then have "collect_candidates W mdns pending (event # events) cs = foldl candidate_insert cs (ds @ ds')"
      using False by (auto simp: step)
    then show ?thesis by blast
  qed
qed

lemma discovered_relay_only:
  assumes "discover_routes W arguments ns RelayOnly = Ok routes" and "r \<in> set routes"
  shows "P2pCircuit \<in> set (rc_address r)"
proof -
  let ?p = "candidate_policy_default\<lparr>cp_allow_lan := rd_lan (ca_discovery arguments), cp_privacy := RelayOnly\<rparr>"
  obtain cs0 ds where new: "candidate_set_new ?p = Ok cs0"
    and routes: "routes = into_ranked (rw_to_string W) (foldl candidate_insert cs0 ds)"
    using assms(1) collect_candidates_inserts
    unfolding discover_routes_def Let_def by (auto simp: result_simps split: if_splits) metis+
  have cs0: "candidates_inv cs0" "cs_policy cs0 = ?p" "cp_max_addresses_per_peer (cs_policy cs0) > 0"
    using new by (auto simp: candidate_set_new_def candidates_inv_def split: if_splits)
  let ?cs = "foldl candidate_insert cs0 ds"
  have inv: "candidates_inv ?cs" and pol: "cs_policy ?cs = ?p"
    using candidate_inserts_inv [OF cs0(1,3)] cs0(2) by auto
  have "classify_address (rc_address r) (rc_peer r) ?p = Some (rc_kind r)"
    using assms(2) inv pol by (auto simp: routes into_ranked_def candidates_inv_def)
  then show ?thesis by (auto simp: classify_address_def split: if_splits)
qed

text \<open>Two answer functions that agree on the routes of the list give the same result.\<close>

lemma try_routes_cong:
  assumes "\<And>r. r \<in> set routes \<Longrightarrow> request (rc_peer r) (rc_address r) = rw_request W (rc_peer r) (rc_address r)"
  shows "try_routes C P (W\<lparr>rw_request := request\<rparr>) secret_bytes net draw routes =
    try_routes C P W secret_bytes net draw routes"
  using assms
proof (induction routes arbitrary: draw)
  case (Cons r routes)
  have "receiver_session (W\<lparr>rw_request := request\<rparr>) root net peer draw = receiver_session W root net peer draw"
    for root peer draw by (simp add: receiver_session_def)
  then show ?case using Cons by (simp cong: sum.case_cong)
qed simp

text \<open>What a successful attempt is: the first route, not the receiver's own, that delivers.\<close>

lemma try_routes_Ok:
  assumes "try_routes C P W secret_bytes net draw routes = Ok pending"
  shows "\<exists>route session. route \<in> set routes \<and> rc_peer route \<noteq> rw_peer W \<and>
    pd_peer pending = rc_peer route \<and> pd_address pending = rc_address route \<and>
    receive C P (rw_request W (rc_peer route) (rc_address route)) session = Ok (pd_verified pending)"
  using assms
proof (induction routes arbitrary: draw)
  case (Cons r routes)
  show ?case
  proof (cases "rc_peer r = rw_peer W")
    case True
    then show ?thesis using Cons.IH [of draw] Cons.prems by auto
  next
    case False
    obtain root session where "derive_root P secret_bytes net = Ok root"
      "receiver_session W root net (rc_peer r) draw = Ok session"
      and rest: "(case receive C P (rw_request W (rc_peer r) (rc_address r)) session of
          Inr verified \<Rightarrow> Ok \<lparr>pd_peer = rc_peer r, pd_address = rc_address r, pd_verified = verified\<rparr>
        | Inl _ \<Rightarrow> try_routes C P W secret_bytes net (draw + 1) routes) = Ok pending"
      using Cons.prems False by (auto simp: result_simps)
    show ?thesis
    proof (cases "receive C P (rw_request W (rc_peer r) (rc_address r)) session")
      case (Inl e)
      then show ?thesis using Cons.IH [of "draw + 1"] rest by auto
    next
      case (Inr v)
      then show ?thesis using False rest by (intro exI [of _ r] exI [of _ session]) auto
    qed
  qed
qed (simp split: if_splits)

text \<open>
  C18: A relay-only receiver that discovers its routes contacts senders through relays only. What
  it gets does not depend on how anyone answers on an address without a relay hop, whatever
  records the discovery nodes return, and the route it ends up with has a relay hop and is not
  its own.
\<close>
theorem relay_only_receive:
  assumes "rd_relay_only (ca_discovery arguments)"
    and "ca_peer arguments = None \<or> ca_address arguments = None"
    and "\<And>peer address. P2pCircuit \<in> set address \<Longrightarrow> request peer address = rw_request W peer address"
  shows "receive_direct_with_code C P (W\<lparr>rw_request := request\<rparr>) arguments code =
      receive_direct_with_code C P W arguments code
    \<and> (\<forall>pending. receive_direct_with_code C P W arguments code = Ok pending \<longrightarrow>
         P2pCircuit \<in> set (pd_address pending) \<and> pd_peer pending \<noteq> rw_peer W)"
proof -
  have privacy: "receive_privacy arguments = RelayOnly" by (simp add: receive_privacy_def assms(1))
  have discovered: "discover_routes (W\<lparr>rw_request := request\<rparr>) arguments ns RelayOnly =
      discover_routes W arguments ns RelayOnly" for ns
  proof -
    have "insert_resolved (W\<lparr>rw_request := request\<rparr>) = insert_resolved W"
      by (simp add: insert_resolved_def fun_eq_iff)
    then have "collect_candidates (W\<lparr>rw_request := request\<rparr>) m p evs cs = collect_candidates W m p evs cs"
      for m p evs cs
      by (induction W m p evs cs rule: collect_candidates.induct) (simp_all split: NetworkEvent.split)
    then show ?thesis by (simp add: discover_routes_def Let_def)
  qed
  have same: "bind_res (discover_routes W arguments ns RelayOnly)
        (try_routes C P (W\<lparr>rw_request := request\<rparr>) secret_bytes net 0) =
      bind_res (discover_routes W arguments ns RelayOnly) (try_routes C P W secret_bytes net 0)"
    for ns secret_bytes net
    using try_routes_cong [of _ request W] discovered_relay_only assms(3)
    by (cases "discover_routes W arguments ns RelayOnly") auto
  show ?thesis
  proof (intro conjI allI impI)
    show "receive_direct_with_code C P (W\<lparr>rw_request := request\<rparr>) arguments code =
      receive_direct_with_code C P W arguments code"
      using assms(2) unfolding receive_direct_with_code_def
      by (cases "ca_peer arguments"; cases "ca_address arguments") 
        (simp_all add: privacy discovered same cong: if_cong)
  next
    fix pending assume "receive_direct_with_code C P W arguments code = Ok pending"
    then obtain ns secret_bytes net routes where
        found: "discover_routes W arguments ns RelayOnly = Ok routes"
      and tried: "try_routes C P W secret_bytes net 0 routes = Ok pending"
      using assms(2) unfolding receive_direct_with_code_def
      by (cases "ca_peer arguments"; cases "ca_address arguments")
        (auto simp: privacy result_simps split: if_splits)
    from try_routes_Ok [OF tried] obtain route where "route \<in> set routes" "rc_peer route \<noteq> rw_peer W"
      "pd_peer pending = rc_peer route" "pd_address pending = rc_address route" by auto
    with discovered_relay_only [OF found]
    show "P2pCircuit \<in> set (pd_address pending)" "pd_peer pending \<noteq> rw_peer W" by auto
  qed
qed

section \<open>Output before acknowledgement\<close>

lemma persist_received_Ok:
  assumes "persist_received dotenv open_file S fs plan payload durable = (Ok summary, states)"
  obtains contents replace target where
    "received_contents dotenv open_file plan payload = Ok (contents, replace, summary)"
    "canonical_destination S (op_destination plan) = Some target"
    "well_behaved S fs target \<longrightarrow> last states target = Some (Regular contents PRIVATE_MODE)"
proof -
  obtain contents replace s where c: "received_contents dotenv open_file plan payload = Ok (contents, replace, s)"
    using assms by (auto simp: persist_received_def split: sum.splits)
  obtain result states' where w: "write_private_atomic S fs (op_destination plan) contents
      \<lparr>po_replace = replace, po_durable = durable\<rparr> = (result, states')" by fastforce
  have "result = Ok ()" "states' = states" "s = summary"
    using assms by (auto simp: persist_received_def c w result_simps)
  with w c that show ?thesis by (metis write_private_atomic_stored)
qed

text \<open>The three kinds of runs of the command.\<close>

lemma receive_execute_runs:
  assumes "receive_execute C P W dotenv open_file S fs V is_tty answers shown code arguments = (result, trace)"
  obtains (refused) e where "result = Err e" "trace = []"
  | (unsaved) e states where "result = Err e" "trace = map FileState states"
  | (saved) code_text plan pending summary states where
      "code = Ok code_text" "resolve_output_plan V is_tty answers arguments = Ok plan"
      "receive_direct_with_code C P W (ra_connection arguments) code_text = Ok pending"
      "persist_received dotenv open_file S fs plan (env_payload (vo_envelope (pd_verified pending)))
         (ra_durable arguments) = (Ok summary, states)"
      "trace = map FileState states @ [Acknowledged (vo_acknowledgement (pd_verified pending))]"
      "result = Ok 0 \<or> (\<exists>e. result = Err e)"
      "rw_stopped W \<and> (\<exists>e. acknowledge_pending W pending = Err e) \<longrightarrow> result = Err unconfirmed_output"
      "result = Ok 0 \<longrightarrow> (\<exists>env. acknowledge_pending W pending = Ok env)"
proof (cases "bind_res code (\<lambda>code.
          bind_res (map_err (\<lambda>_. invalid_code) (from_str (sha256 P) (trim code))) (\<lambda>_.
          bind_res (resolve_output_plan V is_tty answers arguments) (\<lambda>plan.
          bind_res (receive_direct_with_code C P W (ra_connection arguments) code) (\<lambda>pending.
          Ok (plan, pending)))))")
  case (Inl e)
  show ?thesis using assms refused unfolding receive_execute_def Inl by auto
next
  case (Inr pp)
  obtain plan pending where pp: "pp = (plan, pending)" by fastforce
  obtain code_text where steps: "code = Ok code_text" "resolve_output_plan V is_tty answers arguments = Ok plan"
      "receive_direct_with_code C P W (ra_connection arguments) code_text = Ok pending"
    using Inr by (auto simp: pp result_simps)
  obtain r states where p: "persist_received dotenv open_file S fs plan
      (env_payload (vo_envelope (pd_verified pending))) (ra_durable arguments) = (r, states)" by fastforce
  have run: "receive_execute C P W dotenv open_file S fs V is_tty answers shown code arguments =
      (case r of Inl e \<Rightarrow> (Err e, map FileState states)
       | Inr summary \<Rightarrow>
          let trace = map FileState states @ [Acknowledged (vo_acknowledgement (pd_verified pending))];
              acknowledgement = acknowledge_pending W pending in
          if \<not> rw_stopped W then (Err (cli_failure Internal ''network task failed''), trace)
          else case acknowledgement of
            Inl _ \<Rightarrow> (Err unconfirmed_output, trace)
          | Inr _ \<Rightarrow>
              if \<not> shown \<and> \<not> ra_json arguments
              then (Err (cli_failure Output ''terminal output failed''), trace)
              else (Ok (exit_code_i32 Success), trace))"
    unfolding receive_execute_def Inr pp by (simp add: p Let_def)
  show ?thesis
  proof (cases r)
    case (Inl e)
    then show ?thesis using assms run unsaved [of e states] by simp
  next
    case (Inr summary)
    then show ?thesis
      using assms saved [OF steps, of summary states] run p
      by (auto simp: Let_def split: if_splits sum.splits)
  qed
qed

text \<open>What is true whenever an acknowledgement was sent.\<close>

lemma acknowledged_after_saving:
  assumes "receive_execute C P W dotenv open_file S fs V is_tty answers shown code arguments = (result, trace)"
    and "\<And>plan target. resolve_output_plan V is_tty answers arguments = Ok plan \<Longrightarrow>
      canonical_destination S (op_destination plan) = Some target \<Longrightarrow> well_behaved S fs target"
    and "Acknowledged ack \<in> set trace"
  shows "\<exists>code_text plan pending states contents replace summary target.
        code = Ok code_text \<and> resolve_output_plan V is_tty answers arguments = Ok plan \<and>
        receive_direct_with_code C P W (ra_connection arguments) code_text = Ok pending \<and>
        ack = vo_acknowledgement (pd_verified pending) \<and>
        trace = map FileState states @ [Acknowledged ack] \<and>
        received_contents dotenv open_file plan (env_payload (vo_envelope (pd_verified pending))) =
          Ok (contents, replace, summary) \<and>
        canonical_destination S (op_destination plan) = Some target \<and>
        last states target = Some (Regular contents PRIVATE_MODE) \<and>
        (op_action plan \<in> {CreateOutput, ReplaceOutput} \<longrightarrow>
           contents = env_payload (vo_envelope (pd_verified pending))) \<and>
        (result = Ok 0 \<longrightarrow> (\<exists>env. acknowledge_pending W pending = Ok env)) \<and>
        (rw_stopped W \<and> (\<exists>e. acknowledge_pending W pending = Err e) \<longrightarrow> result = Err unconfirmed_output)"
  using assms(1)
proof (cases rule: receive_execute_runs)
  case (saved code_text plan pending summary states)
  obtain contents replace target where c:
      "received_contents dotenv open_file plan (env_payload (vo_envelope (pd_verified pending))) =
         Ok (contents, replace, summary)"
      "canonical_destination S (op_destination plan) = Some target"
      "well_behaved S fs target \<longrightarrow> last states target = Some (Regular contents PRIVATE_MODE)"
    by (rule persist_received_Ok [OF saved(4)])
  have stored: "last states target = Some (Regular contents PRIVATE_MODE)"
    using c assms(2) [OF saved(2)] by blast
  have whole: "op_action plan \<in> {CreateOutput, ReplaceOutput} \<longrightarrow>
      contents = env_payload (vo_envelope (pd_verified pending))"
    using c(1) by (auto simp: received_contents_def)
  have ack: "ack = vo_acknowledgement (pd_verified pending)" using assms(3) saved(5) by auto
  show ?thesis
    by (rule exI [of _ code_text], rule exI [of _ plan], rule exI [of _ pending], rule exI [of _ states],
        rule exI [of _ contents], rule exI [of _ replace], rule exI [of _ summary], rule exI [of _ target],
        intro conjI saved(1-3) ack saved(5) [folded ack] c(1,2) stored whole saved(7,8))
qed (use assms(3) in auto)

text \<open>
  C3: The receiver saves before it acknowledges. Whenever \<^verbatim>\<open>receive\<close> sends an acknowledgement, which
  consumes the sender's share, the offer was verified, the acknowledgement is the last thing it
  does, and by then the destination holds the contents to save with owner-only permissions: the
  payload itself unless it is merged into an existing file. If saving fails no acknowledgement is
  sent, exit status 0 means that exactly one was sent and confirmed, and an unconfirmed one is
  reported as such.
\<close>
theorem receive_persists_before_acknowledging:
  assumes "receive_execute C P W dotenv open_file S fs V is_tty answers shown code arguments = (result, trace)"
    and "\<And>plan target. resolve_output_plan V is_tty answers arguments = Ok plan \<Longrightarrow>
      canonical_destination S (op_destination plan) = Some target \<Longrightarrow> well_behaved S fs target"
  shows "(\<forall>ack. Acknowledged ack \<in> set trace \<longrightarrow>
      (\<exists>code_text plan pending states contents replace summary target.
        code = Ok code_text \<and> resolve_output_plan V is_tty answers arguments = Ok plan \<and>
        receive_direct_with_code C P W (ra_connection arguments) code_text = Ok pending \<and>
        ack = vo_acknowledgement (pd_verified pending) \<and>
        trace = map FileState states @ [Acknowledged ack] \<and>
        received_contents dotenv open_file plan (env_payload (vo_envelope (pd_verified pending))) =
          Ok (contents, replace, summary) \<and>
        canonical_destination S (op_destination plan) = Some target \<and>
        last states target = Some (Regular contents PRIVATE_MODE) \<and>
        (op_action plan \<in> {CreateOutput, ReplaceOutput} \<longrightarrow>
           contents = env_payload (vo_envelope (pd_verified pending))) \<and>
        (result = Ok 0 \<longrightarrow> (\<exists>env. acknowledge_pending W pending = Ok env)) \<and>
        (rw_stopped W \<and> (\<exists>e. acknowledge_pending W pending = Err e) \<longrightarrow> result = Err unconfirmed_output)))
    \<and> (result = Ok 0 \<longrightarrow> (\<exists>ack. Acknowledged ack \<in> set trace))
    \<and> (\<forall>status. result = Ok status \<longrightarrow> status = 0)"
  using assms(1)
proof (cases rule: receive_execute_runs)
  case (saved code_text plan pending summary states)
  show ?thesis
    by (rule conjI [OF allI [OF impI] conjI], rule acknowledged_after_saving [OF assms], assumption+)
      (use saved(5,6) in auto)
qed auto

text \<open>A run that does something, step by step.\<close>

lemma run_execute_started:
  assumes "run_execute C P W dotenv spawn inherited code arguments = (result, trace)" and "trace \<noteq> []"
  obtains program child_arguments pending variables waited where
    "run_command arguments = program # child_arguments"
    "bind_res code (receive_direct_with_code C P W (run_connection arguments)) = Ok pending"
    "parse_environment dotenv (env_payload (vo_envelope (pd_verified pending))) = Ok variables"
    "\<not> (run_strict arguments \<and> conflicts_with_inherited inherited variables)"
    "spawn_child spawn inherited program child_arguments variables (run_mode arguments) = Ok waited"
proof -
  obtain program child_arguments where command: "run_command arguments = program # child_arguments"
    using assms by (cases "run_command arguments") (auto simp: run_execute_def)
  obtain pending where pending: "bind_res code (receive_direct_with_code C P W (run_connection arguments)) =
      Ok pending"
    using assms
    by (cases "bind_res code (receive_direct_with_code C P W (run_connection arguments))")
      (auto simp: run_execute_def command)
  obtain variables where m: "parse_environment dotenv (env_payload (vo_envelope (pd_verified pending))) =
      Ok variables"
    using assms
    by (cases "parse_environment dotenv (env_payload (vo_envelope (pd_verified pending)))")
      (auto simp: run_execute_def command pending)
  have strict: "\<not> (run_strict arguments \<and> conflicts_with_inherited inherited variables)"
    using assms by (auto simp: run_execute_def command pending m)
  obtain waited where "spawn_child spawn inherited program child_arguments variables
      (run_mode arguments) = Ok waited"
    using assms strict
    by (cases "spawn_child spawn inherited program child_arguments variables (run_mode arguments)")
      (auto simp: run_execute_def command pending m)
  with command pending m strict show ?thesis by (rule that)
qed

text \<open>
  C19: The child sees exactly the promised environment, before the share is consumed. \<^verbatim>\<open>run\<close> either
  fails without starting anything or acknowledging, or it starts the program given on the command
  line once and then acknowledges once. The child's environment is the inherited one with the
  received variables added where absent, added with precedence, or the received ones alone,
  according to the mode, and in strict mode no received name was inherited.
\<close>
theorem run_starts_before_acknowledging:
  assumes "run_execute C P W dotenv spawn inherited code arguments = (result, trace)"
  shows "trace = [] \<and> (\<exists>e. result = Err e) \<or>
    (\<exists>program child_arguments code_text pending variables.
      run_command arguments = program # child_arguments \<and> program \<noteq> [] \<and> code = Ok code_text \<and>
      receive_direct_with_code C P W (run_connection arguments) code_text = Ok pending \<and>
      parse_environment dotenv (env_payload (vo_envelope (pd_verified pending))) = Ok variables \<and>
      trace = [Spawned program child_arguments
          (if run_clean_env arguments then map_of variables
           else if run_override arguments then inherited ++ map_of variables
           else map_of variables ++ inherited),
        Acknowledged (vo_acknowledgement (pd_verified pending))] \<and>
      (run_strict arguments \<longrightarrow> dom (map_of variables) \<inter> dom inherited = {}) \<and>
      (\<forall>status. result = Ok status \<longrightarrow> (\<exists>env. acknowledge_pending W pending = Ok env)))"
proof (cases "trace = []")
  case True
  then show ?thesis
    using assms by (auto simp: run_execute_def Let_def split: list.splits sum.splits if_splits)
next
  case False
  obtain program child_arguments pending variables waited where
    command: "run_command arguments = program # child_arguments"
    and pending: "bind_res code (receive_direct_with_code C P W (run_connection arguments)) = Ok pending"
    and m: "parse_environment dotenv (env_payload (vo_envelope (pd_verified pending))) = Ok variables"
    and strict: "\<not> (run_strict arguments \<and> conflicts_with_inherited inherited variables)"
    and spawned: "spawn_child spawn inherited program child_arguments variables (run_mode arguments) = Ok waited"
    by (rule run_execute_started [OF assms False])
  have env: "child_environment inherited variables (run_mode arguments) =
      (if run_clean_env arguments then map_of variables
       else if run_override arguments then inherited ++ map_of variables
       else map_of variables ++ inherited)"
    by (simp add: run_mode_def child_environment_modes [OF m])
  have disjoint: "run_strict arguments \<longrightarrow> dom (map_of variables) \<inter> dom inherited = {}"
    using strict by (auto simp: conflicts_with_inherited_def list_ex_iff dest!: map_of_SomeD)
  have ends: "trace = [Spawned program child_arguments (child_environment inherited variables (run_mode arguments)),
        Acknowledged (vo_acknowledgement (pd_verified pending))]"
      "result = Ok status \<Longrightarrow> \<exists>env. acknowledge_pending W pending = Ok env" for status
    using assms unfolding run_execute_def command list.case pending sum.case m map_err_simps if_not_P [OF strict]
      spawned Let_def by (auto split: sum.splits if_splits)
  have "program \<noteq> []" using spawned by (auto simp: spawn_child_def)
  moreover obtain code_text where "code = Ok code_text"
      "receive_direct_with_code C P W (run_connection arguments) code_text = Ok pending"
    using pending by (auto simp: result_simps)
  ultimately show ?thesis using command m ends disjoint unfolding env by blast
qed

section \<open>A share reaches the receiver\<close>

text \<open>A printed code is left alone by trimming.\<close>

lemma strip_prefixes_none:
  assumes "\<forall>w \<in> set ws. w \<noteq> [] \<longrightarrow> \<not> is_ascii_graphic (hd w)" and "\<forall>b \<in> set s. is_ascii_graphic b"
  shows "strip_prefixes ws s = s"
proof -
  have "\<not> (w \<noteq> [] \<and> take (length w) s = w)" if "w \<in> set ws" for w
    by (cases w; cases s) (use that assms in auto)
  then have "List.find (\<lambda>w. w \<noteq> [] \<and> take (length w) s = w) ws = None" by (auto simp: find_None_iff)
  then show ?thesis by (subst strip_prefixes.simps) simp
qed

lemma trim_graphic:
  assumes "\<forall>b \<in> set s. is_ascii_graphic b"
  shows "trim s = s"
proof -
  have "\<forall>w \<in> set whitespace. \<not> is_ascii_graphic (hd w)" by (simp add: whitespace_def is_ascii_graphic_def)
  moreover have "\<forall>w \<in> set (map rev whitespace). \<not> is_ascii_graphic (hd w)"
    by (simp add: whitespace_def is_ascii_graphic_def)
  ultimately show ?thesis using assms by (simp add: trim_def trim_start_def trim_end_def strip_prefixes_none)
qed

lemma printed_code_parses:
  assumes "wf_share_code share"
  shows "from_str hash (trim (display hash share)) = Ok share"
proof -
  have "trim (display hash share) = display hash share"
    by (rule trim_graphic) (use display_graphic [OF assms] in blast)
  then show ?thesis using from_str_display [OF assms] by simp
qed

text \<open>
  The answers of a sender's actor to one receiver that opens with \<open>req\<close> and then acknowledges.
\<close>

definition served_by ::
  "primitives \<Rightarrow> 's entropy \<Rightarrow> SenderActor \<Rightarrow> 's \<Rightarrow> peer_id \<Rightarrow> instant \<Rightarrow> OpenRequest \<Rightarrow> TransferRequest \<Rightarrow>
    (NetworkError, TransferResponse) result" where
  "served_by P E a s peer now req request =
     (case answer_request P E a peer (ROpen req) now s of (_, a1, s1) \<Rightarrow>
        case request of
          ROpen _ \<Rightarrow> Ok (fst (answer_request P E a peer request now s))
        | RAcknowledge _ \<Rightarrow> Ok (fst (answer_request P E a1 peer request now s1)))"

lemma served_by_transfers:
  assumes lib: "cbor_lib C" "crypto_lib P" and ent: "entropy_fills E" "draws_succeed E s"
    and env: "wf_envelope env" and ready: "transfer_ready root net sp rp nonce now dl rd"
    and sender: "sender_new C root net sp env dl rd = Ok a0"
    and receiver: "receiver_new root net sp rp nonce = Ok session" "open_request P session = Ok req"
  obtains v offer a1 s1 resp a2 where
    "receive C P (served_by P E a0 s rp now req) session = Ok v" "vo_envelope v = env"
    "acknowledge (served_by P E a0 s rp now req) v = Ok env"
    "answer_request P E a0 rp (ROpen req) now s = (ROffer offer, a1, s1)"
    "handle_acknowledgement a1 rp (vo_acknowledgement v) = (Ok resp, a2)" "sa_state a2 = Consumed" "wiped a2"
proof -
  obtain offer a1 s1 v resp a2 where t: "handle_open P E a0 rp req now s = (Ok offer, a1, s1)"
      "verify_offer C P session offer = Ok v" "vo_envelope v = env"
      "handle_acknowledgement a1 rp (vo_acknowledgement v) = (Ok resp, a2)"
      "completed_claim_id resp = offer_claim_id offer" "sa_state a2 = Consumed" "wiped a2"
    using transfer_completes [OF lib ent env ready] sender receiver by auto
  have received: "receive C P (served_by P E a0 s rp now req) session = Ok v"
    by (simp add: receive_def receiver served_by_def t)
  have version: "completed_protocol_version resp = PROTOCOL_VERSION"
    using t(4) by (auto simp: handle_acknowledgement_def Let_def split: if_splits option.splits)
  have claim: "ack_claim_id (vo_acknowledgement v) = completed_claim_id resp"
    using t(2,5) by (auto elim: verify_offer_Ok)
  have confirmed: "acknowledge (served_by P E a0 s rp now req) v = Ok env"
    by (simp add: acknowledge_def into_parts_def served_by_def t Let_def version claim)
  show ?thesis
    by (rule that [OF received t(3) confirmed _ t(4,6,7), of offer s1]) (simp add: t)
qed

text \<open>
  C5: A share reaches the receiver. When a sender created the share with the same code and
  network, is reachable at the peer and address given, and the output can be saved, the command
  \<^verbatim>\<open>receive\<close> exits with status 0, having saved the sender's payload and acknowledged it, and the
  acknowledgement consumes the sender's share.
\<close>
theorem receive_delivers:
  assumes lib: "cbor_lib C" "crypto_lib P" and ent: "entropy_fills E" "draws_succeed E s"
    and env: "wf_envelope env" and ready: "transfer_ready root net sp rp nonce now dl rd"
    and sender: "sender_new C root net sp env dl rd = Ok a0"
    and receiver: "receiver_new root net sp rp nonce = Ok session" "open_request P session = Ok req"
    and code: "from_str (sha256 P) (trim code_text) = Ok share" "derive_root P (secret share) net = Ok root"
    and world: "rw_peer W = rp" "rw_driver_started W" "rw_stopped W" "rw_nonce W 0 = Some nonce"
      "rw_peer_from_str W p = Some sp" "rw_multiaddr W ad = Some addr"
      "rw_request W sp addr = served_by P E a0 s rp now req"
    and args: "ca_network (ra_connection arguments) = Some net" "ca_peer (ra_connection arguments) = Some p"
      "ca_address (ra_connection arguments) = Some ad"
    and plan: "resolve_output_plan V is_tty answers arguments = Ok plan"
    and saved: "persist_received dotenv open_file S fs plan (env_payload env) (ra_durable arguments) =
      (Ok summary, states)" and shown: "shown"
  shows "\<exists>ack offer a1 s1 resp a2.
    receive_execute C P W dotenv open_file S fs V is_tty answers shown (Ok code_text) arguments =
      (Ok 0, map FileState states @ [Acknowledged ack]) \<and>
    answer_request P E a0 rp (ROpen req) now s = (ROffer offer, a1, s1) \<and>
    handle_acknowledgement a1 rp ack = (Ok resp, a2) \<and> sa_state a2 = Consumed \<and> wiped a2"
proof -
  obtain v offer a1 s1 resp a2 where t: "receive C P (served_by P E a0 s rp now req) session = Ok v"
      "vo_envelope v = env" "acknowledge (served_by P E a0 s rp now req) v = Ok env"
      "answer_request P E a0 rp (ROpen req) now s = (ROffer offer, a1, s1)"
      "handle_acknowledgement a1 rp (vo_acknowledgement v) = (Ok resp, a2)" "sa_state a2 = Consumed" "wiped a2"
    by (rule served_by_transfers [OF lib ent env ready sender receiver])
  let ?pending = "\<lparr>pd_peer = sp, pd_address = addr, pd_verified = v\<rparr>"
  have pending: "receive_direct_with_code C P W (ra_connection arguments) code_text = Ok ?pending"
    by (simp add: receive_direct_with_code_def args code receive_explicit_def receiver_session_def world
        receiver t(1))
  have confirmed: "acknowledge_pending W ?pending = Ok env"
    by (simp add: acknowledge_pending_def world t(3))
  have "receive_execute C P W dotenv open_file S fs V is_tty answers shown (Ok code_text) arguments =
      (Ok 0, map FileState states @ [Acknowledged (vo_acknowledgement v)])"
    by (simp add: receive_execute_def code plan pending t(2) saved confirmed world(3) shown Let_def)
  then show ?thesis using t(4-7) by blast
qed

end
