(* ===== verification/Delivery.thy ===== *)
theory Delivery
  imports Direct
begin

text \<open>
  What a completed share delivered: the offer bound by the actor seals the envelope the actor was
  created with, for the peer and the nonce of the claim, and the acknowledgement it accepts is the one
  a receiver computes who verified that offer. The request that carried the acknowledgement is
  traced back through the sender's loop to the event of the network.
\<close>

section \<open>The claim is built from the source\<close>

text \<open>What an actor keeps of the one it started as.\<close>

definition same_source :: "SenderActor \<Rightarrow> SenderActor \<Rightarrow> bool" where
  "same_source a b \<longleftrightarrow> same_share a b \<and>
     (sa_encoded_envelope b = sa_encoded_envelope a \<or> sa_encoded_envelope b = None) \<and>
     sa_content_type b = sa_content_type a \<and> sa_plaintext_length b = sa_plaintext_length a \<and>
     sa_expires_at_unix_ms b = sa_expires_at_unix_ms a \<and> sa_resume_duration b = sa_resume_duration a"

definition built_claim :: "primitives \<Rightarrow> SenderActor \<Rightarrow> BoundClaim \<Rightarrow> bool" where
  "built_claim P a c \<longleftrightarrow> (\<exists>root plaintext now sender_nonce claim_id aead_nonce.
     sa_root a = Some root \<and> sa_encoded_envelope a = Some plaintext \<and>
     build_offer P a root plaintext (bc_receiver_peer_id c) (bc_receiver_nonce c) now
       sender_nonce claim_id aead_nonce = Ok (bc_offer c, c))"

lemma same_source_trans: "same_source a b \<Longrightarrow> same_source b c \<Longrightarrow> same_source a c"
  by (auto simp: same_source_def same_share_def)

lemma build_offer_same_source:
  "same_source a b \<Longrightarrow> build_offer P b = build_offer P a"
  by (simp add: build_offer_def sender_context_def same_source_def same_share_def fun_eq_iff)

lemma built_claim_same_source: "same_source a b \<Longrightarrow> built_claim P b c \<Longrightarrow> built_claim P a c"
  using build_offer_same_source [of a b P]
  by (simp add: built_claim_def same_source_def same_share_def) (metis option.distinct(1))

lemma prepare_offer_built:
  assumes "prepare_offer P E a p r now s = (Ok (offer, c), s')"
  shows "built_claim P a c"
proof -
  obtain root plaintext sn cid an where "sa_root a = Some root" "sa_encoded_envelope a = Some plaintext"
      and build: "build_offer P a root plaintext p (open_receiver_nonce r) now sn cid an = Ok (offer, c)"
    using assms by (auto simp: prepare_offer_def split: option.splits prod.splits sum.splits)
  then show ?thesis
    using build_offer_Ok(1-3) [OF build] unfolding built_claim_def by metis
qed

lemma sender_step_source:
  assumes "sender_step P E (a, s) i out (a', s')"
  shows "same_source a a' \<and> (\<forall>c. sa_claim a' = Some c \<longrightarrow> sa_claim a = Some c \<or> built_claim P a c)"
  using assms
proof (cases rule: sender_step.cases)
  case (step_open p r now res)
  let ?a = "a\<lparr>sa_state := PreparingOffer\<rparr>"
  have same: "same_source a ?a" by (simp add: same_source_def same_share_def)
  from step_open(3) show ?thesis
  proof (cases rule: handle_open_cases)
    case (claimed offer c)
    then obtain c' where prep: "prepare_offer P E ?a p r now s = (Ok (offer, c'), s')"
      and "a' = ?a\<lparr>sa_claim := Some c', sa_state := Disclosed\<rparr>"
      using step_open(3) by (auto simp: handle_open_def Let_def split: if_splits prod.splits sum.splits)
    then show ?thesis
      using built_claim_same_source [OF same prepare_offer_built [OF prep]]
      by (auto simp: same_source_def same_share_def)
  qed (auto simp: same_source_def same_share_def close_def wipe_source_def)
next
  case (step_acknowledge p r res)
  then show ?thesis
    by (auto elim!: handle_acknowledgement_cases
        simp: same_source_def same_share_def close_def wipe_source_def split: if_splits)
next
  case (step_timer now)
  then show ?thesis
    by (auto simp: handle_timer_def same_source_def same_share_def close_def wipe_source_def
        split: if_splits)
qed

lemma sender_run_source:
  assumes "sender_run P E (a, s) tr (a', s')" and "sa_claim a = None"
  shows "same_source a a'" and "sa_claim a' = Some c \<Longrightarrow> built_claim P a c"
proof -
  have "same_source (fst x) (fst y) \<and> (\<forall>c. sa_claim (fst y) = Some c \<longrightarrow> built_claim P (fst x) c)"
    if "sender_run P E x tr y" "sa_claim (fst x) = None" for x y
    using that
  proof (induction rule: sender_run.induct)
    case (run_snoc x tr b t i out b' t')
    then have IH: "same_source (fst x) b" "\<And>c. sa_claim b = Some c \<Longrightarrow> built_claim P (fst x) c" by auto
    have step: "same_source b b'" "\<And>c. sa_claim b' = Some c \<Longrightarrow> sa_claim b = Some c \<or> built_claim P b c"
      using sender_step_source [OF run_snoc.hyps(2)] by auto
    show ?case
      using same_source_trans [OF IH(1) step(1)] IH(2) step(2) built_claim_same_source [OF IH(1)] by auto
  qed (simp add: same_source_def same_share_def)
  from this [OF assms(1)] assms(2)
  show "same_source a a'" and "sa_claim a' = Some c \<Longrightarrow> built_claim P a c" by auto
qed

text \<open>The session of the peer that holds a claim, for a share's root, network and sender.\<close>

definition claim_session :: "DerivedRoot \<Rightarrow> bytes \<Rightarrow> bytes \<Rightarrow> BoundClaim \<Rightarrow> ReceiverSession" where
  "claim_session root net peer c =
     \<lparr>rs_root = root, rs_network_id = net, rs_sender_peer_id = peer,
      rs_receiver_peer_id = bc_receiver_peer_id c, rs_receiver_nonce = bc_receiver_nonce c\<rparr>"

lemma derive_session_peers:
  "derive_session P key ctx rn sn cid = Ok keys \<Longrightarrow> ctx_receiver_peer_id ctx \<noteq> []"
  unfolding derive_session_def validate_context_bind
  by (auto simp: valid_context_def validate_context_def result_simps split: if_splits)

lemma built_claim_verifies:
  assumes lib: "cbor_lib C" "crypto_lib P" and env: "wf_envelope env"
    and new: "sender_new C root net peer env deadline resume = Ok a" and built: "built_claim P a c"
  shows "receiver_new root net peer (bc_receiver_peer_id c) (bc_receiver_nonce c) =
      Ok (claim_session root net peer c)"
    and "verify_offer C P (claim_session root net peer c) (bc_offer c) =
      Ok \<lparr>vo_envelope = env, vo_acknowledgement =
        \<lparr>ack_protocol_version = PROTOCOL_VERSION, ack_claim_id = bc_claim_id c,
         ack_ciphertext_digest = bc_digest c,
         ack_acknowledgement_proof = bc_expected_acknowledgement c\<rparr>\<rparr>"
proof -
  have ne: "net \<noteq> []" "peer \<noteq> []" using new by (auto simp: sender_new_def split: if_splits)
  obtain pt where a: "sa_encoded_envelope a = Some pt" "envelope_decode C pt = Ok env" "describes a env"
      "sa_root a = Some root" "sa_room_id a = root_room_id root" "sa_network_id a = net"
      "sa_sender_peer_id a = peer"
    using sender_new_ok [OF lib(1) env ne, of root deadline resume] new by (metis Inr_inject)
  obtain now sn cid an where b: "build_offer P a root pt (bc_receiver_peer_id c)
      (rs_receiver_nonce (claim_session root net peer c)) now sn cid an = Ok (bc_offer c, c)"
    using built a(1,4) by (auto simp: built_claim_def claim_session_def)
  have "bc_receiver_peer_id c \<noteq> []"
    using b by (auto simp: build_offer_def Let_def result_simps sender_context_def dest: derive_session_peers)
  then show "receiver_new root net peer (bc_receiver_peer_id c) (bc_receiver_nonce c) =
      Ok (claim_session root net peer c)"
    using ne by (simp add: receiver_new_def claim_session_def)
  show "verify_offer C P (claim_session root net peer c) (bc_offer c) =
      Ok \<lparr>vo_envelope = env, vo_acknowledgement =
        \<lparr>ack_protocol_version = PROTOCOL_VERSION, ack_claim_id = bc_claim_id c,
         ack_ciphertext_digest = bc_digest c,
         ack_acknowledgement_proof = bc_expected_acknowledgement c\<rparr>\<rparr>"
    by (rule crypto_lib.built_offer_verifies [OF lib(2) b a(2,3)])
      (simp add: matches_def claim_session_def receiver_context_def sender_context_def a)
qed

section \<open>The request behind a response\<close>

text \<open>
  Every response of the loop answers an inbound request of that identifier, in a state of the actor
  between the start and the end of the loop.
\<close>

lemma direct_loop_answers:
  assumes "direct_loop P E respond a s inputs = (res, a', s', sent)" and "(i, response) \<in> set sent"
  shows "\<exists>peer request now b t b' t' tr tr'.
    Received (Some (InboundRequest peer i request)) now \<in> set inputs \<and>
    sender_run P E (a, s) tr (b, t) \<and> answer_request P E b peer request now t = (response, b', t') \<and>
    sender_run P E (b', t') tr' (a', s')"
  using assms
proof (induction inputs arbitrary: a s res a' s' sent)
  case (Cons input inputs)
  have later: ?case if step: "sender_step P E (a, s) j out (c, u)"
    and rest: "direct_loop P E respond c u inputs = (res, a', s', sent')" "(i, response) \<in> set sent'" for j out c u sent'
    using Cons.IH [OF rest] run_cons [OF step] by fastforce
  have later': ?case if "direct_loop P E respond a s inputs = (res, a', s', sent')" "(i, response) \<in> set sent'" for sent'
    using Cons.IH [OF that] by fastforce
  show ?case
  proof (cases input)
    case Cancelled
    then show ?thesis using Cons.prems by simp
  next
    case (TimerTick now)
    then show ?thesis
      using Cons.prems later [OF sender_step.step_timer] by (auto simp: Let_def split: if_splits)
  next
    case (Received ev now)
    then obtain event where ev: "ev = Some event" using Cons.prems by (cases ev) auto
    obtain r b t out where h: "handle_event P E respond a event now s = (r, b, t, out)" by (metis prod_cases4)
    obtain res2 a2 s2 sent2 where l: "direct_loop P E respond b t inputs = (res2, a2, s2, sent2)" by (metis prod_cases4)
    have cases: "(a' = b \<and> s' = t \<and> sent = out) \<or> (res = res2 \<and> a' = a2 \<and> s' = s2 \<and> sent = out @ sent2)"
      using Cons.prems(1) Received ev h l by (cases r) (auto split: if_splits)
    have after: "\<exists>tr'. sender_run P E (b, t) tr' (a', s')"
      using cases direct_loop_refines [OF l] sender_run.run_nil by blast
    show ?thesis
    proof (cases "(i, response) \<in> set out")
      case True
      then obtain peer request where e: "event = InboundRequest peer i request"
        and ans: "answer_request P E a peer request now s = (response, b, t)"
        using h by (cases event) (auto simp: handle_event_def split: prod.splits)
      then show ?thesis
        using after Received ev sender_run.run_nil [of P E "(a, s)"] by fastforce
    next
      case False
      then have rest: "direct_loop P E respond b t inputs = (res, a', s', sent2)" "(i, response) \<in> set sent2"
        using cases l Cons.prems(2) by auto
      from h show ?thesis
      proof (cases rule: handle_event_step)
        case 1
        then show ?thesis using later' rest by simp
      next
        case (2 j out')
        then show ?thesis using later [OF _ rest] by blast
      qed
    qed
  qed
qed simp

section \<open>A consumed share was delivered\<close>

lemma step_to_consumed:
  assumes "sender_step P E (a, s) i out (a', s')" and "sa_state a \<noteq> Consumed" "sa_state a' = Consumed"
  shows "\<exists>d. out = Completed (Ok d)"
  using assms(1)
proof (cases rule: sender_step.cases)
  case (step_open p r now res)
  from step_open(3) show ?thesis
    by (cases rule: handle_open_cases) (use assms(2,3) in auto)
next
  case (step_acknowledge p r res)
  from step_acknowledge(4) show ?thesis
    by (cases rule: handle_acknowledgement_cases) (use assms(2,3) step_acknowledge in auto)
next
  case (step_timer now)
  then show ?thesis using assms(2,3) by (auto simp: handle_timer_def split: if_splits)
qed

lemma consumed_was_completed:
  assumes "sender_run P E c tr c'" and "sa_state (fst c) \<noteq> Consumed" and "sa_state (fst c') = Consumed"
  shows "\<exists>j d. (j, Completed (Ok d)) \<in> set tr"
  using assms
proof (induction rule: sender_run.induct)
  case (run_snoc c tr a s i out a' s')
  then show ?case
    by (cases "sa_state a = Consumed") (auto dest!: step_to_consumed)
qed simp

lemma sender_run_claim:
  assumes "sender_run P E (a, s) tr (a', s')" and "actor_inv a" and "sa_claim a = Some c"
  shows "sa_claim a' = Some c"
proof -
  have "actor_inv (fst y) \<and> sa_claim (fst y) = Some c"
    if "sender_run P E x tr y" "actor_inv (fst x)" "sa_claim (fst x) = Some c" for x y
    using that
    by (induction rule: sender_run.induct) (auto dest: sender_step_inv sender_step_claim)
  from this [OF assms(1)] assms(2,3) show ?thesis by simp
qed

text \<open>A completion answers the acknowledgement of the claim that the actor then holds to the end.\<close>

lemma completion_acknowledged:
  assumes loop: "direct_loop P E respond a0 s inputs = (res, a, s', sent)" and "(j, RCompleted d) \<in> set sent"
    and inv: "actor_inv a0" and none: "sa_claim a0 = None"
  obtains c now where "sa_claim a = Some c" "built_claim P a0 c" "completed_claim_id d = bc_claim_id c"
    "Received (Some (InboundRequest (bc_receiver_peer_id c) j (RAcknowledge
       \<lparr>ack_protocol_version = PROTOCOL_VERSION, ack_claim_id = bc_claim_id c,
        ack_ciphertext_digest = bc_digest c,
        ack_acknowledgement_proof = bc_expected_acknowledgement c\<rparr>))) now \<in> set inputs"
proof -
  obtain peer request now b t b' t' tr tr' where
      input: "Received (Some (InboundRequest peer j request)) now \<in> set inputs"
    and before: "sender_run P E (a0, s) tr (b, t)"
    and ans: "answer_request P E b peer request now t = (RCompleted d, b', t')"
    and after: "sender_run P E (b', t') tr' (a, s')"
    using direct_loop_answers [OF loop assms(2)] by blast
  obtain r where r: "request = RAcknowledge r" and h: "handle_acknowledgement b peer r = (Ok d, b')"
    using ans by (cases request) (auto simp: protocol_error_def split: prod.splits sum.splits)
  have inv_b: "actor_inv b" by (rule sender_run_inv [OF before inv])
  from h show ?thesis
  proof (cases rule: handle_acknowledgement_cases)
    case (completed c)
    have "sa_claim b' = Some c" "actor_inv b'"
      using completed handle_acknowledgement_inv [OF inv_b h] by auto
    then have "sa_claim a = Some c" using sender_run_claim [OF after] by simp
    moreover have ack: "r = \<lparr>ack_protocol_version = PROTOCOL_VERSION, ack_claim_id = bc_claim_id c,
        ack_ciphertext_digest = bc_digest c, ack_acknowledgement_proof = bc_expected_acknowledgement c\<rparr>"
      using completed by simp
    moreover have "completed_claim_id d = bc_claim_id c" using completed(3) by simp
    ultimately show ?thesis
      using that sender_run_source(2) [OF before none completed(1)] input
      unfolding r completed(5) ack by blast
  qed simp
qed

text \<open>
  What a share that ends consumed has done: it made exactly one offer, the peer of that offer can
  verify it with the share's root and finds the sender's envelope in it, and the acknowledgement that
  closed the share is the one this verification yields.
\<close>

lemma consumed_share_delivered:
  assumes lib: "cbor_lib C" "crypto_lib P" and env: "wf_envelope env"
    and new: "sender_new C root net peer env deadline resume = Ok a0"
    and loop: "direct_loop P E respond a0 s inputs = (Some (Ok Consumed), a, s', sent)"
  shows "\<exists>i j d offer receiver nonce session acknowledgement now.
    receiver_new root net peer receiver nonce = Ok session \<and>
    verify_offer C P session offer = Ok \<lparr>vo_envelope = env, vo_acknowledgement = acknowledgement\<rparr> \<and>
    (i, ROffer offer) \<in> set sent \<and> (\<forall>k offer'. (k, ROffer offer') \<in> set sent \<longrightarrow> offer' = offer) \<and>
    Received (Some (InboundRequest receiver j (RAcknowledge acknowledgement))) now \<in> set inputs \<and>
    (j, RCompleted d) \<in> set sent \<and> completed_claim_id d = offer_claim_id offer"
proof -
  have a0: "actor_inv a0" "sa_claim a0 = None" "sa_state a0 = Available"
    using sender_new_inv [OF new] by (auto simp: actor_inv_def)
  have final: "sa_state a = Consumed"
    using direct_sender_result [OF _ loop] a0(3) by (simp add: terminal_def)
  obtain tr where run: "sender_run P E (a0, s) tr (a, s')"
    and sent: "map snd sent = concat (map (\<lambda>(i, out). response_of out) tr)"
    using direct_loop_refines [OF loop] by blast
  obtain k d where "(k, Completed (Ok d)) \<in> set tr"
    using consumed_was_completed [OF run] a0(3) final by auto
  then obtain j where j: "(j, RCompleted d) \<in> set sent"
    using sent_mem [OF sent, of "RCompleted d"] response_of_mem(2) by blast
  obtain c now where c: "sa_claim a = Some c" "built_claim P a0 c" "completed_claim_id d = bc_claim_id c"
    and ack: "Received (Some (InboundRequest (bc_receiver_peer_id c) j (RAcknowledge
       \<lparr>ack_protocol_version = PROTOCOL_VERSION, ack_claim_id = bc_claim_id c,
        ack_ciphertext_digest = bc_digest c,
        ack_acknowledgement_proof = bc_expected_acknowledgement c\<rparr>))) now \<in> set inputs"
    by (rule completion_acknowledged [OF loop j a0(1,2)])
  note keys = sent_key [OF run a0(1,2) sent]
  obtain i where "(i, ROffer (bc_offer c)) \<in> set sent" "completed_claim_id d = offer_claim_id (bc_offer c)"
    using keys(2) [OF j] c(1) by auto
  moreover have "\<forall>k offer'. (k, ROffer offer') \<in> set sent \<longrightarrow> offer' = bc_offer c" using keys(1) c(1) by auto
  ultimately show ?thesis
    using built_claim_verifies [OF lib env new c(2)] ack j by blast
qed

end
