(* ===== verification/Send_Command.thy ===== *)
theory Send_Command
  imports Receive_Command Delivery
begin

text \<open>
  The sending command: \<^verbatim>\<open>cli/src/commands/send.rs\<close> and the relay reservations of
  \<^verbatim>\<open>cli/src/commands/shared.rs\<close>. The events of the network task arrive in the order of a list in
  which \<open>Elapsed\<close> marks the moment the current wait runs out of time; at the end of the list the
  channel is closed. What the command does to the outside is its trace.
\<close>

datatype arrival = Arrives NetworkEvent | Elapsed

record sender_files =
  sf_stdin :: reader
  sf_open :: "path \<Rightarrow> (bool option \<times> reader) option"

record send_world =
  sw_files :: sender_files
  sw_choose_input :: "(CliFailure, path) result"
  sw_unix_ms :: "nat option"
  sw_fill :: "nat \<Rightarrow> bytes option"
  sw_peer :: peer_id
  sw_driver_started :: bool
  sw_multiaddr :: "bytes \<Rightarrow> multiaddr option"
  sw_listen :: "multiaddr \<Rightarrow> (NetworkError, unit) result"
  sw_arrivals :: "arrival list"
  sw_add_address :: "multiaddr \<Rightarrow> (NetworkError, unit) result"
  sw_register :: "peer_id \<Rightarrow> multiaddr \<Rightarrow> discovery_namespace \<Rightarrow> u64 \<Rightarrow> (NetworkError, unit) result"
  sw_shown :: bool
  sw_flushed :: bool
  sw_now :: instant
  sw_inputs :: "loop_input list"
  sw_respond :: "inbound_request_id \<Rightarrow> TransferResponse \<Rightarrow> bool"
  sw_interrupt :: bool
  sw_renewals :: nat
  sw_stopped :: bool
  sw_closed :: bool

datatype send_action =
    ListenOn multiaddr
  | AddAddress multiaddr
  | RemoveAddress multiaddr
  | RegisterAt peer_id "(NetworkError, unit) result"
  | ShowCode bytes
  | ShowAddress peer_id multiaddr
  | Responded sent
  | Maintained provider_call

section \<open>The envelope\<close>

definition read_sender_input :: "sender_files \<Rightarrow> path \<Rightarrow> (CliFailure, bytes) result" where
  "read_sender_input F path =
     (if path = [Normal (ascii ''-'')]
      then map_err failure_of_core (read_bounded (sf_stdin F) MAX_PAYLOAD_BYTES)
      else bind_res (ok_or (cli_failure Output ''could not open input'') (sf_open F path))
        (\<lambda>(metadata, reader).
      bind_res (ok_or (cli_failure Output ''could not inspect input'') metadata) (\<lambda>is_file.
      if \<not> is_file then Err (cli_failure Output ''input must be a regular file'')
      else map_err failure_of_core (read_bounded reader MAX_PAYLOAD_BYTES))))"

definition as_millis :: "duration \<Rightarrow> nat" where
  "as_millis d = d div 1000000"

definition prepare_envelope ::
  "dotenv_parser \<Rightarrow> send_world \<Rightarrow> SendArgs \<Rightarrow> path \<Rightarrow> duration \<Rightarrow> (CliFailure, SecretEnvelope) result" where
  "prepare_envelope dotenv W arguments input expires =
     bind_res (read_sender_input (sw_files W) input) (\<lambda>raw.
     bind_res (if send_keys arguments = [] then Ok (raw, DotenvRaw)
       else bind_res (map_err failure_of_core
           (select_dotenv dotenv raw (send_keys arguments) (send_allow_missing_keys arguments)))
         (\<lambda>payload. Ok (payload, DotenvNormalized))) (\<lambda>(payload, content_type).
     bind_res (ok_or (failure_of_core Core_Internal) (sw_unix_ms W)) (\<lambda>now_ms.
     bind_res (if now_ms < 2 ^ 64 then Ok now_ms else Err (failure_of_core Core_Internal)) (\<lambda>now_ms.
     bind_res (if as_millis expires < 2 ^ 64 then Ok (as_millis expires)
       else Err (failure_of_core Core_Configuration)) (\<lambda>expiry_ms.
     bind_res (if now_ms + expiry_ms < 2 ^ 64 then Ok (now_ms + expiry_ms)
       else Err (failure_of_core Core_Configuration)) (\<lambda>expires_at.
     map_err (\<lambda>_. failure_of_core Core_Transfer)
       (envelope_new content_type None (of_nat now_ms) (of_nat expires_at) payload)))))))"

section \<open>Relay reservations\<close>

definition circuit_listen_address :: "DiscoveryNode \<Rightarrow> multiaddr" where
  "circuit_listen_address relay = node_address relay @ [P2p (node_peer relay), P2pCircuit]"

definition canonical_relay_route :: "DiscoveryNode \<Rightarrow> peer_id \<Rightarrow> multiaddr" where
  "canonical_relay_route relay destination =
     node_address relay @ [P2p (node_peer relay), P2pCircuit, P2p destination]"

fun preceding_peer :: "peer_id option \<Rightarrow> multiaddr \<Rightarrow> peer_id option" where
  "preceding_peer peer [] = None"
| "preceding_peer peer (protocol # rest) =
     (case protocol of
        P2p p \<Rightarrow> preceding_peer (Some p) rest
      | P2pCircuit \<Rightarrow> peer
      | _ \<Rightarrow> preceding_peer peer rest)"

definition relay_peer_from_circuit :: "multiaddr \<Rightarrow> peer_id option" where
  "relay_peer_from_circuit address = preceding_peer None address"

fun reservation_loop ::
  "peer_id set \<Rightarrow> arrival list \<Rightarrow> peer_id set \<Rightarrow> (peer_id \<times> multiaddr) list \<Rightarrow>
    peer_id set \<times> (peer_id \<times> multiaddr) list \<times> arrival list" where
  "reservation_loop pending [] reservations listeners = (reservations, listeners, [])"
| "reservation_loop pending (arrival # arrivals) reservations listeners =
     (if \<not> length (filter (\<lambda>(peer, _). peer \<in> reservations) listeners) < card pending
      then (reservations, listeners, arrival # arrivals)
      else case arrival of
        Elapsed \<Rightarrow> (reservations, listeners, arrivals)
      | Arrives event \<Rightarrow>
          (case event of
             RelayReservation relay_peer _ \<Rightarrow>
               reservation_loop pending arrivals
                 (if relay_peer \<in> pending then insert relay_peer reservations else reservations) listeners
           | Listening address \<Rightarrow>
               reservation_loop pending arrivals reservations
                 (case relay_peer_from_circuit address of
                    Some relay_peer \<Rightarrow>
                      if relay_peer \<in> pending then AList.update relay_peer address listeners else listeners
                  | None \<Rightarrow> listeners)
           | _ \<Rightarrow> reservation_loop pending arrivals reservations listeners))"

fun reserved_routes ::
  "peer_id \<Rightarrow> peer_id set \<Rightarrow> DiscoveryNode list \<Rightarrow> (peer_id \<times> multiaddr) list \<Rightarrow>
    (peer_id \<times> multiaddr) list \<times> send_action list" where
  "reserved_routes local_peer reservations [] listeners = ([], [])"
| "reserved_routes local_peer reservations (relay # relays) listeners =
     (if node_peer relay \<notin> reservations then reserved_routes local_peer reservations relays listeners
      else case map_of listeners (node_peer relay) of
        None \<Rightarrow> reserved_routes local_peer reservations relays listeners
      | Some runtime_address \<Rightarrow>
          let canonical = canonical_relay_route relay local_peer;
              (routes, actions) = reserved_routes local_peer reservations relays
                (AList.delete (node_peer relay) listeners) in
          ((node_peer relay, canonical) # routes,
           (if runtime_address \<noteq> canonical then [RemoveAddress runtime_address] else []) @ actions))"

definition reserve_relays ::
  "send_world \<Rightarrow> DiscoveryNode list \<Rightarrow> arrival list \<Rightarrow>
    (peer_id \<times> multiaddr) list \<times> send_action list \<times> arrival list" where
  "reserve_relays W relays arrivals =
     (let pending = node_peer ` {relay \<in> set relays. is_ok (sw_listen W (circuit_listen_address relay))};
          (reservations, listeners, arrivals) = reservation_loop pending arrivals {} [];
          (routes, actions) = reserved_routes (sw_peer W) reservations relays listeners in
      (routes, map (\<lambda>relay. ListenOn (circuit_listen_address relay)) relays @ actions, arrivals))"

section \<open>Becoming reachable\<close>

fun wait_for_listener :: "arrival list \<Rightarrow> (CoreError, multiaddr) result \<times> arrival list" where
  "wait_for_listener [] = (Err Core_Network, [])"
| "wait_for_listener (arrival # arrivals) =
     (case arrival of
        Arrives (Listening address) \<Rightarrow> (Ok address, arrivals)
      | _ \<Rightarrow> wait_for_listener arrivals)"

definition relay_failure :: "bool \<Rightarrow> CliFailure" where
  "relay_failure missing =
     (if missing then cli_failure Configuration ''relay mode requires at least one configured relay''
      else cli_failure Network ''no configured relay accepted a reservation'')"

text \<open>The part of \<^verbatim>\<open>start_reachable_network\<close> that listens directly, outside relay-only mode.\<close>

definition listen_directly ::
  "send_world \<Rightarrow> SendArgs \<Rightarrow> (CliFailure, multiaddr list) result \<times> send_action list \<times> arrival list" where
  "listen_directly W arguments =
     (if sd_relay_only (send_discovery arguments) then (Ok [], [], sw_arrivals W)
      else case sw_multiaddr W (send_listen arguments) of
        None \<Rightarrow> (Err (failure_of_core Core_Configuration), [], sw_arrivals W)
      | Some listen \<Rightarrow>
          (case sw_listen W listen of
             Inl _ \<Rightarrow> (Err (failure_of_core Core_Network), [ListenOn listen], sw_arrivals W)
           | Inr _ \<Rightarrow>
               (case wait_for_listener (sw_arrivals W) of
                  (Inl e, arrivals) \<Rightarrow> (Err (failure_of_core e), [ListenOn listen], arrivals)
                | (Inr address, arrivals) \<Rightarrow> (Ok [address], [ListenOn listen], arrivals))))"

definition start_reachable_network ::
  "send_world \<Rightarrow> SendArgs \<Rightarrow> (CliFailure, multiaddr list) result \<times> send_action list \<times> arrival list" where
  "start_reachable_network W arguments =
     (if \<not> sw_driver_started W then (Err (failure_of_core Core_Network), [], sw_arrivals W)
      else case listen_directly W arguments of
        (Inl e, actions, arrivals) \<Rightarrow> (Err e, actions, arrivals)
      | (Inr advertised, actions, arrivals) \<Rightarrow>
          let d = send_discovery arguments;
              (reservations, reserving, arrivals) = reserve_relays W (sd_relays d) arrivals;
              relay_addresses = map snd reservations;
              advertised = (if relay_addresses \<noteq> [] \<and> sd_nodes d \<noteq> [] then [] else advertised)
                @ relay_addresses in
          if sd_require_relay d \<and> reservations = [] then
            (Err (relay_failure (sd_relays d = [])), actions @ reserving, arrivals)
          else if advertised = [] then
            (Err (cli_failure Network ''no direct listener or relay reservation is available''),
             actions @ reserving, arrivals)
          else (Ok advertised, actions @ reserving, arrivals))"

fun registration_loop :: "nat \<Rightarrow> arrival list \<Rightarrow> peer_id set \<Rightarrow> (CoreError, bool) result" where
  "registration_loop node_count [] failed = Err Core_Network"
| "registration_loop node_count (arrival # arrivals) failed =
     (case arrival of
        Elapsed \<Rightarrow> Err Core_Network
      | Arrives event \<Rightarrow>
          (case event of
             DiscoveryRegistered _ _ \<Rightarrow> Ok True
           | DiscoveryFailed node \<Rightarrow>
               if card (insert node failed) = node_count then Ok False
               else registration_loop node_count arrivals (insert node failed)
           | _ \<Rightarrow> registration_loop node_count arrivals failed))"

definition wait_for_public_registration :: "nat \<Rightarrow> arrival list \<Rightarrow> (CoreError, bool) result" where
  "wait_for_public_registration node_count arrivals = registration_loop node_count arrivals {}"

text \<open>The addresses handed to the client until one is refused.\<close>

fun add_addresses :: "send_world \<Rightarrow> multiaddr list \<Rightarrow> (CliFailure, unit) result \<times> send_action list" where
  "add_addresses W [] = (Ok (), [])"
| "add_addresses W (address # addresses) =
     (case sw_add_address W address of
        Inl _ \<Rightarrow> (Err (failure_of_core Core_Network), [AddAddress address])
      | Inr _ \<Rightarrow> (case add_addresses W addresses of (r, actions) \<Rightarrow> (r, AddAddress address # actions)))"

definition registration_ttl :: "duration \<Rightarrow> u64" where
  "registration_ttl expires = of_nat (max 30 (min 300 (expires div 1000000000)))"

definition no_registration :: CliFailure where
  "no_registration = cli_failure Network ''no discovery node accepted the share registration''"

definition establish_public_reachability ::
  "send_world \<Rightarrow> SendArgs \<Rightarrow> multiaddr list \<Rightarrow> discovery_namespace \<Rightarrow> arrival list \<Rightarrow>
    (CliFailure, u64 option) result \<times> send_action list" where
  "establish_public_reachability W arguments advertised ns arrivals =
     (let nodes = sd_nodes (send_discovery arguments) in
      if nodes = [] then (Ok None, [])
      else case add_addresses W advertised of
        (Inl e, actions) \<Rightarrow> (Err e, actions)
      | (Inr _, actions) \<Rightarrow>
          (case send_expires arguments of
             None \<Rightarrow> (Err invalid_resolved_config, actions)
           | Some expires \<Rightarrow>
               let ttl_seconds = registration_ttl expires;
                   dispatched = dispatch_registration (sw_register W) nodes ns ttl_seconds 4;
                   actions = actions @ map (\<lambda>(peer, r). RegisterAt peer r) dispatched in
               if list_all (\<lambda>(_, r). \<not> is_ok r) dispatched then (Err no_registration, actions)
               else (case wait_for_public_registration (length nodes) arrivals of
                  Inl e \<Rightarrow> (Err (failure_of_core e), actions)
                | Inr accepted \<Rightarrow>
                    if \<not> accepted then (Err no_registration, actions)
                    else (Ok (Some ttl_seconds), actions))))"

section \<open>The command\<close>

text \<open>What is shown; only the interactive view can fail.\<close>

definition emit_ready ::
  "send_world \<Rightarrow> SendArgs \<Rightarrow> bytes \<Rightarrow> multiaddr \<Rightarrow> (CliFailure, unit) result \<times> send_action list" where
  "emit_ready W arguments code address =
     (if send_code_only arguments then (Ok (), [ShowCode code])
      else if send_json arguments then (Ok (), [ShowAddress (sw_peer W) address, ShowCode code])
      else if send_verbose arguments then (Ok (), [ShowCode code, ShowAddress (sw_peer W) address])
      else (if sw_shown W then Ok () else Err (cli_failure Output ''terminal output failed''), [ShowCode code]))"

definition interactive_view :: "SendArgs \<Rightarrow> bool" where
  "interactive_view arguments \<longleftrightarrow>
     \<not> send_code_only arguments \<and> \<not> send_json arguments \<and> \<not> send_verbose arguments"

fun finish_sender :: "SenderState \<Rightarrow> bool \<Rightarrow> (CliFailure, int) result" where
  "finish_sender Consumed view_failed =
     (if view_failed then Err (cli_failure Output ''terminal output failed'')
      else Ok (exit_code_i32 Success))"
| "finish_sender Expired view_failed =
     Err (cli_failure ExitShareUnavailable ''share expired before it was claimed'')"
| "finish_sender DeliveryUnknown view_failed =
     Err (cli_failure Transfer ''delivery could not be confirmed; the share will not reopen'')"
| "finish_sender _ view_failed = Err (cli_failure Internal ''sender stopped unexpectedly'')"

text \<open>
  The service with its interruption: when its inputs run out before it returns, the interrupt
  came first, and \<open>sw_interrupt\<close> tells whether the handler could be installed.
\<close>

definition serve_share ::
  "primitives \<Rightarrow> 's entropy \<Rightarrow> send_world \<Rightarrow> SenderActor \<Rightarrow> 's \<Rightarrow> (CliFailure, SenderState) result \<times> sent list" where
  "serve_share P E W actor s =
     (case direct_loop P E (sw_respond W) actor s (sw_inputs W) of
        (Some r, _, _, sent) \<Rightarrow> (map_err failure_of_core r, sent)
      | (None, _, _, sent) \<Rightarrow>
          (if sw_interrupt W then Err (cli_failure Interrupted ''interrupted'')
           else Err (failure_of_core Core_Internal), sent))"

text \<open>The steps before the network is started.\<close>

definition prepare_share ::
  "primitives \<Rightarrow> dotenv_parser \<Rightarrow> send_world \<Rightarrow> SendArgs \<Rightarrow>
    (CliFailure, duration \<times> bytes \<times> SecretEnvelope \<times> share_code \<times> DerivedRoot) result" where
  "prepare_share P dotenv W arguments =
     bind_res (ok_or invalid_resolved_config (send_expires arguments)) (\<lambda>expires.
     bind_res (ok_or invalid_resolved_config (send_network arguments)) (\<lambda>network.
     if expires = 0 then Err (cli_failure Configuration ''expiry must be positive'') else
     bind_res (case send_input arguments of
         Some path \<Rightarrow> Ok path
       | None \<Rightarrow> if send_json arguments \<or> send_code_only arguments
           then Err (cli_failure Usage ''input file is required for machine-readable output'')
           else sw_choose_input W) (\<lambda>input.
     bind_res (prepare_envelope dotenv W arguments input expires) (\<lambda>envelope.
     bind_res (map_err (\<lambda>_. failure_of_core Core_Internal) (generate (sw_fill W))) (\<lambda>code.
     bind_res (map_err (\<lambda>_. failure_of_core Core_InvalidCode) (derive_root P (secret code) network)) (\<lambda>root.
     Ok (expires, network, envelope, code, root)))))))"

definition send_execute ::
  "cbor \<Rightarrow> primitives \<Rightarrow> 's entropy \<Rightarrow> dotenv_parser \<Rightarrow> send_world \<Rightarrow> 's \<Rightarrow> SendArgs \<Rightarrow>
    (CliFailure, int) result \<times> send_action list" where
  "send_execute C P E dotenv W s arguments =
     (case prepare_share P dotenv W arguments of
        Inl e \<Rightarrow> (Err e, [])
      | Inr (expires, network, envelope, code, root) \<Rightarrow>
      case start_reachable_network W arguments of
        (Inl e, starting, _) \<Rightarrow> (Err e, starting)
      | (Inr advertised, starting, arrivals) \<Rightarrow>
      let ns = from_room_id (root_room_id root) in
      case establish_public_reachability W arguments advertised ns arrivals of
        (Inl e, registering) \<Rightarrow> (Err e, starting @ registering)
      | (Inr registration, registering) \<Rightarrow>
      case emit_ready W arguments (display (sha256 P) code) (hd advertised) of
        (Inl e, showing) \<Rightarrow> (Err e, starting @ registering @ showing)
      | (Inr _, showing) \<Rightarrow>
      let shown = starting @ registering @ showing in
      if \<not> sw_flushed W then (Err (failure_of_core Core_Output), shown)
      else case bind_res (ok_or Core_Configuration (instant_checked_add (sw_now W) expires))
          (\<lambda>deadline. sender_new C root network (sw_peer W) envelope deadline (secs 30)) of
        Inl e \<Rightarrow> (Err (failure_of_core e), shown)
      | Inr actor \<Rightarrow>
          let (outcome, sent) = serve_share P E W actor s;
              maintained = (case registration of
                  None \<Rightarrow> []
                | Some ttl_seconds \<Rightarrow> map Maintained (maintain_registrations
                    (sd_nodes (send_discovery arguments)) ns ttl_seconds 4 (sw_renewals W)));
              trace = shown @ map Responded sent @ maintained in
          if \<not> sw_stopped W then (Err (cli_failure Internal ''network task failed''), trace)
          else (bind_res outcome (\<lambda>state.
                finish_sender state (interactive_view arguments \<and> \<not> sw_closed W)), trace))"

section \<open>Runs of the command\<close>

lemma add_addresses_actions:
  "add_addresses W addresses = (r, actions) \<Longrightarrow>
    \<exists>tried. actions = map AddAddress tried \<and> set tried \<subseteq> set addresses \<and> (r = Ok () \<longrightarrow> tried = addresses)"
proof (induction addresses arbitrary: r actions)
  case (Cons a as)
  obtain r' actions' where rest: "add_addresses W as = (r', actions')" by fastforce
  obtain tried where t: "actions' = map AddAddress tried" "set tried \<subseteq> set as" "r' = Ok () \<longrightarrow> tried = as"
    using Cons.IH [OF rest] by blast
  show ?case
  proof (cases "sw_add_address W a")
    case (Inl e)
    then show ?thesis using Cons.prems by (intro exI [of _ "[a]"]) auto
  next
    case (Inr u)
    then show ?thesis using Cons.prems rest t by (intro exI [of _ "a # tried"]) auto
  qed
qed simp

lemma reserved_routes_canonical:
  assumes "reserved_routes local_peer reservations relays listeners = (routes, actions)"
  shows "(\<forall>x \<in> set routes. \<exists>relay \<in> set relays. snd x = canonical_relay_route relay local_peer) \<and>
    (\<forall>a \<in> set actions. \<exists>address. a = RemoveAddress address)"
  using assms
proof (induction relays arbitrary: listeners routes actions)
  case (Cons relay relays)
  show ?case
  proof (cases "node_peer relay \<in> reservations \<and> map_of listeners (node_peer relay) \<noteq> None")
    case True
    then obtain address where address: "map_of listeners (node_peer relay) = Some address" by auto
    obtain routes' actions' where rest: "reserved_routes local_peer reservations relays
        (AList.delete (node_peer relay) listeners) = (routes', actions')" by fastforce
    then show ?thesis using Cons.IH [OF rest] Cons.prems True address by (auto simp: Let_def)
  next
    case False
    then have "reserved_routes local_peer reservations relays listeners = (routes, actions)"
      using Cons.prems by (auto split: if_splits)
    then show ?thesis using Cons.IH by (meson list.set_intros(2))
  qed
qed simp

lemma reserve_relays_canonical:
  assumes "reserve_relays W relays arrivals = (routes, actions, rest)"
  shows "\<forall>x \<in> set routes. \<exists>relay \<in> set relays. snd x = canonical_relay_route relay (sw_peer W)"
    "\<forall>a \<in> set actions. (\<exists>address. a = RemoveAddress address) \<or>
       (\<exists>relay \<in> set relays. a = ListenOn (circuit_listen_address relay))"
  using assms reserved_routes_canonical [of "sw_peer W" _ relays]
  by (auto simp: reserve_relays_def Let_def split: prod.splits)

text \<open>Where the steps of a successful start lead.\<close>

lemma start_reachable_Ok:
  assumes "start_reachable_network W arguments = (Ok advertised, actions, rest)"
  obtains direct listening reservations reserving arrivals where
    "listen_directly W arguments = (Ok direct, listening, arrivals)"
    "reserve_relays W (sd_relays (send_discovery arguments)) arrivals = (reservations, reserving, rest)"
    "actions = listening @ reserving" "advertised \<noteq> []"
    "set advertised \<subseteq> set direct \<union> set (map snd reservations)"
    "sd_require_relay (send_discovery arguments) \<longrightarrow> reservations \<noteq> []"
  using assms
  by (auto simp: start_reachable_network_def Let_def split: if_splits prod.splits sum.splits)

lemma start_reachable_Err:
  assumes "start_reachable_network W arguments = (Err e, actions, rest)"
  shows "(\<exists>direct arrivals. listen_directly W arguments = (direct, actions, arrivals)) \<or> actions = [] \<or>
    (\<exists>direct listening reservations reserving arrivals.
      listen_directly W arguments = (Ok direct, listening, arrivals) \<and>
      reserve_relays W (sd_relays (send_discovery arguments)) arrivals = (reservations, reserving, rest) \<and>
      actions = listening @ reserving)"
  using assms
  by (fastforce simp: start_reachable_network_def Let_def split: if_splits prod.splits sum.splits)

text \<open>What follows once the code was shown: at most the service and its maintenance.\<close>

definition served_outcome ::
  "cbor \<Rightarrow> primitives \<Rightarrow> 's entropy \<Rightarrow> send_world \<Rightarrow> 's \<Rightarrow> duration \<Rightarrow> bytes \<Rightarrow> SecretEnvelope \<Rightarrow>
    DerivedRoot \<Rightarrow> sent list \<Rightarrow> bool" where
  "served_outcome C P E W s expires network envelope root sent \<longleftrightarrow>
     (\<exists>deadline actor a s'. instant_checked_add (sw_now W) expires = Some deadline \<and>
        sender_new C root network (sw_peer W) envelope deadline (secs 30) = Ok actor \<and>
        direct_loop P E (sw_respond W) actor s (sw_inputs W) = (Some (Ok Consumed), a, s', sent))"

lemma finish_sender_Ok: "finish_sender state failed = Ok n \<longleftrightarrow> state = Consumed \<and> \<not> failed \<and> n = 0"
  by (cases state) auto

lemma serve_share_Ok:
  assumes "serve_share P E W actor s = (Ok state, sent)"
  obtains a s' where "direct_loop P E (sw_respond W) actor s (sw_inputs W) = (Some (Ok state), a, s', sent)"
  using assms by (auto simp: serve_share_def result_simps split: prod.splits option.splits if_splits)

lemma send_execute_runs:
  assumes "send_execute C P E dotenv W s arguments = (result, trace)"
  obtains (unprepared) e where "result = Err e" "trace = []"
  | (unreachable) e rest where "result = Err e" "start_reachable_network W arguments = (Err e, trace, rest)"
  | (unregistered) e advertised starting arrivals registering ns where "result = Err e"
      "start_reachable_network W arguments = (Ok advertised, starting, arrivals)"
      "establish_public_reachability W arguments advertised ns arrivals = (Err e, registering)"
      "trace = starting @ registering"
  | (shown) expires network envelope code root advertised starting arrivals registration registering
      r showing sent maintained where
      "prepare_share P dotenv W arguments = Ok (expires, network, envelope, code, root)"
      "start_reachable_network W arguments = (Ok advertised, starting, arrivals)"
      "establish_public_reachability W arguments advertised (from_room_id (root_room_id root)) arrivals =
        (Ok registration, registering)"
      "emit_ready W arguments (display (sha256 P) code) (hd advertised) = (r, showing)"
      "trace = starting @ registering @ showing @ map Responded sent @ map Maintained maintained"
      "\<forall>n. result = Ok n \<longrightarrow> n = 0 \<and> served_outcome C P E W s expires network envelope root sent"
proof (cases "prepare_share P dotenv W arguments")
  case (Inl e)
  then show ?thesis using assms unprepared by (auto simp: send_execute_def)
next
  case (Inr prepared)
  obtain expires network envelope code root where
      prep: "prepare_share P dotenv W arguments = Ok (expires, network, envelope, code, root)"
    using Inr by (metis prod_cases5)
  obtain started starting arrivals where start: "start_reachable_network W arguments = (started, starting, arrivals)"
    by (metis prod_cases3)
  show ?thesis
  proof (cases started)
    case (Inl e)
    then show ?thesis using assms start prep unreachable by (auto simp: send_execute_def)
  next
    case (Inr advertised)
    let ?ns = "from_room_id (root_room_id root)"
    obtain established registering where est:
      "establish_public_reachability W arguments advertised ?ns arrivals = (established, registering)" by fastforce
    obtain r showing where emit: "emit_ready W arguments (display (sha256 P) code) (hd advertised) = (r, showing)"
      by fastforce
    note start = start [unfolded Inr]
    note step = shown [OF prep start _ emit]
    show ?thesis
    proof (cases established)
      case (Inl e)
      then show ?thesis using assms start prep est unregistered [OF _ start] by (auto simp: send_execute_def)
    next
      case (Inr registration)
      let ?new = "bind_res (ok_or Core_Configuration (instant_checked_add (sw_now W) expires))
          (\<lambda>deadline. sender_new C root network (sw_peer W) envelope deadline (secs 30))"
      note unfold = assms [unfolded send_execute_def prep sum.case prod.case start Let_def est Inr emit]
      show ?thesis
      proof (cases "\<not> is_ok r \<or> \<not> sw_flushed W \<or> \<not> is_ok ?new")
        case True
        then have "trace = starting @ registering @ showing" "\<exists>e. result = Err e"
          using unfold by (cases r; cases ?new; auto split: if_splits)+
        then show ?thesis using step [OF est [unfolded Inr], of "[]" "[]"] by auto
      next
        case False
        then obtain actor where new: "?new = Ok actor" and r: "r = Ok ()" and flushed: "sw_flushed W"
          by (cases r; cases ?new) auto
        obtain outcome sent where serve: "serve_share P E W actor s = (outcome, sent)" by fastforce
        let ?maintained = "case registration of None \<Rightarrow> [] | Some ttl_seconds \<Rightarrow> maintain_registrations
            (sd_nodes (send_discovery arguments)) ?ns ttl_seconds 4 (sw_renewals W)"
        have trace: "trace = starting @ registering @ showing @ map Responded sent @ map Maintained ?maintained"
          using unfold by (auto simp: new r flushed serve split: if_splits option.splits)
        have "n = 0 \<and> served_outcome C P E W s expires network envelope root sent" if "result = Ok n" for n
        proof -
          have "outcome = Ok Consumed" "n = 0"
            using unfold that by (auto simp: new r flushed serve result_simps finish_sender_Ok split: if_splits)
          then show ?thesis
            using serve new by (auto simp: served_outcome_def result_simps elim!: serve_share_Ok)
        qed
        then show ?thesis using step [OF est [unfolded Inr] trace] by blast
      qed
    qed
  qed
qed

section \<open>Relay-only shares\<close>

text \<open>An action that names no address of the sender but one behind a configured relay.\<close>

fun through_relay :: "peer_id \<Rightarrow> DiscoveryNode list \<Rightarrow> send_action \<Rightarrow> bool" where
  "through_relay peer relays (ListenOn address) =
     (\<exists>relay \<in> set relays. address = circuit_listen_address relay)"
| "through_relay peer relays (AddAddress address) =
     (\<exists>relay \<in> set relays. address = canonical_relay_route relay peer)"
| "through_relay peer relays (ShowAddress shown address) =
     (shown = peer \<and> (\<exists>relay \<in> set relays. address = canonical_relay_route relay peer))"
| "through_relay peer relays _ = True"

lemma listen_directly_relay_only:
  "sd_relay_only (send_discovery arguments) \<Longrightarrow> listen_directly W arguments = (Ok [], [], sw_arrivals W)"
  by (simp add: listen_directly_def)

lemma reserving_through_relay:
  assumes "reserve_relays W relays arrivals = (routes, actions, rest)"
  shows "\<forall>a \<in> set actions. through_relay (sw_peer W) relays a"
  using reserve_relays_canonical(2) [OF assms] by fastforce

lemma establish_actions:
  assumes "establish_public_reachability W arguments advertised ns arrivals = (r, actions)" and "a \<in> set actions"
  shows "(\<exists>address \<in> set advertised. a = AddAddress address) \<or> (\<exists>peer res. a = RegisterAt peer res)"
proof -
  obtain u adding where "add_addresses W advertised = (u, adding)" by fastforce
  with add_addresses_actions [OF this] assms show ?thesis
    by (fastforce simp: establish_public_reachability_def Let_def split: if_splits sum.splits option.splits)
qed

lemma relay_only_started:
  assumes "start_reachable_network W arguments = (Ok advertised, starting, rest)"
    and "sd_relay_only (send_discovery arguments)"
  shows "\<forall>a \<in> set starting. through_relay (sw_peer W) (sd_relays (send_discovery arguments)) a"
    "\<forall>address \<in> set advertised. \<exists>relay \<in> set (sd_relays (send_discovery arguments)).
       address = canonical_relay_route relay (sw_peer W)"
    "hd advertised \<in> set advertised"
proof -
  let ?relays = "sd_relays (send_discovery arguments)"
  obtain direct listening reservations reserving arrivals where
    a: "listen_directly W arguments = (Ok direct, listening, arrivals)"
      "reserve_relays W ?relays arrivals = (reservations, reserving, rest)"
      "starting = listening @ reserving" "advertised \<noteq> []"
      "set advertised \<subseteq> set direct \<union> set (map snd reservations)"
    using assms(1) by (rule start_reachable_Ok)
  have "direct = []" "listening = []" using a(1) listen_directly_relay_only [OF assms(2), of W] by auto
  then show "\<forall>a \<in> set starting. through_relay (sw_peer W) ?relays a"
    "\<forall>address \<in> set advertised. \<exists>relay \<in> set ?relays. address = canonical_relay_route relay (sw_peer W)"
    "hd advertised \<in> set advertised"
    using reserve_relays_canonical(1) [OF a(2)] reserving_through_relay [OF a(2)] a(3-5) by fastforce+
qed

lemma relay_only_registered:
  assumes "start_reachable_network W arguments = (Ok advertised, starting, rest)"
    and "establish_public_reachability W arguments advertised ns arrivals = (r, registering)"
    and "sd_relay_only (send_discovery arguments)"
  shows "\<forall>a \<in> set registering. through_relay (sw_peer W) (sd_relays (send_discovery arguments)) a"
  using relay_only_started(2) [OF assms(1,3)] establish_actions [OF assms(2)] by fastforce

lemma relay_only_trace:
  assumes "send_execute C P E dotenv W s arguments = (result, trace)"
    and "sd_relay_only (send_discovery arguments)"
  shows "list_all (through_relay (sw_peer W) (sd_relays (send_discovery arguments))) trace"
  using assms(1)
proof (cases rule: send_execute_runs)
  case unprepared
  then show ?thesis by simp
next
  case (unreachable e rest)
  then show ?thesis
    using start_reachable_Err [OF unreachable(2)] listen_directly_relay_only [OF assms(2), of W]
      reserving_through_relay by (fastforce simp: list_all_iff)
next
  case (unregistered e advertised starting arrivals registering ns)
  then show ?thesis
    using relay_only_started(1) [OF _ assms(2)] relay_only_registered [OF _ _ assms(2)]
    by (fastforce simp: list_all_iff)
next
  case (shown expires network envelope code root advertised starting arrivals registration registering
      r showing sent maintained)
  note started = relay_only_started [OF shown(2) assms(2)]
  have "\<forall>a \<in> set showing. through_relay (sw_peer W) (sd_relays (send_discovery arguments)) a"
    using started(2,3) shown(4) by (auto simp: emit_ready_def split: if_splits)
  then show ?thesis
    using started(1) relay_only_registered [OF shown(2,3) assms(2)] by (auto simp: shown(5) list_all_iff)
qed

text \<open>
  C6: A relay-only share exposes no address of the sender. Whatever the relays and discovery nodes
  do, every address the command listens on is a circuit of a configured relay, and every address it
  gives to the discovery nodes or shows is the route to it through a configured relay.
\<close>
theorem relay_only_share:
  assumes "send_execute C P E dotenv W s arguments = (result, trace)"
    and "sd_relay_only (send_discovery arguments)"
  shows "list_all (through_relay (sw_peer W) (sd_relays (send_discovery arguments))) trace"
  using assms by (rule relay_only_trace)

section \<open>When the code is shown\<close>

lemma registration_loop_True:
  "registration_loop node_count arrivals failed = Ok True \<Longrightarrow>
    \<exists>node ttl. Arrives (DiscoveryRegistered node ttl) \<in> set arrivals"
proof (induction arrivals arbitrary: failed)
  case (Cons arrival arrivals)
  show ?case
  proof (cases arrival)
    case (Arrives event)
    then show ?thesis using Cons by (cases event) (auto split: if_splits)
  qed (use Cons.prems in simp)
qed simp

lemma establish_registered:
  assumes "establish_public_reachability W arguments advertised ns arrivals = (Ok registration, actions)"
    and "sd_nodes (send_discovery arguments) \<noteq> []"
  shows "\<exists>node ttl. Arrives (DiscoveryRegistered node ttl) \<in> set arrivals"
    "\<exists>peer. RegisterAt peer (Ok ()) \<in> set actions"
    "\<forall>address \<in> set advertised. AddAddress address \<in> set actions"
proof -
  obtain u adding where add: "add_addresses W advertised = (u, adding)" by fastforce
  have u: "u = Ok ()" using assms add
    by (cases u) (auto simp: establish_public_reachability_def Let_def)
  then have adding: "adding = map AddAddress advertised" using add_addresses_actions [OF add] by auto
  obtain expires where e: "send_expires arguments = Some expires"
    using assms add u by (cases "send_expires arguments") (auto simp: establish_public_reachability_def Let_def)
  let ?d = "dispatch_registration (sw_register W) (sd_nodes (send_discovery arguments)) ns
    (registration_ttl expires) 4"
  have some: "\<not> list_all (\<lambda>(_, r). \<not> is_ok r) ?d"
    and waited: "wait_for_public_registration (length (sd_nodes (send_discovery arguments))) arrivals = Ok True"
    and actions: "actions = adding @ map (\<lambda>(peer, r). RegisterAt peer r) ?d"
    using assms add u e
    by (auto simp: establish_public_reachability_def Let_def split: if_splits sum.splits)
  show "\<exists>node ttl. Arrives (DiscoveryRegistered node ttl) \<in> set arrivals"
    using waited registration_loop_True by (auto simp: wait_for_public_registration_def)
  obtain peer r where "(peer, r) \<in> set ?d" "is_ok r" using some by (auto simp: list_all_iff)
  then have "(peer, Ok ()) \<in> set ?d" by (cases r) auto
  then show "\<exists>peer. RegisterAt peer (Ok ()) \<in> set actions" by (force simp: actions)
  show "\<forall>address \<in> set advertised. AddAddress address \<in> set actions" by (simp add: actions adding)
qed

lemma reservation_loop_rest:
  "reservation_loop pending arrivals reservations listeners = (r, l, rest) \<Longrightarrow> set rest \<subseteq> set arrivals"
proof (induction arrivals arbitrary: reservations listeners)
  case (Cons arrival arrivals)
  show ?case
  proof (cases arrival)
    case (Arrives event)
    then show ?thesis using Cons by (cases event) (auto split: if_splits dest!: Cons.IH)
  qed (use Cons.prems in \<open>auto split: if_splits\<close>)
qed simp

lemma wait_for_listener_rest: "wait_for_listener arrivals = (r, rest) \<Longrightarrow> set rest \<subseteq> set arrivals"
proof (induction arrivals)
  case (Cons arrival arrivals)
  show ?case
  proof (cases arrival)
    case (Arrives event)
    then show ?thesis using Cons by (cases event) auto
  qed (use Cons in auto)
qed simp

lemma start_reachable_rest:
  assumes "start_reachable_network W arguments = (Ok advertised, actions, rest)"
  shows "set rest \<subseteq> set (sw_arrivals W)"
  using assms
proof (rule start_reachable_Ok)
  fix direct listening reservations reserving arrivals
  assume a: "listen_directly W arguments = (Ok direct, listening, arrivals)"
    "reserve_relays W (sd_relays (send_discovery arguments)) arrivals = (reservations, reserving, rest)"
  have "set rest \<subseteq> set arrivals"
    using a(2) reservation_loop_rest
    by (fastforce simp: reserve_relays_def Let_def split: prod.splits)
  moreover have "set arrivals \<subseteq> set (sw_arrivals W)"
    using a(1) wait_for_listener_rest
    by (fastforce simp: listen_directly_def split: if_splits option.splits sum.splits prod.splits)
  ultimately show ?thesis by blast
qed

text \<open>Actions that show or serve nothing.\<close>

fun silent :: "send_action \<Rightarrow> bool" where
  "silent (ShowCode _) = False"
| "silent (ShowAddress _ _) = False"
| "silent (Responded _) = False"
| "silent _ = True"

lemma start_actions_silent:
  assumes "start_reachable_network W arguments = (r, actions, rest)"
  shows "list_all silent actions"
proof -
  have l: "list_all silent listening" if "listen_directly W arguments = (d, listening, arrivals)"
    for d listening arrivals
    using that by (auto simp: listen_directly_def split: if_splits option.splits sum.splits prod.splits)
  have m: "list_all silent reserving"
    if "reserve_relays W relays arrivals = (reservations, reserving, rest)" for relays arrivals reservations reserving rest
    using reserve_relays_canonical(2) [OF that] by (fastforce simp: list_all_iff)
  show ?thesis
  proof (cases r)
    case (Inl e)
    then show ?thesis using start_reachable_Err [of W arguments e actions rest] assms l m by fastforce
  next
    case (Inr advertised)
    with assms have "start_reachable_network W arguments = (Ok advertised, actions, rest)" by simp
    then show ?thesis by (rule start_reachable_Ok) (use l m in auto)
  qed
qed

lemma establish_silent:
  assumes "establish_public_reachability W arguments advertised ns arrivals = (r, actions)"
  shows "list_all silent actions"
  using establish_actions [OF assms] by (fastforce simp: list_all_iff)

text \<open>
  The code is shown only when the share can be found. Whenever \<^verbatim>\<open>send\<close> shows a code, it is the
  printed form of the code whose root the sender uses; until then nothing was shown and no request
  answered, some address was advertised, and with discovery nodes configured every advertised
  address was handed to the client, a node accepted the registration request, and one confirmed
  the registration.
\<close>
theorem send_shows_code_when_reachable:
  assumes "send_execute C P E dotenv W s arguments = (result, trace)" and "ShowCode text \<in> set trace"
  shows "\<exists>expires network envelope code root advertised before after.
    prepare_share P dotenv W arguments = Ok (expires, network, envelope, code, root) \<and>
    text = display (sha256 P) code \<and> derive_root P (secret code) network = Ok root \<and>
    trace = before @ after \<and> list_all silent before \<and> (\<exists>a rest. after = a # rest \<and> \<not> silent a) \<and>
    advertised \<noteq> [] \<and> (\<forall>peer address. ShowAddress peer address \<in> set trace \<longrightarrow>
      peer = sw_peer W \<and> address \<in> set advertised) \<and>
    (sd_nodes (send_discovery arguments) \<noteq> [] \<longrightarrow>
      (\<forall>address \<in> set advertised. AddAddress address \<in> set before) \<and>
      (\<exists>peer. RegisterAt peer (Ok ()) \<in> set before) \<and>
      (\<exists>node ttl. Arrives (DiscoveryRegistered node ttl) \<in> set (sw_arrivals W)))"
proof -
  have hidden: "ShowCode text \<notin> set actions" "ShowAddress peer address \<notin> set actions"
    if "list_all silent actions" for actions peer address
    using that by (auto simp: list_all_iff)
  from assms(1) show ?thesis
  proof (cases rule: send_execute_runs)
    case (shown expires network envelope code root advertised starting arrivals registration registering
        r showing sent maintained)
    have silent: "list_all silent (starting @ registering)"
      using start_actions_silent [OF shown(2)] establish_silent [OF shown(3)] by simp
    have root: "derive_root P (secret code) network = Ok root"
      using shown(1) by (auto simp: prepare_share_def result_simps split: if_splits)
    have ne: "advertised \<noteq> []" using shown(2) by (rule start_reachable_Ok)
    have showing: "showing \<noteq> []" "\<not> silent (hd showing)" "text = display (sha256 P) code"
      "ShowAddress peer address \<in> set trace \<Longrightarrow> peer = sw_peer W \<and> address \<in> set advertised" for peer address
      using shown(4) assms(2) ne hidden [OF silent]
      by (auto simp: emit_ready_def shown(5) split: if_splits)
    have nodes: "sd_nodes (send_discovery arguments) \<noteq> [] \<longrightarrow>
      (\<forall>address \<in> set advertised. AddAddress address \<in> set (starting @ registering)) \<and>
      (\<exists>peer. RegisterAt peer (Ok ()) \<in> set (starting @ registering)) \<and>
      (\<exists>node ttl. Arrives (DiscoveryRegistered node ttl) \<in> set (sw_arrivals W))"
      using establish_registered [OF shown(3)] start_reachable_rest [OF shown(2)] by auto
    let ?after = "showing @ map Responded sent @ map Maintained maintained"
    have "\<exists>a rest. ?after = a # rest \<and> \<not> silent a" using showing(1,2) by (cases showing) auto
    then show ?thesis
      using shown(1,5) root showing(3,4) silent ne nodes by (metis append.assoc)
  next
    case (unreachable e rest)
    then show ?thesis using hidden(1) [OF start_actions_silent] assms(2) by blast
  next
    case (unregistered e advertised starting arrivals registering ns)
    then show ?thesis
      using hidden(1) [OF start_actions_silent] hidden(1) [OF establish_silent] assms(2) by auto
  qed (use assms(2) in simp)
qed

section \<open>The exit status\<close>

text \<open>The prepared envelope.\<close>

lemma envelope_new_unnamed:
  "envelope_new content_type None created expires payload = Ok envelope \<longleftrightarrow>
     length payload \<le> MAX_PAYLOAD_BYTES \<and> created \<le> expires \<and>
     envelope = \<lparr>env_content_type = content_type, env_suggested_name = None,
       env_created_at_unix_ms = created, env_expires_at_unix_ms = expires, env_payload = payload\<rparr>"
  by (auto simp: envelope_new_def)

text \<open>
  What is shared. A prepared envelope is well formed and holds the whole input, at most the
  payload limit, or, when keys were chosen, the selection of exactly those declarations; it is
  dated with the clock and expires the requested time later, with no wrap-around in its 64-bit
  time stamps.
\<close>
theorem prepared_envelope:
  assumes "prepare_envelope dotenv W arguments input expires = Ok envelope"
  shows "\<exists>raw now. read_sender_input (sw_files W) input = Ok raw \<and> length raw \<le> MAX_PAYLOAD_BYTES \<and>
    sw_unix_ms W = Some now \<and> wf_envelope envelope \<and>
    unat (env_created_at_unix_ms envelope) = now \<and>
    unat (env_expires_at_unix_ms envelope) = now + expires div 1000000 \<and>
    (if send_keys arguments = [] then env_content_type envelope = DotenvRaw \<and> env_payload envelope = raw
     else env_content_type envelope = DotenvNormalized \<and>
       select_dotenv dotenv raw (send_keys arguments) (send_allow_missing_keys arguments) =
         Ok (env_payload envelope))"
proof -
  obtain raw now payload content_type where p: "read_sender_input (sw_files W) input = Ok raw"
      "sw_unix_ms W = Some now" "now + as_millis expires < 2 ^ 64"
      "envelope_new content_type None (of_nat now) (of_nat (now + as_millis expires)) payload = Ok envelope"
    and kind: "if send_keys arguments = [] then payload = raw \<and> content_type = DotenvRaw
      else select_dotenv dotenv raw (send_keys arguments) (send_allow_missing_keys arguments) = Ok payload \<and>
        content_type = DotenvNormalized"
    by (cases "send_keys arguments = []")
      (use assms in \<open>auto simp: prepare_envelope_def result_simps split: if_splits\<close>)
  have "length raw \<le> MAX_PAYLOAD_BYTES"
    using p(1) by (auto simp: read_sender_input_def result_simps read_bounded_Ok split: if_splits)
  moreover have "unat (of_nat now :: u64) = now" "unat (of_nat (now + as_millis expires) :: u64) =
      now + as_millis expires"
    using p(3) by (simp_all add: unsigned_of_nat take_bit_nat_eq_self_iff del: of_nat_add)
  ultimately show ?thesis
    using p(1,2,4) kind by (auto simp: envelope_new_unnamed wf_envelope_def as_millis_def split: if_splits)
qed

text \<open>
  C9: Exit status 0 means delivered. The only success status is 0; it is returned only when the
  command showed the code of the capability it derived, made exactly one offer, and accepted the
  acknowledgement of that offer: the peer that acknowledged can verify the offer with the root of
  the shown code, finds in it exactly the envelope the command prepared from its input, and the
  acknowledgement the command received from it is the one this verification yields.
\<close>
theorem send_success_means_delivered:
  assumes lib: "cbor_lib C" "crypto_lib P"
    and run: "send_execute C P E dotenv W s arguments = (Ok status, trace)"
  shows "status = 0 \<and> (\<exists>expires network input envelope code root i j d offer receiver nonce session
      acknowledgement now.
    prepare_envelope dotenv W arguments input expires = Ok envelope \<and>
    derive_root P (secret code) network = Ok root \<and>
    ShowCode (display (sha256 P) code) \<in> set trace \<and>
    receiver_new root network (sw_peer W) receiver nonce = Ok session \<and>
    verify_offer C P session offer = Ok \<lparr>vo_envelope = envelope, vo_acknowledgement = acknowledgement\<rparr> \<and>
    Responded (i, ROffer offer) \<in> set trace \<and>
    (\<forall>k offer'. Responded (k, ROffer offer') \<in> set trace \<longrightarrow> offer' = offer) \<and>
    Received (Some (InboundRequest receiver j (RAcknowledge acknowledgement))) now \<in> set (sw_inputs W) \<and>
    Responded (j, RCompleted d) \<in> set trace \<and> completed_claim_id d = offer_claim_id offer)"
  using run
proof (cases rule: send_execute_runs)
  case (shown expires network envelope code root advertised starting arrivals registration registering
      r showing sent maintained)
  have quiet: "Responded x \<notin> set (starting @ registering @ showing)" for x
    using start_actions_silent [OF shown(2)] establish_silent [OF shown(3)] shown(4)
    by (auto simp: list_all_iff emit_ready_def split: if_splits)
  have responded: "Responded x \<in> set trace \<longleftrightarrow> x \<in> set sent" for x
    using quiet [of x] by (auto simp: shown(5))
  have code: "ShowCode (display (sha256 P) code) \<in> set trace"
    using shown(4) by (auto simp: shown(5) emit_ready_def split: if_splits)
  have "status = 0" and outcome: "served_outcome C P E W s expires network envelope root sent"
    using shown(6) by auto
  obtain input where prepared: "prepare_envelope dotenv W arguments input expires = Ok envelope"
      "derive_root P (secret code) network = Ok root"
    using shown(1) by (auto simp: prepare_share_def result_simps split: if_splits)
  have envelope: "wf_envelope envelope" using prepared_envelope [OF prepared(1)] by blast
  obtain deadline actor a s' where
      new: "sender_new C root network (sw_peer W) envelope deadline (secs 30) = Ok actor"
    and loop: "direct_loop P E (sw_respond W) actor s (sw_inputs W) = (Some (Ok Consumed), a, s', sent)"
    using outcome unfolding served_outcome_def by blast
  show ?thesis
    using consumed_share_delivered [OF lib envelope new loop] \<open>status = 0\<close> prepared code
    unfolding responded by blast
qed auto

end
