(* ===== verification/Sample_Receive.thy ===== *)
theory Sample_Receive
  imports Receive_Command Sample_Transfer
begin

text \<open>
  One concrete use of the receiving commands, on the reference primitives and the RFC 8949 codec,
  and the instances of their properties at it: a share of \<open>sample_update\<close> under a printed code, a
  receiver that knows the sender's peer and address or discovers them, and a working file system.
\<close>

definition sample_share :: share_code where
  "sample_share = \<lparr>secret = replicate 20 171\<rparr>"

definition sample_code :: bytes where
  "sample_code = display (sha256 reference_primitives) sample_share"

definition update_envelope :: SecretEnvelope where
  "update_envelope = sample_envelope\<lparr>env_payload := sample_update\<rparr>"

definition share_root :: DerivedRoot where
  "share_root = projr (derive_root reference_primitives (secret sample_share) sample_net)"

definition sample_route :: multiaddr where
  "sample_route = [P2p [7], P2pCircuit, P2p sample_sender]"

definition receiver_world ::
  "(TransferRequest \<Rightarrow> (NetworkError, TransferResponse) result) \<Rightarrow> receive_world" where
  "receiver_world answers = \<lparr>rw_peer = sample_receiver, rw_peer_from_str = (\<lambda>_. Some sample_sender),
     rw_multiaddr = (\<lambda>_. Some sample_route), rw_lookup_host = (\<lambda>_. None), rw_to_string = (\<lambda>_. []),
     rw_driver_started = True,
     rw_request = (\<lambda>peer address. if peer = sample_sender \<and> address = sample_route then answers
       else (\<lambda>_. Err Net_Dial)),
     rw_discover = (\<lambda>_ _ _. Ok ()),
     rw_events = (\<lambda>_. [LanDiscovered [\<lparr>dp_peer = sample_sender, dp_addresses = [sample_route]\<rparr>]]),
     rw_nonce = (\<lambda>_. Some sample_nonce), rw_stopped = True\<rparr>"

definition sample_connection :: "bytes option \<Rightarrow> ConnectionArgs" where
  "sample_connection known = \<lparr>ca_code = None, ca_code_stdin = True, ca_peer = known, ca_address = known,
     ca_discovery = \<lparr>rd_nodes = [], rd_mdns = True, rd_lan = False, rd_relay_only = True\<rparr>,
     ca_network = Some sample_net\<rparr>"

lemma receiver_world_fields:
  "rw_stopped (receiver_world answers)" "rw_request (receiver_world answers) sample_sender sample_route = answers"
    "rw_driver_started (receiver_world answers)" "rw_peer (receiver_world answers) = sample_receiver"
    "rw_nonce (receiver_world answers) n = Some sample_nonce"
  by (simp_all add: receiver_world_def)

lemma sample_connection_fields:
  "rd_relay_only (ca_discovery (sample_connection known))" "ca_peer (sample_connection known) = known"
  "ca_address (sample_connection known) = known" "ca_network (sample_connection known) = Some sample_net"
  by (simp_all add: sample_connection_def)

lemma sample_peers_differ: "sample_sender \<noteq> sample_receiver"
  by (simp add: sample_sender_def sample_receiver_def)

lemma sample_code_parses:
  "from_str (sha256 reference_primitives) (trim sample_code) = Ok sample_share"
  unfolding sample_code_def
  by (rule printed_code_parses) (simp add: wf_share_code_def sample_share_def SECRET_BYTES_def)

lemma share_root_ready:
  "derive_root reference_primitives (secret sample_share) sample_net = Ok share_root"
  "transfer_ready share_root sample_net sample_sender sample_receiver sample_nonce 10 1000 500"
proof -
  have "validate_network_id sample_net = Ok sample_net" using sample_ready by (simp add: transfer_ready_def)
  then obtain root where r: "derive_root reference_primitives (secret sample_share) sample_net = Ok root"
      "length (root_room_id root) = 16" "length (root_session_base_key root) = 32"
    by (rule ref.derive_root_ok)
  moreover have root: "share_root = root" by (simp add: share_root_def r)
  ultimately show "derive_root reference_primitives (secret sample_share) sample_net = Ok share_root"
    "transfer_ready share_root sample_net sample_sender sample_receiver sample_nonce 10 1000 500"
    using sample_ready by (simp_all add: transfer_ready_def)
qed

lemma update_envelope_wf: "wf_envelope update_envelope"
  using sample_envelope_wf sample_lengths(2)
  by (simp add: update_envelope_def wf_envelope_def MAX_PAYLOAD_BYTES_def)

text \<open>A sender behind the sample route, and what the receiver's exchange with it gives.\<close>

lemma sample_sender_ready:
  obtains a0 session req where
    "sender_new rfc8949 share_root sample_net sample_sender update_envelope 1000 500 = Ok a0"
    "receiver_new share_root sample_net sample_sender sample_receiver sample_nonce = Ok session"
    "open_request reference_primitives session = Ok req"
  using transfer_completes [OF rfc.cbor_lib_axioms ref.crypto_lib_axioms sample_entropy_ok
      update_envelope_wf share_root_ready(2)] by auto

lemma sample_exchange:
  obtains answers session v where
    "receiver_new share_root sample_net sample_sender sample_receiver sample_nonce = Ok session"
    "receive rfc8949 reference_primitives answers session = Ok v" "vo_envelope v = update_envelope"
    "acknowledge answers v = Ok update_envelope"
proof -
  obtain a0 session req where s:
    "sender_new rfc8949 share_root sample_net sample_sender update_envelope 1000 500 = Ok a0"
    "receiver_new share_root sample_net sample_sender sample_receiver sample_nonce = Ok session"
    "open_request reference_primitives session = Ok req" by (rule sample_sender_ready)
  show ?thesis
    by (rule served_by_transfers [OF rfc.cbor_lib_axioms ref.crypto_lib_axioms sample_entropy_ok
      update_envelope_wf share_root_ready(2) s]) (rule that [OF s(2)]; assumption)
qed

lemma sample_receives:
  assumes "receiver_new share_root sample_net sample_sender sample_receiver sample_nonce = Ok session"
    and "receive rfc8949 reference_primitives answers session = Ok v"
  shows "receive_direct_with_code rfc8949 reference_primitives (receiver_world answers)
      (sample_connection (Some [])) sample_code =
    Ok \<lparr>pd_peer = sample_sender, pd_address = sample_route, pd_verified = v\<rparr>"
  by (simp add: receive_direct_with_code_def sample_connection_def sample_code_parses share_root_ready(1)
      receiver_world_def receive_explicit_def receiver_session_def assms)

section \<open>The file\<close>

definition sample_receive :: ReceiveArgs where
  "sample_receive = \<lparr>ra_connection = sample_connection (Some []), ra_output = Some [Normal [2]],
     ra_mode = None, ra_force = False, ra_durable = True, ra_json = False\<rparr>"

definition empty_view :: destination_view where
  "empty_view = \<lparr>dv_exists = \<lambda>_. Some False, dv_kind = \<lambda>_. None\<rparr>"

definition saved_states :: "fs list" where
  "saved_states = snd (write_private_atomic sample_output_system Map.empty [Normal [2]] sample_update
     \<lparr>po_replace = False, po_durable = True\<rparr>)"

lemma sample_plan:
  "resolve_output_plan empty_view False [] sample_receive =
     Ok \<lparr>op_destination = [Normal [2]], op_action = CreateOutput\<rparr>"
  by (simp add: resolve_output_plan_def sample_receive_def resolve_destination.simps empty_view_def)

lemma sample_write:
  "write_private_atomic sample_output_system Map.empty [Normal [2]] sample_update
     \<lparr>po_replace = False, po_durable = True\<rparr> = (Ok (), saved_states)"
  "last saved_states = [[RootDir, Normal [2]] \<mapsto> Regular sample_update PRIVATE_MODE]"
  by (simp_all add: saved_states_def write_private_defs sample_output_system_def path_file_name_def
      validate_destination_def can_rename_def Let_def persist_def fun_eq_iff)

lemma sample_persists:
  "persist_received sample_dotenv (\<lambda>_. None) sample_output_system Map.empty
     \<lparr>op_destination = [Normal [2]], op_action = CreateOutput\<rparr> (env_payload update_envelope)
     (ra_durable sample_receive) = (Ok None, saved_states)"
  by (simp add: persist_received_def received_contents_def update_envelope_def sample_receive_def sample_write)

lemma sample_well_behaved:
  assumes "canonical_destination sample_output_system [Normal [2]] = Some target"
  shows "well_behaved sample_output_system Map.empty target"
  using assms
  by (auto simp: canonical_destination_def path_file_name_def sample_output_system_def well_behaved_def)

theorem receive_delivers_witness:
  "\<exists>answers ack. receive_execute rfc8949 reference_primitives (receiver_world answers) sample_dotenv (\<lambda>_. None)
      sample_output_system Map.empty empty_view False [] True (Ok sample_code) sample_receive =
      (Ok 0, map FileState saved_states @ [Acknowledged ack])
    \<and> last saved_states = [[RootDir, Normal [2]] \<mapsto> Regular sample_update PRIVATE_MODE]"
proof -
  obtain a0 session req where s:
    "sender_new rfc8949 share_root sample_net sample_sender update_envelope 1000 500 = Ok a0"
    "receiver_new share_root sample_net sample_sender sample_receiver sample_nonce = Ok session"
    "open_request reference_primitives session = Ok req" by (rule sample_sender_ready)
  let ?answers = "served_by reference_primitives sample_entropy a0 0 sample_receiver 10 req"
  have "\<exists>ack offer a1 s1 resp a2. receive_execute rfc8949 reference_primitives (receiver_world ?answers)
      sample_dotenv (\<lambda>_. None) sample_output_system Map.empty empty_view False [] True (Ok sample_code)
      sample_receive = (Ok 0, map FileState saved_states @ [Acknowledged ack]) \<and>
      answer_request reference_primitives sample_entropy a0 sample_receiver (ROpen req) 10 0 =
        (ROffer offer, a1, s1) \<and>
      handle_acknowledgement a1 sample_receiver ack = (Ok resp, a2) \<and> sa_state a2 = Consumed \<and> wiped a2"
    by (rule receive_delivers [OF rfc.cbor_lib_axioms ref.crypto_lib_axioms sample_entropy_ok
          update_envelope_wf share_root_ready(2) s sample_code_parses share_root_ready(1), where p = "[]" and
          ad = "[]" and addr = sample_route and plan = "\<lparr>op_destination = [Normal [2]], op_action = CreateOutput\<rparr>"
          and summary = None])
      (simp_all add: receiver_world_def sample_plan sample_persists, simp_all add: sample_receive_def sample_connection_def)
  then show ?thesis using sample_write(2) by blast
qed

theorem receive_persists_before_acknowledging_witness:
  "\<exists>answers ack trace. receive_execute rfc8949 reference_primitives (receiver_world answers) sample_dotenv
      (\<lambda>_. None) sample_output_system Map.empty empty_view False [] True (Ok sample_code) sample_receive =
      (Ok 0, trace) \<and> Acknowledged ack \<in> set trace"
proof -
  obtain answers session v where x:
    "receiver_new share_root sample_net sample_sender sample_receiver sample_nonce = Ok session"
    "receive rfc8949 reference_primitives answers session = Ok v" "vo_envelope v = update_envelope"
    "acknowledge answers v = Ok update_envelope" by (rule sample_exchange)
  let ?run = "receive_execute rfc8949 reference_primitives (receiver_world answers) sample_dotenv
      (\<lambda>_. None) sample_output_system Map.empty empty_view False [] True (Ok sample_code) sample_receive"
  obtain result trace where run: "?run = (result, trace)" by fastforce
  have connection: "ra_connection sample_receive = sample_connection (Some [])" by (simp add: sample_receive_def)
  have "result = Ok 0"
    using run by (simp add: receive_execute_def sample_code_parses sample_plan connection sample_receives [OF x(1,2)]
        x(3) sample_persists acknowledge_pending_def Let_def receiver_world_fields x(4))
  moreover have wb: "well_behaved sample_output_system Map.empty target"
    if "resolve_output_plan empty_view False [] sample_receive = Ok plan"
      "canonical_destination sample_output_system (op_destination plan) = Some target" for plan target
    using that sample_well_behaved sample_plan by auto
  moreover have "result = Ok 0 \<longrightarrow> (\<exists>ack. Acknowledged ack \<in> set trace)"
    by (rule receive_persists_before_acknowledging [OF run, THEN conjunct2, THEN conjunct1], rule wb)
  ultimately show ?thesis using run by blast
qed

section \<open>The child\<close>

definition run_arguments :: RunArgs where
  "run_arguments = \<lparr>run_connection = sample_connection (Some []), run_override = True, run_clean_env = False,
     run_strict = False, run_command = [[97], [98]]\<rparr>"

theorem run_starts_before_acknowledging_witness:
  "\<exists>answers ack. run_execute rfc8949 reference_primitives (receiver_world answers) sample_dotenv
      (\<lambda>_ _ _. Some (Ok (Exited 3))) [ascii ''B'' \<mapsto> ascii ''0''] (Ok sample_code) run_arguments =
    (Ok 3, [Spawned [97] [[98]] [ascii ''B'' \<mapsto> ascii ''3'', ascii ''C'' \<mapsto> ascii ''4''], Acknowledged ack])"
proof -
  obtain answers session v where x:
    "receiver_new share_root sample_net sample_sender sample_receiver sample_nonce = Ok session"
    "receive rfc8949 reference_primitives answers session = Ok v" "vo_envelope v = update_envelope"
    "acknowledge answers v = Ok update_envelope" by (rule sample_exchange)
  let ?run = "run_execute rfc8949 reference_primitives (receiver_world answers) sample_dotenv
      (\<lambda>_ _ _. Some (Ok (Exited 3))) [ascii ''B'' \<mapsto> ascii ''0''] (Ok sample_code) run_arguments"
  obtain result trace where run: "?run = (result, trace)" by fastforce
  have fields: "run_connection run_arguments = sample_connection (Some [])" "run_command run_arguments = [[97], [98]]"
    "\<not> run_strict run_arguments" "\<not> run_clean_env run_arguments" "run_override run_arguments"
    by (simp_all add: run_arguments_def)
  have payload: "env_payload update_envelope = sample_update" by (simp add: update_envelope_def)
  have ok: "result = Ok 3"
    using run by (simp add: run_execute_def fields sample_receives [OF x(1,2)] x(3) payload sample_environments(2)
        spawn_child_def acknowledge_pending_def Let_def receiver_world_fields x(4))
  have neq: "ascii ''B'' \<noteq> ascii ''C''" by (simp add: ascii_def)
  have "trace = [Spawned [97] [[98]] [ascii ''B'' \<mapsto> ascii ''3'', ascii ''C'' \<mapsto> ascii ''4''],
      Acknowledged (vo_acknowledgement v)]"
    using run_starts_before_acknowledging [OF run] ok
    by (auto simp: fields sample_receives [OF x(1,2)] x(3) payload sample_environments(2) fun_upd_twist [OF neq])
  then show ?thesis using run ok by blast
qed

section \<open>Discovery\<close>

lemma sample_routes:
  "discover_routes (receiver_world answers) (sample_connection None) ns RelayOnly =
     Ok [\<lparr>rc_peer = sample_sender, rc_address = sample_route, rc_kind = Relay\<rparr>]"
  by (simp add: discover_routes_def sample_connection_def receiver_world_def candidate_set_new_def
      candidate_policy_default_def insert_resolved_def resolve_discovered_peer_def resolve_def candidate_insert_def
      map_filter_simps
      sample_route_def classify_address_def into_ranked_def routes_of_def Let_def)

theorem relay_only_receive_witness:
  "\<exists>answers v. receive_direct_with_code rfc8949 reference_primitives
      ((receiver_world answers)\<lparr>rw_request := \<lambda>peer address. if P2pCircuit \<in> set address
        then rw_request (receiver_world answers) peer address else (\<lambda>_. Err Net_Busy)\<rparr>)
      (sample_connection None) sample_code =
    Ok \<lparr>pd_peer = sample_sender, pd_address = sample_route, pd_verified = v\<rparr>"
proof -
  obtain answers session v where x:
    "receiver_new share_root sample_net sample_sender sample_receiver sample_nonce = Ok session"
    "receive rfc8949 reference_primitives answers session = Ok v" by (rule sample_exchange)
  have "receive_direct_with_code rfc8949 reference_primitives (receiver_world answers) (sample_connection None)
      sample_code = Ok \<lparr>pd_peer = sample_sender, pd_address = sample_route, pd_verified = v\<rparr>"
    by (simp add: receive_direct_with_code_def sample_connection_fields sample_code_parses share_root_ready(1)
        receiver_world_fields receive_privacy_def sample_routes receiver_session_def x sample_peers_differ)
  then show ?thesis
    using sample_connection_fields relay_only_receive [of "sample_connection None" "\<lambda>peer address. if P2pCircuit \<in> set address
        then rw_request (receiver_world answers) peer address else (\<lambda>_. Err Net_Busy)" "receiver_world answers"
        rfc8949 reference_primitives sample_code] by auto
qed

end
