(* ===== verification/Sample_Send.thy ===== *)
theory Sample_Send
  imports Send_Command Sample_Receive
begin

text \<open>
  One concrete use of the sending command: a relay-only share of a small file under the sample
  code, registered at one discovery node and consumed by one receiver, and the instances of the
  command's properties at it.
\<close>

definition sample_relay :: DiscoveryNode where
  "sample_relay = \<lparr>node_peer = [7], node_address = [Tcp 4001]\<rparr>"

definition sample_node :: DiscoveryNode where
  "sample_node = \<lparr>node_peer = [8], node_address = [Tcp 4001]\<rparr>"

definition sample_send :: SendArgs where
  "sample_send = \<lparr>send_input = Some [Normal [1]], send_expires = Some (secs 60), send_keys = [],
     send_allow_missing_keys = False, send_network = Some sample_net, send_listen = [],
     send_discovery = \<lparr>sd_nodes = [sample_node], sd_relays = [sample_relay], sd_mdns = False,
       sd_relay_only = True, sd_require_relay = True\<rparr>,
     send_code_only = False, send_json = True, send_verbose = False\<rparr>"

definition sender_world :: "loop_input list \<Rightarrow> send_world" where
  "sender_world inputs = \<lparr>
     sw_files = \<lparr>sf_stdin = \<lambda>_. None, sf_open = \<lambda>_. Some (Some True, reading_from sample_update)\<rparr>,
     sw_choose_input = Err invalid_config, sw_unix_ms = Some 5, sw_fill = \<lambda>n. Some (replicate n 171),
     sw_peer = sample_sender, sw_driver_started = True, sw_multiaddr = \<lambda>_. None,
     sw_listen = \<lambda>_. Ok (),
     sw_arrivals = [Arrives (RelayReservation [7] False),
       Arrives (Listening (circuit_listen_address sample_relay)), Arrives (DiscoveryRegistered [8] 60)],
     sw_add_address = \<lambda>_. Ok (), sw_register = \<lambda>_ _ _ _. Ok (), sw_shown = True, sw_flushed = True,
     sw_now = 0, sw_inputs = inputs, sw_respond = \<lambda>_ _. True, sw_interrupt = True, sw_renewals = 0,
     sw_stopped = True, sw_closed = True\<rparr>"

definition sent_envelope :: SecretEnvelope where
  "sent_envelope = \<lparr>env_content_type = DotenvRaw, env_suggested_name = None, env_created_at_unix_ms = 5,
     env_expires_at_unix_ms = 60005, env_payload = sample_update\<rparr>"

abbreviation "relay_route \<equiv> canonical_relay_route sample_relay sample_sender"

lemma sample_envelope_prepared:
  "prepare_envelope sample_dotenv (sender_world inputs) sample_send [Normal [1]] (secs 60) = Ok sent_envelope"
proof -
  have "read_sender_input (sw_files (sender_world inputs)) [Normal [1]] = Ok sample_update"
    using sample_lengths(2)
    by (simp add: read_sender_input_def sender_world_def ascii_def read_bounded_content MAX_PAYLOAD_BYTES_def
        usize_max_def)
  moreover have "envelope_new DotenvRaw None 5 60005 sample_update = Ok sent_envelope"
    using sample_lengths(2) by (simp add: envelope_new_def sent_envelope_def MAX_PAYLOAD_BYTES_def)
  ultimately show ?thesis
    by (simp add: prepare_envelope_def sample_send_def sender_world_def as_millis_def secs_def)
qed

lemma sample_share_prepared:
  "prepare_share reference_primitives sample_dotenv (sender_world inputs) sample_send =
     Ok (secs 60, sample_net, sent_envelope, sample_share, share_root)"
proof -
  have "generate (sw_fill (sender_world inputs)) = Ok sample_share"
    by (simp add: generate_def sender_world_def sample_share_def SECRET_BYTES_def)
  moreover have "send_expires sample_send = Some (secs 60)" "send_network sample_send = Some sample_net"
      "send_input sample_send = Some [Normal [1]]" "secs 60 \<noteq> 0"
    by (simp_all add: sample_send_def secs_def)
  ultimately show ?thesis
    by (simp add: prepare_share_def sample_envelope_prepared share_root_ready(1))
qed

lemma sample_reachable:
  "start_reachable_network (sender_world inputs) sample_send =
     (Ok [relay_route], [ListenOn (circuit_listen_address sample_relay),
        RemoveAddress (circuit_listen_address sample_relay)], [Arrives (DiscoveryRegistered [8] 60)])"
  by (simp add: start_reachable_network_def listen_directly_def sample_send_def sender_world_def
      reserve_relays_def Let_def sample_relay_def circuit_listen_address_def canonical_relay_route_def
      relay_peer_from_circuit_def)

lemma sample_establishes:
  "establish_public_reachability (sender_world inputs) sample_send [relay_route] ns
     [Arrives (DiscoveryRegistered [8] 60)] = (Ok (Some 60), [AddAddress relay_route, RegisterAt [8] (Ok ())])"
  by (simp add: establish_public_reachability_def sample_send_def sender_world_def Let_def
      dispatch_registration_def sample_node_def registration_ttl_def secs_def wait_for_public_registration_def)

lemma sent_envelope_wf: "wf_envelope sent_envelope"
  using sample_lengths(2) by (simp add: wf_envelope_def sent_envelope_def MAX_PAYLOAD_BYTES_def)

lemma sample_send_ready:
  "transfer_ready share_root sample_net sample_sender sample_receiver sample_nonce 10 (secs 60) (secs 30)"
  using share_root_ready(2) by (simp add: transfer_ready_def secs_def INSTANT_MAX_def)

lemma sample_service:
  obtains actor inputs a s' offer d where
    "sender_new rfc8949 share_root sample_net sample_sender sent_envelope (secs 60) (secs 30) = Ok actor"
    "direct_loop reference_primitives sample_entropy (\<lambda>_ _. True) actor 0 inputs =
       (Some (Ok Consumed), a, s', [(1, ROffer offer), (2, RCompleted d)])"
proof -
  obtain actor req offer a1 s' d a and v :: VerifiedOffer where t:
    "sender_new rfc8949 share_root sample_net sample_sender sent_envelope (secs 60) (secs 30) = Ok actor"
    "handle_open reference_primitives sample_entropy actor sample_receiver req 10 0 = (Ok offer, a1, s')"
    "sa_state a1 = Disclosed"
    "handle_acknowledgement a1 sample_receiver (vo_acknowledgement v) = (Ok d, a)" "sa_state a = Consumed"
    using transfer_completes [OF rfc.cbor_lib_axioms ref.crypto_lib_axioms sample_entropy_ok
        sent_envelope_wf sample_send_ready] by auto
  let ?in = "[Received (Some (InboundRequest sample_receiver 1 (ROpen req))) 10,
    Received (Some (InboundRequest sample_receiver 2 (RAcknowledge (vo_acknowledgement v)))) 11]"
  have "direct_loop reference_primitives sample_entropy (\<lambda>_ _. True) actor 0 ?in =
      (Some (Ok Consumed), a, s', [(1, ROffer offer), (2, RCompleted d)])"
    using t by (simp add: handle_event_def terminal_def)
  with t(1) show ?thesis by (rule that)
qed

text \<open>The whole run.\<close>

lemma sample_sent:
  obtains inputs offer d maintained where
    "send_execute rfc8949 reference_primitives sample_entropy sample_dotenv (sender_world inputs) 0 sample_send =
       (Ok 0, [ListenOn (circuit_listen_address sample_relay), RemoveAddress (circuit_listen_address sample_relay),
          AddAddress relay_route, RegisterAt [8] (Ok ()), ShowAddress sample_sender relay_route,
          ShowCode sample_code, Responded (1, ROffer offer), Responded (2, RCompleted d)] @
          map Maintained maintained)"
proof -
  obtain actor inputs a s' offer d where t:
    "sender_new rfc8949 share_root sample_net sample_sender sent_envelope (secs 60) (secs 30) = Ok actor"
    "direct_loop reference_primitives sample_entropy (\<lambda>_ _. True) actor 0 inputs =
       (Some (Ok Consumed), a, s', [(1, ROffer offer), (2, RCompleted d)])" by (rule sample_service)
  have emit: "emit_ready (sender_world inputs) sample_send (display (sha256 reference_primitives) sample_share)
      (hd [relay_route]) = (Ok (), [ShowAddress sample_sender relay_route, ShowCode sample_code])"
    by (simp add: emit_ready_def sample_send_def sender_world_def sample_code_def)
  have world: "sw_flushed (sender_world inputs)" "sw_stopped (sender_world inputs)" "sw_now (sender_world inputs) = 0"
      "sw_peer (sender_world inputs) = sample_sender" "sw_closed (sender_world inputs)"
    by (simp_all add: sender_world_def)
  have new: "bind_res (ok_or Core_Configuration (instant_checked_add 0 (secs 60)))
      (\<lambda>deadline. sender_new rfc8949 share_root sample_net sample_sender sent_envelope deadline (secs 30)) = Ok actor"
    using t(1) by (simp add: instant_checked_add_def secs_def INSTANT_MAX_def)
  have serve: "serve_share reference_primitives sample_entropy (sender_world inputs) actor 0 =
      (Ok Consumed, [(1, ROffer offer), (2, RCompleted d)])"
    using t(2) by (simp add: serve_share_def sender_world_def)
  show ?thesis
    by (rule that [of inputs offer d "maintain_registrations (sd_nodes (send_discovery sample_send))
          (from_room_id (root_room_id share_root)) 60 4 (sw_renewals (sender_world inputs))"])
      (simp add: send_execute_def sample_share_prepared sample_reachable sample_establishes emit [simplified]
        new serve world Let_def)
qed

theorem relay_only_share_witness:
  "\<exists>inputs trace. send_execute rfc8949 reference_primitives sample_entropy sample_dotenv (sender_world inputs) 0
      sample_send = (Ok 0, trace) \<and> ShowAddress sample_sender relay_route \<in> set trace \<and>
    list_all (through_relay sample_sender [sample_relay]) trace"
proof -
  obtain inputs offer d maintained where run:
    "send_execute rfc8949 reference_primitives sample_entropy sample_dotenv (sender_world inputs) 0 sample_send =
       (Ok 0, [ListenOn (circuit_listen_address sample_relay), RemoveAddress (circuit_listen_address sample_relay),
          AddAddress relay_route, RegisterAt [8] (Ok ()), ShowAddress sample_sender relay_route,
          ShowCode sample_code, Responded (1, ROffer offer), Responded (2, RCompleted d)] @
          map Maintained maintained)" (is "_ = (_, ?trace)") by (rule sample_sent)
  have "sd_relay_only (send_discovery sample_send)" "sd_relays (send_discovery sample_send) = [sample_relay]"
    "sw_peer (sender_world inputs) = sample_sender" by (simp_all add: sample_send_def sender_world_def)
  with relay_only_share [OF run] have "list_all (through_relay sample_sender [sample_relay]) ?trace"
    by metis
  moreover have "ShowAddress sample_sender relay_route \<in> set ?trace" by simp
  ultimately show ?thesis using run by blast
qed

theorem send_shows_code_when_reachable_witness:
  "\<exists>inputs trace. send_execute rfc8949 reference_primitives sample_entropy sample_dotenv (sender_world inputs) 0
      sample_send = (Ok 0, trace) \<and> ShowCode sample_code \<in> set trace \<and>
    (\<exists>peer. RegisterAt peer (Ok ()) \<in> set trace)"
proof -
  obtain inputs offer d maintained where run:
    "send_execute rfc8949 reference_primitives sample_entropy sample_dotenv (sender_world inputs) 0 sample_send =
       (Ok 0, [ListenOn (circuit_listen_address sample_relay), RemoveAddress (circuit_listen_address sample_relay),
          AddAddress relay_route, RegisterAt [8] (Ok ()), ShowAddress sample_sender relay_route,
          ShowCode sample_code, Responded (1, ROffer offer), Responded (2, RCompleted d)] @
          map Maintained maintained)" (is "_ = (_, ?trace)") by (rule sample_sent)
  have "sd_nodes (send_discovery sample_send) \<noteq> []" by (simp add: sample_send_def)
  moreover have shown: "ShowCode sample_code \<in> set ?trace" by simp
  ultimately obtain before after where "?trace = before @ after" "\<exists>peer. RegisterAt peer (Ok ()) \<in> set before"
    using send_shows_code_when_reachable [OF run shown] by blast
  then have "\<exists>peer. RegisterAt peer (Ok ()) \<in> set ?trace" by auto
  with run shown show ?thesis by blast
qed

theorem send_success_means_delivered_witness:
  "\<exists>inputs trace offer session envelope acknowledgement i. send_execute rfc8949 reference_primitives
      sample_entropy sample_dotenv (sender_world inputs) 0 sample_send = (Ok 0, trace) \<and>
    Responded (i, ROffer offer) \<in> set trace \<and>
    verify_offer rfc8949 reference_primitives session offer =
      Ok \<lparr>vo_envelope = envelope, vo_acknowledgement = acknowledgement\<rparr>"
proof -
  obtain inputs trace where run: "send_execute rfc8949 reference_primitives sample_entropy sample_dotenv
      (sender_world inputs) 0 sample_send = (Ok 0, trace)" using sample_sent by metis
  from send_success_means_delivered [OF rfc.cbor_lib_axioms ref.crypto_lib_axioms run] run
  show ?thesis by blast
qed

theorem prepared_envelope_witness:
  "unat (env_expires_at_unix_ms sent_envelope) = 5 + 60000 \<and> env_payload sent_envelope = sample_update"
  using prepared_envelope [OF sample_envelope_prepared [of "[]"]]
  by (simp add: sent_envelope_def secs_def sender_world_def)

end
