(* ===== verification/Presentation.thy ===== *)
theory Presentation
  imports Receive_Command "HOL-Library.Product_Lexorder"
begin

text \<open>
  Prompts and terminal output of the client, \<^verbatim>\<open>cli/src/presentation.rs\<close>. The terminal library is
  outside: a prompt is a function from what it shows (and the validation it repeats the prompt
  for) to the answer or its failure, and \<open>tw_draws\<close> says whether drawing on the terminal works.
  What is shown is a trace. Directory entries are what reading the directory gives, in its order;
  an entry that cannot be read is absent.
\<close>

datatype prompt_failure = PromptInterrupted | PromptOther

record dir_entry =
  de_name :: bytes
  de_is_file :: "bool option"

record terminal_world =
  tw_stdin_terminal :: bool
  tw_stderr_terminal :: bool
  tw_read_dir :: "dir_entry option list option"
  tw_select :: "string \<Rightarrow> bytes list \<Rightarrow> (prompt_failure, nat) result"
  tw_input :: "string \<Rightarrow> string \<Rightarrow> (bytes \<Rightarrow> bool) \<Rightarrow> (prompt_failure, bytes) result"
  tw_password :: "string \<Rightarrow> (bytes \<Rightarrow> bool) \<Rightarrow> (prompt_failure, bytes) result"
  tw_draws :: bool

definition tw_interactive :: "terminal_world \<Rightarrow> bool" where
  "tw_interactive T \<longleftrightarrow> tw_stdin_terminal T \<and> tw_stderr_terminal T"

fun prompt_error :: "prompt_failure \<Rightarrow> CliFailure" where
  "prompt_error PromptInterrupted = cli_failure Interrupted ''interrupted''"
| "prompt_error PromptOther = cli_failure Usage ''interactive prompt failed''"

definition output_error :: CliFailure where
  "output_error = cli_failure Output ''terminal output failed''"

section \<open>Paths\<close>

text \<open>\<^verbatim>\<open>PathBuf::from\<close>, with the components that \<^verbatim>\<open>Path\<close> distinguishes.\<close>

fun split_slashes :: "bytes \<Rightarrow> bytes list" where
  "split_slashes [] = [[]]"
| "split_slashes (b # s) =
     (if b = 47 then [] # split_slashes s
      else case split_slashes s of part # parts \<Rightarrow> (b # part) # parts | [] \<Rightarrow> [[b]])"

definition path_component_of :: "bytes \<Rightarrow> path_component list" where
  "path_component_of part =
     (if part = [] \<or> part = [46] then [] else if part = [46, 46] then [ParentDir] else [Normal part])"

definition path_of_text :: "bytes \<Rightarrow> path" where
  "path_of_text s =
     (if take 1 s = [47] then [RootDir] else if hd (split_slashes s) = [46] then [CurDir] else [])
     @ concat (map path_component_of (split_slashes s))"

text \<open>\<^verbatim>\<open>Path::extension\<close> of a file name: after the last dot, unless nothing is before it.\<close>

definition path_extension :: "bytes \<Rightarrow> bytes option" where
  "path_extension name =
     (let after = rev (takeWhile (\<lambda>b. b \<noteq> 46) (rev name));
          before = butlast (rev (dropWhile (\<lambda>b. b \<noteq> 46) (rev name)))
      in if name = [46, 46] \<or> 46 \<notin> set name \<or> before = [] then None else Some after)"

section \<open>Environment files of the directory\<close>

text \<open>The name of a path as text, where it is UTF-8.\<close>

definition file_name_str :: "path \<Rightarrow> bytes option" where
  "file_name_str path =
     Option.bind (path_file_name path) (\<lambda>name. if utf8_valid name then Some name else None)"

definition looks_like_dotenv :: "path \<Rightarrow> bool" where
  "looks_like_dotenv path =
     (case file_name_str path of
        None \<Rightarrow> False
      | Some name \<Rightarrow>
          name = ascii ''.env''
          \<or> take 5 name = ascii ''.env.''
          \<or> (case path_extension name of
               Some extension \<Rightarrow> map to_ascii_uppercase extension = ascii ''ENV''
             | None \<Rightarrow> False))"

definition dotenv_rank :: "path \<Rightarrow> nat \<times> bytes" where
  "dotenv_rank path =
     (let name = (case file_name_str path of Some name \<Rightarrow> name | None \<Rightarrow> []) in
      (if name = ascii ''.env'' then 0 else if name = ascii ''.env.local'' then 1 else 2, name))"

definition dotenv_candidates :: "dir_entry option list option \<Rightarrow> (CliFailure, path list) result" where
  "dotenv_candidates entries =
     bind_res (ok_or (cli_failure Output ''could not inspect the current directory'') entries) (\<lambda>entries.
     Ok (sort_key dotenv_rank (filter looks_like_dotenv
       (map (\<lambda>entry. [Normal (de_name entry)])
         (filter (\<lambda>entry. de_is_file entry = Some True) (List.map_filter id entries))))))"

section \<open>Prompts\<close>

definition prompt_path :: "terminal_world \<Rightarrow> string \<Rightarrow> string \<Rightarrow> (CliFailure, path) result" where
  "prompt_path T prompt default_input =
     bind_res (map_err prompt_error (tw_input T prompt default_input (\<lambda>v. trim v \<noteq> []))) (\<lambda>v.
     Ok (path_of_text (trim v)))"

text \<open>The bytes of a path of one file name, as its label shows them.\<close>

definition path_label :: "path \<Rightarrow> bytes" where
  "path_label path = (case path_file_name path of Some name \<Rightarrow> name | None \<Rightarrow> [])"

definition choose_sender_input :: "terminal_world \<Rightarrow> (CliFailure, path) result" where
  "choose_sender_input T =
     (if \<not> tw_interactive T then Err (cli_failure Usage
        ''input file is required when not running in an interactive terminal'') else
      bind_res (dotenv_candidates (tw_read_dir T)) (\<lambda>candidates.
      if candidates = [] then prompt_path T ''Path to environment file'' ''.env'' else
      bind_res (map_err prompt_error (tw_select T ''Choose an environment file''
          (map path_label candidates @ [ascii ''Enter another path'']))) (\<lambda>i.
      if i < length candidates then Ok (candidates ! i)
      else prompt_path T ''Path to environment file'' ''.env'')))"

definition prompt_share_code :: "(bytes \<Rightarrow> bytes) \<Rightarrow> terminal_world \<Rightarrow> (CliFailure, bytes) result" where
  "prompt_share_code sha T =
     map_err prompt_error (tw_password T ''Enter share code'' (\<lambda>v. is_ok (from_str sha (trim v))))"

definition prompt_new_destination :: "terminal_world \<Rightarrow> (CliFailure, path) result" where
  "prompt_new_destination T = prompt_path T ''Save as'' ''.env.shared''"

text \<open>
  The question about an existing destination, with the prompt for another one that
  \<^verbatim>\<open>resolve_destination\<close> asks after \<^verbatim>\<open>SaveElsewhere\<close>; the items are in the order shown.
\<close>

definition choose_existing_destination ::
  "terminal_world \<Rightarrow> string \<Rightarrow> (CliFailure, ExistingDestinationChoice) result" where
  "choose_existing_destination T destination =
     bind_res (map_err prompt_error (tw_select T (destination @ '' already exists'')
       (map ascii [''Merge'', ''Add missing keys'', ''Create a new file'', ''Replace file'', ''Cancel'']))) (\<lambda>i.
     Ok ([ChooseMerge, ChooseAppendMissing, ChooseElsewhere (prompt_new_destination T), ChooseReplace,
          ChooseCancel] ! i))"

section \<open>Output\<close>

datatype shown =
    StdoutLine bytes
  | TerminalIntro string
  | TerminalNote string bytes
  | TerminalSpinner bytes
  | SpinnerStop string
  | SpinnerCancel string
  | TerminalOutro string

text \<open>The view is whether it has a spinner.\<close>

definition show_share :: "terminal_world \<Rightarrow> bytes \<Rightarrow> (CliFailure, bool) result \<times> shown list" where
  "show_share T code =
     (if \<not> tw_stderr_terminal T then (Ok False, [StdoutLine (ascii ''Share code: '' @ code)])
      else if \<not> tw_draws T then (Err output_error, [])
      else (Ok True, [TerminalIntro ''Envshare'', TerminalNote ''Share code'' code,
        TerminalSpinner (ascii ''Waiting for receiver'' @ [0xE2, 0x80, 0xA6])]))"

definition view_consumed :: "terminal_world \<Rightarrow> bool \<Rightarrow> (CliFailure, unit) result \<times> shown list" where
  "view_consumed T spinner =
     (if spinner then
        (if tw_draws T then (Ok (), [SpinnerStop ''Environment received'', TerminalOutro ''Share completed''])
         else (Err output_error, [SpinnerStop ''Environment received'']))
      else (Ok (), [StdoutLine (ascii ''Share consumed.'')]))"

definition view_cancel :: "bool \<Rightarrow> string \<Rightarrow> shown list" where
  "view_cancel spinner message = (if spinner then [SpinnerCancel message] else [])"

definition show_receive_success ::
  "terminal_world \<Rightarrow> string \<Rightarrow> (CliFailure, unit) result \<times> shown list" where
  "show_receive_success T message =
     (if tw_stderr_terminal T then
        (if tw_draws T then (Ok (), [TerminalOutro message]) else (Err output_error, []))
      else (Ok (), [StdoutLine (ascii message)]))"

section \<open>Properties\<close>

lemma dotenv_candidates_Ok:
  "dotenv_candidates entries = Ok candidates \<longleftrightarrow> (\<exists>es. entries = Some es \<and>
     candidates = sort_key dotenv_rank (filter looks_like_dotenv (map (\<lambda>e. [Normal (de_name e)])
       (filter (\<lambda>e. de_is_file e = Some True) (List.map_filter id es)))))"
  by (cases entries) (auto simp: dotenv_candidates_def)

lemma map_filter_id: "set (List.map_filter id es) = {e. Some e \<in> set es}"
  by (auto simp: List.map_filter_def) force

lemma dotenv_candidates_set:
  assumes "dotenv_candidates (Some es) = Ok candidates"
  shows "set candidates = {[Normal (de_name e)] | e. Some e \<in> set es \<and> de_is_file e = Some True
    \<and> looks_like_dotenv [Normal (de_name e)]}"
  using assms by (auto simp: dotenv_candidates_Ok map_filter_id)

lemma dotenv_candidates_sorted:
  "dotenv_candidates (Some es) = Ok candidates \<Longrightarrow> sorted (map dotenv_rank candidates)"
  by (auto simp: dotenv_candidates_Ok)

lemma dotenv_first: "dotenv_rank [Normal (ascii ''.env'')] = (0, ascii ''.env'')"
  by (simp add: dotenv_rank_def file_name_str_def path_file_name_def utf8_valid_def ascii_def)

lemma file_name_str_single: "file_name_str [Normal name] = (if utf8_valid name then Some name else None)"
  by (simp add: file_name_str_def path_file_name_def)

lemma dotenv_rank_zero:
  assumes "fst (dotenv_rank [Normal name]) = 0"
  shows "name = ascii ''.env''"
proof (rule ccontr)
  assume other: "name \<noteq> ascii ''.env''"
  show False
  proof (cases "utf8_valid name")
    case True
    then show False using assms other by (simp add: dotenv_rank_def file_name_str_single split: if_splits)
  next
    case False
    then show False using assms by (simp add: dotenv_rank_def file_name_str_single ascii_def)
  qed
qed

lemma dotenv_looks: "looks_like_dotenv [Normal (ascii ''.env'')]"
  by (simp add: looks_like_dotenv_def file_name_str_def path_file_name_def utf8_valid_def ascii_def)

lemma dotenv_candidates_first:
  assumes "dotenv_candidates (Some es) = Ok candidates"
    and "Some e \<in> set es" "de_name e = ascii ''.env''" "de_is_file e = Some True"
  shows "candidates \<noteq> [] \<and> hd candidates = [Normal (ascii ''.env'')]"
proof -
  have mem: "[Normal (ascii ''.env'')] \<in> set candidates"
    unfolding dotenv_candidates_set [OF assms(1)] mem_Collect_eq
    using dotenv_looks assms(2,4) by (intro exI [of _ e]) (simp add: assms(3))
  then obtain c cs where cs: "candidates = c # cs" by (cases candidates) auto
  then have "c \<in> set candidates" by simp
  then obtain name where name: "c = [Normal name]"
    unfolding dotenv_candidates_set [OF assms(1)] mem_Collect_eq by blast
  have "dotenv_rank c \<le> dotenv_rank [Normal (ascii ''.env'')]"
    using dotenv_candidates_sorted [OF assms(1)] mem cs by auto
  then have "fst (dotenv_rank c) = 0" by (simp add: dotenv_first less_eq_prod_def)
  then show ?thesis using dotenv_rank_zero name cs by auto
qed

text \<open>
  The files offered to the sender are the environment files of the directory, in a fixed order.
  They are exactly the regular files named \<^verbatim>\<open>.env\<close>, \<^verbatim>\<open>.env.*\<close> or \<^verbatim>\<open>*.env\<close> (no link, directory or
  unreadable entry), sorted by name after \<^verbatim>\<open>.env\<close> and \<^verbatim>\<open>.env.local\<close>, with \<^verbatim>\<open>.env\<close> first when there is
  one; the chosen input is one of them or a path that was typed and is not blank; and without an
  interactive terminal nothing is chosen.
\<close>
theorem offered_environment_files:
  assumes "dotenv_candidates (Some es) = Ok candidates"
  shows "set candidates = {[Normal (de_name e)] | e. Some e \<in> set es \<and> de_is_file e = Some True
      \<and> looks_like_dotenv [Normal (de_name e)]}
    \<and> sorted (map dotenv_rank candidates)
    \<and> (\<forall>e. Some e \<in> set es \<and> de_name e = ascii ''.env'' \<and> de_is_file e = Some True \<longrightarrow>
         candidates \<noteq> [] \<and> hd candidates = [Normal (ascii ''.env'')])
    \<and> (\<forall>T path. tw_read_dir T = Some es
         \<and> (\<forall>prompt shown ok v. tw_input T prompt shown ok = Ok v \<longrightarrow> ok v)
         \<and> choose_sender_input T = Ok path \<longrightarrow>
         tw_interactive T \<and> (path \<in> set candidates \<or> (\<exists>v. trim v \<noteq> [] \<and> path = path_of_text (trim v))))"
proof -
  have chosen: "tw_interactive T \<and> (path \<in> set candidates \<or> (\<exists>v. trim v \<noteq> [] \<and> path = path_of_text (trim v)))"
    if dir: "tw_read_dir T = Some es"
      and ok: "\<forall>prompt shown ok v. tw_input T prompt shown ok = Ok v \<longrightarrow> ok v"
      and path: "choose_sender_input T = Ok path" for T path
  proof -
    have typed: "\<exists>v. trim v \<noteq> [] \<and> path = path_of_text (trim v)" if "prompt_path T p d = Ok path" for p d
      using that ok unfolding prompt_path_def by (auto simp: result_simps) blast
    show ?thesis
      using path typed assms dir
      by (auto simp: choose_sender_input_def result_simps split: if_splits)
  qed
  show ?thesis
    using dotenv_candidates_set [OF assms] dotenv_candidates_sorted [OF assms]
      dotenv_candidates_first [OF assms] chosen by blast
qed

definition sample_directory :: "dir_entry option list" where
  "sample_directory = [Some \<lparr>de_name = ascii ''a.env'', de_is_file = Some True\<rparr>, None,
     Some \<lparr>de_name = ascii ''.env'', de_is_file = Some True\<rparr>,
     Some \<lparr>de_name = ascii ''readme'', de_is_file = Some True\<rparr>]"

theorem offered_environment_files_witness:
  "\<exists>candidates. dotenv_candidates (Some sample_directory) = Ok candidates \<and>
     hd candidates = [Normal (ascii ''.env'')]"
proof -
  obtain candidates where c: "dotenv_candidates (Some sample_directory) = Ok candidates"
    by (simp add: dotenv_candidates_def)
  have "Some \<lparr>de_name = ascii ''.env'', de_is_file = Some True\<rparr> \<in> set sample_directory"
    by (simp add: sample_directory_def)
  moreover have "\<forall>e. Some e \<in> set sample_directory \<and> de_name e = ascii ''.env'' \<and> de_is_file e = Some True \<longrightarrow>
      hd candidates = [Normal (ascii ''.env'')]"
    using offered_environment_files [OF c] by blast
  ultimately have "hd candidates = [Normal (ascii ''.env'')]" by (metis dir_entry.select_convs)
  then show ?thesis using c by blast
qed

end
