(* ===== verification/Doctor_Command.thy ===== *)
theory Doctor_Command
  imports Send_Command Node_Status
begin

text \<open>
  The diagnostic command, \<^verbatim>\<open>cli/src/commands/doctor.rs\<close>. The client's network is the one of the
  sending command, with its events in the order of a list; every route check starts a second,
  disposable network (a probe) whose events are interleaved with the client's by a schedule. What
  the command does to the outside is its trace, what it prints its report.
\<close>

record DoctorArgs =
  da_network :: "bytes option"
  da_json :: bool
  da_verbose :: bool

text \<open>What the select of a route check picks next: the client's channel, an event or the end of the
  probe's channel, or the deadline of five seconds.\<close>

datatype probe_pick = PickClient | PickProbe "NetworkEvent option" | PickDeadline

record probe =
  pr_started :: bool
  pr_peer :: peer_id
  pr_dialled :: bool
  pr_picks :: "probe_pick list"

record doctor_world =
  dw_clock_ok :: bool
  dw_random :: "nat \<Rightarrow> nat \<Rightarrow> bytes option"
  dw_temp_dir :: path
  dw_output :: output_system
  dw_removes :: bool
  dw_config :: config_world
  dw_client :: send_world
  dw_discover :: "peer_id \<Rightarrow> multiaddr \<Rightarrow> discovery_namespace \<Rightarrow> (NetworkError, unit) result"
  dw_probe :: "multiaddr \<Rightarrow> probe"
  dw_show_peer :: "peer_id \<Rightarrow> string"

datatype doctor_action =
    ClientAction send_action
  | ProbeDials multiaddr
  | DiscoverAt peer_id
  | UnregisterAt peer_id

definition network_failure :: CliFailure where
  "network_failure = cli_failure Network ''network diagnostics failed''"

section \<open>Local safety\<close>

definition check_clock :: "doctor_world \<Rightarrow> (CliFailure, unit) result" where
  "check_clock W =
     (if dw_clock_ok W then Ok () else Err (cli_failure Configuration ''local clock is invalid''))"

definition randomness_unavailable :: CliFailure where
  "randomness_unavailable = cli_failure Internal ''secure randomness unavailable''"

definition doctor_probe_path :: "doctor_world \<Rightarrow> bytes \<Rightarrow> path" where
  "doctor_probe_path W random =
     dw_temp_dir W @ [Normal (ascii ''envshare-doctor-'' @ concat (map hex_byte random))]"

text \<open>Removing the file; \<open>dw_removes\<close> says whether the system does.\<close>

definition remove_file :: "doctor_world \<Rightarrow> fs \<Rightarrow> path \<Rightarrow> (CliFailure, unit) result \<times> fs" where
  "remove_file W fs path =
     (case canonical_destination (dw_output W) path of
        Some target \<Rightarrow>
          if dw_removes W \<and> fs target \<noteq> None then (Ok (), fs(target := None))
          else (Err (cli_failure Output ''private output cleanup failed''), fs)
      | None \<Rightarrow> (Err (cli_failure Output ''private output cleanup failed''), fs))"

definition check_private_output :: "doctor_world \<Rightarrow> fs \<Rightarrow> (CliFailure, unit) result \<times> fs" where
  "check_private_output W fs =
     (case dw_random W 0 8 of
        None \<Rightarrow> (Err randomness_unavailable, fs)
      | Some random \<Rightarrow>
          (case write_private_atomic (dw_output W) fs (doctor_probe_path W random) (ascii ''doctor'')
                 \<lparr>po_replace = False, po_durable = False\<rparr> of
             (Inl e, states) \<Rightarrow> (Err (failure_of_core e), last states)
           | (Inr _, states) \<Rightarrow> remove_file W (last states) (doctor_probe_path W random)))"

section \<open>Waiting for events\<close>

text \<open>The loops end at the deadline; on a closed channel they wait for it.\<close>

fun doctor_wait_for_listener :: "arrival list \<Rightarrow> (CliFailure, multiaddr) result \<times> arrival list" where
  "doctor_wait_for_listener [] = (Err network_failure, [])"
| "doctor_wait_for_listener (Elapsed # arrivals) = (Err network_failure, arrivals)"
| "doctor_wait_for_listener (Arrives event # arrivals) =
     (case event of
        Listening address \<Rightarrow> (Ok address, arrivals)
      | _ \<Rightarrow> doctor_wait_for_listener arrivals)"

text \<open>
  \<^verbatim>\<open>collect_registration_results\<close> and \<^verbatim>\<open>collect_discovery_results\<close>, which differ in the event they
  count.
\<close>

fun collect_nodes ::
  "(NetworkEvent \<Rightarrow> peer_id option) \<Rightarrow> nat \<Rightarrow> arrival list \<Rightarrow> peer_id set \<Rightarrow> peer_id set \<times> arrival list" where
  "collect_nodes counted expected [] nodes = (nodes, [])"
| "collect_nodes counted expected (arrival # arrivals) nodes =
     (if \<not> card nodes < expected then (nodes, arrival # arrivals)
      else case arrival of
        Elapsed \<Rightarrow> (nodes, arrivals)
      | Arrives event \<Rightarrow>
          collect_nodes counted expected arrivals
            (case counted event of Some node \<Rightarrow> insert node nodes | None \<Rightarrow> nodes))"

fun registered_node :: "NetworkEvent \<Rightarrow> peer_id option" where
  "registered_node (DiscoveryRegistered node _) = Some node"
| "registered_node _ = None"

fun answering_node :: "NetworkEvent \<Rightarrow> peer_id option" where
  "answering_node (DiscoveryResults node _) = Some node"
| "answering_node _ = None"

definition collect_registration_results :: "arrival list \<Rightarrow> nat \<Rightarrow> peer_id set \<times> arrival list" where
  "collect_registration_results arrivals expected = collect_nodes registered_node expected arrivals {}"

definition collect_discovery_results :: "arrival list \<Rightarrow> nat \<Rightarrow> peer_id set \<times> arrival list" where
  "collect_discovery_results arrivals expected = collect_nodes answering_node expected arrivals {}"

section \<open>Route checks\<close>

text \<open>
  The loop of \<^verbatim>\<open>check_route_connectivity\<close>: whether a connection between the two and, through a relay,
  the circuit were seen.
\<close>

definition client_sees :: "peer_id \<Rightarrow> NetworkEvent \<Rightarrow> bool \<times> bool \<Rightarrow> bool \<times> bool" where
  "client_sees probe_peer event seen =
     (case event of
        Connected peer \<Rightarrow> if peer = probe_peer then (True, snd seen) else seen
      | InboundRelayCircuit source_peer \<Rightarrow> if source_peer = probe_peer then (fst seen, True) else seen
      | _ \<Rightarrow> seen)"

definition probe_sees :: "peer_id \<Rightarrow> peer_id option \<Rightarrow> NetworkEvent \<Rightarrow> bool \<times> bool \<Rightarrow> bool \<times> bool" where
  "probe_sees local_peer expected_relay event seen =
     (case event of
        Connected peer \<Rightarrow> if peer = local_peer then (True, snd seen) else seen
      | OutboundRelayCircuit relay_peer \<Rightarrow>
          if Some relay_peer = expected_relay then (fst seen, True) else seen
      | _ \<Rightarrow> seen)"

fun route_loop ::
  "peer_id \<Rightarrow> peer_id \<Rightarrow> peer_id option \<Rightarrow> probe_pick list \<Rightarrow> arrival list \<Rightarrow> bool \<times> bool
   \<Rightarrow> bool \<times> arrival list" where
  "route_loop local_peer probe_peer expected_relay [] arrivals seen = (False, arrivals)"
| "route_loop local_peer probe_peer expected_relay (PickDeadline # picks) arrivals seen = (False, arrivals)"
| "route_loop local_peer probe_peer expected_relay (PickProbe None # picks) arrivals seen = (False, arrivals)"
| "route_loop local_peer probe_peer expected_relay (PickProbe (Some event) # picks) arrivals seen =
     (let seen = probe_sees local_peer expected_relay event seen in
      if fst seen \<and> snd seen then (True, arrivals)
      else route_loop local_peer probe_peer expected_relay picks arrivals seen)"
| "route_loop local_peer probe_peer expected_relay (PickClient # picks) arrivals seen =
     (case arrivals of
        [] \<Rightarrow> (False, [])
      | Elapsed # arrivals \<Rightarrow> (False, arrivals)
      | Arrives event # arrivals \<Rightarrow>
          let seen = client_sees probe_peer event seen in
          if fst seen \<and> snd seen then (True, arrivals)
          else route_loop local_peer probe_peer expected_relay picks arrivals seen)"

definition check_route_connectivity ::
  "doctor_world \<Rightarrow> arrival list \<Rightarrow> multiaddr \<Rightarrow> peer_id option \<Rightarrow> bool \<times> doctor_action list \<times> arrival list" where
  "check_route_connectivity W arrivals address expected_relay =
     (let p = dw_probe W address in
      if \<not> pr_started p then (False, [], arrivals)
      else if \<not> pr_dialled p then (False, [ProbeDials address], arrivals)
      else let (connected, arrivals) = route_loop (sw_peer (dw_client W)) (pr_peer p) expected_relay
                 (pr_picks p) arrivals (False, expected_relay = None)
           in (connected, [ProbeDials address], arrivals))"

text \<open>The circuits over the reservations; adding an address that is refused ends the command.\<close>

fun check_circuits ::
  "doctor_world \<Rightarrow> (peer_id \<times> multiaddr) list \<Rightarrow> arrival list \<Rightarrow> peer_id set
   \<Rightarrow> (CliFailure, peer_id set) result \<times> doctor_action list \<times> arrival list" where
  "check_circuits W [] arrivals circuits = (Ok circuits, [], arrivals)"
| "check_circuits W ((relay_peer, relay_address) # reservations) arrivals circuits =
     (let (ok, dialling, arrivals) = check_route_connectivity W arrivals relay_address (Some relay_peer);
          circuits = (if ok then insert relay_peer circuits else circuits);
          adding = dialling @ [ClientAction (AddAddress relay_address)] in
      if \<not> is_ok (sw_add_address (dw_client W) relay_address) then (Err network_failure, adding, arrivals)
      else let (result, actions, arrivals) = check_circuits W reservations arrivals circuits
           in (result, adding @ actions, arrivals))"

definition disposable_namespace :: "doctor_world \<Rightarrow> (CliFailure, discovery_namespace) result" where
  "disposable_namespace W =
     bind_res (ok_or randomness_unavailable (dw_random W 1 16)) (\<lambda>room. Ok (from_room_id room))"

section \<open>The report\<close>

record DoctorReport =
  rp_profile :: DiagnosticProfile
  rp_direct :: bool
  rp_registrations :: "peer_id set"
  rp_discoveries :: "peer_id set"
  rp_reservations :: "peer_id set"
  rp_circuits :: "peer_id set"

fun is_dns :: "protocol \<Rightarrow> bool" where
  "is_dns (Dns _) = True"
| "is_dns (Dns4 _) = True"
| "is_dns (Dns6 _) = True"
| "is_dns _ = False"

definition dns_endpoints :: "DiagnosticProfile \<Rightarrow> nat" where
  "dns_endpoints profile =
     length (filter (\<lambda>node. list_ex is_dns (node_address node)) (dg_rendezvous profile @ dg_relays profile))"

definition status_word :: "bool \<Rightarrow> string" where
  "status_word success = (if success then ''ok'' else ''failed'')"

text \<open>The members of the JSON object, whose order the JSON library decides.\<close>

datatype json_value = JBool bool | JNat nat | JString string | JArray "(string \<times> json_value) list list"

definition report_json :: "doctor_world \<Rightarrow> bool \<Rightarrow> DoctorReport \<Rightarrow> (string \<times> json_value) list" where
  "report_json W verbose r =
     (let profile = rp_profile r in
      [(''event'', JString ''doctor_complete''),
       (''local_safety'', JBool True),
       (''direct_connectivity'', JBool (rp_direct r)),
       (''dns_endpoints'', JNat (dns_endpoints profile)),
       (''nodes_expected'', JNat (length (dg_rendezvous profile))),
       (''registrations'', JNat (card (rp_registrations r))),
       (''relays_expected'', JNat (length (dg_relays profile))),
       (''relay_reservations'', JNat (card (rp_reservations r))),
       (''relay_circuits'', JNat (card (rp_circuits r))),
       (''discoveries'', JNat (card (rp_discoveries r)))]
      @ (if verbose then
          [(''rendezvous'', JArray (map (\<lambda>node.
              [(''peer_id'', JString (dw_show_peer W (node_peer node))),
               (''registered'', JBool (node_peer node \<in> rp_registrations r)),
               (''discovered'', JBool (node_peer node \<in> rp_discoveries r))]) (dg_rendezvous profile))),
           (''relays'', JArray (map (\<lambda>node.
              [(''peer_id'', JString (dw_show_peer W (node_peer node))),
               (''reserved'', JBool (node_peer node \<in> rp_reservations r)),
               (''circuit'', JBool (node_peer node \<in> rp_circuits r))]) (dg_relays profile)))]
         else []))"

definition report_lines :: "doctor_world \<Rightarrow> bool \<Rightarrow> DoctorReport \<Rightarrow> string list" where
  "report_lines W verbose r =
     (let profile = rp_profile r; expected = decimal (length (dg_rendezvous profile));
          relays_expected = decimal (length (dg_relays profile)) in
      [''Local clock and private output: ok'',
       ''Direct TCP, Noise, and Yamux connectivity: '' @ status_word (rp_direct r),
       ''Discovery registrations: '' @ decimal (card (rp_registrations r)) @ ''/'' @ expected,
       ''Discovery queries: '' @ decimal (card (rp_discoveries r)) @ ''/'' @ expected,
       ''Configured DNS endpoints: '' @ decimal (dns_endpoints profile),
       ''Relay reservations/circuits: '' @ decimal (card (rp_reservations r)) @ ''/'' @ relays_expected
         @ '', '' @ decimal (card (rp_circuits r)) @ ''/'' @ relays_expected]
      @ (if verbose then
          map (\<lambda>node. ''Rendezvous '' @ dw_show_peer W (node_peer node) @ '': registration=''
            @ status_word (node_peer node \<in> rp_registrations r) @ '', discovery=''
            @ status_word (node_peer node \<in> rp_discoveries r)) (dg_rendezvous profile)
          @ map (\<lambda>node. ''Relay '' @ dw_show_peer W (node_peer node) @ '': reservation=''
            @ status_word (node_peer node \<in> rp_reservations r) @ '', circuit=''
            @ status_word (node_peer node \<in> rp_circuits r)) (dg_relays profile)
         else []))"

datatype doctor_output = PrintJson "(string \<times> json_value) list" | PrintLines "string list"

definition emit_result :: "doctor_world \<Rightarrow> DoctorArgs \<Rightarrow> DoctorReport \<Rightarrow> doctor_output" where
  "emit_result W arguments r =
     (if da_json arguments then PrintJson (report_json W (da_verbose arguments) r)
      else PrintLines (report_lines W (da_verbose arguments) r))"

section \<open>The command\<close>

text \<open>Before the network: the clock, the private output and the selected profile.\<close>

definition doctor_local ::
  "doctor_world \<Rightarrow> fs \<Rightarrow> DoctorArgs \<Rightarrow> ClientConfig \<Rightarrow> (CliFailure, DiagnosticProfile) result \<times> fs" where
  "doctor_local W fs arguments config =
     (case check_clock W of
        Inl e \<Rightarrow> (Err e, fs)
      | Inr _ \<Rightarrow>
          (case check_private_output W fs of
             (Inl e, fs) \<Rightarrow> (Err e, fs)
           | (Inr _, fs) \<Rightarrow>
               (bind_res (diagnostic_profile (dw_config W) config (da_network arguments)) (\<lambda>profile.
                if dg_rendezvous profile = []
                then Err (cli_failure Configuration ''selected network has no discovery nodes'')
                else Ok profile), fs)))"

text \<open>A listening client and the check of its direct route.\<close>

definition doctor_listen ::
  "doctor_world \<Rightarrow> (CliFailure, bool) result \<times> doctor_action list \<times> arrival list" where
  "doctor_listen W =
     (let N = dw_client W in
      if \<not> sw_driver_started N then (Err network_failure, [], sw_arrivals N)
      else case sw_multiaddr N (ascii ''/ip4/127.0.0.1/tcp/0'') of
        None \<Rightarrow> (Err network_failure, [], sw_arrivals N)
      | Some listen \<Rightarrow>
          let listening = [ClientAction (ListenOn listen)] in
          if \<not> is_ok (sw_listen N listen) then (Err network_failure, listening, sw_arrivals N)
          else (case doctor_wait_for_listener (sw_arrivals N) of
             (Inl e, arrivals) \<Rightarrow> (Err e, listening, arrivals)
           | (Inr address, arrivals) \<Rightarrow>
               let (direct, dialling, arrivals) = check_route_connectivity W arrivals address None
               in (Ok direct, listening @ dialling, arrivals)))"

text \<open>Registration, discovery and unregistration under a disposable namespace.\<close>

definition doctor_discovery ::
  "doctor_world \<Rightarrow> DiscoveryNode list \<Rightarrow> discovery_namespace \<Rightarrow> arrival list
   \<Rightarrow> peer_id set \<times> peer_id set \<times> doctor_action list" where
  "doctor_discovery W nodes ns arrivals =
     (let registering = dispatch_registration (sw_register (dw_client W)) nodes ns 30 4;
          (registration, arrivals) = collect_registration_results arrivals (length nodes);
          discovering = dispatch_discovery (dw_discover W) nodes ns 4;
          (discovered, _) = collect_discovery_results arrivals (length nodes);
          unregistering = dispatch_unregistration nodes 4 in
      (registration, discovered,
       map (\<lambda>(peer, r). ClientAction (RegisterAt peer r)) registering
       @ map (\<lambda>(peer, _). DiscoverAt peer) discovering @ map UnregisterAt unregistering))"

definition report_ok :: "DoctorReport \<Rightarrow> nat \<Rightarrow> bool" where
  "report_ok r reserved =
     (let profile = rp_profile r;
          relay_ok = (\<not> dg_require_relay profile
            \<or> reserved = length (dg_relays profile) \<and> card (rp_circuits r) = length (dg_relays profile))
      in rp_direct r
         \<and> card (rp_registrations r) = length (dg_rendezvous profile)
         \<and> card (rp_discoveries r) = length (dg_rendezvous profile)
         \<and> relay_ok)"

text \<open>With the network running, up to the report; the report is absent on an early failure.\<close>

definition doctor_network ::
  "doctor_world \<Rightarrow> DiagnosticProfile
   \<Rightarrow> (CliFailure, DoctorReport \<times> nat) result \<times> doctor_action list" where
  "doctor_network W profile =
     (case doctor_listen W of
        (Inl e, starting, _) \<Rightarrow> (Err e, starting)
      | (Inr direct, starting, arrivals) \<Rightarrow>
          (case disposable_namespace W of
             Inl e \<Rightarrow> (Err e, starting)
           | Inr ns \<Rightarrow>
               let (reservations, reserving, arrivals) = reserve_relays (dw_client W) (dg_relays profile) arrivals;
                   reserving = starting @ map ClientAction reserving in
               (case check_circuits W reservations arrivals {} of
                  (Inl e, probing, _) \<Rightarrow> (Err e, reserving @ probing)
                | (Inr circuits, probing, arrivals) \<Rightarrow>
                    let (registration, discovered, discovering) =
                          doctor_discovery W (dg_rendezvous profile) ns arrivals;
                        trace = reserving @ probing @ discovering in
                    if \<not> sw_stopped (dw_client W)
                    then (Err (cli_failure Internal ''network task failed''), trace)
                    else (Ok (\<lparr>rp_profile = profile, rp_direct = direct, rp_registrations = registration,
                           rp_discoveries = discovered, rp_reservations = set (map fst reservations),
                           rp_circuits = circuits\<rparr>, length reservations), trace))))"

record doctor_run =
  dr_result :: "(CliFailure, int) result"
  dr_trace :: "doctor_action list"
  dr_output :: "doctor_output option"
  dr_fs :: fs

definition doctor_execute :: "doctor_world \<Rightarrow> fs \<Rightarrow> DoctorArgs \<Rightarrow> ClientConfig \<Rightarrow> doctor_run" where
  "doctor_execute W fs arguments config =
     (case doctor_local W fs arguments config of
        (Inl e, fs) \<Rightarrow> \<lparr>dr_result = Err e, dr_trace = [], dr_output = None, dr_fs = fs\<rparr>
      | (Inr profile, fs) \<Rightarrow>
          (case doctor_network W profile of
             (Inl e, trace) \<Rightarrow> \<lparr>dr_result = Err e, dr_trace = trace, dr_output = None, dr_fs = fs\<rparr>
           | (Inr (r, reserved), trace) \<Rightarrow>
               \<lparr>dr_result = (if report_ok r reserved then Ok (exit_code_i32 Success) else Err network_failure),
                dr_trace = trace, dr_output = Some (emit_result W arguments r), dr_fs = fs\<rparr>))"

section \<open>What the loops have seen\<close>

lemma collect_nodes_seen:
  assumes "collect_nodes counted expected arrivals nodes = (found, rest)"
  shows "found \<subseteq> nodes \<union> {node. \<exists>event. Arrives event \<in> set arrivals \<and> counted event = Some node}"
    and "set rest \<subseteq> set arrivals"
  using assms
proof (induction counted expected arrivals nodes rule: collect_nodes.induct)
  case (2 counted expected arrival arrivals nodes)
  {
    case 1
    then show ?case
      using 2 by (cases "card nodes < expected"; cases arrival) (fastforce split: option.splits)+
  next
    case 2
    then show ?case
      using "2.IH"(2) by (cases "card nodes < expected"; cases arrival) auto
  }
qed auto

lemma route_loop_seen:
  assumes "route_loop local_peer probe_peer (Some relay) picks arrivals seen = (True, rest)"
    and "\<not> snd seen"
  shows "Arrives (InboundRelayCircuit probe_peer) \<in> set arrivals \<or>
    PickProbe (Some (OutboundRelayCircuit relay)) \<in> set picks"
  using assms
proof (induction local_peer probe_peer "Some relay" picks arrivals seen rule: route_loop.induct)
  case (4 local_peer probe_peer event picks arrivals seen)
  then show ?case
    by (cases event) (auto simp: probe_sees_def Let_def split: if_splits)
next
  case (5 local_peer probe_peer picks arrivals seen)
  show ?case
  proof (cases arrivals)
    case (Cons a as)
    then show ?thesis
      using 5 by (cases a; cases "case a of Arrives e \<Rightarrow> e | Elapsed \<Rightarrow> DiscoveryFailed []")
        (auto simp: client_sees_def Let_def split: if_splits)
  qed (use 5 in simp)
qed auto

lemma route_loop_rest:
  "route_loop local_peer probe_peer expected picks arrivals seen = (ok, rest) \<Longrightarrow> set rest \<subseteq> set arrivals"
proof (induction picks arbitrary: arrivals seen)
  case (Cons pick picks)
  show ?case
  proof (cases pick)
    case PickClient
    then show ?thesis
      using Cons.prems Cons.IH by (cases arrivals; cases "hd arrivals") (auto simp: Let_def split: if_splits dest: Cons.IH)
  next
    case (PickProbe event)
    then show ?thesis
      using Cons.prems by (cases event) (auto simp: Let_def split: if_splits dest: Cons.IH)
  qed (use Cons.prems in simp)
qed simp

lemma check_route_rest:
  "check_route_connectivity W arrivals address expected = (ok, actions, rest) \<Longrightarrow> set rest \<subseteq> set arrivals"
  by (auto simp: check_route_connectivity_def Let_def split: if_splits prod.splits dest!: route_loop_rest)

lemma route_loop_connected:
  assumes "route_loop local_peer probe_peer expected picks arrivals seen = (True, rest)" and "\<not> fst seen"
  shows "Arrives (Connected probe_peer) \<in> set arrivals \<or> PickProbe (Some (Connected local_peer)) \<in> set picks"
  using assms
proof (induction picks arbitrary: arrivals seen)
  case (Cons pick picks)
  show ?case
  proof (cases pick)
    case PickClient
    show ?thesis
    proof (cases arrivals)
      case (Cons a as)
      then show ?thesis
        using Cons.prems Cons.IH [of as] PickClient
        by (cases a; cases "case a of Arrives e \<Rightarrow> e | Elapsed \<Rightarrow> DiscoveryFailed []")
          (auto simp: client_sees_def Let_def split: if_splits)
    qed (use Cons.prems PickClient in simp)
  next
    case (PickProbe event)
    then show ?thesis
      using Cons.prems Cons.IH [of arrivals]
      by (cases event; cases "the event") (auto simp: probe_sees_def Let_def split: if_splits)
  qed (use Cons.prems in simp)
qed simp

text \<open>
  The evidence of a route check: the probe for the address dialled it, the two ends saw each other, and
  through a relay one of them saw the circuit. The events of the client are those of \<open>arrivals\<close>.
\<close>

definition connection_seen :: "doctor_world \<Rightarrow> arrival list \<Rightarrow> multiaddr \<Rightarrow> bool" where
  "connection_seen W arrivals address \<longleftrightarrow> pr_dialled (dw_probe W address) \<and>
     (Arrives (Connected (pr_peer (dw_probe W address))) \<in> set arrivals \<or>
      PickProbe (Some (Connected (sw_peer (dw_client W)))) \<in> set (pr_picks (dw_probe W address)))"

definition circuit_seen :: "doctor_world \<Rightarrow> arrival list \<Rightarrow> multiaddr \<Rightarrow> peer_id \<Rightarrow> bool" where
  "circuit_seen W arrivals address relay \<longleftrightarrow>
     Arrives (InboundRelayCircuit (pr_peer (dw_probe W address))) \<in> set arrivals \<or>
     PickProbe (Some (OutboundRelayCircuit relay)) \<in> set (pr_picks (dw_probe W address))"

lemma evidence_mono:
  "set arrivals \<subseteq> set arrivals' \<Longrightarrow> connection_seen W arrivals address \<Longrightarrow> connection_seen W arrivals' address"
  "set arrivals \<subseteq> set arrivals' \<Longrightarrow> circuit_seen W arrivals address relay \<Longrightarrow> circuit_seen W arrivals' address relay"
  by (auto simp: connection_seen_def circuit_seen_def)

lemma check_route_seen:
  assumes "check_route_connectivity W arrivals address expected = (True, actions, rest)"
  shows "actions = [ProbeDials address]" "connection_seen W arrivals address"
    "expected = Some relay \<Longrightarrow> circuit_seen W arrivals address relay"
proof -
  let ?p = "dw_probe W address"
  have p: "pr_dialled ?p" "actions = [ProbeDials address]" and loop: "route_loop (sw_peer (dw_client W))
      (pr_peer ?p) expected (pr_picks ?p) arrivals (False, expected = None) = (True, rest)"
    using assms by (auto simp: check_route_connectivity_def Let_def split: if_splits prod.splits)
  show "actions = [ProbeDials address]" "connection_seen W arrivals address"
    using p route_loop_connected [OF loop] by (auto simp: connection_seen_def)
  show "circuit_seen W arrivals address relay" if "expected = Some relay"
    using route_loop_seen [OF loop [unfolded that]] by (simp add: circuit_seen_def)
qed

lemma check_circuits_Cons:
  assumes "check_circuits W ((relay, address) # reservations) arrivals circuits = (Ok found, actions, rest)"
  obtains ok dialling arrivals' actions' where
    "check_route_connectivity W arrivals address (Some relay) = (ok, dialling, arrivals')"
    "check_circuits W reservations arrivals' (if ok then insert relay circuits else circuits) =
       (Ok found, actions', rest)" "set arrivals' \<subseteq> set arrivals"
    "actions = dialling @ ClientAction (AddAddress address) # actions'"
proof -
  obtain ok dialling arrivals' where c: "check_route_connectivity W arrivals address (Some relay) =
      (ok, dialling, arrivals')" by (metis prod_cases3)
  then show ?thesis
    using assms check_route_rest [OF c] by (auto simp: Let_def intro!: that [OF c] split: if_splits prod.splits)
qed

lemma check_circuits_rest:
  "check_circuits W reservations arrivals circuits = (Ok found, actions, rest) \<Longrightarrow> set rest \<subseteq> set arrivals"
proof (induction reservations arbitrary: arrivals circuits actions)
  case (Cons reservation reservations)
  obtain relay address where r: "reservation = (relay, address)" by fastforce
  from Cons.prems [unfolded r] obtain arrivals' circuits' actions' where
      "check_circuits W reservations arrivals' circuits' = (Ok found, actions', rest)"
      "set arrivals' \<subseteq> set arrivals"
    by (rule check_circuits_Cons)
  then show ?case using Cons.IH by blast
qed simp

lemma check_circuits_seen:
  assumes "check_circuits W reservations arrivals circuits = (Ok found, actions, rest)" and "peer \<in> found"
  shows "peer \<in> circuits \<or> (\<exists>address. (peer, address) \<in> set reservations \<and>
    ProbeDials address \<in> set actions \<and>
    connection_seen W arrivals address \<and> circuit_seen W arrivals address peer)"
  using assms(1)
proof (induction reservations arbitrary: arrivals circuits actions)
  case Nil
  then show ?case using assms(2) by simp
next
  case (Cons reservation reservations)
  obtain relay address where r: "reservation = (relay, address)" by fastforce
  from Cons.prems [unfolded r] obtain ok dialling arrivals' actions' where
      c: "check_route_connectivity W arrivals address (Some relay) = (ok, dialling, arrivals')"
      and rest: "check_circuits W reservations arrivals' (if ok then insert relay circuits else circuits) =
        (Ok found, actions', rest)" and sub: "set arrivals' \<subseteq> set arrivals"
      and actions: "actions = dialling @ ClientAction (AddAddress address) # actions'"
    by (rule check_circuits_Cons)
  have "dialling = [ProbeDials address] \<and> connection_seen W arrivals address \<and> circuit_seen W arrivals address relay"
    if ok using check_route_seen [OF c [unfolded eqTrueI [OF that]]] by auto
  then show ?case
    using Cons.IH [OF rest] evidence_mono [OF sub] by (cases ok) (auto simp: r actions)
qed

section \<open>Relay reservations\<close>

lemma reservation_loop_seen:
  assumes "reservation_loop pending arrivals reservations listeners = (found, listeners', rest)"
  shows "set rest \<subseteq> set arrivals \<and> (\<forall>peer \<in> found. peer \<in> reservations \<or>
    (\<exists>renewed. Arrives (RelayReservation peer renewed) \<in> set arrivals))"
  using assms
proof (induction pending arrivals reservations listeners rule: reservation_loop.induct)
  case (2 pending arrival arrivals reservations listeners)
  let ?more = "length (filter (\<lambda>(peer, _). peer \<in> reservations) listeners) < card pending"
  show ?case
  proof (cases "?more \<and> arrival \<noteq> Elapsed")
    case True
    then obtain event where e: "arrival = Arrives event" by (cases arrival) auto
    show ?thesis
      using 2 True e by (cases event) (auto split: if_splits)
  next
    case False
    then show ?thesis using "2.prems" by (cases ?more) auto
  qed
qed simp

lemma reserved_routes_all:
  assumes "reserved_routes local_peer reservations relays listeners = (routes, actions)"
  shows "length routes \<le> length relays
    \<and> (length routes = length relays \<longrightarrow> node_peer ` set relays \<subseteq> reservations)
    \<and> set routes \<subseteq> (\<lambda>relay. (node_peer relay, canonical_relay_route relay local_peer)) ` set relays"
  using assms
proof (induction relays arbitrary: listeners routes actions)
  case (Cons relay relays)
  obtain routes1 actions1 where skip: "reserved_routes local_peer reservations relays listeners =
      (routes1, actions1)" by fastforce
  obtain routes2 actions2 where take: "reserved_routes local_peer reservations relays
      (AList.delete (node_peer relay) listeners) = (routes2, actions2)" by fastforce
  show ?case
    using Cons.prems skip take Cons.IH [OF skip] Cons.IH [OF take]
    by (auto simp: Let_def split: if_splits option.splits)
qed simp

lemma reserve_relays_all:
  assumes "reserve_relays N relays arrivals = (routes, actions, rest)"
  shows "set rest \<subseteq> set arrivals"
    "r \<in> set routes \<Longrightarrow> \<exists>relay \<in> set relays. r = (node_peer relay, canonical_relay_route relay (sw_peer N))"
    "length routes = length relays \<Longrightarrow> relay \<in> set relays \<Longrightarrow>
      \<exists>renewed. Arrives (RelayReservation (node_peer relay) renewed) \<in> set arrivals"
proof -
  define pending where "pending = node_peer ` {relay \<in> set relays. is_ok (sw_listen N (circuit_listen_address relay))}"
  obtain found listeners rest' where l: "reservation_loop pending arrivals {} [] = (found, listeners, rest')"
    by (rule prod_cases3)
  obtain routes' actions' where r: "reserved_routes (sw_peer N) found relays listeners = (routes', actions')"
    by fastforce
  have "rest = rest'" "routes = routes'"
    using assms l r by (simp_all add: reserve_relays_def pending_def)
  note l = l [folded \<open>rest = rest'\<close>] and routes = r [folded \<open>routes = routes'\<close>]
  note seen = reservation_loop_seen [OF l] reserved_routes_all [OF routes]
  show "set rest \<subseteq> set arrivals"
    "r \<in> set routes \<Longrightarrow> \<exists>relay \<in> set relays. r = (node_peer relay, canonical_relay_route relay (sw_peer N))"
    using seen by auto
  show "\<exists>renewed. Arrives (RelayReservation (node_peer relay) renewed) \<in> set arrivals"
    if "length routes = length relays" "relay \<in> set relays"
  proof -
    have "node_peer relay \<in> found" using seen(2) that by blast
    then show ?thesis using seen(1) by blast
  qed
qed

section \<open>Runs of the command\<close>

lemma doctor_wait_Ok:
  "doctor_wait_for_listener arrivals = (Ok address, rest) \<Longrightarrow>
     \<exists>before. arrivals = before @ Arrives (Listening address) # rest \<and> (\<forall>other. Arrives (Listening other) \<notin> set before)"
proof (induction arrivals)
  case (Cons arrival arrivals)
  show ?case
  proof (cases "\<exists>other. arrival = Arrives (Listening other)")
    case True
    then show ?thesis using Cons.prems by (intro exI [of _ "[]"]) auto
  next
    case False
    then obtain event where event: "arrival = Arrives event" using Cons.prems by (cases arrival) auto
    then have "doctor_wait_for_listener arrivals = (Ok address, rest)"
      using Cons.prems False by (cases event) auto
    then obtain before where "arrivals = before @ Arrives (Listening address) # rest"
      "\<forall>other. Arrives (Listening other) \<notin> set before" using Cons.IH by blast
    then show ?thesis using False by (intro exI [of _ "arrival # before"]) auto
  qed
qed simp

text \<open>The client's own listener is the first address it reports, after listening on the loopback address.\<close>

definition own_listener :: "doctor_world \<Rightarrow> multiaddr \<Rightarrow> multiaddr \<Rightarrow> arrival list \<Rightarrow> bool" where
  "own_listener W listen address after \<longleftrightarrow>
     sw_multiaddr (dw_client W) (ascii ''/ip4/127.0.0.1/tcp/0'') = Some listen \<and>
     (\<exists>before. sw_arrivals (dw_client W) = before @ Arrives (Listening address) # after \<and>
        (\<forall>other. Arrives (Listening other) \<notin> set before))"

lemma doctor_listen_Ok:
  assumes "doctor_listen W = (Ok direct, actions, rest)"
  obtains listen address after where "own_listener W listen address after" "set rest \<subseteq> set after"
    "direct \<Longrightarrow> actions = [ClientAction (ListenOn listen), ProbeDials address] \<and> connection_seen W after address"
proof -
  obtain listen address arrivals dialling where
      "sw_multiaddr (dw_client W) (ascii ''/ip4/127.0.0.1/tcp/0'') = Some listen"
    and w: "doctor_wait_for_listener (sw_arrivals (dw_client W)) = (Ok address, arrivals)"
    and c: "check_route_connectivity W arrivals address None = (direct, dialling, rest)"
    and actions: "actions = ClientAction (ListenOn listen) # dialling"
    using assms by (auto simp: doctor_listen_def Let_def split: if_splits option.splits prod.splits sum.splits)
  then have "own_listener W listen address arrivals"
    using doctor_wait_Ok [OF w] by (auto simp: own_listener_def)
  then show ?thesis
  proof (rule that)
    show "set rest \<subseteq> set arrivals" by (rule check_route_rest [OF c])
    show "actions = [ClientAction (ListenOn listen), ProbeDials address] \<and> connection_seen W arrivals address" if direct
      using check_route_seen(1,2) [OF c [unfolded eqTrueI [OF that]]] actions by simp
  qed
qed

lemma doctor_network_Ok:
  assumes "doctor_network W profile = (Ok (r, reserved), trace)"
  obtains direct starting arrivals ns reservations reserving arrivals2 circuits probing arrivals3
      registration discovered discovering where
    "doctor_listen W = (Ok direct, starting, arrivals)" "disposable_namespace W = Ok ns"
    "reserve_relays (dw_client W) (dg_relays profile) arrivals = (reservations, reserving, arrivals2)"
    "check_circuits W reservations arrivals2 {} = (Ok circuits, probing, arrivals3)"
    "doctor_discovery W (dg_rendezvous profile) ns arrivals3 = (registration, discovered, discovering)"
    "r = \<lparr>rp_profile = profile, rp_direct = direct, rp_registrations = registration,
      rp_discoveries = discovered, rp_reservations = set (map fst reservations), rp_circuits = circuits\<rparr>"
    "reserved = length reservations"
    "trace = starting @ map ClientAction reserving @ probing @ discovering"
  using assms
  by (auto simp: doctor_network_def Let_def split: if_splits prod.splits sum.splits)

lemma doctor_discovery_seen:
  assumes "doctor_discovery W nodes ns arrivals = (registration, discovered, actions)"
  shows "registration \<subseteq> {node. \<exists>event. Arrives event \<in> set arrivals \<and> registered_node event = Some node}"
    and "discovered \<subseteq> {node. \<exists>event. Arrives event \<in> set arrivals \<and> answering_node event = Some node}"
proof -
  obtain rest rest' where c: "collect_nodes registered_node (length nodes) arrivals {} = (registration, rest)"
      "collect_nodes answering_node (length nodes) rest {} = (discovered, rest')"
    using assms by (auto simp: doctor_discovery_def collect_registration_results_def
        collect_discovery_results_def Let_def split: prod.splits)
  from collect_nodes_seen [OF c(1)] collect_nodes_seen [OF c(2)]
  show "registration \<subseteq> {node. \<exists>event. Arrives event \<in> set arrivals \<and> registered_node event = Some node}"
    "discovered \<subseteq> {node. \<exists>event. Arrives event \<in> set arrivals \<and> answering_node event = Some node}"
    by blast+
qed

lemma full_node_set:
  assumes "peers \<subseteq> node_peer ` set nodes" "distinct (map node_peer nodes)" "card peers = length nodes"
  shows "peers = node_peer ` set nodes"
proof (rule card_seteq)
  have "card (node_peer ` set nodes) = length nodes"
    using distinct_card [OF assms(2)] by simp
  then show "card (node_peer ` set nodes) \<le> card peers" using assms(3) by simp
qed (use assms in auto)

lemma registered_node_Some: "registered_node event = Some node \<Longrightarrow> \<exists>ttl. event = DiscoveryRegistered node ttl"
  by (cases event) auto

lemma answering_node_Some: "answering_node event = Some node \<Longrightarrow> \<exists>peers. event = DiscoveryResults node peers"
  by (cases event) auto

lemma diagnostic_profile_distinct:
  assumes "client_config_validate W config = Ok ()" "diagnostic_profile W config selected = Ok profile"
  shows "distinct (map node_peer (dg_rendezvous profile))" "distinct (map node_peer (dg_relays profile))"
    "length (dg_rendezvous profile) \<le> MAX_NODES"
proof -
  obtain name p where p: "map_of (cc_networks config) name = Some p"
      "parse_nodes W (np_rendezvous p) = Ok (dg_rendezvous profile)"
      "parse_nodes W (np_relays p) = Ok (dg_relays profile)"
    using assms(2) by (auto simp: diagnostic_profile_def Let_def result_simps split: if_splits)
  have len: "length nodes = length addresses" if "parse_nodes W addresses = Ok nodes" for nodes addresses
    using that by (induction addresses arbitrary: nodes) (auto simp: result_simps)
  from validated(3) [OF assms(1) p(1)]
  show "distinct (map node_peer (dg_rendezvous profile))" "distinct (map node_peer (dg_relays profile))"
    "length (dg_rendezvous profile) \<le> MAX_NODES"
    using p len [OF p(2)] by (auto simp: valid_profile_def distinct_nodes_def)
qed

lemma doctor_execute_Ok:
  assumes "dr_result (doctor_execute W fs arguments config) = Ok status"
    and "diagnostic_profile (dw_config W) config (da_network arguments) = Ok profile"
  obtains r reserved where
    "doctor_network W profile = (Ok (r, reserved), dr_trace (doctor_execute W fs arguments config))"
    "report_ok r reserved" "status = 0"
proof -
  obtain fs' where l: "doctor_local W fs arguments config = (Ok profile, fs')"
    using assms by (auto simp: doctor_execute_def doctor_local_def result_simps
        split: prod.splits sum.splits if_splits)
  then show ?thesis
    using assms(1) by (auto simp: doctor_execute_def intro: that split: prod.splits sum.splits if_splits)
qed

lemma doctor_nodes_seen:
  assumes d: "doctor_discovery W nodes ns arrivals = (registration, discovered, actions)"
    and "distinct (map node_peer nodes)" "card registration = length nodes" "card discovered = length nodes"
    and asked: "\<forall>event node. Arrives event \<in> set arrivals \<and>
      (registered_node event = Some node \<or> answering_node event = Some node) \<longrightarrow> node \<in> node_peer ` set nodes"
    and "node \<in> set nodes"
  shows "(\<exists>ttl. Arrives (DiscoveryRegistered (node_peer node) ttl) \<in> set arrivals)
    \<and> (\<exists>peers. Arrives (DiscoveryResults (node_peer node) peers) \<in> set arrivals)"
proof -
  have "registration = node_peer ` set nodes" "discovered = node_peer ` set nodes"
    using full_node_set [OF _ assms(2,3)] full_node_set [OF _ assms(2,4)] doctor_discovery_seen [OF d] asked
    by blast+
  then have "node_peer node \<in> registration" "node_peer node \<in> discovered" using assms(6) by auto
  then show ?thesis
    using doctor_discovery_seen [OF d] registered_node_Some answering_node_Some by blast
qed

text \<open>A relay that granted a reservation and carried the circuit over it.\<close>

definition relay_works :: "doctor_world \<Rightarrow> doctor_action list \<Rightarrow> arrival list \<Rightarrow> DiscoveryNode \<Rightarrow> bool" where
  "relay_works W trace arrivals relay \<longleftrightarrow>
     (let route = canonical_relay_route relay (sw_peer (dw_client W)) in
      (\<exists>renewed. Arrives (RelayReservation (node_peer relay) renewed) \<in> set arrivals) \<and>
      ProbeDials route \<in> set trace \<and> connection_seen W arrivals route \<and>
      circuit_seen W arrivals route (node_peer relay))"

lemma relay_works_mono:
  "relay_works W trace arrivals relay \<Longrightarrow> set trace \<subseteq> set trace' \<Longrightarrow> set arrivals \<subseteq> set arrivals' \<Longrightarrow>
     relay_works W trace' arrivals' relay"
  unfolding relay_works_def Let_def using evidence_mono [of arrivals arrivals' W] by blast

lemma doctor_relays_seen:
  assumes rs: "reserve_relays (dw_client W) relays arrivals = (reservations, reserving, arrivals2)"
    and c: "check_circuits W reservations arrivals2 {} = (Ok circuits, probing, arrivals3)"
    and distinct: "distinct (map node_peer relays)"
    and "length reservations = length relays" "card circuits = length relays" and relay: "relay \<in> set relays"
  shows "relay_works W probing arrivals relay"
proof -
  have seen: "\<exists>relay \<in> set relays. peer = node_peer relay \<and> (let route = canonical_relay_route relay
      (sw_peer (dw_client W)) in ProbeDials route \<in> set probing \<and> connection_seen W arrivals2 route \<and>
      circuit_seen W arrivals2 route peer)" if "peer \<in> circuits" for peer
    using check_circuits_seen [OF c that] reserve_relays_all(2) [OF rs] by fastforce
  then have "circuits = node_peer ` set relays"
    using full_node_set [OF _ distinct assms(5)] by blast
  then obtain relay' where r: "relay' \<in> set relays" "node_peer relay = node_peer relay'"
    and e: "let route = canonical_relay_route relay' (sw_peer (dw_client W)) in ProbeDials route \<in> set probing \<and>
      connection_seen W arrivals2 route \<and> circuit_seen W arrivals2 route (node_peer relay)"
    using seen relay by blast
  have "relay' = relay" using distinct r relay by (auto simp: distinct_map inj_on_def)
  then show ?thesis
    using e reserve_relays_all(3) [OF rs assms(4) relay] evidence_mono [OF reserve_relays_all(1) [OF rs]]
    by (simp add: relay_works_def Let_def)
qed

text \<open>
  C21: A successful diagnosis means the network works. With a configuration that passed validation
  and nodes that only answer when asked, exit status 0 of \<^verbatim>\<open>envshare doctor\<close> means: the client listened on
  the loopback address only, a probe dialled the address the client then reported as its own, and the
  two were connected by it, so directly; every rendezvous node of the selected profile confirmed the
  registration and answered the query; and, where the profile requires a relay, every relay granted a
  reservation, and another probe that dialled the client through exactly that relay was connected and
  saw, or made the client see, the circuit.
\<close>
theorem doctor_success_means_connected:
  assumes "client_config_validate (dw_config W) config = Ok ()"
    and "diagnostic_profile (dw_config W) config (da_network arguments) = Ok profile"
    and "\<forall>event node. Arrives event \<in> set (sw_arrivals (dw_client W)) \<and>
      (registered_node event = Some node \<or> answering_node event = Some node) \<longrightarrow>
      node \<in> node_peer ` set (dg_rendezvous profile)"
    and "dr_result (doctor_execute W fs arguments config) = Ok status"
  shows "status = 0
    \<and> (\<exists>listen address after more. own_listener W listen address after
         \<and> dr_trace (doctor_execute W fs arguments config) =
             ClientAction (ListenOn listen) # ProbeDials address # more
         \<and> connection_seen W after address)
    \<and> (\<forall>node \<in> set (dg_rendezvous profile).
         (\<exists>ttl. Arrives (DiscoveryRegistered (node_peer node) ttl) \<in> set (sw_arrivals (dw_client W)))
         \<and> (\<exists>peers. Arrives (DiscoveryResults (node_peer node) peers) \<in> set (sw_arrivals (dw_client W))))
    \<and> (dg_require_relay profile \<longrightarrow> (\<forall>relay \<in> set (dg_relays profile).
         relay_works W (dr_trace (doctor_execute W fs arguments config)) (sw_arrivals (dw_client W)) relay))"
proof -
  let ?A = "sw_arrivals (dw_client W)" and ?nodes = "dg_rendezvous profile" and ?relays = "dg_relays profile"
  let ?trace = "dr_trace (doctor_execute W fs arguments config)"
  obtain r reserved where net: "doctor_network W profile = (Ok (r, reserved), ?trace)"
    and ok: "report_ok r reserved" and status: "status = 0"
    using doctor_execute_Ok [OF assms(4,2)] .
  from net obtain direct starting arrivals ns reservations reserving arrivals2 circuits probing arrivals3
      registration discovered discovering where
      l: "doctor_listen W = (Ok direct, starting, arrivals)"
    and rs: "reserve_relays (dw_client W) ?relays arrivals = (reservations, reserving, arrivals2)"
    and c: "check_circuits W reservations arrivals2 {} = (Ok circuits, probing, arrivals3)"
    and d: "doctor_discovery W ?nodes ns arrivals3 = (registration, discovered, discovering)"
    and r: "r = \<lparr>rp_profile = profile, rp_direct = direct, rp_registrations = registration,
      rp_discoveries = discovered, rp_reservations = set (map fst reservations), rp_circuits = circuits\<rparr>"
      "reserved = length reservations"
    and trace: "?trace = starting @ map ClientAction reserving @ probing @ discovering"
    by (rule doctor_network_Ok)
  have full: "direct" "card registration = length ?nodes" "card discovered = length ?nodes"
    "dg_require_relay profile \<Longrightarrow> length reservations = length ?relays \<and> card circuits = length ?relays"
    using ok r by (auto simp: report_ok_def Let_def)
  obtain listen address after where own: "own_listener W listen address after" "set arrivals \<subseteq> set after"
      "starting = [ClientAction (ListenOn listen), ProbeDials address]" "connection_seen W after address"
    by (rule doctor_listen_Ok [OF l]) (use full(1) in auto)
  have "set after \<subseteq> set ?A" using own(1) by (auto simp: own_listener_def)
  then have sub: "set arrivals \<subseteq> set ?A" "set arrivals3 \<subseteq> set ?A"
    using own(2) reserve_relays_all(1) [OF rs] check_circuits_rest [OF c] by blast+
  have probed: "set probing \<subseteq> set ?trace" using trace by auto
  have nodes: "(\<exists>ttl. Arrives (DiscoveryRegistered (node_peer node) ttl) \<in> set arrivals3)
      \<and> (\<exists>peers. Arrives (DiscoveryResults (node_peer node) peers) \<in> set arrivals3)" if "node \<in> set ?nodes" for node
    using doctor_nodes_seen [OF d diagnostic_profile_distinct(1) [OF assms(1,2)] full(2,3) _ that] sub(2) assms(3)
    by blast
  have "relay_works W ?trace ?A relay" if "dg_require_relay profile" "relay \<in> set ?relays" for relay
    using relay_works_mono [OF doctor_relays_seen [OF rs c diagnostic_profile_distinct(2) [OF assms(1,2)]] probed sub(1)]
      full(4) that by blast
  moreover have "?trace = ClientAction (ListenOn listen) # ProbeDials address #
      map ClientAction reserving @ probing @ discovering" using trace own(3) by simp
  ultimately show ?thesis using status own(1,4) nodes sub(2) by blast
qed

section \<open>Nothing is left behind\<close>

text \<open>The actions that neither register nor show a code.\<close>

fun quiet_action :: "doctor_action \<Rightarrow> bool" where
  "quiet_action (ClientAction (ListenOn _)) = True"
| "quiet_action (ClientAction (AddAddress _)) = True"
| "quiet_action (ClientAction (RemoveAddress _)) = True"
| "quiet_action (ClientAction _) = False"
| "quiet_action _ = True"

lemma check_route_quiet:
  "check_route_connectivity W arrivals address expected = (ok, actions, rest) \<Longrightarrow> \<forall>a \<in> set actions. quiet_action a"
  by (auto simp: check_route_connectivity_def Let_def split: if_splits prod.splits)

lemma check_circuits_quiet:
  "check_circuits W reservations arrivals circuits = (r, actions, rest) \<Longrightarrow> \<forall>a \<in> set actions. quiet_action a"
proof (induction reservations arbitrary: arrivals circuits r actions rest)
  case (Cons reservation reservations)
  obtain relay address where e: "reservation = (relay, address)" by fastforce
  obtain ok dialling arrivals' where c: "check_route_connectivity W arrivals address (Some relay) =
      (ok, dialling, arrivals')" by (rule prod_cases3)
  obtain r' actions' rest' where rest: "check_circuits W reservations arrivals'
      (if ok then insert relay circuits else circuits) = (r', actions', rest')" by (rule prod_cases3)
  have "actions = dialling @ ClientAction (AddAddress address) # actions' \<or>
      actions = dialling @ [ClientAction (AddAddress address)]"
    using Cons.prems e c rest by (auto simp: Let_def split: if_splits)
  then show ?case using check_route_quiet [OF c] Cons.IH [OF rest] by auto
qed simp

lemma doctor_listen_quiet:
  assumes "doctor_listen W = (r, actions, rest)"
  shows "\<forall>a \<in> set actions. quiet_action a"
proof -
  have "\<forall>a \<in> set dialling. quiet_action a"
    if "check_route_connectivity W arrivals address None = (ok, dialling, rest')" for arrivals address ok dialling rest'
    using check_route_quiet [OF that] .
  then show ?thesis
    using assms by (fastforce simp: doctor_listen_def Let_def split: if_splits option.splits prod.splits sum.splits)
qed

lemma doctor_discovery_actions:
  assumes "doctor_discovery W nodes ns arrivals = (registration, discovered, actions)"
  shows "\<exists>results. actions = map (\<lambda>(peer, r). ClientAction (RegisterAt peer r)) results
    @ map DiscoverAt (map node_peer (take 8 nodes)) @ map UnregisterAt (map node_peer (take 8 nodes))
    \<and> map fst results = map node_peer (take 8 nodes)"
proof -
  have "map fst (dispatch_registration (sw_register (dw_client W)) nodes ns 30 4) = map node_peer (take 8 nodes)"
    by (simp add: dispatch_registration_def o_def)
  moreover have "map (\<lambda>(peer, _). DiscoverAt peer) (dispatch_discovery (dw_discover W) nodes ns 4) =
      map DiscoverAt (map node_peer (take 8 nodes))"
    by (simp add: dispatch_discovery_def)
  ultimately show ?thesis
    using assms by (auto simp: doctor_discovery_def Let_def dispatch_unregistration_def split: prod.splits)
qed

lemma doctor_network_trace:
  assumes "doctor_network W profile = (r, trace)"
  shows "\<exists>before results asked. trace = before @ map (\<lambda>(peer, r). ClientAction (RegisterAt peer r)) results
    @ map DiscoverAt asked @ map UnregisterAt asked \<and> map fst results = asked \<and> (\<forall>a \<in> set before. quiet_action a)"
proof -
  have stop: ?thesis if "\<forall>a \<in> set trace. quiet_action a"
    using that by (intro exI [of _ trace] exI [of _ "[]"]) simp
  obtain dl starting arrivals where l: "doctor_listen W = (dl, starting, arrivals)" by (rule prod_cases3)
  obtain reservations reserving arrivals2 where
      rs: "reserve_relays (dw_client W) (dg_relays profile) arrivals = (reservations, reserving, arrivals2)"
    by (rule prod_cases3)
  obtain cr probing arrivals3 where c: "check_circuits W reservations arrivals2 {} = (cr, probing, arrivals3)"
    by (rule prod_cases3)
  have quiet: "\<forall>a \<in> set (starting @ map ClientAction reserving @ probing). quiet_action a"
    using doctor_listen_quiet [OF l] check_circuits_quiet [OF c] reserve_relays_canonical(2) [OF rs] by auto
  show ?thesis
  proof (cases "is_ok dl \<and> is_ok (disposable_namespace W) \<and> is_ok cr")
    case True
    then obtain direct ns circuits where ok: "dl = Ok direct" "disposable_namespace W = Ok ns" "cr = Ok circuits"
      by (auto simp: is_ok_def split: sum.splits)
    obtain registration discovered discovering where
        d: "doctor_discovery W (dg_rendezvous profile) ns arrivals3 = (registration, discovered, discovering)"
      by (rule prod_cases3)
    have "trace = (starting @ map ClientAction reserving @ probing) @ discovering"
      using assms l rs c d ok by (auto simp: doctor_network_def Let_def split: if_splits)
    then show ?thesis using doctor_discovery_actions [OF d] quiet by blast
  next
    case False
    then have "trace = starting \<or> trace = starting @ map ClientAction reserving @ probing"
      using assms l rs c by (auto simp: doctor_network_def Let_def is_ok_def split: sum.splits)
    then show ?thesis using stop quiet by auto
  qed
qed

lemma write_private_atomic_alone:
  assumes "write_private_atomic S fs path payload options = (result, states)"
    and "canonical_destination S path = Some target" "well_behaved S fs target" "os_others S = id"
    and "\<not> po_replace options" "\<not> po_durable options"
  shows "last states = (if result = Ok () then fs(target \<mapsto> Regular payload PRIVATE_MODE) else fs)"
    and "result = Ok () \<Longrightarrow> fs target = None"
proof -
  have undo: "fs(t := None) = fs" if "os_temporary S d = Some t" for d t
    using well_behavedD(2) [OF assms(3) that] by (simp add: fun_upd_idem)
  have "last states = (if result = Ok () then fs(target \<mapsto> Regular payload PRIVATE_MODE) else fs)
      \<and> (result = Ok () \<longrightarrow> fs target = None)"
    using assms(1,2)
  proof (cases rule: write_private_atomic_runs)
    case (persisted temporary parent changed)
    note temp = well_behavedD [OF assms(3) persisted(1)]
    have "persist changed temporary target = fs(target \<mapsto> Regular payload PRIVATE_MODE)"
      using persisted(3) temp(1,2) assms(4) by (auto simp: persist_def fun_eq_iff)
    then show ?thesis using persisted(2,4,6) assms(5,6) by simp
  qed (use undo assms(4) in auto)
  then show "last states = (if result = Ok () then fs(target \<mapsto> Regular payload PRIVATE_MODE) else fs)"
    "result = Ok () \<Longrightarrow> fs target = None" by simp_all
qed

lemma write_private_atomic_nowhere:
  "canonical_destination S path = None \<Longrightarrow> write_private_atomic S fs path payload options = (result, states) \<Longrightarrow>
     result \<noteq> Ok () \<and> states = [fs]"
  by (auto simp: canonical_destination_def write_private_atomic_def split: option.splits if_splits)

definition cleanup_failed :: CliFailure where
  "cleanup_failed = cli_failure Output ''private output cleanup failed''"

text \<open>The check of the private output restores the file system, or could not remove its file and says so.\<close>

lemma check_private_output_restores:
  assumes check: "check_private_output W fs = (r, fs')" and others: "os_others (dw_output W) = id"
    and well: "\<forall>random target. canonical_destination (dw_output W) (doctor_probe_path W random) = Some target \<longrightarrow>
      well_behaved (dw_output W) fs target"
  shows "fs' = fs \<or> \<not> dw_removes W \<and> r = Err cleanup_failed \<and>
    (\<exists>random target. canonical_destination (dw_output W) (doctor_probe_path W random) = Some target \<and>
       fs target = None \<and> fs' = fs(target \<mapsto> Regular (ascii ''doctor'') PRIVATE_MODE))"
proof (cases "dw_random W 0 8")
  case None
  then show ?thesis using check by (simp add: check_private_output_def)
next
  case (Some random)
  let ?path = "doctor_probe_path W random"
  obtain result states where
      w: "write_private_atomic (dw_output W) fs ?path (ascii ''doctor'') \<lparr>po_replace = False, po_durable = False\<rparr> =
        (result, states)" by fastforce
  show ?thesis
  proof (cases "canonical_destination (dw_output W) ?path")
    case None
    then show ?thesis
      using check Some w write_private_atomic_nowhere [OF None w]
      by (auto simp: check_private_output_def split: sum.splits)
  next
    case (Some target)
    have last: "last states = (if result = Ok () then fs(target \<mapsto> Regular (ascii ''doctor'') PRIVATE_MODE) else fs)"
      "result = Ok () \<Longrightarrow> fs target = None"
      by (rule write_private_atomic_alone [OF w Some _ others]; use well Some in simp)+
    show ?thesis
    proof (cases result)
      case (Inl e)
      then show ?thesis
        using check \<open>dw_random W 0 8 = Some random\<close> w last(1) by (simp add: check_private_output_def)
    next
      case (Inr u)
      then have "remove_file W (fs(target \<mapsto> Regular (ascii ''doctor'') PRIVATE_MODE)) ?path = (r, fs')"
        using check \<open>dw_random W 0 8 = Some random\<close> w last(1) by (simp add: check_private_output_def)
      then show ?thesis
        using last(2) Inr Some
        by (auto simp: remove_file_def cleanup_failed_def fun_upd_idem split: if_splits)
    qed
  qed
qed

lemma doctor_fs_restored:
  assumes "os_others (dw_output W) = id"
    and "\<forall>random target. canonical_destination (dw_output W) (doctor_probe_path W random) = Some target \<longrightarrow>
      well_behaved (dw_output W) fs target"
  shows "dr_fs (doctor_execute W fs arguments config) = fs \<or>
    \<not> dw_removes W \<and> dr_result (doctor_execute W fs arguments config) = Err cleanup_failed \<and>
    dr_trace (doctor_execute W fs arguments config) = [] \<and>
    (\<exists>random target. canonical_destination (dw_output W) (doctor_probe_path W random) = Some target \<and> fs target = None \<and>
       dr_fs (doctor_execute W fs arguments config) = fs(target \<mapsto> Regular (ascii ''doctor'') PRIVATE_MODE))"
proof -
  obtain r fs' where c: "check_private_output W fs = (r, fs')" by fastforce
  have "dr_fs (doctor_execute W fs arguments config) = (if dw_clock_ok W then fs' else fs)"
    using c by (auto simp: doctor_execute_def doctor_local_def check_clock_def split: prod.splits sum.splits if_splits)
  moreover have "dr_result (doctor_execute W fs arguments config) = Err e \<and>
      dr_trace (doctor_execute W fs arguments config) = []" if "dw_clock_ok W" "r = Err e" for e
    using c that by (simp add: doctor_execute_def doctor_local_def check_clock_def)
  ultimately show ?thesis using check_private_output_restores [OF c assms] by auto
qed

text \<open>
  C37: The diagnosis leaves nothing behind. Whatever succeeds or fails, every node that was asked to
  register is afterwards asked to unregister, no share code is shown and no transfer is answered. When no
  other process interferes, the file system is as it was before; the one exception is a system that
  refuses to remove the probe file: then the command fails saying so, before any network activity, and
  what remains is one new private file with the text \<^verbatim>\<open>doctor\<close>.
\<close>
theorem doctor_leaves_nothing:
  assumes "os_others (dw_output W) = id"
    and "\<forall>random target. canonical_destination (dw_output W) (doctor_probe_path W random) = Some target \<longrightarrow>
      well_behaved (dw_output W) fs target"
    and "run = doctor_execute W fs arguments config"
  shows "(\<exists>before after. dr_trace run = before @ after
      \<and> (\<forall>peer r. ClientAction (RegisterAt peer r) \<notin> set after)
      \<and> (\<forall>peer r. ClientAction (RegisterAt peer r) \<in> set before \<longrightarrow> UnregisterAt peer \<in> set after))
    \<and> (\<forall>code. ClientAction (ShowCode code) \<notin> set (dr_trace run))
    \<and> (\<forall>sent. ClientAction (Responded sent) \<notin> set (dr_trace run))
    \<and> (dr_fs run = fs \<or> \<not> dw_removes W \<and> dr_result run = Err cleanup_failed \<and> dr_trace run = [] \<and>
         (\<exists>random target. canonical_destination (dw_output W) (doctor_probe_path W random) = Some target \<and>
            fs target = None \<and> dr_fs run = fs(target \<mapsto> Regular (ascii ''doctor'') PRIVATE_MODE)))"
proof -
  obtain d fs' where l: "doctor_local W fs arguments config = (d, fs')" by fastforce
  have "\<exists>pre results asked. dr_trace run = pre @ map (\<lambda>(peer, r). ClientAction (RegisterAt peer r)) results
      @ map DiscoverAt asked @ map UnregisterAt asked \<and> map fst results = asked \<and> (\<forall>a \<in> set pre. quiet_action a)"
  proof (cases d)
    case (Inr profile)
    obtain r trace where n: "doctor_network W profile = (r, trace)" by fastforce
    then have "dr_trace run = trace"
      using l Inr assms(3) by (auto simp: doctor_execute_def split: sum.splits)
    then show ?thesis using doctor_network_trace [OF n] by simp
  qed (simp add: doctor_execute_def l assms(3))
  then obtain pre results asked where t: "dr_trace run = (pre
      @ map (\<lambda>(peer, r). ClientAction (RegisterAt peer r)) results) @ map DiscoverAt asked @ map UnregisterAt asked"
      "map fst results = asked" "\<forall>a \<in> set pre. quiet_action a" by (metis append.assoc)
  have registered: "peer \<in> set asked" if "ClientAction (RegisterAt peer r) \<in> set (pre
      @ map (\<lambda>(peer, r). ClientAction (RegisterAt peer r)) results)" for peer r
    using that t(2,3) by (force split: prod.splits)
  have quiet: "ClientAction (ShowCode code) \<notin> set (dr_trace run)" "ClientAction (Responded s) \<notin> set (dr_trace run)"
    for code s unfolding t(1) using t(3) by (auto split: prod.splits)
  show ?thesis
  proof (intro conjI exI allI impI)
    show "dr_trace run = (pre @ map (\<lambda>(peer, r). ClientAction (RegisterAt peer r)) results)
        @ (map DiscoverAt asked @ map UnregisterAt asked)" by (rule t(1))
  qed (use quiet registered doctor_fs_restored [OF assms(1,2)] assms(3) in auto)
qed

section \<open>A sample diagnosis\<close>

definition sample_relay_route :: multiaddr where
  "sample_relay_route = [Dns4 (ascii ''node''), Tcp 4001, P2p [1], P2pCircuit, P2p [9]]"

definition sample_client :: send_world where
  "sample_client = \<lparr>sw_files = \<lparr>sf_stdin = \<lambda>_. None, sf_open = \<lambda>_. None\<rparr>,
     sw_choose_input = Err network_failure, sw_unix_ms = None, sw_fill = \<lambda>_. None, sw_peer = [9],
     sw_driver_started = True, sw_multiaddr = \<lambda>_. Some [Tcp 0], sw_listen = \<lambda>_. Ok (),
     sw_arrivals = [Arrives (Listening [Tcp 1]), Arrives (Connected [8]),
       Arrives (RelayReservation [1] False), Arrives (Listening sample_relay_route), Arrives (Connected [8]),
       Arrives (DiscoveryRegistered [1] 30), Arrives (DiscoveryResults [1] [])],
     sw_add_address = \<lambda>_. Ok (), sw_register = \<lambda>_ _ _ _. Ok (), sw_shown = True, sw_flushed = True, sw_now = 0,
     sw_inputs = [], sw_respond = \<lambda>_ _. True, sw_interrupt = True, sw_renewals = 0, sw_stopped = True,
     sw_closed = True\<rparr>"

definition sample_doctor :: doctor_world where
  "sample_doctor = \<lparr>dw_clock_ok = True, dw_random = \<lambda>_ n. Some (replicate n 0), dw_temp_dir = [RootDir],
     dw_output = sample_output_system, dw_removes = True, dw_config = sample_world, dw_client = sample_client,
     dw_discover = \<lambda>_ _ _. Ok (),
     dw_probe = \<lambda>_. \<lparr>pr_started = True, pr_peer = [8], pr_dialled = True,
       pr_picks = [PickClient, PickProbe (Some (OutboundRelayCircuit [1]))]\<rparr>,
     dw_show_peer = \<lambda>_. ''peer''\<rparr>"

definition sample_doctor_args :: DoctorArgs where
  "sample_doctor_args = \<lparr>da_network = None, da_json = False, da_verbose = False\<rparr>"

definition sample_profile :: DiagnosticProfile where
  "sample_profile =
     \<lparr>dg_rendezvous = [\<lparr>node_peer = [1], node_address = [Dns4 (ascii ''node''), Tcp 4001]\<rparr>],
      dg_relays = [\<lparr>node_peer = [1], node_address = [Dns4 (ascii ''node''), Tcp 4001]\<rparr>],
      dg_require_relay = True\<rparr>"

lemma sample_diagnostic_profile:
  "diagnostic_profile sample_world client_config_default None = Ok sample_profile"
proof -
  have "valid_network_name PUBLIC_NETWORK" by code_simp
  then show ?thesis
    by (simp add: diagnostic_profile_def client_config_default_def public_network_profile_def
        discovery_node_from_str_def sample_world_def sample_profile_def)
qed

lemma sample_doctor_local:
  "doctor_local sample_doctor Map.empty sample_doctor_args client_config_default = (Ok sample_profile, Map.empty)"
proof -
  have "canonical_destination sample_output_system (doctor_probe_path sample_doctor (replicate 8 0)) =
      Some [RootDir, Normal (ascii ''envshare-doctor-'' @ concat (map hex_byte (replicate 8 0)))]"
    by (simp add: canonical_destination_def path_file_name_def doctor_probe_path_def sample_doctor_def
        sample_output_system_def)
  moreover have "[RootDir, Normal [1]] \<noteq>
      [RootDir, Normal (ascii ''envshare-doctor-'' @ concat (map hex_byte (replicate 8 0)))]"
    by (simp add: ascii_def)
  ultimately have "check_private_output sample_doctor Map.empty = (Ok (), Map.empty)"
    by (simp add: check_private_output_def remove_file_def write_private_defs path_file_name_def
        doctor_probe_path_def sample_doctor_def sample_output_system_def validate_destination_def can_rename_def
        persist_def Let_def fun_eq_iff ascii_def)
  then show ?thesis
    using sample_diagnostic_profile
    by (simp add: doctor_local_def check_clock_def sample_doctor_def sample_doctor_args_def sample_profile_def)
qed

lemma sample_doctor_network:
  "\<exists>r reserved trace. doctor_network sample_doctor sample_profile = (Ok (r, reserved), trace) \<and> report_ok r reserved"
  by (simp add: doctor_network_def doctor_listen_def sample_doctor_def sample_client_def
      check_route_connectivity_def client_sees_def probe_sees_def disposable_namespace_def reserve_relays_def
      sample_profile_def sample_relay_route_def circuit_listen_address_def relay_peer_from_circuit_def
      canonical_relay_route_def doctor_discovery_def collect_registration_results_def
      collect_discovery_results_def dispatch_registration_def dispatch_discovery_def
      dispatch_unregistration_def report_ok_def Let_def is_ok_def)

lemma sample_doctor_succeeds:
  "dr_result (doctor_execute sample_doctor Map.empty sample_doctor_args client_config_default) = Ok 0"
  using sample_doctor_network by (auto simp: doctor_execute_def sample_doctor_local)

lemma sample_doctor_parts:
  "dw_config sample_doctor = sample_world" "da_network sample_doctor_args = None"
  "dw_client sample_doctor = sample_client" "dw_output sample_doctor = sample_output_system"
  by (simp_all add: sample_doctor_def sample_doctor_args_def)

theorem doctor_success_means_connected_witness:
  "(\<exists>ttl. Arrives (DiscoveryRegistered [1] ttl) \<in> set (sw_arrivals (dw_client sample_doctor)))
   \<and> (\<exists>listen address after. own_listener sample_doctor listen address after
        \<and> connection_seen sample_doctor after address)
   \<and> circuit_seen sample_doctor (sw_arrivals (dw_client sample_doctor)) sample_relay_route [1]"
proof -
  let ?A = "set (sw_arrivals (dw_client sample_doctor))"
  have valid: "client_config_validate (dw_config sample_doctor) client_config_default = Ok ()"
    using load_validated [OF default_config_loads] by (simp add: sample_doctor_parts)
  have profile: "diagnostic_profile (dw_config sample_doctor) client_config_default (da_network sample_doctor_args) =
      Ok sample_profile"
    using sample_diagnostic_profile by (simp add: sample_doctor_parts)
  have asked: "\<forall>event node. Arrives event \<in> ?A \<and>
      (registered_node event = Some node \<or> answering_node event = Some node) \<longrightarrow>
      node \<in> node_peer ` set (dg_rendezvous sample_profile)"
    by (auto simp: sample_doctor_parts sample_client_def sample_profile_def)
  have members: "\<lparr>node_peer = [1], node_address = [Dns4 (ascii ''node''), Tcp 4001]\<rparr> \<in> set (dg_rendezvous sample_profile)"
    "\<lparr>node_peer = [1], node_address = [Dns4 (ascii ''node''), Tcp 4001]\<rparr> \<in> set (dg_relays sample_profile)"
    "dg_require_relay sample_profile" by (simp_all add: sample_profile_def)
  note main = doctor_success_means_connected [OF valid profile asked sample_doctor_succeeds]
  have "relay_works sample_doctor trace arrivals \<lparr>node_peer = [1], node_address = [Dns4 (ascii ''node''), Tcp 4001]\<rparr>
      \<Longrightarrow> circuit_seen sample_doctor arrivals sample_relay_route [1]" for trace arrivals
    by (simp add: relay_works_def Let_def canonical_relay_route_def sample_relay_route_def sample_doctor_parts
        sample_client_def)
  then show ?thesis using main members by fastforce
qed

theorem doctor_leaves_nothing_witness:
  "dr_fs (doctor_execute sample_doctor Map.empty sample_doctor_args client_config_default) = Map.empty"
proof -
  have alone: "os_others (dw_output sample_doctor) = id"
    by (simp add: sample_doctor_parts sample_output_system_def)
  have "well_behaved (dw_output sample_doctor) Map.empty target"
    if "canonical_destination (dw_output sample_doctor) (doctor_probe_path sample_doctor random) = Some target"
    for random target
    using that by (auto simp: well_behaved_def sample_doctor_def sample_output_system_def doctor_probe_path_def
        canonical_destination_def path_file_name_def ascii_def)
  then show ?thesis
    using doctor_leaves_nothing [OF alone _ refl, of Map.empty sample_doctor_args client_config_default]
    by (simp add: sample_doctor_def)
qed

end
