(* ===== verification/Client_Process.thy ===== *)
theory Client_Process
  imports Presentation Doctor_Command Sample_Send
begin

text \<open>
  The client's process: \<^verbatim>\<open>cli/src/main.rs\<close>, \<^verbatim>\<open>cli/src/lib.rs\<close>, \<^verbatim>\<open>cli/src/commands/mod.rs\<close> and
  \<^verbatim>\<open>cli/src/commands/completions.rs\<close>. The dispatch composes the configuration with the commands and
  their prompts; \<open>client_world\<close> collects what is outside them.
\<close>

datatype CompletionTarget = Bash | Zsh | Fish | PowerShell | Elvish | Man

datatype ClientCommand =
    CmdSend SendArgs
  | CmdReceive ReceiveArgs
  | CmdRun RunArgs
  | CmdDoctor DoctorArgs
  | CmdNetwork NetworkCommand
  | CmdCompletions CompletionTarget

record Cli =
  cli_config :: "path option"
  cli_log :: "bytes option"
  cli_command :: ClientCommand

record 's client_world =
  cx_terminal :: terminal_world
  cx_env_filter_ok :: "bytes \<Rightarrow> bool"
  cx_config :: config_world
  cx_var_os :: "bytes \<Rightarrow> path option"
  cx_open_config :: "path \<Rightarrow> (io_error, bool \<times> reader) result"
  cx_from_toml :: "bytes \<Rightarrow> ClientConfig option"
  cx_profile_toml :: "bytes \<Rightarrow> NetworkProfile option"
  cx_show_toml :: "NetworkProfile \<Rightarrow> bytes option"
  cx_to_toml :: "ClientConfig \<Rightarrow> bytes option"
  cx_create_dir_all :: "path \<Rightarrow> bool"
  cx_exists :: "path \<Rightarrow> bool"
  cx_cbor :: cbor
  cx_primitives :: primitives
  cx_entropy :: "'s entropy"
  cx_state :: 's
  cx_dotenv :: dotenv_parser
  cx_send :: send_world
  cx_receive :: receive_world
  cx_stdin :: reader
  cx_open_existing :: "path \<Rightarrow> reader option"
  cx_output :: output_system
  cx_fs :: fs
  cx_destinations :: destination_view
  cx_answers :: "ExistingDestinationChoice list"
  cx_spawn :: "bytes \<Rightarrow> bytes list \<Rightarrow> environment \<Rightarrow> (CoreError, exit_status) result option"
  cx_inherited :: environment
  cx_doctor :: doctor_world
  cx_manual_written :: bool

datatype client_action =
    Sending send_action
  | Receiving receive_action
  | Diagnosing doctor_action
  | PrintedText "bytes list"
  | ConfigFiles "fs list"

definition initialize_output :: "'s client_world \<Rightarrow> Cli \<Rightarrow> (CliFailure, unit) result" where
  "initialize_output W cli =
     (if cx_env_filter_ok W (case cli_log cli of Some directives \<Rightarrow> directives | None \<Rightarrow> ascii ''off'') then Ok ()
      else Err (cli_failure Configuration ''log filter is invalid''))"

definition completions_execute :: "'s client_world \<Rightarrow> CompletionTarget \<Rightarrow> (CliFailure, int) result" where
  "completions_execute W target =
     (if target = Man \<and> \<not> cx_manual_written W
      then Err (cli_failure Output ''manual generation failed'') else Ok (exit_code_i32 Success))"

definition load_config ::
  "'s client_world \<Rightarrow> Cli \<Rightarrow> bool \<Rightarrow> (CliFailure, path \<times> ClientConfig) result" where
  "load_config W cli for_management =
     load_with_missing (cx_config W) (cx_var_os W) (cx_open_config W) (cx_from_toml W) (cli_config cli)
       for_management"

text \<open>The code of a receiving command, with the prompt of the terminal.\<close>

definition client_code :: "'s client_world \<Rightarrow> ConnectionArgs \<Rightarrow> (CliFailure, bytes) result" where
  "client_code W connection =
     read_code (cx_stdin W) (tw_stdin_terminal (cx_terminal W))
       (prompt_share_code (sha256 (cx_primitives W)) (cx_terminal W)) connection"

definition client_network ::
  "'s client_world \<Rightarrow> path \<times> ClientConfig \<Rightarrow> NetworkCommand \<Rightarrow> (CliFailure, int) result \<times> client_action list" where
  "client_network W loaded command =
     (case network_execute (cx_config W) (cx_open_config W) (cx_profile_toml W) (cx_show_toml W)
          (snd loaded) command of
        Inl e \<Rightarrow> (Err e, [])
      | Inr (lines_printed, None) \<Rightarrow> (Ok (exit_code_i32 Success), [PrintedText lines_printed])
      | Inr (lines_printed, Some config) \<Rightarrow>
          let (saved, states) = config_save (cx_to_toml W) (cx_create_dir_all W) (cx_output W) (cx_fs W)
                (cx_exists W) (fst loaded) config
          in (bind_res saved (\<lambda>_. Ok (exit_code_i32 Success)), [PrintedText lines_printed, ConfigFiles states]))"

fun commands_run :: "'s client_world \<Rightarrow> Cli \<Rightarrow> ClientCommand \<Rightarrow> (CliFailure, int) result \<times> client_action list" where
  "commands_run W cli (CmdCompletions target) = (completions_execute W target, [])"
| "commands_run W cli (CmdSend arguments) =
     (case bind_res (load_config W cli False) (\<lambda>(_, config). apply_send (cx_config W) config arguments) of
        Inl e \<Rightarrow> (Err e, [])
      | Inr arguments \<Rightarrow>
          let (result, trace) = send_execute (cx_cbor W) (cx_primitives W) (cx_entropy W) (cx_dotenv W)
                ((cx_send W)\<lparr>sw_choose_input := choose_sender_input (cx_terminal W)\<rparr>) (cx_state W) arguments
          in (result, map Sending trace))"
| "commands_run W cli (CmdReceive arguments) =
     (case bind_res (load_config W cli False) (\<lambda>(_, config).
          apply_connection (cx_config W) config (ra_connection arguments)) of
        Inl e \<Rightarrow> (Err e, [])
      | Inr connection \<Rightarrow>
          let arguments = arguments\<lparr>ra_connection := connection\<rparr>;
              (result, trace) = receive_execute (cx_cbor W) (cx_primitives W) (cx_receive W) (cx_dotenv W)
                (cx_open_existing W) (cx_output W) (cx_fs W) (cx_destinations W)
                (tw_interactive (cx_terminal W)) (cx_answers W)
                (is_ok (fst (show_receive_success (cx_terminal W) [])))
                (client_code W connection) arguments
          in (result, map Receiving trace))"
| "commands_run W cli (CmdRun arguments) =
     (case bind_res (load_config W cli False) (\<lambda>(_, config).
          apply_connection (cx_config W) config (run_connection arguments)) of
        Inl e \<Rightarrow> (Err e, [])
      | Inr connection \<Rightarrow>
          let (result, trace) = run_execute (cx_cbor W) (cx_primitives W) (cx_receive W) (cx_dotenv W)
                (cx_spawn W) (cx_inherited W) (client_code W connection)
                (arguments\<lparr>run_connection := connection\<rparr>)
          in (result, map Receiving trace))"
| "commands_run W cli (CmdDoctor arguments) =
     (case load_config W cli False of
        Inl e \<Rightarrow> (Err e, [])
      | Inr (_, config) \<Rightarrow>
          let r = doctor_execute (cx_doctor W) (cx_fs W) arguments config
          in (dr_result r, map Diagnosing (dr_trace r)))"
| "commands_run W cli (CmdNetwork command) =
     (case load_config W cli True of
        Inl e \<Rightarrow> (Err e, [])
      | Inr loaded \<Rightarrow> client_network W loaded command)"

definition client_run :: "'s client_world \<Rightarrow> Cli \<Rightarrow> (CliFailure, int) result \<times> client_action list" where
  "client_run W cli =
     (case initialize_output W cli of
        Inl e \<Rightarrow> (Err e, [])
      | Inr _ \<Rightarrow> commands_run W cli (cli_command cli))"

definition client_status :: "(CliFailure, int) result \<Rightarrow> int" where
  "client_status result =
     (case result of Inr status \<Rightarrow> status | Inl e \<Rightarrow> exit_code_i32 (cf_exit_code e))"

section \<open>The installed client\<close>

text \<open>No configuration file and no variable of the environment.\<close>

definition fresh_installation :: "'s client_world \<Rightarrow> Cli \<Rightarrow> bool" where
  "fresh_installation W cli \<longleftrightarrow>
     cli_config cli = None \<and> cx_var_os W (ascii ''ENVSHARE_CONFIG'') = None
     \<and> cx_open_config W (default_config_path (cx_var_os W)) = Err NotFound
     \<and> cw_env (cx_config W) = (\<lambda>_. None)"

lemma fresh_config:
  assumes "fresh_installation W cli" "load_config W cli m = Ok (path, config)"
  shows "config = client_config_default"
  using assms
  by (auto simp: fresh_installation_def load_config_def load_with_missing_def read_config_text_def Let_def
      apply_environment_def env_network_def env_ttl_def env_mdns_def env_relay_only_def
      ensure_public_network_def client_config_default_def result_simps)

lemma fresh_send_arguments:
  assumes "apply_send W client_config_default a = Ok a'"
    and "send_network a = None \<or> send_network a = Some PUBLIC_NETWORK"
  shows "sd_relay_only (send_discovery a')"
    and "if sd_relays (send_discovery a) = []
      then parse_nodes W (np_relays public_network_profile) = Ok (sd_relays (send_discovery a'))
      else sd_relays (send_discovery a') = sd_relays (send_discovery a)"
proof -
  have network: "(case send_network a of Some n \<Rightarrow> n | None \<Rightarrow> cc_default_network client_config_default) =
      PUBLIC_NETWORK" "map_of (cc_networks client_config_default) PUBLIC_NETWORK = Some public_network_profile"
    using assms(2) by (auto simp: client_config_default_def)
  have only: "np_relay_only public_network_profile" by (simp add: public_network_profile_def)
  show "sd_relay_only (send_discovery a')"
    using assms(1) network only
    by (auto simp: apply_send_def result_simps Let_def split: option.splits)
  show "if sd_relays (send_discovery a) = []
      then parse_nodes W (np_relays public_network_profile) = Ok (sd_relays (send_discovery a'))
      else sd_relays (send_discovery a') = sd_relays (send_discovery a)"
    using assms(1) network
    by (auto simp: apply_send_def result_simps Let_def split: option.splits if_splits)
qed

text \<open>
  C7: A freshly installed client shares only through relays. Without a configuration file,
  environment variables or a network chosen on the command line, whatever else the arguments of
  \<^verbatim>\<open>envshare send\<close> say, the process listens only on circuits of its relays, and gives to the discovery
  nodes and shows only routes through them; the relays are those of the public network unless the
  command line names others.
\<close>
theorem fresh_client_shares_through_relays:
  assumes "fresh_installation W cli" and "cli_command cli = CmdSend arguments"
    and "send_network arguments = None \<or> send_network arguments = Some PUBLIC_NETWORK"
    and "client_run W cli = (result, trace)"
  shows "trace = [] \<or> (\<exists>relays actions. trace = map Sending actions
    \<and> list_all (through_relay (sw_peer (cx_send W)) relays) actions
    \<and> (if sd_relays (send_discovery arguments) = []
       then parse_nodes (cx_config W) (np_relays public_network_profile) = Ok relays
       else relays = sd_relays (send_discovery arguments)))"
proof (cases "trace = []")
  case False
  then obtain path config arguments' where l: "load_config W cli False = Ok (path, config)"
    and a: "apply_send (cx_config W) config arguments = Ok arguments'"
    using assms(2,4)
    by (auto simp: client_run_def result_simps split: sum.splits prod.splits)
  let ?N = "(cx_send W)\<lparr>sw_choose_input := choose_sender_input (cx_terminal W)\<rparr>"
  obtain actions r where x: "send_execute (cx_cbor W) (cx_primitives W) (cx_entropy W) (cx_dotenv W) ?N
      (cx_state W) arguments' = (r, actions)" by fastforce
  have trace: "trace = map Sending actions"
    using False assms(2,4) l a x by (auto simp: client_run_def split: sum.splits)
  note resolved = fresh_send_arguments [OF a [unfolded fresh_config [OF assms(1) l]] assms(3)]
  have "list_all (through_relay (sw_peer (cx_send W)) (sd_relays (send_discovery arguments'))) actions"
    using relay_only_trace [OF x resolved(1)] by simp
  then show ?thesis using trace resolved(2) by (auto split: if_splits)
qed simp

section \<open>A sample invocation\<close>

definition sample_terminal_world :: terminal_world where
  "sample_terminal_world = \<lparr>tw_stdin_terminal = False, tw_stderr_terminal = False, tw_read_dir = None,
     tw_select = \<lambda>_ _. Err PromptOther, tw_input = \<lambda>_ _ _. Err PromptOther,
     tw_password = \<lambda>_ _. Err PromptOther, tw_draws = False\<rparr>"

definition sample_client_world :: "nat client_world" where
  "sample_client_world = \<lparr>cx_terminal = sample_terminal_world, cx_env_filter_ok = \<lambda>_. True,
     cx_config = sample_world, cx_var_os = \<lambda>_. None, cx_open_config = \<lambda>_. Err NotFound,
     cx_from_toml = \<lambda>_. None, cx_profile_toml = \<lambda>_. None, cx_show_toml = \<lambda>_. None, cx_to_toml = \<lambda>_. None,
     cx_create_dir_all = \<lambda>_. False, cx_exists = \<lambda>_. False, cx_cbor = rfc8949,
     cx_primitives = reference_primitives, cx_entropy = sample_entropy, cx_state = 0, cx_dotenv = sample_dotenv,
     cx_send = sender_world [], cx_receive = receiver_world (\<lambda>_. Err Net_TaskStopped), cx_stdin = \<lambda>_. None, cx_open_existing = \<lambda>_. None,
     cx_output = sample_output_system, cx_fs = Map.empty,
     cx_destinations = \<lparr>dv_exists = \<lambda>_. None, dv_kind = \<lambda>_. None\<rparr>, cx_answers = [],
     cx_spawn = \<lambda>_ _ _. None, cx_inherited = Map.empty, cx_doctor = sample_doctor, cx_manual_written = True\<rparr>"

definition sample_fresh_args :: SendArgs where
  "sample_fresh_args = sample_send\<lparr>send_network := None, send_discovery := \<lparr>sd_nodes = [], sd_relays = [],
     sd_mdns = False, sd_relay_only = False, sd_require_relay = False\<rparr>\<rparr>"

definition sample_cli :: Cli where
  "sample_cli = \<lparr>cli_config = None, cli_log = None, cli_command = CmdSend sample_fresh_args\<rparr>"

definition sample_public_relay :: DiscoveryNode where
  "sample_public_relay = \<lparr>node_peer = [1], node_address = [Dns4 (ascii ''node''), Tcp 4001]\<rparr>"

definition sample_fresh_resolved :: SendArgs where
  "sample_fresh_resolved = sample_fresh_args\<lparr>send_network := Some PUBLIC_NETWORK,
     send_discovery := \<lparr>sd_nodes = [sample_public_relay], sd_relays = [sample_public_relay],
       sd_mdns = False, sd_relay_only = True, sd_require_relay = True\<rparr>\<rparr>"

lemma sample_fresh_applied:
  "apply_send sample_world client_config_default sample_fresh_args = Ok sample_fresh_resolved"
  by (simp add: apply_send_def sample_fresh_args_def sample_fresh_resolved_def sample_send_def
      client_config_default_def client_defaults_default_def apply_discovery_def public_network_profile_def
      discovery_node_from_str_def sample_world_def sample_public_relay_def Let_def)

lemma sample_fresh_sends:
  fixes N :: send_world and choice :: "(CliFailure, path) result"
  defines "N \<equiv> (sender_world [])\<lparr>sw_choose_input := choice\<rparr>"
  shows "\<exists>e. send_execute rfc8949 reference_primitives sample_entropy sample_dotenv N (0 :: nat) sample_fresh_resolved =
     (Err e, [ListenOn (circuit_listen_address sample_public_relay)])"
proof -
  have "valid_network_name PUBLIC_NETWORK" by code_simp
  then obtain root where root: "derive_root reference_primitives (secret sample_share) PUBLIC_NETWORK = Ok root"
    using ref.derive_root_ok [OF valid_name_is_network_id] by metis
  have envelope: "prepare_envelope sample_dotenv N sample_fresh_resolved [Normal [1]] (secs 60) = Ok sent_envelope"
    using sample_envelope_prepared [of "[]"]
    by (simp add: N_def prepare_envelope_def sample_fresh_resolved_def sample_fresh_args_def sample_send_def)
  have "generate (sw_fill N) = Ok sample_share"
    by (simp add: N_def generate_def sender_world_def sample_share_def SECRET_BYTES_def)
  then have "prepare_share reference_primitives sample_dotenv N sample_fresh_resolved =
      Ok (secs 60, PUBLIC_NETWORK, sent_envelope, sample_share, root)"
    using envelope root by (simp add: prepare_share_def sample_fresh_resolved_def sample_fresh_args_def
        sample_send_def secs_def)
  moreover have "\<exists>e rest. start_reachable_network N sample_fresh_resolved =
      (Err e, [ListenOn (circuit_listen_address sample_public_relay)], rest)"
    by (simp add: start_reachable_network_def listen_directly_def sample_fresh_resolved_def N_def
        sender_world_def reserve_relays_def Let_def sample_public_relay_def sample_relay_def
        circuit_listen_address_def relay_peer_from_circuit_def)
  ultimately show ?thesis by (auto simp: send_execute_def)
qed

theorem fresh_client_shares_through_relays_witness:
  "\<exists>e. client_run sample_client_world sample_cli =
     (Err e, [Sending (ListenOn (circuit_listen_address sample_public_relay))])
   \<and> through_relay sample_sender [sample_public_relay] (ListenOn (circuit_listen_address sample_public_relay))"
proof -
  have load: "load_config sample_client_world sample_cli False =
      Ok (default_config_path (\<lambda>_. None), client_config_default)"
    using default_config_loads by (simp add: load_config_def sample_client_world_def sample_cli_def)
  obtain e where run: "client_run sample_client_world sample_cli =
      (Err e, [Sending (ListenOn (circuit_listen_address sample_public_relay))])"
    using sample_fresh_sends [of "choose_sender_input sample_terminal_world"] sample_fresh_applied load
    by (auto simp: client_run_def initialize_output_def sample_client_world_def sample_cli_def)
  have fresh: "fresh_installation sample_client_world sample_cli"
    by (simp add: fresh_installation_def sample_client_world_def sample_cli_def sample_world_def)
  have args: "cli_command sample_cli = CmdSend sample_fresh_args" "send_network sample_fresh_args = None"
    by (simp_all add: sample_cli_def sample_fresh_args_def)
  have "parse_nodes (cx_config sample_client_world) (np_relays public_network_profile) = Ok relays \<longleftrightarrow>
      relays = [sample_public_relay]" for relays
    by (auto simp: sample_client_world_def public_network_profile_def discovery_node_from_str_def
        sample_world_def sample_public_relay_def)
  then have "list_all (through_relay sample_sender [sample_public_relay])
      [ListenOn (circuit_listen_address sample_public_relay)]"
    using fresh_client_shares_through_relays [OF fresh args(1) _ run] args(2)
    by (auto simp: sample_client_world_def sender_world_def sample_fresh_args_def)
  then show ?thesis using run by simp
qed

end
