(* ===== verification/Swarm_Limits.thy ===== *)
theory Swarm_Limits
  imports Node_Config Network_Driver
begin

text \<open>
  The limits both programs hand to the libp2p behaviours they compose: \<^verbatim>\<open>build_behaviour\<close> of
  \<^verbatim>\<open>node/src/relay.rs\<close> and \<^verbatim>\<open>Behaviour::new\<close> of \<^verbatim>\<open>network/src/behaviour.rs\<close>. What the behaviours do
  with them is libp2p's; the identifiers and protocol names are texts.
\<close>

record ConnectionLimits =
  cl_max_pending_incoming :: "u32 option"
  cl_max_pending_outgoing :: "u32 option"
  cl_max_established :: "u32 option"
  cl_max_established_per_peer :: "u32 option"

record RelayConfig =
  rl_max_reservations :: nat
  rl_max_reservations_per_peer :: nat
  rl_reservation_duration :: duration
  rl_max_circuits :: nat
  rl_max_circuits_per_peer :: nat
  rl_max_circuit_duration :: duration
  rl_max_circuit_bytes :: u64

record NodeBehaviour =
  nb_relay :: RelayConfig
  nb_identify_protocol :: string
  nb_connection_limits :: ConnectionLimits
  nb_memory_limit :: nat

definition build_behaviour :: "NodeConfig \<Rightarrow> NodeBehaviour" where
  "build_behaviour config =
     \<lparr>nb_relay =
        \<lparr>rl_max_reservations = max_reservations config,
         rl_max_reservations_per_peer = max_reservations_per_peer config,
         rl_reservation_duration = reservation_duration config,
         rl_max_circuits = max_circuits config,
         rl_max_circuits_per_peer = max_circuits_per_peer config,
         rl_max_circuit_duration = max_circuit_duration config,
         rl_max_circuit_bytes = max_circuit_bytes config\<rparr>,
      nb_identify_protocol = ''/envshare/node/1.0.0'',
      nb_connection_limits =
        \<lparr>cl_max_pending_incoming = Some (max_connections config),
         cl_max_pending_outgoing = Some (max_connections config),
         cl_max_established = Some (max_connections config),
         cl_max_established_per_peer = Some (max_connections_per_peer config)\<rparr>,
      nb_memory_limit = max_process_memory_bytes config\<rparr>"

record ClientBehaviour =
  cb_request_timeout :: duration
  cb_max_concurrent_streams :: nat
  cb_identify_protocol :: string
  cb_identify_interval :: duration
  cb_connection_limits :: ConnectionLimits
  cb_memory_limit :: nat

definition client_behaviour_new :: "NetworkConfig \<Rightarrow> ClientBehaviour" where
  "client_behaviour_new config =
     \<lparr>cb_request_timeout = nc_request_timeout config,
      cb_max_concurrent_streams = nc_max_concurrent_streams config,
      cb_identify_protocol = ''/envshare/id/1.0.0'',
      cb_identify_interval = secs (5 * 60),
      cb_connection_limits =
        \<lparr>cl_max_pending_incoming = Some (nc_max_established_connections config),
         cl_max_pending_outgoing = Some (nc_max_established_connections config),
         cl_max_established = Some (nc_max_established_connections config),
         cl_max_established_per_peer = Some (nc_max_connections_per_peer config)\<rparr>,
      cb_memory_limit = nc_max_process_memory_bytes config\<rparr>"

text \<open>Every connection is counted against a limit that is set and can admit one.\<close>

fun enforced :: "u32 option \<Rightarrow> nat \<Rightarrow> bool" where
  "enforced (Some l) ceiling \<longleftrightarrow> 0 < l \<and> unat l \<le> ceiling"
| "enforced None ceiling \<longleftrightarrow> False"

definition limits_enforced :: "ConnectionLimits \<Rightarrow> nat \<Rightarrow> nat \<Rightarrow> bool" where
  "limits_enforced l ceiling per_peer \<longleftrightarrow>
     enforced (cl_max_pending_incoming l) ceiling \<and> enforced (cl_max_pending_outgoing l) ceiling
     \<and> enforced (cl_max_established l) ceiling \<and> enforced (cl_max_established_per_peer l) per_peer"

text \<open>
  With a configuration that validation accepts, both swarms are built with every connection limit
  set, positive and within its ceiling, the relay serves at least one reservation and circuit and
  no more than 4096, each for a bounded time and traffic, and both processes have a memory limit.
\<close>

lemma validated_node_limits:
  assumes "node_config_validate env_filter_ok config"
  shows "limits_enforced (nb_connection_limits (build_behaviour config)) 8192 128
    \<and> 0 < rl_max_reservations (nb_relay (build_behaviour config))
    \<and> rl_max_reservations (nb_relay (build_behaviour config)) \<le> 4096
    \<and> 0 < rl_max_circuits (nb_relay (build_behaviour config))
    \<and> rl_max_circuits (nb_relay (build_behaviour config)) \<le> 4096
    \<and> rl_max_circuit_duration (nb_relay (build_behaviour config)) \<le> secs 3600
    \<and> rl_max_circuit_bytes (nb_relay (build_behaviour config)) \<le> 2 ^ 30
    \<and> 64 * 1024 * 1024 \<le> nb_memory_limit (build_behaviour config)"
proof -
  have "unat l \<le> unat c" if "l \<le> c" for l c :: u32 using that by (simp add: word_le_nat_alt)
  from this [of "max_connections config" 8192] this [of "max_connections_per_peer config" 128] assms
  show ?thesis
    by (simp add: build_behaviour_def limits_enforced_def node_config_validate_def)
qed

lemma validated_client_limits:
  assumes "network_config_validate config"
  shows "limits_enforced (cb_connection_limits (client_behaviour_new config)) (2 ^ 32) (2 ^ 32)
    \<and> cb_request_timeout (client_behaviour_new config) \<noteq> 0
    \<and> 16 * 1024 * 1024 \<le> cb_memory_limit (client_behaviour_new config)"
proof -
  have "unat (l :: u32) \<le> 2 ^ 32" for l using unsigned_less [of l, where ?'a = nat] by simp
  then show ?thesis
    using assms by (simp add: client_behaviour_new_def limits_enforced_def network_config_validate_def)
qed

end
