(* ===== verification/Load_Harness.thy ===== *)
theory Load_Harness
  imports Send_Command Node_Server Network_Driver
begin

text \<open>
  The load and soak harness of the node, \<^verbatim>\<open>testkit/src/bin/node-load.rs\<close>. A client is its network as
  the sending command sees it; a task that panics is an absent outcome. The clock, the resources of
  the process and the client networks of every round are arguments; joining the tasks of a round in
  another order gives the same counts (\<open>run_round_order\<close>).
\<close>

definition ATTEMPT_TIMEOUT :: duration where "ATTEMPT_TIMEOUT = secs 5"
definition MAX_CLIENTS :: nat where "MAX_CLIENTS = 256"
definition MAX_SOAK_DURATION :: duration where "MAX_SOAK_DURATION = secs (168 * 60 * 60)"

record LoadArgs =
  la_clients :: nat
  la_capacity :: nat
  la_hold :: duration

record SoakArgs =
  so_clients :: nat
  so_capacity :: nat
  so_duration :: duration
  so_hold :: duration

datatype load_error =
    ArgumentsOutsideBounds
  | DurationOutsideBounds
  | AddressInvalid
  | NodeFailed NodeError
  | ListenerTimedOut
  | EventStreamClosed
  | InvariantsFailed
  | NodeStopped
  | TaskPanicked

section \<open>Counts\<close>

definition saturating_add_u64 :: "u64 \<Rightarrow> u64 \<Rightarrow> u64" where
  "saturating_add_u64 a b = (if unat a + unat b < 2 ^ 64 then a + b else - 1)"

datatype Outcome = Accepted | RejectedOutcome | TimedOut | Failed

record Counts =
  ct_attempted :: u64
  ct_accepted :: u64
  ct_rejected :: u64
  ct_timed_out :: u64
  ct_failed :: u64

definition counts_default :: Counts where
  "counts_default = \<lparr>ct_attempted = 0, ct_accepted = 0, ct_rejected = 0, ct_timed_out = 0, ct_failed = 0\<rparr>"

definition counts_record :: "Counts \<Rightarrow> Outcome \<Rightarrow> Counts" where
  "counts_record c outcome =
     (let c = c\<lparr>ct_attempted := saturating_add_u64 (ct_attempted c) 1\<rparr> in
      case outcome of
        Accepted \<Rightarrow> c\<lparr>ct_accepted := saturating_add_u64 (ct_accepted c) 1\<rparr>
      | RejectedOutcome \<Rightarrow> c\<lparr>ct_rejected := saturating_add_u64 (ct_rejected c) 1\<rparr>
      | TimedOut \<Rightarrow> c\<lparr>ct_timed_out := saturating_add_u64 (ct_timed_out c) 1\<rparr>
      | Failed \<Rightarrow> c\<lparr>ct_failed := saturating_add_u64 (ct_failed c) 1\<rparr>)"

definition counts_merge :: "Counts \<Rightarrow> Counts \<Rightarrow> Counts" where
  "counts_merge c d =
     \<lparr>ct_attempted = saturating_add_u64 (ct_attempted c) (ct_attempted d),
      ct_accepted = saturating_add_u64 (ct_accepted c) (ct_accepted d),
      ct_rejected = saturating_add_u64 (ct_rejected c) (ct_rejected d),
      ct_timed_out = saturating_add_u64 (ct_timed_out c) (ct_timed_out d),
      ct_failed = saturating_add_u64 (ct_failed c) (ct_failed d)\<rparr>"

definition validate_round :: "nat \<Rightarrow> nat \<Rightarrow> Counts \<Rightarrow> (load_error, Counts) result" where
  "validate_round clients capacity c =
     (if ct_attempted c \<noteq> u64_saturating clients \<or> ct_accepted c > u64_saturating capacity
         \<or> ct_accepted c = 0
      then Err InvariantsFailed else Ok c)"

section \<open>Resources\<close>

record Resources =
  rs_rss_bytes :: "u64 option"
  rs_open_fds :: "u64 option"

fun option_max :: "u64 option \<Rightarrow> u64 option \<Rightarrow> u64 option" where
  "option_max (Some left) (Some right) = Some (if left > right then left else right)"
| "option_max (Some v) None = Some v"
| "option_max None (Some v) = Some v"
| "option_max None None = None"

definition peaks :: "Resources \<Rightarrow> Resources \<Rightarrow> Resources" where
  "peaks a b = \<lparr>rs_rss_bytes = option_max (rs_rss_bytes a) (rs_rss_bytes b),
     rs_open_fds = option_max (rs_open_fds a) (rs_open_fds b)\<rparr>"

definition millis :: "duration \<Rightarrow> u64" where
  "millis d = u64_saturating (as_millis d)"

text \<open>The lines of a text, without their ends; the first word of a line; a decimal \<^verbatim>\<open>u64\<close>.\<close>

fun text_lines :: "bytes \<Rightarrow> bytes list" where
  "text_lines [] = []"
| "text_lines (b # s) =
     (if b = 10 then [] # text_lines s
      else case text_lines s of [] \<Rightarrow> [[b]] | line # ls \<Rightarrow>
        (if s \<noteq> [] \<and> hd s = 10 \<and> b = 13 then [] # ls else (b # line) # ls))"

fun first_word :: "bytes \<Rightarrow> bytes" where
  "first_word [] = []"
| "first_word (b # s) =
     (if list_ex (\<lambda>w. take (length w) (b # s) = w) whitespace then [] else b # first_word s)"

definition parse_u64 :: "bytes \<Rightarrow> u64 option" where
  "parse_u64 s =
     (let digits = (if length s > 1 \<and> hd s = 43 then tl s else s);
          v = foldl (\<lambda>v b. v * 10 + (unat b - 48)) 0 digits in
      if digits = [] \<or> \<not> list_all (\<lambda>b. 48 \<le> b \<and> b \<le> 57) digits \<or> v \<ge> 2 ^ 64 then None
      else Some (of_nat v))"

definition rss_of_line :: "bytes \<Rightarrow> u64 option" where
  "rss_of_line line =
     Option.bind (strip_prefix (ascii ''VmRSS:'') line) (\<lambda>rest.
     let kib = first_word (trim_start rest) in
     if kib = [] then None else
     Option.bind (parse_u64 kib) (\<lambda>v. if unat v * 1024 < 2 ^ 64 then Some (v * 1024) else None))"

definition resources :: "bytes option \<Rightarrow> nat option \<Rightarrow> Resources" where
  "resources status descriptors =
     \<lparr>rs_rss_bytes = Option.bind status (\<lambda>text.
        Option.bind (List.find (\<lambda>line. rss_of_line line \<noteq> None) (text_lines text)) rss_of_line),
      rs_open_fds = map_option u64_saturating descriptors\<rparr>"

section \<open>The node under load\<close>

definition load_node_config :: "multiaddr \<Rightarrow> nat \<Rightarrow> NodeConfig" where
  "load_node_config address capacity = node_config_default\<lparr>
     listen_addresses := [address],
     max_reservations := capacity,
     max_reservations_per_peer := 1,
     max_connections_per_ip := MAX_CLIENTS,
     connection_attempts_per_ip_per_minute := 1200,
     max_connections := 1024,
     event_capacity := 8192,
     operations_address := None,
     shutdown_grace_period := 0,
     discovery_registrations_per_peer := 1,
     discovery_registrations_total := capacity,
     discovery_registrations_per_namespace := 1,
     discovery_results := min capacity 64,
     discovery_allow_private_addresses := True\<rparr>"

text \<open>The node's events until it listens; an absent event is the deadline.\<close>

fun first_listener :: "NodeEvent option list \<Rightarrow> (load_error, multiaddr) result" where
  "first_listener [] = Err EventStreamClosed"
| "first_listener (None # events) = Err ListenerTimedOut"
| "first_listener (Some event # events) =
     (case event of NodeListening address \<Rightarrow> Ok address | _ \<Rightarrow> first_listener events)"

record load_world =
  lw_multiaddr :: "bytes \<Rightarrow> multiaddr option"
  lw_env_filter_ok :: "bytes \<Rightarrow> bool"
  lw_now :: instant
  lw_unix_seconds :: u64
  lw_node_events :: "NodeEvent option list"
  lw_show_address :: "multiaddr \<Rightarrow> bytes"
  lw_show_peer :: "peer_id \<Rightarrow> bytes"
  lw_node_result :: "(NodeError, unit) result option"
  lw_event_task_ok :: bool

definition local_node_start :: "load_world \<Rightarrow> nat \<Rightarrow> (load_error, multiaddr) result" where
  "local_node_start W capacity =
     bind_res (ok_or AddressInvalid (lw_multiaddr W (ascii ''/ip4/127.0.0.1/tcp/0''))) (\<lambda>address.
     bind_res (map_err NodeFailed (node_server_new (lw_env_filter_ok W) (load_node_config address capacity)
       (lw_now W) (lw_unix_seconds W))) (\<lambda>_.
     first_listener (lw_node_events W)))"

text \<open>The node's own result is absent when its task panicked.\<close>

definition local_node_shutdown :: "load_world \<Rightarrow> (load_error, unit) result" where
  "local_node_shutdown W =
     bind_res (ok_or TaskPanicked (lw_node_result W)) (\<lambda>result.
     bind_res (map_err NodeFailed result) (\<lambda>_.
     if lw_event_task_ok W then Ok () else Err TaskPanicked))"

section \<open>Attempts\<close>

definition client_config :: NetworkConfig where
  "client_config = network_config_default\<lparr>nc_command_capacity := 8, nc_event_capacity := 16,
     nc_request_timeout := ATTEMPT_TIMEOUT, nc_max_concurrent_streams := 4,
     nc_max_established_connections := 4, nc_max_connections_per_peer := 2\<rparr>"

text \<open>Whether the driver could be started: its configuration is valid and the swarm was built.\<close>

definition start_client :: "send_world \<Rightarrow> bool" where
  "start_client N \<longleftrightarrow> network_config_validate client_config \<and> send_world.sw_driver_started N"

fun wait_for_reservation :: "arrival list \<Rightarrow> Outcome" where
  "wait_for_reservation [] = RejectedOutcome"
| "wait_for_reservation (Elapsed # arrivals) = TimedOut"
| "wait_for_reservation (Arrives event # arrivals) =
     (case event of
        RelayReservation _ renewal \<Rightarrow> if renewal then wait_for_reservation arrivals else Accepted
      | Disconnected _ \<Rightarrow> RejectedOutcome
      | _ \<Rightarrow> wait_for_reservation arrivals)"

definition relay_attempt :: "load_world \<Rightarrow> peer_id \<Rightarrow> multiaddr \<Rightarrow> send_world \<Rightarrow> Outcome" where
  "relay_attempt W peer address N =
     (if \<not> start_client N then Failed
      else case lw_multiaddr W (lw_show_address W address @ ascii ''/p2p/'' @ lw_show_peer W peer
          @ ascii ''/p2p-circuit'') of
        None \<Rightarrow> Failed
      | Some circuit \<Rightarrow>
          if \<not> is_ok (send_world.sw_listen N circuit) then RejectedOutcome
          else wait_for_reservation (send_world.sw_arrivals N))"

fun load_wait_for_listener :: "arrival list \<Rightarrow> multiaddr option \<times> arrival list" where
  "load_wait_for_listener [] = (None, [])"
| "load_wait_for_listener (Elapsed # arrivals) = (None, arrivals)"
| "load_wait_for_listener (Arrives event # arrivals) =
     (case event of Listening address \<Rightarrow> (Some address, arrivals) | _ \<Rightarrow> load_wait_for_listener arrivals)"

fun wait_for_registration :: "arrival list \<Rightarrow> Outcome" where
  "wait_for_registration [] = Failed"
| "wait_for_registration (Elapsed # arrivals) = TimedOut"
| "wait_for_registration (Arrives event # arrivals) =
     (case event of
        DiscoveryRegistered _ _ \<Rightarrow> Accepted
      | DiscoveryFailed _ \<Rightarrow> RejectedOutcome
      | _ \<Rightarrow> wait_for_registration arrivals)"

definition le64 :: "u64 \<Rightarrow> bytes" where
  "le64 v = rev (be64 v)"

definition load_namespace :: "u64 \<Rightarrow> nat \<Rightarrow> discovery_namespace" where
  "load_namespace seed index = from_room_id (le64 seed @ le64 (u64_saturating index))"

text \<open>The outcome, and whether the client unregistered.\<close>

definition discovery_attempt ::
  "load_world \<Rightarrow> peer_id \<Rightarrow> multiaddr \<Rightarrow> u64 \<Rightarrow> nat \<Rightarrow> send_world \<Rightarrow> Outcome \<times> provider_call list" where
  "discovery_attempt W peer address seed index N =
     (if \<not> start_client N then (Failed, [])
      else case lw_multiaddr W (ascii ''/ip4/127.0.0.1/tcp/0'') of
        None \<Rightarrow> (Failed, [])
      | Some listen \<Rightarrow>
          if \<not> is_ok (send_world.sw_listen N listen) then (Failed, [])
          else case load_wait_for_listener (send_world.sw_arrivals N) of
            (None, _) \<Rightarrow> (TimedOut, [])
          | (Some external, arrivals) \<Rightarrow>
              if \<not> is_ok (send_world.sw_add_address N external) then (Failed, [])
              else let ns = load_namespace seed index; call = CallRegister peer address ns 30 in
                if \<not> is_ok (send_world.sw_register N peer address ns 30) then (RejectedOutcome, [call])
                else let outcome = wait_for_registration arrivals
                  in (outcome, if outcome = Accepted then [call, CallUnregister peer ns] else [call]))"

section \<open>Rounds and runs\<close>

datatype Workload = RelayLoad | DiscoveryLoad

text \<open>The network of every client of a round; absent when its task panics.\<close>

type_synonym round_clients = "nat \<Rightarrow> send_world option"

definition client_outcome ::
  "load_world \<Rightarrow> Workload \<Rightarrow> peer_id \<Rightarrow> multiaddr \<Rightarrow> u64 \<Rightarrow> round_clients \<Rightarrow> nat \<Rightarrow> Outcome" where
  "client_outcome W workload peer address seed clients index =
     (case clients index of
        None \<Rightarrow> Failed
      | Some N \<Rightarrow>
          (case workload of
             RelayLoad \<Rightarrow> relay_attempt W peer address N
           | DiscoveryLoad \<Rightarrow> fst (discovery_attempt W peer address seed index N)))"

definition record_all :: "Outcome list \<Rightarrow> Counts" where
  "record_all outcomes = foldl counts_record counts_default outcomes"

definition run_round ::
  "load_world \<Rightarrow> Workload \<Rightarrow> peer_id \<Rightarrow> multiaddr \<Rightarrow> nat \<Rightarrow> u64 \<Rightarrow> round_clients \<Rightarrow> Counts" where
  "run_round W workload peer address n seed clients =
     record_all (map (client_outcome W workload peer address seed clients) [0..<n])"

definition validate_args :: "nat \<Rightarrow> nat \<Rightarrow> duration \<Rightarrow> (load_error, unit) result" where
  "validate_args clients capacity hold =
     (if clients = 0 \<or> clients > MAX_CLIENTS \<or> capacity = 0 \<or> capacity > clients
         \<or> hold < ATTEMPT_TIMEOUT \<or> hold > secs (60 * 60)
      then Err ArgumentsOutsideBounds else Ok ())"

record Report =
  rt_mode :: string
  rt_rounds :: u64
  rt_elapsed_ms :: u64
  rt_relay :: Counts
  rt_discovery :: Counts
  rt_start :: Resources
  rt_peak :: Resources
  rt_end :: Resources

text \<open>
  A run of one round: its clients, whether the node's task had finished after it, and the
  resources before, during and after.
\<close>

record once_world =
  ow_peer :: peer_id
  ow_clients :: round_clients
  ow_finished :: bool
  ow_elapsed :: duration
  ow_start :: Resources
  ow_during :: Resources
  ow_end :: Resources

definition run_once ::
  "load_world \<Rightarrow> once_world \<Rightarrow> string \<Rightarrow> LoadArgs \<Rightarrow> Workload \<Rightarrow> (load_error, Report) result" where
  "run_once W R mode args workload =
     bind_res (validate_args (la_clients args) (la_capacity args) (la_hold args)) (\<lambda>_.
     bind_res (local_node_start W (la_capacity args)) (\<lambda>address.
     bind_res (validate_round (la_clients args) (la_capacity args)
       (run_round W workload (ow_peer R) address (la_clients args) 0 (ow_clients R))) (\<lambda>counts.
     if ow_finished R then Err NodeStopped else
     bind_res (local_node_shutdown W) (\<lambda>_.
     Ok \<lparr>rt_mode = mode, rt_rounds = 1, rt_elapsed_ms = millis (ow_elapsed R),
        rt_relay = (if workload = RelayLoad then counts else counts_default),
        rt_discovery = (if workload = DiscoveryLoad then counts else counts_default),
        rt_start = ow_start R, rt_peak = peaks (ow_start R) (ow_during R), rt_end = ow_end R\<rparr>))))"

text \<open>
  One turn of the soak loop: the clock at its start and between its rounds, the clients of both
  rounds, the resources and whether the node's task had finished at its end.
\<close>

record soak_turn =
  st_now :: instant
  st_relay_clients :: round_clients
  st_between :: instant
  st_discovery_clients :: round_clients
  st_resources :: Resources
  st_finished :: bool

record soak_state =
  ss_relay :: Counts
  ss_discovery :: Counts
  ss_rounds :: u64
  ss_peak :: Resources

text \<open>The loop ends at the first turn after the deadline; without one the soak still runs.\<close>

fun soak_loop ::
  "load_world \<Rightarrow> peer_id \<Rightarrow> multiaddr \<Rightarrow> SoakArgs \<Rightarrow> instant \<Rightarrow> soak_turn list \<Rightarrow> soak_state
   \<Rightarrow> (load_error, soak_state) result option" where
  "soak_loop W peer address args deadline [] s = None"
| "soak_loop W peer address args deadline (turn # turns) s =
     (if \<not> st_now turn < deadline then Some (Ok s) else
      case validate_round (so_clients args) (so_capacity args)
          (run_round W RelayLoad peer address (so_clients args) (ss_rounds s) (st_relay_clients turn)) of
        Inl e \<Rightarrow> Some (Err e)
      | Inr relay_round \<Rightarrow>
          (case (if st_between turn < deadline then
                   validate_round (so_clients args) (so_capacity args)
                     (run_round W DiscoveryLoad peer address (so_clients args) (ss_rounds s)
                       (st_discovery_clients turn))
                 else Ok counts_default) of
             Inl e \<Rightarrow> Some (Err e)
           | Inr discovery_round \<Rightarrow>
               if st_finished turn then Some (Err NodeStopped) else
               soak_loop W peer address args deadline turns
                 \<lparr>ss_relay = counts_merge (ss_relay s) relay_round,
                  ss_discovery = counts_merge (ss_discovery s) discovery_round,
                  ss_rounds = saturating_add_u64 (ss_rounds s) 1,
                  ss_peak = peaks (ss_peak s) (st_resources turn)\<rparr>))"

definition run_soak ::
  "load_world \<Rightarrow> once_world \<Rightarrow> instant \<Rightarrow> soak_turn list \<Rightarrow> SoakArgs \<Rightarrow> (load_error, Report) result option" where
  "run_soak W R started turns args =
     (case validate_args (so_clients args) (so_capacity args) (so_hold args) of
        Inl e \<Rightarrow> Some (Err e)
      | Inr _ \<Rightarrow>
      if so_duration args = 0 \<or> so_duration args > MAX_SOAK_DURATION then Some (Err DurationOutsideBounds)
      else case local_node_start W (so_capacity args) of
        Inl e \<Rightarrow> Some (Err e)
      | Inr address \<Rightarrow>
          map_option (\<lambda>looped. bind_res looped (\<lambda>s.
            bind_res (local_node_shutdown W) (\<lambda>_.
            Ok \<lparr>rt_mode = ''soak'', rt_rounds = ss_rounds s, rt_elapsed_ms = millis (ow_elapsed R),
               rt_relay = ss_relay s, rt_discovery = ss_discovery s, rt_start = ow_start R,
               rt_peak = peaks (ss_peak s) (ow_end R), rt_end = ow_end R\<rparr>)))
          (soak_loop W (ow_peer R) address args (started + so_duration args) turns
            \<lparr>ss_relay = counts_default, ss_discovery = counts_default, ss_rounds = 0, ss_peak = ow_start R\<rparr>))"

datatype LoadCommand = LoadRelay LoadArgs | LoadDiscovery LoadArgs | LoadSoak SoakArgs

fun load_main ::
  "load_world \<Rightarrow> once_world \<Rightarrow> instant \<Rightarrow> soak_turn list \<Rightarrow> LoadCommand \<Rightarrow> (load_error, Report) result option" where
  "load_main W R started turns (LoadRelay args) = Some (run_once W R ''relay'' args RelayLoad)"
| "load_main W R started turns (LoadDiscovery args) = Some (run_once W R ''discovery'' args DiscoveryLoad)"
| "load_main W R started turns (LoadSoak args) = run_soak W R started turns args"

section \<open>Properties of the counts\<close>

definition outcome_count :: "Outcome list \<Rightarrow> Outcome \<Rightarrow> nat" where
  "outcome_count outcomes outcome = length (filter (\<lambda>o'. o' = outcome) outcomes)"

definition counts_of :: "Outcome list \<Rightarrow> Counts" where
  "counts_of outcomes = \<lparr>ct_attempted = of_nat (length outcomes),
     ct_accepted = of_nat (outcome_count outcomes Accepted),
     ct_rejected = of_nat (outcome_count outcomes RejectedOutcome),
     ct_timed_out = of_nat (outcome_count outcomes TimedOut),
     ct_failed = of_nat (outcome_count outcomes Failed)\<rparr>"

lemma saturating_add_one:
  assumes "n + 1 < 2 ^ 64"
  shows "saturating_add_u64 (of_nat n) 1 = of_nat (n + 1)"
  using assms by (simp add: saturating_add_u64_def unat_of_nat)

lemma record_all_counts:
  assumes "length outcomes < 2 ^ 64"
  shows "record_all outcomes = counts_of outcomes"
  using assms
proof (induction outcomes rule: rev_induct)
  case Nil
  then show ?case by (simp add: record_all_def counts_of_def counts_default_def outcome_count_def)
next
  case (snoc outcome outcomes)
  have small: "outcome_count outcomes x + 1 < 2 ^ 64" for x
    using snoc.prems le_less_trans [OF length_filter_le [of "\<lambda>o'. o' = x" outcomes]]
    unfolding outcome_count_def by simp
  have len: "length outcomes + 1 < 2 ^ 64" using snoc.prems by simp
  have "record_all (outcomes @ [outcome]) = counts_record (counts_of outcomes) outcome"
    using snoc by (simp add: record_all_def)
  also have "\<dots> = counts_of (outcomes @ [outcome])"
    using saturating_add_one [OF len] saturating_add_one [OF small]
    by (cases outcome) (simp_all add: counts_record_def counts_of_def outcome_count_def Let_def)
  finally show ?case .
qed


lemma run_round_order:
  assumes "length outcomes < 2 ^ 64" "mset outcomes = mset joined"
  shows "record_all outcomes = record_all joined"
proof -
  have "outcome_count outcomes x = outcome_count joined x" for x
    using assms(2) unfolding outcome_count_def by (metis mset_filter size_mset)
  moreover have "length outcomes = length joined" using assms(2) by (metis size_mset)
  ultimately show ?thesis using assms(1) by (simp add: record_all_counts counts_of_def)
qed

lemma outcome_count_total:
  "length outcomes = outcome_count outcomes Accepted + outcome_count outcomes RejectedOutcome
     + outcome_count outcomes TimedOut + outcome_count outcomes Failed"
proof (induction outcomes)
  case (Cons outcome outcomes)
  then show ?case by (cases outcome) (auto simp: outcome_count_def)
qed (simp add: outcome_count_def)

lemma outcome_count_le: "outcome_count outcomes x \<le> length outcomes"
  by (simp add: outcome_count_def)

lemma u64_saturating_small: "n < 2 ^ 64 \<Longrightarrow> u64_saturating n = of_nat n"
  by (auto simp: u64_saturating_def)

lemma validate_args_Ok:
  "validate_args clients capacity hold = Ok () \<longleftrightarrow> 0 < capacity \<and> capacity \<le> clients \<and> clients \<le> 256
     \<and> secs 5 \<le> hold \<and> hold \<le> secs 3600"
  by (auto simp: validate_args_def MAX_CLIENTS_def ATTEMPT_TIMEOUT_def)

lemma validate_round_counts:
  assumes "length outcomes < 2 ^ 64" "capacity < 2 ^ 64"
  shows "validate_round (length outcomes) capacity (record_all outcomes) =
    (if 0 < outcome_count outcomes Accepted \<and> outcome_count outcomes Accepted \<le> capacity
     then Ok (counts_of outcomes) else Err InvariantsFailed)"
proof -
  let ?a = "outcome_count outcomes Accepted"
  have a: "?a < 2 ^ 64" using le_less_trans [OF outcome_count_le assms(1)] .
  have "(of_nat ?a :: u64) > of_nat capacity \<longleftrightarrow> ?a > capacity" "(of_nat ?a :: u64) = 0 \<longleftrightarrow> ?a = 0"
    using a assms(2) by (simp_all add: word_less_nat_alt unat_of_nat word_unat_eq_iff)
  then show ?thesis
    using assms by (auto simp: validate_round_def record_all_counts counts_of_def u64_saturating_small)
qed

section \<open>Properties of the node under load\<close>

lemma load_config_valid:
  assumes "0 < capacity" "capacity \<le> 256" "address \<noteq> []"
  shows "node_config_validate env_filter_ok (load_node_config address capacity) \<longleftrightarrow>
    capacity \<le> 56 \<and> env_filter_ok (ascii ''info,libp2p=warn'')"
proof -
  have telemetry: "validate_telemetry env_filter_ok telemetry_default = env_filter_ok (ascii ''info,libp2p=warn'')"
    by (simp add: validate_telemetry_def telemetry_default_def double_0_1_def double_0_01_def str_chars_def
        is_control_def ascii_def)
  show ?thesis
    using assms
    by (auto simp: node_config_validate_def load_node_config_def node_config_default_def telemetry
        MAX_LISTENERS_def MAX_CLIENTS_def secs_def MAX_PROCESS_MEMORY_BYTES_def usize_max_def min_def)
qed

lemma le64_inj: "le64 a = le64 b \<Longrightarrow> a = b"
  by (auto simp: le64_def from_be32_be32)

lemma length_le64: "length (le64 a) = 8"
  by (simp add: le64_def)

lemma load_namespace_inj:
  assumes "load_namespace seed index = load_namespace seed' index'" "index < 2 ^ 64" "index' < 2 ^ 64"
  shows "seed = seed' \<and> index = index'"
proof -
  have "le64 seed @ le64 (u64_saturating index) = le64 seed' @ le64 (u64_saturating index')"
    using assms(1) hex_bytes_inj by (auto simp: load_namespace_def from_room_id_hex)
  then have "le64 seed = le64 seed'" "le64 (u64_saturating index) = le64 (u64_saturating index')"
    by (simp_all add: length_le64)
  then have "seed = seed'" "(of_nat index :: u64) = of_nat index'"
    using le64_inj assms(2,3) by (auto simp: u64_saturating_small)
  moreover have "unat (of_nat index :: u64) = index" "unat (of_nat index' :: u64) = index'"
    using assms(2,3) by (simp_all add: unat_of_nat)
  ultimately show ?thesis by metis
qed

lemma load_node_start:
  assumes "validate_args clients capacity hold = Ok ()"
    and "lw_multiaddr W (ascii ''/ip4/127.0.0.1/tcp/0'') = Some address" "address \<noteq> []"
    and "lw_env_filter_ok W (ascii ''info,libp2p=warn'')"
  shows "local_node_start W capacity =
    (if capacity \<le> 56 then first_listener (lw_node_events W) else Err (NodeFailed Node_Configuration))"
proof -
  have "0 < capacity" "capacity \<le> 256" using assms(1) by (auto simp: validate_args_Ok)
  from load_config_valid [OF this assms(3), of "lw_env_filter_ok W"] show ?thesis
    using assms(2,4) by (simp add: local_node_start_def node_server_new_def Let_def map_err_def)
qed

text \<open>
  The arguments allow capacities up to the number of clients, at most 256, but the page of
  discovery results they ask for does not fit the node's limit of 900 KiB above 56: every such run
  fails before the node starts.
\<close>

lemma load_capacity_refused:
  assumes "validate_args clients capacity hold = Ok ()" "capacity > 56"
    and "lw_multiaddr W (ascii ''/ip4/127.0.0.1/tcp/0'') = Some address" "address \<noteq> []"
    and "lw_env_filter_ok W (ascii ''info,libp2p=warn'')"
  shows "local_node_start W capacity = Err (NodeFailed Node_Configuration)"
  using load_node_start [OF assms(1,3,4,5)] assms(2) by simp

section \<open>Properties of the soak\<close>

lemma option_max_upper:
  "a = Some x \<Longrightarrow> \<exists>m. option_max a b = Some m \<and> x \<le> m" "b = Some x \<Longrightarrow> \<exists>m. option_max a b = Some m \<and> x \<le> m"
  by (cases b; cases a; auto)+

definition resources_below :: "Resources \<Rightarrow> Resources \<Rightarrow> bool" where
  "resources_below a b \<longleftrightarrow>
     (\<forall>x. rs_rss_bytes a = Some x \<longrightarrow> (\<exists>m. rs_rss_bytes b = Some m \<and> x \<le> m))
     \<and> (\<forall>x. rs_open_fds a = Some x \<longrightarrow> (\<exists>m. rs_open_fds b = Some m \<and> x \<le> m))"

lemma resources_below_refl: "resources_below a a"
  by (simp add: resources_below_def)

lemma resources_below_trans: "resources_below a b \<Longrightarrow> resources_below b c \<Longrightarrow> resources_below a c"
  unfolding resources_below_def by (meson order_trans)

lemma peaks_upper: "resources_below a (peaks a b)" "resources_below b (peaks a b)"
  by (simp_all add: resources_below_def peaks_def option_max_upper)

lemma run_round_attempted:
  assumes "n \<le> 256"
  shows "ct_attempted (run_round W workload peer address n seed clients) = of_nat n"
  using assms by (simp add: run_round_def record_all_counts counts_of_def)

lemma saturating_add_of_nat:
  assumes "a + b < 2 ^ 64"
  shows "saturating_add_u64 (of_nat a) (of_nat b) = of_nat (a + b)"
  using assms by (simp add: saturating_add_u64_def unat_of_nat)

text \<open>How many turns the loop takes, and what they add up to.\<close>

lemma soak_loop_accounts:
  assumes "soak_loop W peer address args deadline turns s = Some (Ok s')" "so_clients args \<le> 256"
    and "ss_rounds s = of_nat k" "ct_attempted (ss_relay s) = of_nat (k * so_clients args)"
    and "(k + length turns) * 256 < 2 ^ 64"
  shows "\<exists>m \<le> length turns. ss_rounds s' = of_nat (k + m)
      \<and> ct_attempted (ss_relay s') = of_nat ((k + m) * so_clients args)
      \<and> resources_below (ss_peak s) (ss_peak s')
      \<and> (\<forall>turn \<in> set (take m turns). st_now turn < deadline \<and> resources_below (st_resources turn) (ss_peak s'))"
  using assms(1,3-)
proof (induction turns arbitrary: s k)
  case (Cons turn turns)
  show ?case
  proof (cases "st_now turn < deadline")
    case False
    then show ?thesis using Cons.prems resources_below_refl by (intro exI [of _ 0]) simp
  next
    case True
    let ?relay = "run_round W RelayLoad peer address (so_clients args) (ss_rounds s) (st_relay_clients turn)"
    obtain discovery where rest: "soak_loop W peer address args deadline turns
        \<lparr>ss_relay = counts_merge (ss_relay s) ?relay, ss_discovery = discovery,
         ss_rounds = saturating_add_u64 (ss_rounds s) 1, ss_peak = peaks (ss_peak s) (st_resources turn)\<rparr> = Some (Ok s')"
      using Cons.prems(1) True
      by (auto simp: validate_round_def split: sum.splits if_splits)
    have small: "k + 1 < 2 ^ 64" "k * so_clients args + so_clients args < 2 ^ 64" "(k + 1 + length turns) * 256 < 2 ^ 64"
    proof -
      have "(k + 1) * so_clients args \<le> (k + 1) * 256" using assms(2) by (rule mult_le_mono2)
      then show "k + 1 < 2 ^ 64" "k * so_clients args + so_clients args < 2 ^ 64"
        "(k + 1 + length turns) * 256 < 2 ^ 64" using Cons.prems(4) by simp_all
    qed
    have step: "saturating_add_u64 (ss_rounds s) 1 = of_nat (k + 1)"
      "ct_attempted (counts_merge (ss_relay s) ?relay) = of_nat ((k + 1) * so_clients args)"
      using Cons.prems(2,3) small saturating_add_of_nat [of k 1] saturating_add_of_nat [of "k * so_clients args" "so_clients args"]
      by (simp_all add: counts_merge_def run_round_attempted [OF assms(2)] add.commute)
    from Cons.IH [OF rest, of "k + 1"] step small(3)
    obtain m where m: "m \<le> length turns" "ss_rounds s' = of_nat (k + 1 + m)"
        "ct_attempted (ss_relay s') = of_nat ((k + 1 + m) * so_clients args)"
        "resources_below (peaks (ss_peak s) (st_resources turn)) (ss_peak s')"
        "\<forall>turn \<in> set (take m turns). st_now turn < deadline \<and> resources_below (st_resources turn) (ss_peak s')"
      by auto
    moreover have "resources_below (ss_peak s) (ss_peak s')" "resources_below (st_resources turn) (ss_peak s')"
      using m(4) peaks_upper resources_below_trans by blast+
    ultimately show ?thesis using True by (intro exI [of _ "Suc m"]) auto
  qed
qed simp

lemma soak_accounts:
  assumes "run_soak W R started turns args = Some (Ok report)"
    and "so_clients args \<le> 256" "length turns * 256 < 2 ^ 64"
  shows "\<exists>m \<le> length turns. rt_rounds report = of_nat m
    \<and> ct_attempted (rt_relay report) = of_nat (m * so_clients args)
    \<and> resources_below (ow_start R) (rt_peak report) \<and> resources_below (ow_end R) (rt_peak report)
    \<and> (\<forall>turn \<in> set (take m turns). st_now turn < started + so_duration args
         \<and> resources_below (st_resources turn) (rt_peak report))"
proof -
  obtain address s where loop: "soak_loop W (ow_peer R) address args (started + so_duration args) turns
        \<lparr>ss_relay = counts_default, ss_discovery = counts_default, ss_rounds = 0, ss_peak = ow_start R\<rparr> = Some (Ok s)"
    and report: "rt_rounds report = ss_rounds s" "rt_relay report = ss_relay s"
      "rt_peak report = peaks (ss_peak s) (ow_end R)"
    using assms(1) by (auto simp: run_soak_def result_simps split: sum.splits if_splits)
  from soak_loop_accounts [OF loop assms(2), of 0] assms(3)
  obtain m where m: "m \<le> length turns" "ss_rounds s = of_nat m"
      "ct_attempted (ss_relay s) = of_nat (m * so_clients args)" "resources_below (ow_start R) (ss_peak s)"
      "\<forall>turn \<in> set (take m turns). st_now turn < started + so_duration args \<and>
        resources_below (st_resources turn) (ss_peak s)"
    by (auto simp: counts_default_def)
  have up: "resources_below x (rt_peak report)" if "resources_below x (ss_peak s)" for x
    using resources_below_trans [OF that peaks_upper(1)] report(3) by simp
  show ?thesis
    using m up report peaks_upper(2) by (intro exI [of _ m]) auto
qed

section \<open>Accounting\<close>

lemma round_accounts:
  assumes "length outcomes = clients \<and> mset joined = mset outcomes" "clients \<le> 256" "capacity < 2 ^ 64"
  shows "record_all joined = counts_of outcomes"
    "validate_round clients capacity (record_all joined) =
       (if 0 < outcome_count outcomes Accepted \<and> outcome_count outcomes Accepted \<le> capacity
        then Ok (counts_of outcomes) else Err InvariantsFailed)"
proof -
  have len: "length outcomes < 2 ^ 64" using assms(1,2) by simp
  then have same: "record_all joined = record_all outcomes" using run_round_order assms(1) by metis
  then show "record_all joined = counts_of outcomes" using len by (simp add: record_all_counts)
  show "validate_round clients capacity (record_all joined) =
       (if 0 < outcome_count outcomes Accepted \<and> outcome_count outcomes Accepted \<le> capacity
        then Ok (counts_of outcomes) else Err InvariantsFailed)"
    using validate_round_counts [OF len assms(3)] assms(1) same by simp
qed

text \<open>
  The load harness accounts for every client. With accepted arguments, a round counts every
  client once, as accepted, rejected, timed out or failed, in whatever order the tasks finish, and
  passes exactly when at least one and at most the capacity of the node were accepted; no two
  clients of a run share a namespace; and a finished soak has counted every client of every relay
  round within its duration, reporting a peak no sample exceeds.
\<close>
theorem load_accounts_for_every_client:
  assumes "validate_args clients capacity hold = Ok ()"
  shows "(\<forall>outcomes joined. length outcomes = clients \<and> mset joined = mset outcomes \<longrightarrow>
      record_all joined = counts_of outcomes
      \<and> clients = outcome_count outcomes Accepted + outcome_count outcomes RejectedOutcome
          + outcome_count outcomes TimedOut + outcome_count outcomes Failed
      \<and> validate_round clients capacity (record_all joined) =
         (if 0 < outcome_count outcomes Accepted \<and> outcome_count outcomes Accepted \<le> capacity
          then Ok (counts_of outcomes) else Err InvariantsFailed))
    \<and> (\<forall>seed seed' i j. i < clients \<and> j < clients \<and> load_namespace seed i = load_namespace seed' j \<longrightarrow>
         seed = seed' \<and> i = j)
    \<and> (\<forall>W R started turns args report. so_clients args = clients \<and> so_capacity args = capacity
         \<and> length turns * 256 < 2 ^ 64 \<and> run_soak W R started turns args = Some (Ok report) \<longrightarrow>
         (\<exists>m \<le> length turns. rt_rounds report = of_nat m
           \<and> ct_attempted (rt_relay report) = of_nat (m * clients)
           \<and> resources_below (ow_start R) (rt_peak report) \<and> resources_below (ow_end R) (rt_peak report)
           \<and> (\<forall>turn \<in> set (take m turns). st_now turn < started + so_duration args
                \<and> resources_below (st_resources turn) (rt_peak report))))"
proof -
  have bounds: "clients \<le> 256" "capacity < 2 ^ 64" using assms by (auto simp: validate_args_Ok)
  show ?thesis
  proof (intro conjI allI impI, goal_cases)
    case (1 outcomes joined)
    then show ?case using round_accounts(1) [OF _ bounds] by blast
  next
    case (2 outcomes joined)
    then show ?case using outcome_count_total by metis
  next
    case (3 outcomes joined)
    then show ?case using round_accounts(2) [OF _ bounds] by blast
  next
    case (4 seed seed' i j)
    then show ?case using load_namespace_inj [of seed i seed' j] bounds(1) by simp
  next
    case (5 seed seed' i j)
    then show ?case using load_namespace_inj [of seed i seed' j] bounds(1) by simp
  next
    case (6 W R started turns args report)
    then show ?case using soak_accounts [of W R started turns args report] bounds(1) by metis
  qed
qed

theorem load_accounts_for_every_client_witness:
  "validate_round 2 1 (record_all [RejectedOutcome, Accepted]) = Ok (counts_of [Accepted, RejectedOutcome])"
proof -
  have ok: "validate_args 2 1 (secs 5) = Ok ()" by (simp add: validate_args_Ok secs_def)
  have "length [Accepted, RejectedOutcome] = 2" "mset [RejectedOutcome, Accepted] = mset [Accepted, RejectedOutcome]"
    by simp_all
  then have "validate_round 2 1 (record_all [RejectedOutcome, Accepted]) =
      (if 0 < outcome_count [Accepted, RejectedOutcome] Accepted \<and> outcome_count [Accepted, RejectedOutcome] Accepted \<le> 1
       then Ok (counts_of [Accepted, RejectedOutcome]) else Err InvariantsFailed)"
    using load_accounts_for_every_client [OF ok] by blast
  then show ?thesis by (simp add: outcome_count_def)
qed

end
