(* ===== verification/Spec2Isabelle.thy ===== *)
theory Spec2Isabelle
  imports Share_Code Transfer_Codec Sample_Transfer Sample_Node Admission Node_Process Network_Discovery Sample_Driver Sample_Send Client_Process Swarm_Limits Load_Harness
begin

text \<open>
  \<^bold>\<open>Envshare.\<close> Envshare hands one dotenv payload from a sender to one receiver. The sender shows a
  share code; the receiver, holding the code, finds the sender through rendezvous nodes or the
  local network, proves knowledge of the code, obtains the encrypted payload once, and
  acknowledges it, which consumes the share. This development models the Rust crates under
  \<^verbatim>\<open>src/crates\<close> function by function and proves what makes them correct.

  \<^bold>\<open>Conventions.\<close> \<^verbatim>\<open>Result\<close> is a sum type with \<open>Ok\<close> and \<open>Err\<close> (theory \<open>Prelude\<close>); byte strings are
  lists of 8-bit words; machine integers are words where they can wrap and \<open>nat\<close> where the sources
  bound them; \<^verbatim>\<open>usize\<close> is 64 bits wide; an \<^verbatim>\<open>Instant\<close> is a natural number of nanoseconds below
  \<open>INSTANT_MAX\<close>. Hash maps are association lists, through the laws of the locale \<open>hash_map\<close>. Loops
  are structural recursions over their inputs, so no fuel is needed; where a loop waits for events,
  it is the function of the finite sequence of events it takes. Code of other packages is a
  parameter: CBOR (locale \<open>cbor_lib\<close>), the cryptographic primitives (locale \<open>crypto_lib\<close>), the
  swarm, the TOML, dotenv and duration parsers, the resolver, the file system. Each locale is
  interpreted: \<open>cbor_lib\<close> by an executable encoder and decoder, \<open>crypto_lib\<close> by reference primitives
  on which the witnesses run, \<open>hash_map\<close> by association lists.

  \<^bold>\<open>Parts and theories.\<close>
  \<^item> Share codes, \<^verbatim>\<open>code/src\<close>: \<open>Share_Code\<close>. Display and parsing are inverse; the parser accepts exactly
    the spellings of a code; the 5-bit encoding is a bijection.
  \<^item> Wire protocol, \<^verbatim>\<open>protocol/src\<close>: \<open>Cbor\<close>, \<open>Wire\<close>, \<open>Envelope\<close>, and \<^verbatim>\<open>network/src/codec.rs\<close> in
    \<open>Transfer_Codec\<close>. Round trips, bounds, and well-formedness of whatever is decoded.
  \<^item> Cryptographic boundary, \<^verbatim>\<open>crypto/src\<close>: \<open>Crypto\<close>, \<open>Crypto_Reference\<close>. Transcripts are injective and
    separated by purpose.
  \<^item> Sender and receiver, \<^verbatim>\<open>core/src/sender\<close>, \<^verbatim>\<open>core/src/receiver\<close>, \<^verbatim>\<open>core/src/direct.rs\<close>: \<open>Core_Types\<close>,
    \<open>Sender_Actor\<close>, \<open>Receiver_Session\<close>, \<open>Direct\<close>, \<open>Delivery\<close>. The share is disclosed to one peer and
    claim, only against a valid proof, is erased when closed; an honest exchange completes; a tampered
    offer is refused up to explicit collisions; the event loop refines the actor; a share that ends
    consumed was verified and acknowledged by the peer of its one offer.
  \<^item> Client discovery, \<^verbatim>\<open>network/src/discovery.rs\<close> and \<^verbatim>\<open>dns.rs\<close>: \<open>Network_Types\<close>, \<open>Network_Discovery\<close>.
    Bounded, policy-conforming candidates in a deterministic order.
  \<^item> Node, \<^verbatim>\<open>node/src\<close>: \<open>Rendezvous_Codec\<close>, \<open>Hash_Maps\<close>, \<open>Rendezvous_Store\<close>, \<open>Discovery_Properties\<close>,
    \<open>Node_Config\<close>, \<open>Admission\<close>, \<open>Node_Status\<close>, \<open>Operations\<close>, \<open>Node_Server\<close>. The store stays within its
    quotas, holds authentic registrations for their lifetime, pages through them completely, limits
    rates and never panics; admission bounds connections and attempts per source address in every minute; the node serves only live registrations and reports readiness
    truthfully. Pagination is stated for fewer than \<open>2\<^sup>6\<^sup>4\<close> registrations, where the identifiers wrap.
  \<^item> Network driver, \<^verbatim>\<open>network/src/config.rs\<close>, \<^verbatim>\<open>driver.rs\<close> and \<^verbatim>\<open>lan.rs\<close>: \<open>Network_Driver\<close>,
    \<open>Lan_Discovery\<close>, \<open>Driver_Properties\<close>. The driver is a state machine over commands, swarm events and
    local events; it answers every caller and every inbound request at most once, loses no reply
    while it runs, gives each response to the request it answers, and keeps its queue bounded.
  \<^item> Local files and processes, \<^verbatim>\<open>core/src/local\<close>: \<open>Local_Input\<close>, \<open>Dotenv\<close>, \<open>Private_Output\<close>,
    \<open>Child_Process\<close>. A selection writes exactly the requested variables, unambiguously; merging keeps
    the document and rewrites only the effective declarations, when each is on one line; output is
    atomic and private at every intermediate state of the file system; the child's environment is the
    one its mode promises. What the dotenv parser makes of a document is a parameter.
  \<^item> Command line, \<^verbatim>\<open>cli/src\<close>: \<open>Client_Config\<close> (exit codes, arguments, configuration, profiles),
    \<open>Receive_Command\<close> (\<^verbatim>\<open>receive\<close> and \<^verbatim>\<open>run\<close>), \<open>Send_Command\<close> (\<^verbatim>\<open>send\<close>). A command is a function to its exit
    status and the trace of what it does to the outside. A loaded configuration resolves every
    command; the receiver saves or starts the child before it acknowledges and succeeds against a
    reachable sender; the sender shows its code only when the share can be found and exits with
    status 0 only when it was delivered; in relay-only mode neither side uses or names a direct
    address, an explicit \<^verbatim>\<open>--address\<close> of the receiver excepted.
  \<^item> Prompts, diagnosis and dispatch, \<^verbatim>\<open>cli/src\<close>: \<open>Presentation\<close> (prompts and output, the environment
    files offered), \<open>Doctor_Command\<close> (\<^verbatim>\<open>doctor\<close>), \<open>Client_Process\<close> (\<^verbatim>\<open>main.rs\<close>, \<^verbatim>\<open>lib.rs\<close>,
    \<^verbatim>\<open>commands/mod.rs\<close>: the commands with their configuration and prompts). A successful diagnosis
    means a direct connection and that every node and relay of the profile worked; a diagnosis
    unregisters wherever it registered and restores the file system, unless the system refuses to
    remove its probe file; a client without configuration shares only through the relays of the public
    network.
  \<^item> Node process, \<^verbatim>\<open>node/src/main.rs\<close>, \<^verbatim>\<open>identity.rs\<close>, \<^verbatim>\<open>logging.rs\<close>, \<^verbatim>\<open>operations.rs\<close>: \<open>Operations\<close>,
    \<open>Socket_Address\<close> (the standard library's parser), \<open>Node_Process\<close>. The operations endpoint bounds its
    connections and stops; the health check tells what the node's state is; the process ends only with
    both of its tasks, and does when they have ended; a generated identity is the one served. The limits both programs hand to
    libp2p are in \<open>Swarm_Limits\<close>.
  \<^item> Load harness, \<^verbatim>\<open>testkit/src/bin/node-load.rs\<close>: \<open>Load_Harness\<close>. Every client of a round is counted
    once, in any order of completion; capacities above 56 are accepted but cannot be run.

  The theories \<open>Sample_Transfer\<close>, \<open>Sample_Discovery\<close>, \<open>Sample_Node\<close>, \<open>Sample_Driver\<close>, \<open>Sample_Receive\<close> and
  \<open>Sample_Send\<close>, and the last sections of the process theories, run the model on concrete inputs and apply the properties there. The last section of
  this theory composes codec, sender and receiver.

  \<^bold>\<open>Not modelled.\<close> What libp2p does with its behaviours and transports, and sockets; the OTLP exporter
  of \<^verbatim>\<open>node/src/logging.rs\<close>, behind a feature that is off by default, and log records; the texts of
  completion scripts and the manual, which clap generates; the Windows variants of output and
  processes; panics of spawned tasks other than the network, node and operations tasks and the
  harness's clients; the interleaving of the sender's registration renewals with its service;
  erasure of memory (\<^verbatim>\<open>zeroize\<close>) beyond the model's fields and redacted \<^verbatim>\<open>Debug\<close> formatting; the fuzz
  targets, which call the modelled decoders and ignore their results.
\<close>

section \<open>A transfer over the wire\<close>

text \<open>
  One request of the receiver's network client, as the sender's node serves it: the request is
  written to a stream by the codec, read back and answered by the actor, and the response
  travels the same way. A codec failure on either side ends the exchange with the client's
  request error.
\<close>

definition wire_exchange ::
  "cbor \<Rightarrow> primitives \<Rightarrow> 's entropy \<Rightarrow> SenderActor \<Rightarrow> peer_id \<Rightarrow> instant \<Rightarrow> 's \<Rightarrow> TransferRequest \<Rightarrow>
   (NetworkError, TransferResponse) result \<times> SenderActor \<times> 's" where
  "wire_exchange C P E a peer now s request =
     (case bind_res (write_request C [] request) (read_request C) of
        Inl _ \<Rightarrow> (Err Net_Request, a, s)
      | Inr (request, _) \<Rightarrow>
          (case answer_request P E a peer request now s of (response, a, s) \<Rightarrow>
             (case bind_res (write_response C [] response) (read_response C) of
                Inl _ \<Rightarrow> (Err Net_Request, a, s)
              | Inr (response, _) \<Rightarrow> (Ok response, a, s))))"

lemma wire_exchange_answer:
  assumes "cbor_lib C" and "wf_request m"
    and "answer_request P E a peer m now s = (response, a', s')"
    and "wf_response response" and "bounded_response response"
  shows "wire_exchange C P E a peer now s m = (Ok response, a', s')"
proof -
  obtain f where f: "write_request C [] m = Ok f" "read_request C (f @ []) = Ok (m, [])"
    by (rule cbor_lib.request_stream_rt [OF assms(1,2)])
  obtain g where g: "write_response C [] response = Ok g" "read_response C (g @ []) = Ok (response, [])"
    by (rule cbor_lib.response_stream_rt [OF assms(1,4,5)])
  show ?thesis using f g assms(3) by (simp add: wire_exchange_def)
qed

text \<open>
  C1: The whole transfer works over the wire. A receiver with the share's capability, talking to
  the sender through the framed CBOR codec, obtains exactly the envelope that was shared; its
  acknowledgement is accepted, returns that envelope to the caller, and leaves the share
  consumed with its secrets erased.
\<close>

theorem transfer_over_the_wire:
  assumes lib: "cbor_lib C" "crypto_lib P" and ent: "entropy_fills E" "draws_succeed E s"
    and env: "wf_envelope env" and ready: "transfer_ready root net sp rp nonce now dl rd"
  shows "\<exists>a0 session a1 s1 v a2.
    sender_new C root net sp env dl rd = Ok a0 \<and>
    receiver_new root net sp rp nonce = Ok session \<and>
    receive C P (\<lambda>m. fst (wire_exchange C P E a0 rp now s m)) session = Ok v \<and>
    (\<exists>req. open_request P session = Ok req \<and>
       snd (wire_exchange C P E a0 rp now s (ROpen req)) = (a1, s1)) \<and>
    vo_envelope v = env \<and>
    acknowledge (\<lambda>m. fst (wire_exchange C P E a1 rp now s1 m)) v = Ok env \<and>
    snd (wire_exchange C P E a1 rp now s1 (RAcknowledge (vo_acknowledgement v))) = (a2, s1) \<and>
    sa_state a2 = Consumed \<and> wiped a2"
proof -
  obtain a0 session req offer a1 s1 v resp a2 where t:
    "sender_new C root net sp env dl rd = Ok a0" "receiver_new root net sp rp nonce = Ok session"
    "open_request P session = Ok req" "wf_open req"
    "handle_open P E a0 rp req now s = (Ok offer, a1, s1)" "wf_offer offer"
    "bounded_response (ROffer offer)" "verify_offer C P session offer = Ok v" "vo_envelope v = env"
    "handle_acknowledgement a1 rp (vo_acknowledgement v) = (Ok resp, a2)"
    "completed_claim_id resp = offer_claim_id offer" "sa_state a2 = Consumed" "wiped a2"
    using transfer_completes [OF lib ent env ready] by blast
  have o: "wire_exchange C P E a0 rp now s (ROpen req) = (Ok (ROffer offer), a1, s1)"
    by (rule wire_exchange_answer [OF lib(1)]) (use t in simp_all)
  have ack: "ack_claim_id (vo_acknowledgement v) = offer_claim_id offer"
    "wf_acknowledge (vo_acknowledgement v)"
    using t(8) acknowledgement_wf [OF lib(2) t(8,6)] by (auto elim: verify_offer_Ok)
  have ver: "completed_protocol_version resp = PROTOCOL_VERSION"
    using t(10) by (auto elim!: handle_acknowledgement_cases)
  have c: "wire_exchange C P E a1 rp now s1 (RAcknowledge (vo_acknowledgement v)) =
      (Ok (RCompleted resp), a2, s1)"
    by (rule wire_exchange_answer [OF lib(1)])
      (use t ack in \<open>simp_all add: wf_completed_def wf_offer_def\<close>)
  have "receive C P (\<lambda>m. fst (wire_exchange C P E a0 rp now s m)) session = Ok v"
    using t(3,8) o by (simp add: receive_def)
  moreover have "acknowledge (\<lambda>m. fst (wire_exchange C P E a1 rp now s1 m)) v = Ok env"
    using c t(9,11) ack ver by (simp add: acknowledge_def into_parts_def)
  ultimately show ?thesis using t o c by auto
qed

theorem transfer_over_the_wire_witness:
  "\<exists>a0 session a1 s1 v a2.
    sender_new rfc8949 sample_root sample_net sample_sender sample_envelope 1000 500 = Ok a0 \<and>
    receiver_new sample_root sample_net sample_sender sample_receiver sample_nonce = Ok session \<and>
    receive rfc8949 reference_primitives (\<lambda>m. fst (wire_exchange rfc8949 reference_primitives
      sample_entropy a0 sample_receiver 10 0 m)) session = Ok v \<and>
    (\<exists>req. open_request reference_primitives session = Ok req \<and>
       snd (wire_exchange rfc8949 reference_primitives sample_entropy a0 sample_receiver 10 0
         (ROpen req)) = (a1, s1)) \<and>
    vo_envelope v = sample_envelope \<and>
    acknowledge (\<lambda>m. fst (wire_exchange rfc8949 reference_primitives sample_entropy a1
      sample_receiver 10 s1 m)) v = Ok sample_envelope \<and>
    snd (wire_exchange rfc8949 reference_primitives sample_entropy a1 sample_receiver 10 s1
      (RAcknowledge (vo_acknowledgement v))) = (a2, s1) \<and>
    sa_state a2 = Consumed \<and> wiped a2"
  by (rule transfer_over_the_wire [OF rfc.cbor_lib_axioms ref.crypto_lib_axioms sample_entropy_ok
      sample_envelope_wf sample_ready])

end
